(* ===== verification/Prelude.thy ===== *)
theory Prelude
  imports Main "HOL-Library.AList"
begin

section \<open>Shared vocabulary of the development\<close>

text \<open>
  This theory holds what every component uses: the insertion-ordered \<open>Map\<close> of
  JavaScript, the per-key counters of the worker pool, the few string methods the source
  calls, and the proof collections the other theories extend.
\<close>

named_theorems jsmap_simps \<open>lookup equations of JavaScript maps\<close>
named_theorems machine_defs \<open>definitions a machine's proofs unfold\<close>
named_theorems pool_defs \<open>definitions of worker-pool operations\<close>

subsection \<open>The JavaScript \<open>Map\<close>\<close>

text \<open>
  A JavaScript \<open>Map\<close> iterates in insertion order: \<open>set\<close> on a present key replaces the
  value in place, on an absent key appends; \<open>delete\<close> removes the entry. These are
  exactly the association-list operations of \<open>HOL-Library.AList\<close>.
\<close>

type_synonym ('k, 'v) jsmap = "('k \<times> 'v) list"

abbreviation jget :: "('k, 'v) jsmap \<Rightarrow> 'k \<Rightarrow> 'v option" where
  "jget \<equiv> map_of"

abbreviation jset :: "'k \<Rightarrow> 'v \<Rightarrow> ('k, 'v) jsmap \<Rightarrow> ('k, 'v) jsmap" where
  "jset \<equiv> AList.update"

abbreviation jdel :: "'k \<Rightarrow> ('k, 'v) jsmap \<Rightarrow> ('k, 'v) jsmap" where
  "jdel \<equiv> AList.delete"

abbreviation jkeys :: "('k, 'v) jsmap \<Rightarrow> 'k list" where
  "jkeys m \<equiv> map fst m"

abbreviation jmap_ok :: "('k, 'v) jsmap \<Rightarrow> bool" where
  "jmap_ok m \<equiv> distinct (jkeys m)"

lemma jget_jset [simp, jsmap_simps]:
  "jget (jset k v m) k' = (if k' = k then Some v else jget m k')"
  by (simp add: update_conv')

lemma jget_jdel [simp, jsmap_simps]:
  "jget (jdel k m) k' = (if k' = k then None else jget m k')"
  by (simp add: delete_conv')

lemma jmap_ok_jset [simp]: "jmap_ok m \<Longrightarrow> jmap_ok (jset k v m)"
  by (rule distinct_update)

lemma jmap_ok_jdel [simp]: "jmap_ok m \<Longrightarrow> jmap_ok (jdel k m)"
  by (rule distinct_delete)

lemma set_jkeys_jset [simp]: "fst ` set (jset k v m) = insert k (fst ` set m)"
  by (simp add: dom_update)

lemma set_jkeys_jdel [simp]: "fst ` set (jdel k m) = fst ` set m - {k}"
  by (induction m) auto

lemma jset_absent: "k \<notin> fst ` set m \<Longrightarrow> jset k v m = m @ [(k, v)]"
  by (induction m) auto

lemmas jdel_absent = delete_id

lemma jkeys_jset: "jkeys (jset k v m) = (if k \<in> fst ` set m then jkeys m else jkeys m @ [k])"
  by (simp add: update_keys)

lemma jkeys_jdel: "jkeys (jdel k m) = filter (\<lambda>k'. k' \<noteq> k) (jkeys m)"
  by (induction m) auto

lemma jget_mem: "jmap_ok m \<Longrightarrow> jget m k = Some v \<longleftrightarrow> (k, v) \<in> set m"
  by simp

lemma length_jdel_present:
  "jmap_ok m \<Longrightarrow> k \<in> fst ` set m \<Longrightarrow> Suc (length (jdel k m)) = length m"
proof (induction m)
  case (Cons p m)
  then show ?case
    by (cases "fst p = k") auto
qed simp

lemma length_jset: "length (jset k v m) = (if k \<in> fst ` set m then length m else Suc (length m))"
  by (induction m) auto

subsection \<open>Sums over a map\<close>

definition jsum :: "('k \<Rightarrow> 'v \<Rightarrow> 'n::comm_monoid_add) \<Rightarrow> ('k, 'v) jsmap \<Rightarrow> 'n" where
  "jsum f m = (\<Sum>(k, v)\<leftarrow>m. f k v)"

lemma jsum_Nil [simp]: "jsum f [] = 0"
  by (simp add: jsum_def)

lemma jsum_Cons [simp]: "jsum f ((k, v) # m) = f k v + jsum f m"
  by (simp add: jsum_def)

lemma jsum_append [simp]: "jsum f (m @ m') = jsum f m + jsum f m'"
  by (simp add: jsum_def)

lemma jsum_jset_absent: "k \<notin> fst ` set m \<Longrightarrow> jsum f (jset k v m) = jsum f m + f k v"
  by (simp add: jset_absent)

lemma jsum_jset_present:
  "jget m k = Some v \<Longrightarrow> jsum f (jset k v' m) + f k v = jsum f m + f k v'"
proof (induction m)
  case (Cons p m)
  then show ?case
    by (cases p) (auto simp: ac_simps split: if_splits)
qed simp

lemma jsum_jdel_present:
  "jmap_ok m \<Longrightarrow> jget m k = Some v \<Longrightarrow> jsum f (jdel k m) + f k v = jsum f m"
proof (induction m)
  case (Cons p m)
  then show ?case
    by (cases p) (auto simp: ac_simps split: if_splits)
qed simp

lemma jsum_cong: "(\<And>k v. (k, v) \<in> set m \<Longrightarrow> f k v = g k v) \<Longrightarrow> jsum f m = jsum g m"
  by (induction m) auto

lemma jsum_zero: "(\<And>k v. (k, v) \<in> set m \<Longrightarrow> f k v = 0) \<Longrightarrow> jsum f m = 0"
  by (induction m) auto

subsection \<open>Strings\<close>

text \<open>
  A \<open>char\<close> stands for a UTF-16 code unit below 256, except in the theories that deal with bytes
  (\<open>Utf8\<close> and those that import it), where it is a byte and a text is given by its UTF-8 encoding.
  White space is what \<open>String.prototype.trim\<close> removes, in the range of a \<open>char\<close>.
\<close>

definition is_ws :: "char \<Rightarrow> bool" where
  "is_ws c \<longleftrightarrow> (let n = of_char c :: nat in (9 \<le> n \<and> n \<le> 13) \<or> n = 32 \<or> n = 160)"

definition trim_start :: "string \<Rightarrow> string" where
  "trim_start s = dropWhile is_ws s"

definition trim_end :: "string \<Rightarrow> string" where
  "trim_end s = rev (dropWhile is_ws (rev s))"

definition trim :: "string \<Rightarrow> string" where
  "trim s = trim_end (trim_start s)"

definition starts_with :: "string \<Rightarrow> string \<Rightarrow> bool" where
  "starts_with p s \<longleftrightarrow> take (length p) s = p"

definition ends_with :: "string \<Rightarrow> string \<Rightarrow> bool" where
  "ends_with p s \<longleftrightarrow> length p \<le> length s \<and> drop (length s - length p) s = p"

fun str_includes :: "string \<Rightarrow> string \<Rightarrow> bool" where
  "str_includes p [] \<longleftrightarrow> p = []"
| "str_includes p (c # cs) \<longleftrightarrow> starts_with p (c # cs) \<or> str_includes p cs"

text \<open>\<open>toLowerCase\<close> and \<open>toUpperCase\<close> on ASCII.\<close>

definition to_lower :: "string \<Rightarrow> string" where
  "to_lower s = map (\<lambda>c. let n = of_char c :: nat in if 65 \<le> n \<and> n \<le> 90 then char_of (n + 32) else c) s"

definition to_upper :: "string \<Rightarrow> string" where
  "to_upper s = map (\<lambda>c. let n = of_char c :: nat in if 97 \<le> n \<and> n \<le> 122 then char_of (n - 32) else c) s"

definition is_upper_ascii :: "char \<Rightarrow> bool" where
  "is_upper_ascii c \<longleftrightarrow> (let n = of_char c :: nat in 65 \<le> n \<and> n \<le> 90)"

definition is_digit_ascii :: "char \<Rightarrow> bool" where
  "is_digit_ascii c \<longleftrightarrow> (let n = of_char c :: nat in 48 \<le> n \<and> n \<le> 57)"

definition is_lower_ascii :: "char \<Rightarrow> bool" where
  "is_lower_ascii c \<longleftrightarrow> (let n = of_char c :: nat in 97 \<le> n \<and> n \<le> 122)"

text \<open>\<open>s.split(c)\<close> for a one-character separator.\<close>

fun split_on :: "char \<Rightarrow> string \<Rightarrow> string list" where
  "split_on d [] = [[]]"
| "split_on d (c # cs) =
     (if c = d then [] # split_on d cs
      else case split_on d cs of [] \<Rightarrow> [[c]] | w # ws \<Rightarrow> (c # w) # ws)"

fun join_with :: "string \<Rightarrow> string list \<Rightarrow> string" where
  "join_with sep [] = []"
| "join_with sep [w] = w"
| "join_with sep (w # v # ws) = w @ sep @ join_with sep (v # ws)"

text \<open>\<open>s.indexOf(c)\<close>, with \<open>None\<close> for \<open>-1\<close>.\<close>

fun index_of :: "'a \<Rightarrow> 'a list \<Rightarrow> nat option" where
  "index_of x [] = None"
| "index_of x (y # ys) = (if x = y then Some 0 else map_option Suc (index_of x ys))"

abbreviation newline :: char where "newline \<equiv> CHR 0x0A"

text \<open>\<open>replace(/ +/g, " ")\<close> and \<open>replace(/\n{3,}/g, "\n\n")\<close>.\<close>

fun collapse_spaces :: "string \<Rightarrow> string" where
  "collapse_spaces (c # d # cs) =
     (if c = CHR '' '' \<and> d = CHR '' '' then collapse_spaces (d # cs) else c # collapse_spaces (d # cs))"
| "collapse_spaces s = s"

fun collapse_newlines :: "string \<Rightarrow> string" where
  "collapse_newlines (a # b # c # cs) =
     (if a = newline \<and> b = newline \<and> c = newline then collapse_newlines (b # c # cs) else a # collapse_newlines (b # c # cs))"
| "collapse_newlines s = s"

lemma starts_with_append [simp]: "starts_with p (p @ s)"
  by (simp add: starts_with_def)

lemma starts_withE: "starts_with p s \<Longrightarrow> \<exists>t. s = p @ t"
  by (metis append_take_drop_id starts_with_def)

lemma starts_with_iff: "starts_with p s \<longleftrightarrow> (\<exists>t. s = p @ t)"
  by (auto dest: starts_withE)

lemma sep_split:
  assumes "v @ d # s = w @ d # t" and "d \<notin> set v" and "d \<notin> set w"
  shows "v = w \<and> s = t"
  using assms
proof (induction v arbitrary: w)
  case Nil
  then show ?case by (cases w) auto
next
  case (Cons c v)
  then show ?case by (cases w) auto
qed

lemma split_on_nonempty [simp]: "split_on d s \<noteq> []"
  by (induction s) (auto split: list.splits)

lemma split_on_no_sep: "d \<notin> set s \<Longrightarrow> split_on d s = [s]"
  by (induction s) auto

lemma split_on_append_sep: "d \<notin> set s \<Longrightarrow> split_on d (s @ d # t) = s # split_on d t"
  by (induction s) auto

lemma split_on_pieces: "w \<in> set (split_on d s) \<Longrightarrow> d \<notin> set w"
proof (induction s arbitrary: w)
  case (Cons c cs)
  then show ?case by (cases "split_on d cs") (auto split: if_splits)
qed simp

lemma index_of_None: "index_of x ys = None \<longleftrightarrow> x \<notin> set ys"
  by (induction ys) auto

lemma index_of_SomeD:
  "index_of x ys = Some i \<Longrightarrow> i < length ys \<and> ys ! i = x \<and> x \<notin> set (take i ys)"
proof (induction ys arbitrary: i)
  case (Cons y ys)
  then show ?case by (auto split: if_splits)
qed simp

lemma index_of_split:
  "x \<notin> set xs \<Longrightarrow> index_of x (xs @ x # ys) = Some (length xs)"
  by (induction xs) auto

lemma index_of_nth:
  "distinct ys \<Longrightarrow> i < length ys \<Longrightarrow> index_of (ys ! i) ys = Some i"
proof (induction ys arbitrary: i)
  case (Cons y ys)
  then show ?case by (cases i) (auto simp: nth_mem)
qed simp

text \<open>\<open>xs.splice(i, 1)\<close>.\<close>

definition splice_out :: "nat \<Rightarrow> 'a list \<Rightarrow> 'a list" where
  "splice_out i xs = take i xs @ drop (Suc i) xs"

lemma splice_out_split [simp]: "splice_out (length xs) (xs @ x # ys) = xs @ ys"
  by (simp add: splice_out_def)

lemma length_splice_out: "i < length xs \<Longrightarrow> Suc (length (splice_out i xs)) = length xs"
  by (simp add: splice_out_def)

lemma splice_out_distinct: "distinct xs \<Longrightarrow> distinct (splice_out i xs)"
  by (auto simp: splice_out_def dest: set_take_disj_set_drop_if_distinct [of xs i "Suc i"])

lemma split_at_nth: "i < length xs \<Longrightarrow> xs = take i xs @ xs ! i # drop (Suc i) xs"
  by (rule id_take_nth_drop)

lemma splice_out_filter:
  assumes "distinct xs" and "i < length xs"
  shows "splice_out i xs = filter (\<lambda>y. y \<noteq> xs ! i) xs"
proof -
  have d: "distinct (take i xs @ xs ! i # drop (Suc i) xs)"
    using assms(1) split_at_nth [OF assms(2)] by metis
  then have "xs ! i \<notin> set (take i xs)" "xs ! i \<notin> set (drop (Suc i) xs)"
    by auto
  then have "filter (\<lambda>y. y \<noteq> xs ! i) (take i xs) = take i xs"
    and "filter (\<lambda>y. y \<noteq> xs ! i) (drop (Suc i) xs) = drop (Suc i) xs"
    by (auto intro!: filter_True)
  moreover have "filter (\<lambda>y. y \<noteq> xs ! i) xs
      = filter (\<lambda>y. y \<noteq> xs ! i) (take i xs @ xs ! i # drop (Suc i) xs)"
    using split_at_nth [OF assms(2)] by metis
  ultimately show ?thesis by (simp add: splice_out_def)
qed

text \<open>The decimal numeral of a natural number, as string interpolation prints it.\<close>

function digits :: "nat \<Rightarrow> string" where
  "digits n = (if n < 10 then [char_of (48 + n)] else digits (n div 10) @ [char_of (48 + n mod 10)])"
  by pat_completeness auto
termination by (relation "measure id") auto

declare digits.simps [simp del]

lemma char_digit_inject:
  assumes "a < 10" and "b < 10" and "char_of (48 + a :: nat) = (char_of (48 + b) :: char)"
  shows "a = b"
proof -
  have "(of_char (char_of (48 + a) :: char) :: nat) = of_char (char_of (48 + b) :: char)"
    using assms(3) by simp
  then show ?thesis using assms(1,2) by simp
qed

lemma digits_nonempty: "digits n \<noteq> []"
  by (subst digits.simps) simp

lemma digits_inject: "digits m = digits n \<Longrightarrow> m = n"
proof (induction m arbitrary: n rule: less_induct)
  case (less m)
  have sm: "digits m = (if m < 10 then [] else digits (m div 10)) @ [char_of (48 + m mod 10)]"
    and sn: "digits n = (if n < 10 then [] else digits (n div 10)) @ [char_of (48 + n mod 10)]"
    by (subst digits.simps, simp)+
  have "(if m < 10 then [] else digits (m div 10)) = (if n < 10 then [] else digits (n div 10))"
    and "char_of (48 + m mod 10) = (char_of (48 + n mod 10) :: char)"
    using less.prems unfolding sm sn by simp_all
  then have l: "m mod 10 = n mod 10"
    by (intro char_digit_inject) simp_all
  have "m div 10 = n div 10"
  proof (cases "m < 10")
    case True
    then have "n < 10"
      using \<open>(if m < 10 then [] else digits (m div 10)) = (if n < 10 then [] else digits (n div 10))\<close>
      by (metis digits_nonempty)
    then show ?thesis using True by simp
  next
    case False
    then have "digits (m div 10) = digits (n div 10)"
      using \<open>(if m < 10 then [] else digits (m div 10)) = (if n < 10 then [] else digits (n div 10))\<close>
      by (metis digits_nonempty)
    then show ?thesis using less.IH [of "m div 10" "n div 10"] False by simp
  qed
  then show ?case using l by (metis mult_div_mod_eq)
qed

subsection \<open>Per-key counters\<close>

text \<open>\<open>incrementMap\<close> and \<open>decrementMap\<close> of the worker pool; an absent key counts 0.\<close>

type_synonym 'k counters = "'k \<Rightarrow> nat option"

definition counter_get :: "'k counters \<Rightarrow> 'k \<Rightarrow> nat" where
  "counter_get m k = (case m k of None \<Rightarrow> 0 | Some n \<Rightarrow> n)"

definition incrementMap :: "'k counters \<Rightarrow> 'k \<Rightarrow> 'k counters" where
  "incrementMap m k = m(k \<mapsto> counter_get m k + 1)"

definition decrementMap :: "'k counters \<Rightarrow> 'k \<Rightarrow> 'k counters" where
  "decrementMap m k =
     (let current = counter_get m k in if current \<le> 1 then m(k := None) else m(k \<mapsto> current - 1))"

lemma counter_get_empty [simp]: "counter_get Map.empty k = 0"
  by (simp add: counter_get_def)

lemma counter_get_increment [simp]:
  "counter_get (incrementMap m k) k' = (if k' = k then Suc (counter_get m k) else counter_get m k')"
  by (simp add: counter_get_def incrementMap_def)

lemma counter_get_decrement [simp]:
  "counter_get (decrementMap m k) k' = (if k' = k then counter_get m k - 1 else counter_get m k')"
  by (auto simp: counter_get_def decrementMap_def Let_def split: option.splits)

end
