(* ===== verification/Fsm.thy ===== *)
theory Fsm
  imports Prelude
begin

section \<open>Primitives of the state machines\<close>

text \<open>
  \<open>packages/shared/src/machines/types.ts\<close>: every machine is a pure function from a state and
  an event to a \<open>TransitionResult\<close>, either \<open>ok\<close> with the next state or \<open>err\<close> with the
  tag of the state, the type of the event and a reason. The locale \<open>fsm\<close> is the contract
  all six machines share (a terminal state rejects every event); what follows from it for
  runs is proved here once and every machine interprets it.
\<close>

datatype 's transition_result =
    TransOk 's
  | TransErr (err_from: string) (err_event: string) (err_reason: string)

definition ok :: "'s \<Rightarrow> 's transition_result" where
  "ok s = TransOk s"

definition err :: "string \<Rightarrow> string \<Rightarrow> string option \<Rightarrow> 's transition_result" where
  "err from event reason =
     TransErr from event (case reason of Some r \<Rightarrow> r | None \<Rightarrow> event @ '' is not valid in '' @ from)"

fun is_ok :: "'s transition_result \<Rightarrow> bool" where
  "is_ok (TransOk s) = True"
| "is_ok (TransErr f e r) = False"

lemma is_ok_ok [simp]: "is_ok (ok s)"
  by (simp add: ok_def)

lemma not_is_ok_err [simp]: "\<not> is_ok (err f e r)"
  by (simp add: err_def)

lemma ok_inject [simp]: "ok s = TransOk t \<longleftrightarrow> s = t" "TransOk t = ok s \<longleftrightarrow> t = s"
  by (auto simp: ok_def)

lemma err_neq_ok [simp]: "err f e r \<noteq> TransOk s" "TransOk s \<noteq> err f e r"
  by (simp_all add: err_def)

lemma err_from_err [simp]: "err_from (err f e r) = f" "err_event (err f e r) = e"
  by (simp_all add: err_def)

text \<open>A run feeds a list of events and stops at the first one that is rejected.\<close>

fun fsm_run :: "('s \<Rightarrow> 'e \<Rightarrow> 's transition_result) \<Rightarrow> 's \<Rightarrow> 'e list \<Rightarrow> 's option" where
  "fsm_run step s [] = Some s"
| "fsm_run step s (e # es) =
     (case step s e of TransOk s' \<Rightarrow> fsm_run step s' es | TransErr f v r \<Rightarrow> None)"

lemma fsm_run_append:
  "fsm_run step s (es @ fs) = Option.bind (fsm_run step s es) (\<lambda>t. fsm_run step t fs)"
  by (induction es arbitrary: s) (auto split: transition_result.splits)

lemma fsm_run_snocE:
  assumes "fsm_run step s (es @ [e]) = Some t"
  obtains u where "fsm_run step s es = Some u" and "step u e = TransOk t"
  using assms
  by (cases "fsm_run step s es") (auto simp: fsm_run_append split: transition_result.splits)

lemma fsm_run_invariant:
  assumes "fsm_run step s es = Some t" and "I s"
    and "\<And>s e s'. I s \<Longrightarrow> step s e = TransOk s' \<Longrightarrow> I s'"
  shows "I t"
  using assms(1,2)
proof (induction es arbitrary: s)
  case (Cons e es)
  then show ?case
    by (auto split: transition_result.splits intro: assms(3))
qed simp

text \<open>
  A ghost quantity computed from the events alone: if one step relates the state and the
  ghost, so does every run.
\<close>

lemma fsm_run_ghost:
  assumes "fsm_run step s es = Some t" and "I s g"
    and "\<And>s e s' g. I s g \<Longrightarrow> step s e = TransOk s' \<Longrightarrow> I s' (upd g e)"
  shows "I t (foldl upd g es)"
  using assms(1,2)
proof (induction es arbitrary: s g)
  case (Cons e es)
  then show ?case
    by (auto split: transition_result.splits intro: assms(3))
qed simp

locale fsm =
  fixes step :: "'s \<Rightarrow> 'e \<Rightarrow> 's transition_result"
    and terminal :: "'s \<Rightarrow> bool"
  assumes terminal_rejects: "terminal s \<Longrightarrow> \<not> is_ok (step s e)"
    and exit_exists: "\<not> terminal s \<Longrightarrow> \<exists>e. is_ok (step s e)"
begin

lemma terminal_step: "terminal s \<Longrightarrow> step s e \<noteq> TransOk t"
  using terminal_rejects [of s e] by auto

lemma terminal_run: "terminal s \<Longrightarrow> fsm_run step s es = Some t \<longleftrightarrow> es = [] \<and> t = s"
  by (cases es) (auto split: transition_result.splits dest: terminal_step)

lemma terminal_iff_stuck: "terminal s \<longleftrightarrow> (\<forall>e. \<not> is_ok (step s e))"
  using terminal_rejects exit_exists by blast

lemma terminal_last:
  assumes "fsm_run step s (es @ fs) = Some t" and "fsm_run step s es = Some u" and "terminal u"
  shows "fs = [] \<and> t = u"
  using assms by (simp add: fsm_run_append terminal_run)

end

end
