(* ===== verification/StreamMachine.thy ===== *)
theory StreamMachine
  imports Fsm
begin

section \<open>The stream machine\<close>

text \<open>
  \<open>packages/shared/src/machines/stream.machine.ts\<close>: the lifecycle of one chat request, from
  \<open>fetch()\<close> to cleanup. \<open>Date.now()\<close> is the parameter \<open>now\<close>.
\<close>

datatype queue_reason = QUserLimit | QWorkspaceLimit
datatype token_source = TokWorkspace | TokUserProvided
datatype cancel_source = CancelUser | CancelAbort | CancelSharedIntent
datatype outcome = Completed | Cancelled | Errored
datatype error_code =
    SdkError | ProcessCrash | Timeout | PreResponseTimeout | FirstMessageTimeout
  | AuthFailure | RateLimit | BufferOverflow | SessionCorrupt | InsufficientCredits
  | MaxParseErrors | UnknownError

record stream_progress =
  sp_requestId :: string
  sp_streamSeq :: int
  sp_inputTokens :: int
  sp_outputTokens :: int
  sp_pendingToolIds :: "string list"
  sp_messageCount :: int
  sp_isResume :: bool
  sp_tokenSource :: token_source

datatype stream_state =
    StreamIdle "string option"
  | StreamQueued string queue_reason "int option"
  | StreamFetching string string string int
  | StreamReading string string string int
  | Streaming stream_progress
  | StreamCancelling string cancel_source int int
  | StreamDraining string int int bool
  | StreamClosed outcome int int
  | StreamError error_code int bool

datatype stream_event =
    UserSendsMessage string string string
  | Queued queue_reason "int option"
  | FetchResponseReceived int
  | FirstMessageReceived int bool token_source
  | MessageReceived int
  | ToolUseStarted string
  | ToolResultReceived string
  | TokensAccumulated int int
  | CompleteReceived int
  | DoneReceived
  | PingReceived
  | ErrorOccurred error_code
  | CancelRequested cancel_source
  | ReaderDone
  | CreditsCharged
  | CleanupDone
  | Retry

fun stream_tag :: "stream_state \<Rightarrow> string" where
  "stream_tag (StreamIdle _) = ''idle''"
| "stream_tag (StreamQueued _ _ _) = ''queued''"
| "stream_tag (StreamFetching _ _ _ _) = ''fetching''"
| "stream_tag (StreamReading _ _ _ _) = ''reading''"
| "stream_tag (Streaming _) = ''streaming''"
| "stream_tag (StreamCancelling _ _ _ _) = ''cancelling''"
| "stream_tag (StreamDraining _ _ _ _) = ''draining''"
| "stream_tag (StreamClosed _ _ _) = ''closed''"
| "stream_tag (StreamError _ _ _) = ''error''"

fun stream_event_type :: "stream_event \<Rightarrow> string" where
  "stream_event_type (UserSendsMessage _ _ _) = ''UserSendsMessage''"
| "stream_event_type (Queued _ _) = ''Queued''"
| "stream_event_type (FetchResponseReceived _) = ''FetchResponseReceived''"
| "stream_event_type (FirstMessageReceived _ _ _) = ''FirstMessageReceived''"
| "stream_event_type (MessageReceived _) = ''MessageReceived''"
| "stream_event_type (ToolUseStarted _) = ''ToolUseStarted''"
| "stream_event_type (ToolResultReceived _) = ''ToolResultReceived''"
| "stream_event_type (TokensAccumulated _ _) = ''TokensAccumulated''"
| "stream_event_type (CompleteReceived _) = ''CompleteReceived''"
| "stream_event_type DoneReceived = ''DoneReceived''"
| "stream_event_type PingReceived = ''PingReceived''"
| "stream_event_type (ErrorOccurred _) = ''ErrorOccurred''"
| "stream_event_type (CancelRequested _) = ''CancelRequested''"
| "stream_event_type ReaderDone = ''ReaderDone''"
| "stream_event_type CreditsCharged = ''CreditsCharged''"
| "stream_event_type CleanupDone = ''CleanupDone''"
| "stream_event_type Retry = ''Retry''"

fun streamTransition :: "int \<Rightarrow> stream_state \<Rightarrow> stream_event \<Rightarrow> stream_state transition_result" where
  "streamTransition now (StreamIdle l) e =
     (case e of
        UserSendsMessage r t w \<Rightarrow> ok (StreamFetching r t w now)
      | _ \<Rightarrow> err (stream_tag (StreamIdle l)) (stream_event_type e) None)"
| "streamTransition now (StreamQueued r q p) e =
     (case e of
        FetchResponseReceived ts \<Rightarrow> ok (StreamReading r '''' '''' ts)
      | ErrorOccurred c \<Rightarrow> ok (StreamError c 0 True)
      | CancelRequested src \<Rightarrow> ok (StreamCancelling r src 0 0)
      | _ \<Rightarrow> err (stream_tag (StreamQueued r q p)) (stream_event_type e) None)"
| "streamTransition now (StreamFetching r t w at) e =
     (case e of
        Queued reason position \<Rightarrow> ok (StreamQueued r reason position)
      | FetchResponseReceived ts \<Rightarrow> ok (StreamReading r t w ts)
      | ErrorOccurred c \<Rightarrow> ok (StreamError c 0 True)
      | CancelRequested src \<Rightarrow> ok (StreamCancelling r src 0 0)
      | _ \<Rightarrow> err (stream_tag (StreamFetching r t w at)) (stream_event_type e) None)"
| "streamTransition now (StreamReading r t w at) e =
     (case e of
        FirstMessageReceived n resume src \<Rightarrow>
          ok (Streaming \<lparr>sp_requestId = r, sp_streamSeq = n, sp_inputTokens = 0, sp_outputTokens = 0,
                         sp_pendingToolIds = [], sp_messageCount = 1, sp_isResume = resume,
                         sp_tokenSource = src\<rparr>)
      | ErrorOccurred c \<Rightarrow> ok (StreamError c 0 True)
      | CancelRequested src \<Rightarrow> ok (StreamCancelling r src 0 0)
      | _ \<Rightarrow> err (stream_tag (StreamReading r t w at)) (stream_event_type e) None)"
| "streamTransition now (Streaming p) e =
     (case e of
        MessageReceived n \<Rightarrow>
          ok (Streaming (p\<lparr>sp_streamSeq := n, sp_messageCount := sp_messageCount p + 1\<rparr>))
      | ToolUseStarted i \<Rightarrow>
          (if i \<in> set (sp_pendingToolIds p) then ok (Streaming p)
           else ok (Streaming (p\<lparr>sp_pendingToolIds := sp_pendingToolIds p @ [i]\<rparr>)))
      | ToolResultReceived i \<Rightarrow>
          ok (Streaming (p\<lparr>sp_pendingToolIds := filter (\<lambda>j. j \<noteq> i) (sp_pendingToolIds p)\<rparr>))
      | TokensAccumulated i u \<Rightarrow>
          ok (Streaming (p\<lparr>sp_inputTokens := sp_inputTokens p + i, sp_outputTokens := sp_outputTokens p + u\<rparr>))
      | CompleteReceived n \<Rightarrow>
          ok (StreamDraining (sp_requestId p) (sp_inputTokens p) (sp_outputTokens p) False)
      | CancelRequested src \<Rightarrow>
          ok (StreamCancelling (sp_requestId p) src (sp_inputTokens p) (sp_outputTokens p))
      | ErrorOccurred c \<Rightarrow> ok (StreamError c (sp_streamSeq p) True)
      | PingReceived \<Rightarrow> ok (Streaming p)
      | DoneReceived \<Rightarrow> ok (Streaming p)
      | _ \<Rightarrow> err (stream_tag (Streaming p)) (stream_event_type e) None)"
| "streamTransition now (StreamCancelling r src i u) e =
     (case e of
        ReaderDone \<Rightarrow> ok (StreamClosed Cancelled i u)
      | CleanupDone \<Rightarrow> ok (StreamClosed Cancelled i u)
      | ErrorOccurred c \<Rightarrow> ok (StreamClosed Errored i u)
      | _ \<Rightarrow> err (stream_tag (StreamCancelling r src i u)) (stream_event_type e) None)"
| "streamTransition now (StreamDraining r i u charged) e =
     (case e of
        CreditsCharged \<Rightarrow> ok (StreamDraining r i u True)
      | CleanupDone \<Rightarrow> ok (StreamClosed Completed i u)
      | ErrorOccurred c \<Rightarrow> ok (StreamError c 0 False)
      | _ \<Rightarrow> err (stream_tag (StreamDraining r i u charged)) (stream_event_type e) None)"
| "streamTransition now (StreamClosed out i u) e =
     err (stream_tag (StreamClosed out i u)) (stream_event_type e)
       (Some ''stream is closed - terminal state'')"
| "streamTransition now (StreamError c n recoverable) e =
     (case e of
        CleanupDone \<Rightarrow> ok (StreamClosed Errored 0 0)
      | Retry \<Rightarrow> (if recoverable then ok (StreamIdle None)
                  else err (stream_tag (StreamError c n recoverable)) (stream_event_type e) None)
      | UserSendsMessage r t w \<Rightarrow> ok (StreamFetching r t w now)
      | _ \<Rightarrow> err (stream_tag (StreamError c n recoverable)) (stream_event_type e) None)"

definition streamIdle :: "string option \<Rightarrow> stream_state" where
  "streamIdle lastRequestId = StreamIdle lastRequestId"

fun stream_terminal :: "stream_state \<Rightarrow> bool" where
  "stream_terminal (StreamClosed _ _ _) = True"
| "stream_terminal _ = False"

lemma stream_nonterminal_exit:
  "\<not> stream_terminal s \<Longrightarrow> is_ok (streamTransition now s
     (case s of StreamIdle _ \<Rightarrow> UserSendsMessage r t w | _ \<Rightarrow>
        (if \<exists>c n b. s = StreamError c n b then CleanupDone else ErrorOccurred UnknownError)))"
  by (cases s) auto

interpretation stream_fsm: fsm "streamTransition now" stream_terminal for now
proof
  show "\<not> is_ok (streamTransition now s e)" if "stream_terminal s" for s e
    using that by (cases s) auto
  show "\<exists>e. is_ok (streamTransition now s e)" if "\<not> stream_terminal s" for s
    using stream_nonterminal_exit [OF that] by blast
qed

subsection \<open>Token accounting\<close>

text \<open>The tokens a state carries for billing, and the tokens the events since the last first
  message have reported.\<close>

fun stream_tokens :: "stream_state \<Rightarrow> (int \<times> int) option" where
  "stream_tokens (Streaming p) = Some (sp_inputTokens p, sp_outputTokens p)"
| "stream_tokens (StreamCancelling _ _ i u) = Some (i, u)"
| "stream_tokens (StreamDraining _ i u _) = Some (i, u)"
| "stream_tokens (StreamClosed Completed i u) = Some (i, u)"
| "stream_tokens (StreamClosed Cancelled i u) = Some (i, u)"
| "stream_tokens (StreamClosed Errored i u) = None"
| "stream_tokens _ = None"

fun count_tokens :: "int \<times> int \<Rightarrow> stream_event \<Rightarrow> int \<times> int" where
  "count_tokens (i, u) (UserSendsMessage _ _ _) = (0, 0)"
| "count_tokens (i, u) (TokensAccumulated di du) = (i + di, u + du)"
| "count_tokens (i, u) _ = (i, u)"

abbreviation reported_tokens :: "stream_event list \<Rightarrow> int \<times> int" where
  "reported_tokens es \<equiv> foldl count_tokens (0, 0) es"

fun stream_tokens_inv :: "stream_state \<Rightarrow> int \<times> int \<Rightarrow> bool" where
  "stream_tokens_inv (StreamQueued _ _ _) g = (g = (0, 0))"
| "stream_tokens_inv (StreamFetching _ _ _ _) g = (g = (0, 0))"
| "stream_tokens_inv (StreamReading _ _ _ _) g = (g = (0, 0))"
| "stream_tokens_inv s g = (case stream_tokens s of None \<Rightarrow> True | Some t \<Rightarrow> t = g)"

lemma stream_tokens_step:
  assumes "stream_tokens_inv s g" and "streamTransition now s e = TransOk s'"
  shows "stream_tokens_inv s' (count_tokens g e)"
  using assms by (cases s; cases g; cases e) (auto split: if_splits)

lemma stream_tokens_run:
  assumes "fsm_run (streamTransition now) (streamIdle l) es = Some s"
  shows "stream_tokens_inv s (reported_tokens es)"
  by (rule fsm_run_ghost [OF assms]) (auto simp: streamIdle_def intro: stream_tokens_step)

subsection \<open>Pending tools and messages\<close>

fun count_pending :: "string set \<Rightarrow> stream_event \<Rightarrow> string set" where
  "count_pending P (FirstMessageReceived _ _ _) = {}"
| "count_pending P (ToolUseStarted i) = insert i P"
| "count_pending P (ToolResultReceived i) = P - {i}"
| "count_pending P _ = P"

fun count_messages :: "int \<Rightarrow> stream_event \<Rightarrow> int" where
  "count_messages n (FirstMessageReceived _ _ _) = 1"
| "count_messages n (MessageReceived _) = n + 1"
| "count_messages n _ = n"

fun stream_tools_inv :: "stream_state \<Rightarrow> string set \<times> int \<Rightarrow> bool" where
  "stream_tools_inv (Streaming p) (P, n) =
     (distinct (sp_pendingToolIds p) \<and> set (sp_pendingToolIds p) = P \<and> sp_messageCount p = n)"
| "stream_tools_inv _ _ = True"

lemma stream_tools_step:
  assumes "stream_tools_inv s g" and "streamTransition now s e = TransOk s'"
  shows "stream_tools_inv s' (count_pending (fst g) e, count_messages (snd g) e)"
  using assms by (cases s; cases g; cases e) (auto split: if_splits)

lemma foldl_pair: "foldl (\<lambda>(a, b) e. (f a e, h b e)) (x, y) es = (foldl f x es, foldl h y es)"
  by (induction es arbitrary: x y) auto

lemma stream_tools_run:
  assumes "fsm_run (streamTransition now) (streamIdle l) es = Some (Streaming p)"
  shows "stream_tools_inv (Streaming p) (foldl count_pending {} es, foldl count_messages 0 es)"
proof -
  have "stream_tools_inv (Streaming p)
      (foldl (\<lambda>(P, n) e. (count_pending P e, count_messages n e)) ({}, 0) es)"
    by (rule fsm_run_ghost [OF assms])
      (auto simp: streamIdle_def split_def intro: stream_tools_step)
  then show ?thesis by (simp add: foldl_pair)
qed

subsection \<open>Properties\<close>

fun stream_to_closed :: "stream_state \<Rightarrow> stream_event list" where
  "stream_to_closed (StreamIdle _) = [UserSendsMessage '''' '''' '''', ErrorOccurred UnknownError, CleanupDone]"
| "stream_to_closed (StreamQueued _ _ _) = [ErrorOccurred UnknownError, CleanupDone]"
| "stream_to_closed (StreamFetching _ _ _ _) = [ErrorOccurred UnknownError, CleanupDone]"
| "stream_to_closed (StreamReading _ _ _ _) = [ErrorOccurred UnknownError, CleanupDone]"
| "stream_to_closed (Streaming _) = [ErrorOccurred UnknownError, CleanupDone]"
| "stream_to_closed (StreamCancelling _ _ _ _) = [CleanupDone]"
| "stream_to_closed (StreamDraining _ _ _ _) = [CleanupDone]"
| "stream_to_closed (StreamClosed _ _ _) = []"
| "stream_to_closed (StreamError _ _ _) = [CleanupDone]"

lemma stream_to_closed_run:
  "\<exists>out i u. fsm_run (streamTransition now) s (stream_to_closed s) = Some (StreamClosed out i u)"
  by (cases s) (auto simp: ok_def)

text \<open>
  \<open>closed\<close> is the one terminal state of the stream machine: exactly the closed states
  reject every event, and from every state at most three events close the stream.
\<close>

theorem stream_lifecycle:
  "(stream_terminal s \<longleftrightarrow> (\<forall>e. \<not> is_ok (streamTransition now s e))) \<and>
   (\<exists>es out i u. length es \<le> 3 \<and> fsm_run (streamTransition now) s es = Some (StreamClosed out i u))"
proof
  show "stream_terminal s \<longleftrightarrow> (\<forall>e. \<not> is_ok (streamTransition now s e))"
    by (rule stream_fsm.terminal_iff_stuck)
  have "length (stream_to_closed s) \<le> 3" by (cases s) auto
  then show "\<exists>es out i u. length es \<le> 3 \<and> fsm_run (streamTransition now) s es = Some (StreamClosed out i u)"
    using stream_to_closed_run by blast
qed

text \<open>
  C10. Billing conservation: when a run of the machine from idle closes as completed or as
  cancelled without an error, the closed state carries exactly the input and output tokens
  that the \<open>TokensAccumulated\<close> events since the last user message reported, none lost and
  none counted twice.
\<close>

theorem stream_tokens_conserved:
  assumes "fsm_run (streamTransition now) (streamIdle l) es = Some (StreamClosed out i u)"
    and "out \<noteq> Errored"
  shows "(i, u) = reported_tokens es"
  using stream_tokens_run [OF assms(1)] assms(2) by (cases out) auto

definition sample_stream :: "stream_event list" where
  "sample_stream =
     [UserSendsMessage ''r1'' ''t1'' ''w1'', FetchResponseReceived 5,
      FirstMessageReceived 1 False TokWorkspace, TokensAccumulated 10 4, ToolUseStarted ''a'',
      MessageReceived 2, ToolUseStarted ''b'', ToolUseStarted ''a'', TokensAccumulated 3 2,
      ToolResultReceived ''a'']"

theorem stream_tokens_conserved_witness:
  "fsm_run (streamTransition 0) (streamIdle None) (sample_stream @ [CompleteReceived 3, CleanupDone])
     = Some (StreamClosed Completed 13 6) \<and>
   (13, 6) = reported_tokens (sample_stream @ [CompleteReceived 3, CleanupDone])"
proof -
  have run: "fsm_run (streamTransition 0) (streamIdle None) (sample_stream @ [CompleteReceived 3, CleanupDone])
     = Some (StreamClosed Completed 13 6)"
    by (simp add: sample_stream_def streamIdle_def ok_def)
  with stream_tokens_conserved [OF run] show ?thesis by simp
qed

text \<open>
  While streaming, \<open>pendingToolIds\<close> holds each started and unanswered tool once and
  nothing else, and \<open>messageCount\<close> counts the messages received since the first one.
\<close>

theorem stream_pending_tools_exact:
  assumes "fsm_run (streamTransition now) (streamIdle l) es = Some (Streaming p)"
  shows "distinct (sp_pendingToolIds p) \<and> set (sp_pendingToolIds p) = foldl count_pending {} es \<and>
         sp_messageCount p = foldl count_messages 0 es"
  using stream_tools_run [OF assms] by simp

theorem stream_pending_tools_exact_witness:
  "\<exists>p. fsm_run (streamTransition 0) (streamIdle None) sample_stream = Some (Streaming p) \<and>
       sp_pendingToolIds p = [''b''] \<and> distinct (sp_pendingToolIds p) \<and>
       sp_messageCount p = foldl count_messages 0 sample_stream"
proof -
  obtain p where run: "fsm_run (streamTransition 0) (streamIdle None) sample_stream = Some (Streaming p)"
    and "sp_pendingToolIds p = [''b'']"
    by (simp add: sample_stream_def streamIdle_def ok_def)
  with stream_pending_tools_exact [OF run] show ?thesis by blast
qed

text \<open>
  What a failing stream does with its tokens depends on the path: an error while
  streaming closes with no tokens at all, the same error after a cancel request keeps the
  tokens accumulated so far.
\<close>

theorem stream_error_drops_tokens:
  "fsm_run (streamTransition now) (Streaming p) [ErrorOccurred c, CleanupDone]
     = Some (StreamClosed Errored 0 0) \<and>
   fsm_run (streamTransition now) (Streaming p) [CancelRequested src, ErrorOccurred c]
     = Some (StreamClosed Errored (sp_inputTokens p) (sp_outputTokens p))"
  by (simp add: ok_def)

end
