(* ===== verification/RunMachine.thy ===== *)
theory RunMachine
  imports Fsm
begin

section \<open>The run machine\<close>

text \<open>
  \<open>packages/shared/src/machines/run.machine.ts\<close>: what the agent does within one stream
  (generating, calling tools, waiting for approval, completing). Constructors carry the
  prefix \<open>Run\<close> because other machines have events of the same name; the type of a tool
  input, which the machine only passes on, is the type variable \<open>'i\<close>.
\<close>

datatype run_error_code =
  RunSdkError | RunTimeout | RunProcessCrash | RunOverloaded | RunRateLimit | RunUnknown

datatype 'i run_state =
    RunPending string
  | RunGenerating string int "string list"
  | RunToolCalling string int string string "string list"
  | RunWaitingApproval string int string string 'i "string list"
  | RunCompleting string int "string option"
  | RunCompleted string int "string option"
  | RunCancelled string int
  | RunError string int run_error_code string

datatype 'i run_event =
    RunStarted
  | RunTextReceived
  | RunToolUseReceived string string
  | RunApprovalRequired 'i
  | RunApprovalGranted
  | RunApprovalDenied
  | RunApprovalTimeout
  | RunToolResultReceived string
  | RunResultReceived "string option"
  | RunFinished
  | RunCancelRequested
  | RunErrorOccurred run_error_code string

fun run_tag :: "'i run_state \<Rightarrow> string" where
  "run_tag (RunPending _) = ''pending''"
| "run_tag (RunGenerating _ _ _) = ''generating''"
| "run_tag (RunToolCalling _ _ _ _ _) = ''tool-calling''"
| "run_tag (RunWaitingApproval _ _ _ _ _ _) = ''waiting-approval''"
| "run_tag (RunCompleting _ _ _) = ''completing''"
| "run_tag (RunCompleted _ _ _) = ''completed''"
| "run_tag (RunCancelled _ _) = ''cancelled''"
| "run_tag (RunError _ _ _ _) = ''error''"

fun run_event_type :: "'i run_event \<Rightarrow> string" where
  "run_event_type RunStarted = ''RunStarted''"
| "run_event_type RunTextReceived = ''TextReceived''"
| "run_event_type (RunToolUseReceived _ _) = ''ToolUseReceived''"
| "run_event_type (RunApprovalRequired _) = ''ApprovalRequired''"
| "run_event_type RunApprovalGranted = ''ApprovalGranted''"
| "run_event_type RunApprovalDenied = ''ApprovalDenied''"
| "run_event_type RunApprovalTimeout = ''ApprovalTimeout''"
| "run_event_type (RunToolResultReceived _) = ''ToolResultReceived''"
| "run_event_type (RunResultReceived _) = ''ResultReceived''"
| "run_event_type RunFinished = ''RunFinished''"
| "run_event_type RunCancelRequested = ''CancelRequested''"
| "run_event_type (RunErrorOccurred _ _) = ''ErrorOccurred''"

fun runTransition :: "'i run_state \<Rightarrow> 'i run_event \<Rightarrow> 'i run_state transition_result" where
  "runTransition (RunPending r) e =
     (case e of
        RunStarted \<Rightarrow> ok (RunGenerating r 0 [])
      | RunCancelRequested \<Rightarrow> ok (RunCancelled r 0)
      | RunErrorOccurred c m \<Rightarrow> ok (RunError r 0 c m)
      | _ \<Rightarrow> err (run_tag (RunPending r :: 'i run_state)) (run_event_type e) None)"
| "runTransition (RunGenerating r n ids) e =
     (case e of
        RunTextReceived \<Rightarrow> ok (RunGenerating r n ids)
      | RunToolUseReceived i name \<Rightarrow> ok (RunToolCalling r (n + 1) i name (ids @ [i]))
      | RunResultReceived s \<Rightarrow> ok (RunCompleting r n s)
      | RunCancelRequested \<Rightarrow> ok (RunCancelled r n)
      | RunErrorOccurred c m \<Rightarrow> ok (RunError r n c m)
      | _ \<Rightarrow> err (run_tag (RunGenerating r n ids :: 'i run_state)) (run_event_type e) None)"
| "runTransition (RunToolCalling r n a name ids) e =
     (case e of
        RunApprovalRequired input \<Rightarrow> ok (RunWaitingApproval r n a name input ids)
      | RunToolResultReceived i \<Rightarrow> ok (RunGenerating r n (filter (\<lambda>j. j \<noteq> i) ids))
      | RunToolUseReceived i name' \<Rightarrow> ok (RunToolCalling r (n + 1) i name' (ids @ [i]))
      | RunCancelRequested \<Rightarrow> ok (RunCancelled r n)
      | RunErrorOccurred c m \<Rightarrow> ok (RunError r n c m)
      | _ \<Rightarrow> err (run_tag (RunToolCalling r n a name ids :: 'i run_state)) (run_event_type e) None)"
| "runTransition (RunWaitingApproval r n a name input ids) e =
     (case e of
        RunApprovalGranted \<Rightarrow> ok (RunToolCalling r n a name ids)
      | RunApprovalDenied \<Rightarrow> ok (RunGenerating r n (filter (\<lambda>j. j \<noteq> a) ids))
      | RunApprovalTimeout \<Rightarrow> ok (RunGenerating r n (filter (\<lambda>j. j \<noteq> a) ids))
      | RunCancelRequested \<Rightarrow> ok (RunCancelled r n)
      | RunErrorOccurred c m \<Rightarrow> ok (RunError r n c m)
      | _ \<Rightarrow> err (run_tag (RunWaitingApproval r n a name input ids :: 'i run_state)) (run_event_type e) None)"
| "runTransition (RunCompleting r n s) e =
     (case e of
        RunFinished \<Rightarrow> ok (RunCompleted r n s)
      | RunErrorOccurred c m \<Rightarrow> ok (RunError r n c m)
      | _ \<Rightarrow> err (run_tag (RunCompleting r n s :: 'i run_state)) (run_event_type e) None)"
| "runTransition (RunCompleted r n s) e =
     err (run_tag (RunCompleted r n s :: 'i run_state)) (run_event_type e) (Some ''run complete - terminal'')"
| "runTransition (RunCancelled r n) e =
     err (run_tag (RunCancelled r n :: 'i run_state)) (run_event_type e) (Some ''run cancelled - terminal'')"
| "runTransition (RunError r n c m) e =
     err (run_tag (RunError r n c m :: 'i run_state)) (run_event_type e) (Some ''run errored - terminal'')"

definition runPending :: "string \<Rightarrow> 'i run_state" where
  "runPending requestId = RunPending requestId"

fun run_terminal :: "'i run_state \<Rightarrow> bool" where
  "run_terminal (RunCompleted _ _ _) = True"
| "run_terminal (RunCancelled _ _) = True"
| "run_terminal (RunError _ _ _ _) = True"
| "run_terminal _ = False"

lemma run_error_accepted: "\<not> run_terminal s \<Longrightarrow> is_ok (runTransition s (RunErrorOccurred c m))"
  by (cases s) auto

interpretation run_fsm: fsm runTransition run_terminal
proof
  show "\<not> is_ok (runTransition s e)" if "run_terminal s" for s :: "'i run_state" and e
    using that by (cases s) auto
  show "\<exists>e. is_ok (runTransition s e)" if "\<not> run_terminal s" for s :: "'i run_state"
    using run_error_accepted [OF that] by blast
qed

subsection \<open>Turns and pending tools\<close>

fun run_turns :: "'i run_state \<Rightarrow> int" where
  "run_turns (RunPending _) = 0"
| "run_turns (RunGenerating _ n _) = n"
| "run_turns (RunToolCalling _ n _ _ _) = n"
| "run_turns (RunWaitingApproval _ n _ _ _ _) = n"
| "run_turns (RunCompleting _ n _) = n"
| "run_turns (RunCompleted _ n _) = n"
| "run_turns (RunCancelled _ n) = n"
| "run_turns (RunError _ n _ _) = n"

fun run_request :: "'i run_state \<Rightarrow> string" where
  "run_request (RunPending r) = r"
| "run_request (RunGenerating r _ _) = r"
| "run_request (RunToolCalling r _ _ _ _) = r"
| "run_request (RunWaitingApproval r _ _ _ _ _) = r"
| "run_request (RunCompleting r _ _) = r"
| "run_request (RunCompleted r _ _) = r"
| "run_request (RunCancelled r _) = r"
| "run_request (RunError r _ _ _) = r"

fun is_tool_use :: "'i run_event \<Rightarrow> bool" where
  "is_tool_use (RunToolUseReceived _ _) = True"
| "is_tool_use _ = False"

abbreviation tool_uses :: "'i run_event list \<Rightarrow> int" where
  "tool_uses es \<equiv> int (length (filter is_tool_use es))"

fun run_pending_tools :: "'i run_state \<Rightarrow> string list" where
  "run_pending_tools (RunGenerating _ _ ids) = ids"
| "run_pending_tools (RunToolCalling _ _ _ _ ids) = ids"
| "run_pending_tools (RunWaitingApproval _ _ _ _ _ ids) = ids"
| "run_pending_tools _ = []"

lemma run_step_turns:
  "runTransition s e = TransOk s' \<Longrightarrow>
     run_turns s' = run_turns s + (if is_tool_use e then 1 else 0) \<and> run_request s' = run_request s"
  by (cases s; cases e) auto

lemma run_turns_run:
  "fsm_run runTransition s es = Some t \<Longrightarrow>
     run_turns t = run_turns s + tool_uses es \<and> run_request t = run_request s"
  by (induction es arbitrary: s)
    (auto split: transition_result.splits dest!: run_step_turns)

text \<open>The tool that is being called or approved is the last of the pending ones.\<close>

fun run_active_inv :: "'i run_state \<Rightarrow> bool" where
  "run_active_inv (RunToolCalling _ _ a _ ids) = (ids \<noteq> [] \<and> last ids = a)"
| "run_active_inv (RunWaitingApproval _ _ a _ _ ids) = (ids \<noteq> [] \<and> last ids = a)"
| "run_active_inv _ = True"

lemma run_active_step:
  "run_active_inv s \<Longrightarrow> runTransition s e = TransOk s' \<Longrightarrow> run_active_inv s'"
  by (cases s; cases e) auto

subsection \<open>Properties\<close>

text \<open>
  Along every run of the run machine the request id never changes, \<open>turnCount\<close> is the
  number of \<open>ToolUseReceived\<close> events, and the tool being called or approved is the newest
  of the pending ones.
\<close>

theorem run_turn_count_exact:
  assumes "fsm_run runTransition (runPending r) es = Some s"
  shows "run_turns s = tool_uses es \<and> run_request s = r \<and> run_active_inv s"
proof -
  have "run_active_inv s"
    by (rule fsm_run_invariant [OF assms]) (auto simp: runPending_def intro: run_active_step)
  then show ?thesis
    using run_turns_run [OF assms] by (simp add: runPending_def)
qed

theorem run_turn_count_exact_witness:
  "run_turns (RunCompleted ''r'' 2 None :: nat run_state) =
     tool_uses [RunStarted, RunToolUseReceived ''a'' ''Bash'', RunApprovalRequired (7::nat), RunApprovalGranted,
       RunToolResultReceived ''a'', RunToolUseReceived ''b'' ''Read'', RunToolResultReceived ''b'',
       RunResultReceived None, RunFinished]"
proof -
  have run: "fsm_run runTransition (runPending ''r'')
      [RunStarted, RunToolUseReceived ''a'' ''Bash'', RunApprovalRequired (7::nat), RunApprovalGranted,
       RunToolResultReceived ''a'', RunToolUseReceived ''b'' ''Read'', RunToolResultReceived ''b'',
       RunResultReceived None, RunFinished] = Some (RunCompleted ''r'' 2 None)"
    by (simp add: runPending_def ok_def)
  show ?thesis using run_turn_count_exact [OF run] by blast
qed

end
