(* ===== verification/ClientMachines.thy ===== *)
theory ClientMachines
  imports Fsm
begin

section \<open>The cancel, connection, reconnect and buffer machines\<close>

text \<open>
  \<open>cancel.machine.ts\<close>, \<open>connection.machine.ts\<close>, \<open>reconnect.machine.ts\<close> and
  \<open>buffer.machine.ts\<close> of \<open>packages/shared/src/machines\<close>. A record of optional flags
  (\<open>confirmed {wasComplete?, ...}\<close>) is a record of booleans, an absent flag being \<open>False\<close>.
\<close>

subsection \<open>Cancel\<close>

record cancel_flags =
  cf_wasComplete :: bool
  cf_wasError :: bool
  cf_timedOut :: bool
  cf_uncertain :: bool

definition no_cancel_flags :: cancel_flags where
  "no_cancel_flags = \<lparr>cf_wasComplete = False, cf_wasError = False, cf_timedOut = False, cf_uncertain = False\<rparr>"

datatype cancel_state =
    CancelStopping string string bool
  | CancelVerifying string string int int
  | CancelStillRunning string string
  | CancelConfirmedState cancel_flags

datatype cancel_event =
    AbortSent
  | CancelConfirmed
  | AlreadyComplete
  | CancelTimedOut
  | CancelQueued
  | CancelFailed
  | CancelRequestTimeout
  | CancelStreamCompleted
  | CancelStreamErrorReceived
  | VerifyConfirmed
  | VerifyStillStreaming "string option"
  | VerifyUnknown
  | RetryStop string

fun cancel_tag :: "cancel_state \<Rightarrow> string" where
  "cancel_tag (CancelStopping _ _ _) = ''stopping''"
| "cancel_tag (CancelVerifying _ _ _ _) = ''verifying''"
| "cancel_tag (CancelStillRunning _ _) = ''still-running''"
| "cancel_tag (CancelConfirmedState _) = ''confirmed''"

fun cancel_event_type :: "cancel_event \<Rightarrow> string" where
  "cancel_event_type AbortSent = ''AbortSent''"
| "cancel_event_type CancelConfirmed = ''CancelConfirmed''"
| "cancel_event_type AlreadyComplete = ''AlreadyComplete''"
| "cancel_event_type CancelTimedOut = ''CancelTimedOut''"
| "cancel_event_type CancelQueued = ''CancelQueued''"
| "cancel_event_type CancelFailed = ''CancelFailed''"
| "cancel_event_type CancelRequestTimeout = ''CancelRequestTimeout''"
| "cancel_event_type CancelStreamCompleted = ''StreamCompleted''"
| "cancel_event_type CancelStreamErrorReceived = ''StreamErrorReceived''"
| "cancel_event_type VerifyConfirmed = ''VerifyConfirmed''"
| "cancel_event_type (VerifyStillStreaming _) = ''VerifyStillStreaming''"
| "cancel_event_type VerifyUnknown = ''VerifyUnknown''"
| "cancel_event_type (RetryStop _) = ''RetryStop''"

fun cancelTransition :: "cancel_state \<Rightarrow> cancel_event \<Rightarrow> cancel_state transition_result" where
  "cancelTransition (CancelStopping stopId req sent) e =
     (case e of
        AbortSent \<Rightarrow> ok (CancelStopping stopId req True)
      | CancelConfirmed \<Rightarrow> ok (CancelConfirmedState no_cancel_flags)
      | AlreadyComplete \<Rightarrow> ok (CancelConfirmedState (no_cancel_flags\<lparr>cf_wasComplete := True\<rparr>))
      | CancelTimedOut \<Rightarrow> ok (CancelConfirmedState (no_cancel_flags\<lparr>cf_timedOut := True\<rparr>))
      | CancelStreamCompleted \<Rightarrow> ok (CancelConfirmedState (no_cancel_flags\<lparr>cf_wasComplete := True\<rparr>))
      | CancelStreamErrorReceived \<Rightarrow> ok (CancelConfirmedState (no_cancel_flags\<lparr>cf_wasError := True\<rparr>))
      | CancelQueued \<Rightarrow> ok (CancelVerifying stopId req 0 6)
      | CancelFailed \<Rightarrow> ok (CancelVerifying stopId req 0 6)
      | CancelRequestTimeout \<Rightarrow> ok (CancelVerifying stopId req 0 6)
      | _ \<Rightarrow> err (cancel_tag (CancelStopping stopId req sent)) (cancel_event_type e) None)"
| "cancelTransition (CancelVerifying stopId req attempts maxAttempts) e =
     (case e of
        VerifyConfirmed \<Rightarrow> ok (CancelConfirmedState no_cancel_flags)
      | VerifyStillStreaming active \<Rightarrow>
          ok (CancelStillRunning stopId (case active of None \<Rightarrow> req | Some a \<Rightarrow> a))
      | VerifyUnknown \<Rightarrow> ok (CancelConfirmedState (no_cancel_flags\<lparr>cf_uncertain := True\<rparr>))
      | CancelStreamCompleted \<Rightarrow> ok (CancelConfirmedState (no_cancel_flags\<lparr>cf_wasComplete := True\<rparr>))
      | _ \<Rightarrow> err (cancel_tag (CancelVerifying stopId req attempts maxAttempts)) (cancel_event_type e) None)"
| "cancelTransition (CancelStillRunning stopId active) e =
     (case e of
        RetryStop stopId' \<Rightarrow> ok (CancelStopping stopId' active False)
      | CancelStreamCompleted \<Rightarrow> ok (CancelConfirmedState (no_cancel_flags\<lparr>cf_wasComplete := True\<rparr>))
      | _ \<Rightarrow> err (cancel_tag (CancelStillRunning stopId active)) (cancel_event_type e) None)"
| "cancelTransition (CancelConfirmedState f) e =
     err (cancel_tag (CancelConfirmedState f)) (cancel_event_type e)
       (Some ''cancel resolved - terminal state'')"

definition cancelStopping :: "string \<Rightarrow> string \<Rightarrow> cancel_state" where
  "cancelStopping stopId requestIdAtStop = CancelStopping stopId requestIdAtStop False"

fun cancel_terminal :: "cancel_state \<Rightarrow> bool" where
  "cancel_terminal (CancelConfirmedState _) = True"
| "cancel_terminal _ = False"

lemma cancel_completion_accepted:
  "\<not> cancel_terminal s \<Longrightarrow> is_ok (cancelTransition s CancelStreamCompleted)"
  by (cases s) auto

interpretation cancel_fsm: fsm cancelTransition cancel_terminal
proof
  show "\<not> is_ok (cancelTransition s e)" if "cancel_terminal s" for s e
    using that by (cases s) auto
  show "\<exists>e. is_ok (cancelTransition s e)" if "\<not> cancel_terminal s" for s
    using cancel_completion_accepted [OF that] by blast
qed

text \<open>At most one flag of a confirmation is ever set, and verification never counts.\<close>

fun cancel_inv :: "cancel_state \<Rightarrow> bool" where
  "cancel_inv (CancelConfirmedState f) =
     (length (filter id [cf_wasComplete f, cf_wasError f, cf_timedOut f, cf_uncertain f]) \<le> 1)"
| "cancel_inv (CancelVerifying _ _ n m) = (n = 0 \<and> m = 6)"
| "cancel_inv _ = True"

lemma cancel_inv_step:
  "cancel_inv s \<Longrightarrow> cancelTransition s e = TransOk s' \<Longrightarrow> cancel_inv s'"
  by (cases s; cases e) (auto simp: no_cancel_flags_def)

subsection \<open>Connection\<close>

datatype disconnect_reason = ReaderErrorReason | FirstMessageTimeoutReason | ParseErrorsReason

datatype connection_state =
    ConnIdle
  | ConnFetching string int int
  | ConnReading string int
  | ConnConnected string int
  | ConnSuspended string int
  | ConnDisconnected string int disconnect_reason
  | ConnFailedFetch string int int
  | ConnFailed string string

datatype connection_event =
    FetchStarted string int
  | ResponseReceived int
  | ConnFirstMessageReceived int
  | FetchError
  | ConnPreResponseTimeout
  | ConnFirstMessageTimeout int
  | ReaderError int
  | ConnReaderDone
  | TabHidden int
  | TabVisible
  | MaxParseErrorsReached int
  | RetryAttempt int
  | MaxRetries string

fun connection_tag :: "connection_state \<Rightarrow> string" where
  "connection_tag ConnIdle = ''idle''"
| "connection_tag (ConnFetching _ _ _) = ''fetching''"
| "connection_tag (ConnReading _ _) = ''reading''"
| "connection_tag (ConnConnected _ _) = ''connected''"
| "connection_tag (ConnSuspended _ _) = ''suspended''"
| "connection_tag (ConnDisconnected _ _ _) = ''disconnected''"
| "connection_tag (ConnFailedFetch _ _ _) = ''failed-fetch''"
| "connection_tag (ConnFailed _ _) = ''failed''"

fun connection_event_type :: "connection_event \<Rightarrow> string" where
  "connection_event_type (FetchStarted _ _) = ''FetchStarted''"
| "connection_event_type (ResponseReceived _) = ''ResponseReceived''"
| "connection_event_type (ConnFirstMessageReceived _) = ''FirstMessageReceived''"
| "connection_event_type FetchError = ''FetchError''"
| "connection_event_type ConnPreResponseTimeout = ''PreResponseTimeout''"
| "connection_event_type (ConnFirstMessageTimeout _) = ''FirstMessageTimeout''"
| "connection_event_type (ReaderError _) = ''ReaderError''"
| "connection_event_type ConnReaderDone = ''ReaderDone''"
| "connection_event_type (TabHidden _) = ''TabHidden''"
| "connection_event_type TabVisible = ''TabVisible''"
| "connection_event_type (MaxParseErrorsReached _) = ''MaxParseErrors''"
| "connection_event_type (RetryAttempt _) = ''RetryAttempt''"
| "connection_event_type (MaxRetries _) = ''MaxRetries''"

fun connectionTransition :: "connection_state \<Rightarrow> connection_event \<Rightarrow> connection_state transition_result" where
  "connectionTransition ConnIdle e =
     (case e of
        FetchStarted tab ts \<Rightarrow> ok (ConnFetching tab ts 1)
      | _ \<Rightarrow> err (connection_tag ConnIdle) (connection_event_type e) None)"
| "connectionTransition (ConnFetching tab at n) e =
     (case e of
        ResponseReceived ts \<Rightarrow> ok (ConnReading tab ts)
      | FetchError \<Rightarrow> ok (ConnFailedFetch tab n 3)
      | ConnPreResponseTimeout \<Rightarrow> ok (ConnFailedFetch tab n 3)
      | _ \<Rightarrow> err (connection_tag (ConnFetching tab at n)) (connection_event_type e) None)"
| "connectionTransition (ConnReading tab at) e =
     (case e of
        ConnFirstMessageReceived ts \<Rightarrow> ok (ConnConnected tab ts)
      | ConnFirstMessageTimeout ts \<Rightarrow> ok (ConnDisconnected tab ts FirstMessageTimeoutReason)
      | ReaderError ts \<Rightarrow> ok (ConnDisconnected tab ts ReaderErrorReason)
      | _ \<Rightarrow> err (connection_tag (ConnReading tab at)) (connection_event_type e) None)"
| "connectionTransition (ConnConnected tab at) e =
     (case e of
        TabHidden ts \<Rightarrow> ok (ConnSuspended tab ts)
      | ReaderError ts \<Rightarrow> ok (ConnDisconnected tab ts ReaderErrorReason)
      | MaxParseErrorsReached ts \<Rightarrow> ok (ConnDisconnected tab ts ParseErrorsReason)
      | ConnReaderDone \<Rightarrow> ok ConnIdle
      | _ \<Rightarrow> err (connection_tag (ConnConnected tab at)) (connection_event_type e) None)"
| "connectionTransition (ConnSuspended tab at) e =
     (case e of
        TabVisible \<Rightarrow> ok (ConnSuspended tab at)
      | ReaderError ts \<Rightarrow> ok (ConnDisconnected tab ts ReaderErrorReason)
      | _ \<Rightarrow> err (connection_tag (ConnSuspended tab at)) (connection_event_type e) None)"
| "connectionTransition (ConnDisconnected tab at why) e =
     (case e of
        TabVisible \<Rightarrow> ok (ConnDisconnected tab at why)
      | _ \<Rightarrow> err (connection_tag (ConnDisconnected tab at why)) (connection_event_type e) None)"
| "connectionTransition (ConnFailedFetch tab n m) e =
     (case e of
        RetryAttempt ts \<Rightarrow> ok (ConnFetching tab ts (n + 1))
      | MaxRetries why \<Rightarrow> ok (ConnFailed tab why)
      | _ \<Rightarrow> err (connection_tag (ConnFailedFetch tab n m)) (connection_event_type e) None)"
| "connectionTransition (ConnFailed tab why) e =
     err (connection_tag (ConnFailed tab why)) (connection_event_type e)
       (Some ''connection permanently failed - page refresh required'')"

definition connectionIdle :: connection_state where
  "connectionIdle = ConnIdle"

fun connection_terminal :: "connection_state \<Rightarrow> bool" where
  "connection_terminal (ConnFailed _ _) = True"
| "connection_terminal _ = False"

fun connection_exit :: "connection_state \<Rightarrow> connection_event" where
  "connection_exit ConnIdle = FetchStarted '''' 0"
| "connection_exit (ConnFetching _ _ _) = FetchError"
| "connection_exit (ConnReading _ _) = ReaderError 0"
| "connection_exit (ConnConnected _ _) = ConnReaderDone"
| "connection_exit (ConnSuspended _ _) = TabVisible"
| "connection_exit (ConnDisconnected _ _ _) = TabVisible"
| "connection_exit (ConnFailedFetch _ _ _) = MaxRetries ''''"
| "connection_exit (ConnFailed _ _) = TabVisible"

interpretation connection_fsm: fsm connectionTransition connection_terminal
proof
  show "\<not> is_ok (connectionTransition s e)" if "connection_terminal s" for s e
    using that by (cases s) auto
  show "\<exists>e. is_ok (connectionTransition s e)" if "\<not> connection_terminal s" for s
    using that by (intro exI [of _ "connection_exit s"]) (cases s; simp)
qed

text \<open>A suspended or disconnected connection never comes back within this machine.\<close>

fun connection_lost :: "connection_state \<Rightarrow> bool" where
  "connection_lost (ConnSuspended _ _) = True"
| "connection_lost (ConnDisconnected _ _ _) = True"
| "connection_lost _ = False"

lemma connection_lost_step:
  "connection_lost s \<Longrightarrow> connectionTransition s e = TransOk s' \<Longrightarrow> connection_lost s'"
  by (cases s; cases e) auto

fun retry_rounds :: "nat \<Rightarrow> connection_event list" where
  "retry_rounds 0 = []"
| "retry_rounds (Suc k) = FetchError # RetryAttempt 0 # retry_rounds k"

lemma connection_retry_rounds:
  "fsm_run connectionTransition (ConnFetching tab 0 n) (retry_rounds k)
     = Some (ConnFetching tab 0 (n + int k))"
  by (induction k arbitrary: n) (auto simp: ok_def)

subsection \<open>Reconnect\<close>

record reconnect_flags =
  rf_hadBuffered :: bool
  rf_timedOut :: bool
  rf_suspended :: bool
  rf_userStopped :: bool
  rf_error :: bool

definition no_reconnect_flags :: reconnect_flags where
  "no_reconnect_flags = \<lparr>rf_hadBuffered = False, rf_timedOut = False, rf_suspended = False,
     rf_userStopped = False, rf_error = False\<rparr>"

datatype reconnect_state =
    RecDebouncing string int
  | RecProbing string int
  | RecReplaying "string option" int
  | RecPolling string int int
  | RecDone reconnect_flags

datatype reconnect_event =
    DebounceExpired
  | AlreadyRecent
  | ProbeNoStream
  | ProbeComplete int "string option"
  | ProbeStreaming string int
  | ProbeAmbiguous
  | ProbeError
  | AckSent
  | PollComplete int
  | PollStreaming int
  | PollNoStream
  | PollMaxReached
  | RecTabHidden
  | UserPressesStop

fun reconnect_tag :: "reconnect_state \<Rightarrow> string" where
  "reconnect_tag (RecDebouncing _ _) = ''debouncing''"
| "reconnect_tag (RecProbing _ _) = ''probing''"
| "reconnect_tag (RecReplaying _ _) = ''replaying''"
| "reconnect_tag (RecPolling _ _ _) = ''polling''"
| "reconnect_tag (RecDone _) = ''done''"

fun reconnect_event_type :: "reconnect_event \<Rightarrow> string" where
  "reconnect_event_type DebounceExpired = ''DebounceExpired''"
| "reconnect_event_type AlreadyRecent = ''AlreadyRecent''"
| "reconnect_event_type ProbeNoStream = ''ProbeNoStream''"
| "reconnect_event_type (ProbeComplete _ _) = ''ProbeComplete''"
| "reconnect_event_type (ProbeStreaming _ _) = ''ProbeStreaming''"
| "reconnect_event_type ProbeAmbiguous = ''ProbeAmbiguous''"
| "reconnect_event_type ProbeError = ''ProbeError''"
| "reconnect_event_type AckSent = ''AckSent''"
| "reconnect_event_type (PollComplete _) = ''PollComplete''"
| "reconnect_event_type (PollStreaming _) = ''PollStreaming''"
| "reconnect_event_type PollNoStream = ''PollNoStream''"
| "reconnect_event_type PollMaxReached = ''PollMaxReached''"
| "reconnect_event_type RecTabHidden = ''TabHidden''"
| "reconnect_event_type UserPressesStop = ''UserPressesStop''"

fun reconnectTransition :: "reconnect_state \<Rightarrow> reconnect_event \<Rightarrow> reconnect_state transition_result" where
  "reconnectTransition (RecDebouncing tab n) e =
     (case e of
        DebounceExpired \<Rightarrow> ok (RecProbing tab n)
      | AlreadyRecent \<Rightarrow> ok (RecDone no_reconnect_flags)
      | _ \<Rightarrow> err (reconnect_tag (RecDebouncing tab n)) (reconnect_event_type e) None)"
| "reconnectTransition (RecProbing tab n) e =
     (case e of
        ProbeNoStream \<Rightarrow> ok (RecDone no_reconnect_flags)
      | ProbeComplete k r \<Rightarrow> ok (RecReplaying r k)
      | ProbeStreaming r k \<Rightarrow> ok (RecPolling r 0 300)
      | ProbeAmbiguous \<Rightarrow> ok (RecDone no_reconnect_flags)
      | ProbeError \<Rightarrow> ok (RecDone (no_reconnect_flags\<lparr>rf_error := True\<rparr>))
      | _ \<Rightarrow> err (reconnect_tag (RecProbing tab n)) (reconnect_event_type e) None)"
| "reconnectTransition (RecReplaying r k) e =
     (case e of
        AckSent \<Rightarrow> ok (RecDone (no_reconnect_flags\<lparr>rf_hadBuffered := True\<rparr>))
      | _ \<Rightarrow> err (reconnect_tag (RecReplaying r k)) (reconnect_event_type e) None)"
| "reconnectTransition (RecPolling r n m) e =
     (case e of
        PollComplete k \<Rightarrow> ok (RecReplaying (Some r) k)
      | PollStreaming k \<Rightarrow> ok (RecPolling r (n + 1) m)
      | PollNoStream \<Rightarrow> ok (RecDone no_reconnect_flags)
      | PollMaxReached \<Rightarrow> ok (RecDone (no_reconnect_flags\<lparr>rf_timedOut := True\<rparr>))
      | RecTabHidden \<Rightarrow> ok (RecDone (no_reconnect_flags\<lparr>rf_suspended := True\<rparr>))
      | UserPressesStop \<Rightarrow> ok (RecDone (no_reconnect_flags\<lparr>rf_userStopped := True\<rparr>))
      | _ \<Rightarrow> err (reconnect_tag (RecPolling r n m)) (reconnect_event_type e) None)"
| "reconnectTransition (RecDone f) e =
     err (reconnect_tag (RecDone f)) (reconnect_event_type e)
       (Some ''reconnect complete - terminal state'')"

definition reconnectStart :: "string \<Rightarrow> int \<Rightarrow> reconnect_state" where
  "reconnectStart tabId lastKnownSeq = RecDebouncing tabId lastKnownSeq"

fun reconnect_terminal :: "reconnect_state \<Rightarrow> bool" where
  "reconnect_terminal (RecDone _) = True"
| "reconnect_terminal _ = False"

fun reconnect_exit :: "reconnect_state \<Rightarrow> reconnect_event" where
  "reconnect_exit (RecDebouncing _ _) = AlreadyRecent"
| "reconnect_exit (RecProbing _ _) = ProbeError"
| "reconnect_exit (RecReplaying _ _) = AckSent"
| "reconnect_exit (RecPolling _ _ _) = PollNoStream"
| "reconnect_exit (RecDone _) = AckSent"

interpretation reconnect_fsm: fsm reconnectTransition reconnect_terminal
proof
  show "\<not> is_ok (reconnectTransition s e)" if "reconnect_terminal s" for s e
    using that by (cases s) auto
  show "\<exists>e. is_ok (reconnectTransition s e)" if "\<not> reconnect_terminal s" for s
    using that by (intro exI [of _ "reconnect_exit s"]) (cases s; simp)
qed

text \<open>
  The phases are ordered, so a run is short but for its polls: every accepted event either
  is a \<open>PollStreaming\<close> or moves to a later phase.
\<close>

fun reconnect_phase :: "reconnect_state \<Rightarrow> nat" where
  "reconnect_phase (RecDebouncing _ _) = 0"
| "reconnect_phase (RecProbing _ _) = 1"
| "reconnect_phase (RecPolling _ _ _) = 2"
| "reconnect_phase (RecReplaying _ _) = 3"
| "reconnect_phase (RecDone _) = 4"

fun is_poll :: "reconnect_event \<Rightarrow> bool" where
  "is_poll (PollStreaming _) = True"
| "is_poll _ = False"

lemma reconnect_phase_step:
  "reconnectTransition s e = TransOk s' \<Longrightarrow>
     (is_poll e \<and> reconnect_phase s' = reconnect_phase s) \<or>
     (\<not> is_poll e \<and> reconnect_phase s < reconnect_phase s')"
  by (cases s; cases e) auto

lemma reconnect_phase_run:
  "fsm_run reconnectTransition s es = Some t \<Longrightarrow>
     reconnect_phase s + length (filter (\<lambda>e. \<not> is_poll e) es) \<le> reconnect_phase t"
  by (induction es arbitrary: s)
    (fastforce split: transition_result.splits dest: reconnect_phase_step)+

lemma reconnect_phase_le: "reconnect_phase s \<le> 4"
  by (cases s) auto

fun reconnect_flags_inv :: "reconnect_state \<Rightarrow> reconnect_event list \<Rightarrow> bool" where
  "reconnect_flags_inv (RecDone f) es \<longleftrightarrow>
     (rf_hadBuffered f \<longleftrightarrow> AckSent \<in> set es) \<and>
     (rf_timedOut f \<longleftrightarrow> PollMaxReached \<in> set es) \<and>
     (rf_suspended f \<longleftrightarrow> RecTabHidden \<in> set es) \<and>
     (rf_userStopped f \<longleftrightarrow> UserPressesStop \<in> set es) \<and>
     (rf_error f \<longleftrightarrow> ProbeError \<in> set es)"
| "reconnect_flags_inv _ es \<longleftrightarrow>
     AckSent \<notin> set es \<and> PollMaxReached \<notin> set es \<and> RecTabHidden \<notin> set es \<and>
     UserPressesStop \<notin> set es \<and> ProbeError \<notin> set es"

lemma reconnect_flags_step:
  "reconnect_flags_inv s es \<Longrightarrow> reconnectTransition s e = TransOk s' \<Longrightarrow>
     reconnect_flags_inv s' (es @ [e])"
  by (cases s; cases e) (auto simp: no_reconnect_flags_def)

lemma foldl_snoc: "foldl (\<lambda>xs x. xs @ [x]) ys xs = ys @ xs"
  by (induction xs arbitrary: ys) auto

lemma reconnect_flags_run:
  assumes "fsm_run reconnectTransition (reconnectStart tab n) es = Some s"
  shows "reconnect_flags_inv s es"
proof -
  have "reconnect_flags_inv s (foldl (\<lambda>xs x. xs @ [x]) [] es)"
    by (rule fsm_run_ghost [OF assms])
      (auto simp: reconnectStart_def intro: reconnect_flags_step)
  then show ?thesis by (simp add: foldl_snoc)
qed

subsection \<open>Buffer\<close>

record active_buffer =
  ab_requestId :: string
  ab_tabKey :: string
  ab_userId :: string
  ab_messageCount :: int
  ab_lastReadSeq :: int
  ab_startedAt :: int
  ab_lastMessageAt :: int

datatype buffer_state =
    BufActive active_buffer
  | BufComplete int int
  | BufErrored string
  | BufDeleted
  | BufExpired
  | BufSkipped

datatype buffer_event =
    MessageAppended int int
  | BufStreamCompleted int
  | BufStreamErrored string
  | BufferFull
  | StaleDetected
  | CursorAdvanced int
  | ClientAcked
  | Expired

fun buffer_tag :: "buffer_state \<Rightarrow> string" where
  "buffer_tag (BufActive _) = ''active''"
| "buffer_tag (BufComplete _ _) = ''complete''"
| "buffer_tag (BufErrored _) = ''errored''"
| "buffer_tag BufDeleted = ''deleted''"
| "buffer_tag BufExpired = ''expired''"
| "buffer_tag BufSkipped = ''skipped''"

fun buffer_event_type :: "buffer_event \<Rightarrow> string" where
  "buffer_event_type (MessageAppended _ _) = ''MessageAppended''"
| "buffer_event_type (BufStreamCompleted _) = ''StreamCompleted''"
| "buffer_event_type (BufStreamErrored _) = ''StreamErrored''"
| "buffer_event_type BufferFull = ''BufferFull''"
| "buffer_event_type StaleDetected = ''StaleDetected''"
| "buffer_event_type (CursorAdvanced _) = ''CursorAdvanced''"
| "buffer_event_type ClientAcked = ''ClientAcked''"
| "buffer_event_type Expired = ''Expired''"

fun bufferTransition :: "int \<Rightarrow> buffer_state \<Rightarrow> buffer_event \<Rightarrow> buffer_state transition_result" where
  "bufferTransition now (BufActive b) e =
     (case e of
        MessageAppended n ts \<Rightarrow>
          ok (BufActive (b\<lparr>ab_messageCount := ab_messageCount b + 1, ab_lastMessageAt := ts\<rparr>))
      | CursorAdvanced n \<Rightarrow> ok (BufActive (b\<lparr>ab_lastReadSeq := n\<rparr>))
      | BufStreamCompleted ts \<Rightarrow> ok (BufComplete (ab_messageCount b) ts)
      | BufStreamErrored why \<Rightarrow> ok (BufErrored why)
      | BufferFull \<Rightarrow> ok (BufErrored ''buffer_full'')
      | StaleDetected \<Rightarrow> ok (BufComplete (ab_messageCount b) now)
      | Expired \<Rightarrow> ok BufExpired
      | _ \<Rightarrow> err (buffer_tag (BufActive b)) (buffer_event_type e) None)"
| "bufferTransition now (BufComplete n at) e =
     (case e of
        ClientAcked \<Rightarrow> ok BufDeleted
      | Expired \<Rightarrow> ok BufExpired
      | _ \<Rightarrow> err (buffer_tag (BufComplete n at)) (buffer_event_type e) None)"
| "bufferTransition now (BufErrored why) e =
     (case e of
        ClientAcked \<Rightarrow> ok BufDeleted
      | Expired \<Rightarrow> ok BufExpired
      | _ \<Rightarrow> err (buffer_tag (BufErrored why)) (buffer_event_type e) None)"
| "bufferTransition now BufDeleted e =
     err (buffer_tag BufDeleted) (buffer_event_type e) (Some ''buffer deleted - terminal'')"
| "bufferTransition now BufExpired e =
     err (buffer_tag BufExpired) (buffer_event_type e) (Some ''buffer expired - terminal'')"
| "bufferTransition now BufSkipped e =
     err (buffer_tag BufSkipped) (buffer_event_type e)
       (Some ''buffer was skipped (no Redis) - terminal'')"

definition bufferActive :: "string \<Rightarrow> string \<Rightarrow> string \<Rightarrow> int \<Rightarrow> buffer_state" where
  "bufferActive requestId tabKey userId timestamp =
     BufActive \<lparr>ab_requestId = requestId, ab_tabKey = tabKey, ab_userId = userId, ab_messageCount = 0,
       ab_lastReadSeq = 0, ab_startedAt = timestamp, ab_lastMessageAt = timestamp\<rparr>"

definition bufferSkipped :: buffer_state where
  "bufferSkipped = BufSkipped"

fun buffer_terminal :: "buffer_state \<Rightarrow> bool" where
  "buffer_terminal (BufActive _) = False"
| "buffer_terminal (BufComplete _ _) = False"
| "buffer_terminal (BufErrored _) = False"
| "buffer_terminal _ = True"

lemma buffer_expiry_accepted: "\<not> buffer_terminal s \<Longrightarrow> is_ok (bufferTransition now s Expired)"
  by (cases s) auto

interpretation buffer_fsm: fsm "bufferTransition now" buffer_terminal for now
proof
  show "\<not> is_ok (bufferTransition now s e)" if "buffer_terminal s" for s e
    using that by (cases s) auto
  show "\<exists>e. is_ok (bufferTransition now s e)" if "\<not> buffer_terminal s" for s
    using buffer_expiry_accepted [OF that] by blast
qed

fun is_append :: "buffer_event \<Rightarrow> bool" where
  "is_append (MessageAppended _ _) = True"
| "is_append _ = False"

fun buffer_count :: "buffer_state \<Rightarrow> int option" where
  "buffer_count (BufActive b) = Some (ab_messageCount b)"
| "buffer_count (BufComplete n _) = Some n"
| "buffer_count _ = None"

fun buffer_count_inv :: "buffer_state \<Rightarrow> int \<Rightarrow> bool" where
  "buffer_count_inv s g = (case buffer_count s of None \<Rightarrow> True | Some n \<Rightarrow> n = g)"

subsection \<open>Properties\<close>

text \<open>
  C31. A reconnect attempt ends: besides poll answers that say the stream is still running, at
  most four events are accepted before \<open>done\<close>, and each outcome flag of \<open>done\<close> is set
  exactly when the event that means it occurred.
\<close>

theorem reconnect_bounded_and_exact:
  assumes "fsm_run reconnectTransition (reconnectStart tab n) es = Some s"
  shows "length (filter (\<lambda>e. \<not> is_poll e) es) \<le> 4 \<and> reconnect_flags_inv s es"
  using reconnect_phase_run [OF assms] reconnect_phase_le [of s] reconnect_flags_run [OF assms]
  by (simp add: reconnectStart_def)

theorem reconnect_bounded_and_exact_witness:
  "reconnect_flags_inv (RecDone (no_reconnect_flags\<lparr>rf_hadBuffered := True\<rparr>))
     [DebounceExpired, ProbeStreaming ''r'' 2, PollStreaming 3, PollComplete 4, AckSent]"
proof -
  have run: "fsm_run reconnectTransition (reconnectStart ''t'' 1)
      [DebounceExpired, ProbeStreaming ''r'' 2, PollStreaming 3, PollComplete 4, AckSent]
      = Some (RecDone (no_reconnect_flags\<lparr>rf_hadBuffered := True\<rparr>))"
    by (simp add: reconnectStart_def ok_def)
  show ?thesis using reconnect_bounded_and_exact [OF run] by blast
qed

text \<open>
  The cancel machine: a verification always carries \<open>attempts = 0\<close> of six, a
  confirmation carries at most one reason, and a confirmed cancel accepts nothing more.
\<close>

theorem cancel_confirmation_unambiguous:
  assumes "fsm_run cancelTransition (cancelStopping stopId req) (es @ fs) = Some s"
    and "fsm_run cancelTransition (cancelStopping stopId req) es = Some u"
  shows "cancel_inv s \<and> (cancel_terminal u \<longrightarrow> fs = [] \<and> s = u)"
proof -
  have "cancel_inv s"
    by (rule fsm_run_invariant [OF assms(1)]) (auto simp: cancelStopping_def intro: cancel_inv_step)
  then show ?thesis
    using cancel_fsm.terminal_last [OF assms] by blast
qed

theorem cancel_confirmation_unambiguous_witness:
  "cancel_inv (CancelConfirmedState (no_cancel_flags\<lparr>cf_uncertain := True\<rparr>))"
proof -
  have a: "fsm_run cancelTransition (cancelStopping ''s'' ''r'') ([AbortSent, CancelQueued] @ [VerifyUnknown])
      = Some (CancelConfirmedState (no_cancel_flags\<lparr>cf_uncertain := True\<rparr>))"
    and b: "fsm_run cancelTransition (cancelStopping ''s'' ''r'') [AbortSent, CancelQueued]
      = Some (CancelVerifying ''s'' ''r'' 0 6)"
    by (simp_all add: cancelStopping_def ok_def)
  show ?thesis using cancel_confirmation_unambiguous [OF a b] by blast
qed

text \<open>
  The connection machine does not bound retries: although \<open>failed-fetch\<close> records
  \<open>maxAttempts = 3\<close>, any number of failed attempts is accepted from a fresh fetch, the
  attempt counter growing past three; and no event ever leads a suspended or disconnected
  connection back to one that can carry data.
\<close>

theorem connection_retries_unbounded:
  "fsm_run connectionTransition connectionIdle (FetchStarted tab 0 # retry_rounds k)
     = Some (ConnFetching tab 0 (1 + int k)) \<and>
   (connection_lost s \<longrightarrow> (\<forall>es t. fsm_run connectionTransition s es = Some t \<longrightarrow> connection_lost t))"
proof (intro conjI impI allI)
  show "fsm_run connectionTransition connectionIdle (FetchStarted tab 0 # retry_rounds k)
     = Some (ConnFetching tab 0 (1 + int k))"
    using connection_retry_rounds [of tab 1 k] by (simp add: connectionIdle_def ok_def)
  show "connection_lost t" if "connection_lost s" "fsm_run connectionTransition s es = Some t" for es t
    by (rule fsm_run_invariant [where I = connection_lost, OF that(2,1) connection_lost_step])
qed

theorem connection_retries_unbounded_witness:
  "fsm_run connectionTransition connectionIdle (FetchStarted ''t'' 0 # retry_rounds 7)
     = Some (ConnFetching ''t'' 0 8) \<and> connection_lost (ConnSuspended ''t'' 3)"
proof -
  have "fsm_run connectionTransition (ConnSuspended ''t'' 3) [TabVisible] = Some (ConnSuspended ''t'' 3)"
    by (simp add: ok_def)
  moreover have "connection_lost (ConnSuspended ''t'' 3)" by simp
  ultimately show ?thesis
    using connection_retries_unbounded [of "''t''" 7 "ConnSuspended ''t'' 3"] by auto
qed

text \<open>
  A buffer's \<open>messageCount\<close>, active or complete, is the number of messages appended to
  it.
\<close>

theorem buffer_counts_appends:
  assumes "fsm_run (bufferTransition now) (bufferActive r t u ts) es = Some s"
    and "buffer_count s = Some n"
  shows "n = int (length (filter is_append es))"
proof -
  have step: "buffer_count_inv s' (g + (if is_append e then 1 else 0))"
    if "buffer_count_inv s g" "bufferTransition now s e = TransOk s'" for s e s' g
    using that by (cases s; cases e) auto
  have "buffer_count_inv s (foldl (\<lambda>g e. g + (if is_append e then 1 else 0)) 0 es)"
    by (rule fsm_run_ghost [where I = buffer_count_inv, OF assms(1) _ step])
      (simp_all add: bufferActive_def)
  moreover have "foldl (\<lambda>g e. g + (if is_append e then 1 else 0)) k es = k + int (length (filter is_append es))"
    for k by (induction es arbitrary: k) auto
  ultimately show ?thesis using assms(2) by simp
qed

theorem buffer_counts_appends_witness:
  "(2::int) = int (length (filter is_append [MessageAppended 1 5, CursorAdvanced 1, MessageAppended 2 6, StaleDetected]))"
proof -
  have run: "fsm_run (bufferTransition 9) (bufferActive ''r'' ''t'' ''u'' 0)
      [MessageAppended 1 5, CursorAdvanced 1, MessageAppended 2 6, StaleDetected] = Some (BufComplete 2 9)"
    by (simp add: bufferActive_def ok_def)
  show ?thesis by (rule buffer_counts_appends [OF run]) simp
qed

end
