(* ===== verification/Paths.thy ===== *)
theory Paths
  imports Prelude "HOL-Library.Sublist"
begin

section \<open>Paths and workspace containment\<close>

text \<open>
  The POSIX half of Node's \<open>path\<close> module that the source calls (\<open>normalize\<close>, \<open>join\<close>,
  \<open>resolve\<close>, \<open>basename\<close>), and \<open>packages/shared/src/path-security.ts\<close>, the check every
  file operation of the platform goes through. The lemmas reduce the string test to a
  prefix of the lists of path segments.
\<close>

abbreviation slash :: char where "slash \<equiv> CHR ''/''"

abbreviation dotdot :: string where "dotdot \<equiv> ''..''"

subsection \<open>Node's path functions\<close>

text \<open>\<open>normalizeString\<close>: the segments so far, newest first, against the remaining ones.\<close>

fun norm_segs :: "bool \<Rightarrow> string list \<Rightarrow> string list \<Rightarrow> string list" where
  "norm_segs allowAbove acc [] = rev acc"
| "norm_segs allowAbove acc (w # ws) =
     (if w = [] \<or> w = ''.'' then norm_segs allowAbove acc ws
      else if w = dotdot then
        (case acc of
           [] \<Rightarrow> norm_segs allowAbove (if allowAbove then [dotdot] else []) ws
         | v # vs \<Rightarrow> if v = dotdot then norm_segs allowAbove (if allowAbove then dotdot # acc else acc) ws
                     else norm_segs allowAbove vs ws)
      else norm_segs allowAbove (w # acc) ws)"

definition is_absolute :: "string \<Rightarrow> bool" where
  "is_absolute p \<longleftrightarrow> starts_with ''/'' p"

definition path_normalize :: "string \<Rightarrow> string" where
  "path_normalize p =
     (if p = [] then ''.''
      else let absolute = is_absolute p;
               trailing = ends_with ''/'' p;
               q = join_with ''/'' (norm_segs (\<not> absolute) [] (split_on slash p))
           in if q = [] then (if absolute then ''/'' else if trailing then ''./'' else ''.'')
              else (if absolute then ''/'' else []) @ q @ (if trailing then ''/'' else []))"

definition path_join :: "string list \<Rightarrow> string" where
  "path_join ps =
     (let qs = filter (\<lambda>p. p \<noteq> []) ps in
      if qs = [] then ''.'' else path_normalize (join_with ''/'' qs))"

definition resolve_segs :: "string \<Rightarrow> string \<Rightarrow> string list" where
  "resolve_segs cwd p =
     norm_segs False [] (split_on slash (if is_absolute p then p else cwd @ ''/'' @ p))"

definition render_path :: "string list \<Rightarrow> string" where
  "render_path xs = ''/'' @ join_with ''/'' xs"

text \<open>\<open>path.resolve(p)\<close> in a process whose working directory is the absolute \<open>cwd\<close>.\<close>

definition path_resolve :: "string \<Rightarrow> string \<Rightarrow> string" where
  "path_resolve cwd p = render_path (resolve_segs cwd p)"

fun drop_trailing_slashes :: "string \<Rightarrow> string" where
  "drop_trailing_slashes s = rev (dropWhile (\<lambda>c. c = slash) (rev s))"

definition path_basename :: "string \<Rightarrow> string" where
  "path_basename p = last (split_on slash (drop_trailing_slashes p))"

subsection \<open>The containment check\<close>

definition isPathWithinWorkspace :: "string \<Rightarrow> string \<Rightarrow> bool" where
  "isPathWithinWorkspace resolvedPath workspaceRoot =
     (let normalizedWorkspace = (if ends_with ''/'' workspaceRoot then workspaceRoot else workspaceRoot @ ''/'');
          normalizedPath = (if ends_with ''/'' resolvedPath then resolvedPath else resolvedPath @ ''/'')
      in starts_with normalizedWorkspace normalizedPath \<or> resolvedPath = workspaceRoot)"

record path_validation =
  pv_valid :: bool
  pv_resolvedPath :: string
  pv_error :: "string option"

definition resolveAndValidatePath :: "string \<Rightarrow> string \<Rightarrow> string \<Rightarrow> path_validation" where
  "resolveAndValidatePath cwd targetPath workspaceRoot =
     (let fullPath = path_join [workspaceRoot, targetPath];
          resolvedPath = path_resolve cwd fullPath;
          resolvedWorkspace = path_resolve cwd workspaceRoot
      in if \<not> isPathWithinWorkspace resolvedPath resolvedWorkspace
         then \<lparr>pv_valid = False, pv_resolvedPath = resolvedPath, pv_error = Some ''Path outside workspace''\<rparr>
         else \<lparr>pv_valid = True, pv_resolvedPath = resolvedPath, pv_error = None\<rparr>)"

subsection \<open>Resolved paths are clean\<close>

definition clean_seg :: "string \<Rightarrow> bool" where
  "clean_seg w \<longleftrightarrow> w \<noteq> [] \<and> w \<noteq> ''.'' \<and> w \<noteq> dotdot \<and> slash \<notin> set w"

lemma norm_segs_clean:
  assumes "\<forall>w\<in>set ws. slash \<notin> set w" and "\<forall>w\<in>set acc. clean_seg w"
  shows "\<forall>w\<in>set (norm_segs False acc ws). clean_seg w"
  using assms
proof (induction ws arbitrary: acc)
  case (Cons w ws)
  then have ws: "\<forall>w\<in>set ws. slash \<notin> set w" by simp
  note IH = Cons.IH [OF ws]
  consider "w = [] \<or> w = ''.''" | "w = dotdot" "acc = []" | v vs where "w = dotdot" "acc = v # vs"
    | "w \<noteq> []" "w \<noteq> ''.''" "w \<noteq> dotdot"
    by (cases acc) blast+
  then show ?case
  proof cases
    case 1
    then show ?thesis using IH [OF Cons.prems(2)] by simp
  next
    case 2
    then show ?thesis using IH [of "[]"] by simp
  next
    case 3
    then have "v \<noteq> dotdot" using Cons.prems(2) by (simp add: clean_seg_def)
    moreover have "\<forall>w\<in>set (norm_segs False vs ws). clean_seg w"
      using Cons.prems(2) 3 by (intro IH) auto
    ultimately show ?thesis using 3 by simp
  next
    case 4
    then have "clean_seg w" using Cons.prems(1) by (simp add: clean_seg_def)
    then have "\<forall>w\<in>set (norm_segs False (w # acc) ws). clean_seg w"
      using Cons.prems(2) by (intro IH) auto
    then show ?thesis using 4 by simp
  qed
qed simp

lemma resolve_segs_clean: "w \<in> set (resolve_segs cwd p) \<Longrightarrow> clean_seg w"
proof -
  have "\<forall>w\<in>set (resolve_segs cwd p). clean_seg w"
    unfolding resolve_segs_def by (rule norm_segs_clean) (auto dest: split_on_pieces)
  then show "w \<in> set (resolve_segs cwd p) \<Longrightarrow> clean_seg w" by blast
qed

text \<open>A rendered path with its final separator is its segments, each closed by a separator.\<close>

definition closed_path :: "string list \<Rightarrow> string" where
  "closed_path xs = ''/'' @ concat (map (\<lambda>w. w @ ''/'') xs)"

lemma closed_path_join: "xs \<noteq> [] \<Longrightarrow> join_with ''/'' xs @ ''/'' = concat (map (\<lambda>w. w @ ''/'') xs)"
  by (induction xs rule: induct_list012) auto

lemma ends_with_slash: "ends_with ''/'' s \<longleftrightarrow> s \<noteq> [] \<and> last s = slash"
  by (cases s rule: rev_cases) (auto simp: ends_with_def)

lemma join_with_last:
  "xs \<noteq> [] \<Longrightarrow> \<forall>w\<in>set xs. clean_seg w \<Longrightarrow>
     join_with ''/'' xs \<noteq> [] \<and> last (join_with ''/'' xs) \<noteq> slash"
proof (induction xs rule: induct_list012)
  case (2 w)
  then have "last w \<in> set w" by (simp add: clean_seg_def)
  moreover have "slash \<notin> set w" "w \<noteq> []" using 2 by (simp_all add: clean_seg_def)
  ultimately have "last w \<noteq> slash" by metis
  then show ?case using \<open>w \<noteq> []\<close> by simp
next
  case (3 w v ws)
  then have "join_with ''/'' (v # ws) \<noteq> []" "last (join_with ''/'' (v # ws)) \<noteq> slash" by auto
  then show ?case by simp
qed simp

lemma render_path_closed:
  assumes "\<forall>w\<in>set xs. clean_seg w"
  shows "(if ends_with ''/'' (render_path xs) then render_path xs else render_path xs @ ''/'') = closed_path xs"
proof (cases "xs = []")
  case True
  then show ?thesis by (simp add: render_path_def closed_path_def ends_with_slash)
next
  case False
  then have "\<not> ends_with ''/'' (render_path xs)"
    using join_with_last [OF False assms] by (simp add: ends_with_slash render_path_def)
  then show ?thesis
    using closed_path_join [OF False] by (simp add: render_path_def closed_path_def)
qed

lemma closed_segs_prefix:
  assumes "\<forall>w\<in>set xs. slash \<notin> set w" and "\<forall>w\<in>set ys. slash \<notin> set w"
    and "concat (map (\<lambda>w. w @ ''/'') xs) = concat (map (\<lambda>w. w @ ''/'') ys) @ t"
  shows "prefix ys xs"
  using assms
proof (induction ys arbitrary: xs)
  case (Cons y ys)
  show ?case
  proof (cases xs)
    case (Cons x xs')
    have "x @ slash # concat (map (\<lambda>w. w @ ''/'') xs') = y @ slash # (concat (map (\<lambda>w. w @ ''/'') ys) @ t)"
      using Cons.prems(3) Cons by simp
    moreover have "slash \<notin> set x" "slash \<notin> set y" using Cons.prems(1,2) Cons by simp_all
    ultimately have "x = y" "concat (map (\<lambda>w. w @ ''/'') xs') = concat (map (\<lambda>w. w @ ''/'') ys) @ t"
      by (auto dest: sep_split)
    then show ?thesis using Cons Cons.IH [of xs'] Cons.prems by simp
  qed (use Cons.prems in simp)
qed simp

lemma closed_path_prefix:
  assumes "\<forall>w\<in>set xs. clean_seg w" and "\<forall>w\<in>set ys. clean_seg w"
  shows "starts_with (closed_path ys) (closed_path xs) \<longleftrightarrow> prefix ys xs"
proof
  assume "starts_with (closed_path ys) (closed_path xs)"
  then obtain t where "concat (map (\<lambda>w. w @ ''/'') xs) = concat (map (\<lambda>w. w @ ''/'') ys) @ t"
    by (auto simp: starts_with_iff closed_path_def)
  then show "prefix ys xs"
    using assms by (intro closed_segs_prefix) (auto simp: clean_seg_def)
next
  assume "prefix ys xs"
  then show "starts_with (closed_path ys) (closed_path xs)"
    by (auto simp: prefix_def starts_with_iff closed_path_def)
qed

lemma within_render:
  assumes "\<forall>w\<in>set xs. clean_seg w" and "\<forall>w\<in>set ys. clean_seg w"
  shows "isPathWithinWorkspace (render_path xs) (render_path ys) \<longleftrightarrow> prefix ys xs"
proof -
  have "xs = ys" if "render_path xs = render_path ys"
  proof -
    have "closed_path xs = closed_path ys"
      using render_path_closed [OF assms(1)] render_path_closed [OF assms(2)] that by metis
    then have "prefix ys xs" "prefix xs ys"
      using closed_path_prefix [OF assms] closed_path_prefix [OF assms(2,1)]
      by (auto simp: starts_with_def)
    then show ?thesis by (simp add: prefix_order.antisym)
  qed
  then show ?thesis
    unfolding isPathWithinWorkspace_def Let_def
      render_path_closed [OF assms(1)] render_path_closed [OF assms(2)] closed_path_prefix [OF assms]
    by auto
qed

lemma within_resolved:
  "isPathWithinWorkspace (path_resolve cwd p) (path_resolve cwd' w)
     \<longleftrightarrow> prefix (resolve_segs cwd' w) (resolve_segs cwd p)"
  unfolding path_resolve_def by (rule within_render) (auto dest: resolve_segs_clean)

subsection \<open>Joining and resolving is walking from the root\<close>

lemma split_on_append: "split_on d (s @ d # t) = split_on d s @ split_on d t"
  by (induction s) (auto split: list.splits)

lemma split_on_join:
  assumes "xs \<noteq> []" and "\<forall>w\<in>set xs. slash \<notin> set w"
  shows "split_on slash (join_with ''/'' xs) = xs"
  using assms
proof (induction xs rule: induct_list012)
  case (3 w v ws)
  then show ?case by (simp add: split_on_append_sep)
qed (auto simp: split_on_no_sep)

lemma norm_segs_append:
  "norm_segs False acc (xs @ ys) = norm_segs False (rev (norm_segs False acc xs)) ys"
  by (induction False acc xs rule: norm_segs.induct) (auto split: list.splits)

lemma norm_segs_clean_id: "\<forall>w\<in>set xs. clean_seg w \<Longrightarrow> norm_segs False acc xs = rev acc @ xs"
  by (induction xs arbitrary: acc) (auto simp: clean_seg_def)

lemma norm_segs_empty_end: "norm_segs False acc (xs @ [[]]) = norm_segs False acc xs"
  by (simp add: norm_segs_append)

lemma resolve_normalized:
  assumes "is_absolute p"
  shows "is_absolute (path_normalize p) \<and> resolve_segs cwd (path_normalize p) = resolve_segs cwd p"
proof -
  define xs where "xs = norm_segs False [] (split_on slash p)"
  have clean: "\<forall>w\<in>set xs. clean_seg w"
    unfolding xs_def by (rule norm_segs_clean) (auto dest: split_on_pieces)
  then have noslash: "\<forall>w\<in>set xs. slash \<notin> set w" by (auto simp: clean_seg_def)
  have p: "p \<noteq> []" using assms by (auto simp: is_absolute_def starts_with_def)
  have abs: "is_absolute (slash # s)" for s
    by (simp add: is_absolute_def starts_with_def)
  have segs: "resolve_segs cwd p = xs"
    using assms by (simp add: resolve_segs_def xs_def)
  have norm: "norm_segs False [] (split_on slash (slash # s)) = norm_segs False [] (split_on slash s)" for s
    by simp
  show ?thesis
  proof (cases "xs = []")
    case True
    then have "path_normalize p = ''/''"
      using p assms by (simp add: path_normalize_def Let_def xs_def)
    then show ?thesis using abs [of "[]"] segs True by (simp add: resolve_segs_def)
  next
    case False
    have q: "join_with ''/'' xs \<noteq> []" using join_with_last [OF False clean] by blast
    have "norm_segs False [] (split_on slash (join_with ''/'' xs)) = xs"
      by (simp add: split_on_join [OF False noslash] norm_segs_clean_id [OF clean])
    moreover have "norm_segs False [] (split_on slash (join_with ''/'' xs @ ''/'')) = xs"
      using split_on_append [of slash "join_with ''/'' xs" "[]"]
      by (simp add: split_on_join [OF False noslash] norm_segs_empty_end norm_segs_clean_id [OF clean])
    moreover have "path_normalize p = slash # join_with ''/'' xs \<or>
        path_normalize p = slash # join_with ''/'' xs @ ''/''"
      using p assms q by (auto simp: path_normalize_def Let_def xs_def)
    ultimately show ?thesis
      using abs segs by (auto simp: resolve_segs_def)
  qed
qed

lemma resolve_joined:
  assumes "is_absolute root"
  shows "resolve_segs cwd (path_join [root, target]) =
    norm_segs False (rev (resolve_segs cwd root)) (split_on slash target)"
proof -
  have root: "root \<noteq> []" using assms by (auto simp: is_absolute_def starts_with_def)
  show ?thesis
  proof (cases "target = []")
    case True
    then have "path_join [root, target] = path_normalize root"
      using root by (simp add: path_join_def)
    then show ?thesis using resolve_normalized [OF assms] True by simp
  next
    case False
    have abs: "is_absolute (root @ ''/'' @ target)"
      using assms by (auto simp: is_absolute_def starts_with_iff)
    have "path_join [root, target] = path_normalize (root @ ''/'' @ target)"
      using root False by (simp add: path_join_def)
    then have "resolve_segs cwd (path_join [root, target]) =
        norm_segs False [] (split_on slash root @ split_on slash target)"
      using resolve_normalized [OF abs, of cwd] abs split_on_append [of slash root target]
      by (auto simp: resolve_segs_def)
    then show ?thesis
      using assms by (simp add: norm_segs_append resolve_segs_def)
  qed
qed

subsection \<open>Properties\<close>

text \<open>
  C30. The containment check on two resolved paths is exact: it accepts precisely when the
  path segments of the workspace are an initial part of the segments of the path, so neither
  a sibling directory whose name merely extends the workspace's nor a dot-dot can pass.
\<close>

theorem isPathWithinWorkspace_exact:
  "isPathWithinWorkspace (path_resolve cwd p) (path_resolve cwd' w)
     \<longleftrightarrow> prefix (resolve_segs cwd' w) (resolve_segs cwd p)"
  by (rule within_resolved)

text \<open>
  Path traversal: for an absolute workspace root, \<open>resolveAndValidatePath\<close> accepts a
  target exactly when walking the target's segments from the root ends at or below the
  root, and what it returns is then a path of the root's segments followed by ordinary
  names, none of them empty, dot or dot-dot.
\<close>

theorem resolveAndValidatePath_no_traversal:
  assumes "is_absolute root"
  shows "(pv_valid (resolveAndValidatePath cwd target root) \<longleftrightarrow>
      prefix (resolve_segs cwd root)
        (norm_segs False (rev (resolve_segs cwd root)) (split_on slash target))) \<and>
    (pv_valid (resolveAndValidatePath cwd target root) \<longrightarrow>
      (\<exists>rest. pv_resolvedPath (resolveAndValidatePath cwd target root)
          = render_path (resolve_segs cwd root @ rest) \<and> (\<forall>w\<in>set rest. clean_seg w)))"
proof (intro conjI impI)
  show "pv_valid (resolveAndValidatePath cwd target root) \<longleftrightarrow>
      prefix (resolve_segs cwd root)
        (norm_segs False (rev (resolve_segs cwd root)) (split_on slash target))"
    by (simp add: resolveAndValidatePath_def Let_def within_resolved resolve_joined [OF assms])
  assume "pv_valid (resolveAndValidatePath cwd target root)"
  then obtain rest where "resolve_segs cwd (path_join [root, target]) = resolve_segs cwd root @ rest"
    by (auto simp: resolveAndValidatePath_def Let_def within_resolved prefix_def split: if_splits)
  moreover from this have "\<forall>w\<in>set rest. clean_seg w"
    by (metis Un_iff resolve_segs_clean set_append)
  ultimately show "\<exists>rest. pv_resolvedPath (resolveAndValidatePath cwd target root)
          = render_path (resolve_segs cwd root @ rest) \<and> (\<forall>w\<in>set rest. clean_seg w)"
    by (auto simp: resolveAndValidatePath_def Let_def path_resolve_def)
qed

theorem resolveAndValidatePath_no_traversal_witness:
  "\<not> pv_valid (resolveAndValidatePath ''/'' ''a/../../s2/x'' ''/srv/s'') \<and>
   pv_valid (resolveAndValidatePath ''/'' ''a/../b'' ''/srv/s'')"
proof -
  have abs: "is_absolute ''/srv/s''" by code_simp
  have "resolve_segs ''/'' ''/srv/s'' = [''srv'', ''s'']" by code_simp
  moreover have "norm_segs False [''s'', ''srv''] (split_on slash ''a/../../s2/x'') = [''srv'', ''s2'', ''x'']"
    and "norm_segs False [''s'', ''srv''] (split_on slash ''a/../b'') = [''srv'', ''s'', ''b'']" by code_simp+
  ultimately show ?thesis
    using resolveAndValidatePath_no_traversal [OF abs] by simp
qed

end
