(* ===== verification/PoolConfig.thy ===== *)
theory PoolConfig
  imports Paths Complex_Main
begin

section \<open>Worker-pool configuration and credentials\<close>

text \<open>
  \<open>packages/worker-pool/src/config.ts\<close> (\<open>createConfig\<close>, \<open>getSocketPath\<close>,
  \<open>resolveNodeExecutablePath\<close>), the defaults it takes from
  \<open>packages/shared/src/constants.ts\<close>, the data types of \<open>types.ts\<close> the pool passes around,
  and \<open>validateCredentials\<close> of \<open>manager.ts\<close>. A JavaScript number is a \<open>jsnum\<close>: the values
  that matter here are the rationals a configuration can name, the infinities and
  \<open>NaN\<close>, whose comparisons are all false.
\<close>

subsection \<open>Numbers\<close>

datatype jsnum = Fin rat | PosInf | NegInf | NaN

fun num_isInteger :: "jsnum \<Rightarrow> bool" where
  "num_isInteger (Fin q) \<longleftrightarrow> of_int \<lfloor>q\<rfloor> = q"
| "num_isInteger _ \<longleftrightarrow> False"

fun num_isFinite :: "jsnum \<Rightarrow> bool" where
  "num_isFinite (Fin q) \<longleftrightarrow> True"
| "num_isFinite _ \<longleftrightarrow> False"

fun num_lt :: "jsnum \<Rightarrow> jsnum \<Rightarrow> bool" where
  "num_lt (Fin p) (Fin q) \<longleftrightarrow> p < q"
| "num_lt NaN _ \<longleftrightarrow> False"
| "num_lt _ NaN \<longleftrightarrow> False"
| "num_lt NegInf y \<longleftrightarrow> y \<noteq> NegInf"
| "num_lt PosInf _ \<longleftrightarrow> False"
| "num_lt (Fin p) PosInf \<longleftrightarrow> True"
| "num_lt (Fin p) NegInf \<longleftrightarrow> False"

fun num_le :: "jsnum \<Rightarrow> jsnum \<Rightarrow> bool" where
  "num_le NaN _ \<longleftrightarrow> False"
| "num_le _ NaN \<longleftrightarrow> False"
| "num_le x y \<longleftrightarrow> \<not> num_lt y x"

abbreviation num_int :: "int \<Rightarrow> jsnum" where
  "num_int n \<equiv> Fin (of_int n)"

lemma num_isIntegerE: "num_isInteger x \<Longrightarrow> \<exists>n. x = num_int n"
  by (cases x) auto

lemma num_isInteger_int [simp]: "num_isInteger (num_int n)"
  by simp

subsection \<open>Data types\<close>

record workspace_credentials =
  cr_uid :: jsnum
  cr_gid :: jsnum
  cr_cwd :: string
  cr_workspaceKey :: string

record query_options =
  opt_requestId :: string
  opt_ownerKey :: string
  opt_payload :: string

text \<open>
  \<open>WorkerPoolConfig\<close>, over the type \<open>'i\<close> of its integer fields and \<open>'r\<close> of its ratios:
  before validation both are \<open>jsnum\<close>, afterwards \<open>int\<close> and \<open>rat\<close>.
\<close>

record ('i, 'r) pool_config =
  maxWorkers :: 'i
  inactivityTimeoutMs :: 'i
  maxAgeMs :: 'i
  evictionStrategy :: string
  workerEntryPath :: string
  nodeExecutablePath :: string
  socketDir :: string
  readyTimeoutMs :: 'i
  shutdownTimeoutMs :: 'i
  cancelTimeoutMs :: 'i
  maxWorkersPerUser :: 'i
  maxWorkersPerWorkspace :: 'i
  maxQueuedPerUser :: 'i
  maxQueuedPerWorkspace :: 'i
  maxQueuedGlobal :: 'i
  workersPerCore :: 'r
  loadShedThreshold :: 'r
  pidPressureThresholdRatio :: 'r
  pidPressureMinHeadroom :: 'i
  pidPressureCheckIntervalMs :: 'i
  killGraceMs :: 'i
  orphanSweepIntervalMs :: 'i
  orphanMaxAgeMs :: 'i

type_synonym raw_config = "(jsnum, jsnum) pool_config"
type_synonym config = "(int, rat) pool_config"

definition raw_of :: "config \<Rightarrow> raw_config" where
  "raw_of c =
     \<lparr>maxWorkers = num_int (maxWorkers c), inactivityTimeoutMs = num_int (inactivityTimeoutMs c),
      maxAgeMs = num_int (maxAgeMs c), evictionStrategy = evictionStrategy c,
      workerEntryPath = workerEntryPath c, nodeExecutablePath = nodeExecutablePath c,
      socketDir = socketDir c, readyTimeoutMs = num_int (readyTimeoutMs c),
      shutdownTimeoutMs = num_int (shutdownTimeoutMs c), cancelTimeoutMs = num_int (cancelTimeoutMs c),
      maxWorkersPerUser = num_int (maxWorkersPerUser c),
      maxWorkersPerWorkspace = num_int (maxWorkersPerWorkspace c),
      maxQueuedPerUser = num_int (maxQueuedPerUser c),
      maxQueuedPerWorkspace = num_int (maxQueuedPerWorkspace c),
      maxQueuedGlobal = num_int (maxQueuedGlobal c), workersPerCore = Fin (workersPerCore c),
      loadShedThreshold = Fin (loadShedThreshold c),
      pidPressureThresholdRatio = Fin (pidPressureThresholdRatio c),
      pidPressureMinHeadroom = num_int (pidPressureMinHeadroom c),
      pidPressureCheckIntervalMs = num_int (pidPressureCheckIntervalMs c),
      killGraceMs = num_int (killGraceMs c), orphanSweepIntervalMs = num_int (orphanSweepIntervalMs c),
      orphanMaxAgeMs = num_int (orphanMaxAgeMs c)\<rparr>"

subsection \<open>Defaults\<close>

definition WORKER_POOL :: "string \<Rightarrow> string \<Rightarrow> config" where
  "WORKER_POOL entryPath nodePath =
     \<lparr>maxWorkers = 20, inactivityTimeoutMs = 15 * 60 * 1000, maxAgeMs = 60 * 60 * 1000,
      evictionStrategy = ''lru'', workerEntryPath = entryPath, nodeExecutablePath = nodePath,
      socketDir = ''/tmp/claude-workers'', readyTimeoutMs = 30000, shutdownTimeoutMs = 10000,
      cancelTimeoutMs = 500, maxWorkersPerUser = 3, maxWorkersPerWorkspace = 6,
      maxQueuedPerUser = 10, maxQueuedPerWorkspace = 20, maxQueuedGlobal = 200,
      workersPerCore = 3 / 2, loadShedThreshold = 2, pidPressureThresholdRatio = 85 / 100,
      pidPressureMinHeadroom = 64, pidPressureCheckIntervalMs = 2000, killGraceMs = 1500,
      orphanSweepIntervalMs = 60000, orphanMaxAgeMs = 5 * 60 * 1000\<rparr>"

definition DEFAULT_CONFIG :: "string \<Rightarrow> string \<Rightarrow> raw_config" where
  "DEFAULT_CONFIG entryPath nodePath = raw_of (WORKER_POOL entryPath nodePath)"

text \<open>\<open>which\<close> is the output of \<open>which node\<close> (\<open>None\<close>: the command failed), \<open>executable\<close> what
  \<open>accessSync\<close> accepts.\<close>

definition resolveNodeExecutablePath :: "string \<Rightarrow> string option \<Rightarrow> (string \<Rightarrow> bool) \<Rightarrow> string + string" where
  "resolveNodeExecutablePath currentExecPath which executable =
     (let execName = to_lower (path_basename currentExecPath);
          failure = Inl (''Worker subprocesses require Node but no 'node' binary was found in PATH. '' @
                         ''Install Node or set nodeExecutablePath explicitly.'')
      in if execName = ''node'' \<or> execName = ''node.exe'' then Inr currentExecPath
         else case which of
                None \<Rightarrow> failure
              | Some out \<Rightarrow>
                  let resolved = trim out in
                  if resolved = [] then failure
                  else if \<not> executable resolved then failure
                  else Inr resolved)"

subsection \<open>createConfig\<close>

datatype config_error =
    InvalidNumber string jsnum string
  | InvalidStrategy string
  | InvalidText string

fun first_error :: "(bool \<times> 'e) list \<Rightarrow> 'e option" where
  "first_error [] = None"
| "first_error ((bad, e) # cs) = (if bad then Some e else first_error cs)"

definition bad_positive_int :: "string \<Rightarrow> jsnum \<Rightarrow> bool \<times> config_error" where
  "bad_positive_int name x =
     (\<not> num_isInteger x \<or> num_lt x (num_int 1), InvalidNumber name x ''must be positive integer'')"

definition bad_nonneg_int :: "string \<Rightarrow> jsnum \<Rightarrow> bool \<times> config_error" where
  "bad_nonneg_int name x =
     (\<not> num_isInteger x \<or> num_lt x (num_int 0), InvalidNumber name x ''must be non-negative integer'')"

definition bad_positive_num :: "string \<Rightarrow> jsnum \<Rightarrow> bool \<times> config_error" where
  "bad_positive_num name x =
     (\<not> num_isFinite x \<or> num_le x (num_int 0), InvalidNumber name x ''must be positive number'')"

definition config_checks :: "raw_config \<Rightarrow> (bool \<times> config_error) list" where
  "config_checks c =
     [bad_positive_int ''maxWorkers'' (maxWorkers c),
      bad_nonneg_int ''inactivityTimeoutMs'' (inactivityTimeoutMs c),
      bad_nonneg_int ''maxAgeMs'' (maxAgeMs c),
      bad_positive_int ''readyTimeoutMs'' (readyTimeoutMs c),
      bad_positive_int ''shutdownTimeoutMs'' (shutdownTimeoutMs c),
      bad_positive_int ''cancelTimeoutMs'' (cancelTimeoutMs c),
      bad_positive_int ''maxWorkersPerUser'' (maxWorkersPerUser c),
      bad_positive_int ''maxWorkersPerWorkspace'' (maxWorkersPerWorkspace c),
      bad_positive_int ''maxQueuedPerUser'' (maxQueuedPerUser c),
      bad_positive_int ''maxQueuedPerWorkspace'' (maxQueuedPerWorkspace c),
      bad_positive_int ''maxQueuedGlobal'' (maxQueuedGlobal c),
      bad_positive_num ''workersPerCore'' (workersPerCore c),
      bad_positive_num ''loadShedThreshold'' (loadShedThreshold c),
      (\<not> num_isFinite (pidPressureThresholdRatio c) \<or> num_le (pidPressureThresholdRatio c) (num_int 0) \<or>
         num_le (num_int 1) (pidPressureThresholdRatio c),
       InvalidNumber ''pidPressureThresholdRatio'' (pidPressureThresholdRatio c) ''must be > 0 and < 1''),
      bad_positive_int ''pidPressureMinHeadroom'' (pidPressureMinHeadroom c),
      bad_positive_int ''pidPressureCheckIntervalMs'' (pidPressureCheckIntervalMs c),
      bad_positive_int ''killGraceMs'' (killGraceMs c),
      bad_positive_int ''orphanSweepIntervalMs'' (orphanSweepIntervalMs c),
      bad_positive_int ''orphanMaxAgeMs'' (orphanMaxAgeMs c),
      (evictionStrategy c \<notin> set [''lru'', ''oldest'', ''least_used''], InvalidStrategy (evictionStrategy c)),
      (workerEntryPath c = [], InvalidText ''workerEntryPath must be a non-empty string''),
      (nodeExecutablePath c = [], InvalidText ''nodeExecutablePath must be a non-empty string''),
      (\<not> starts_with ''/'' (nodeExecutablePath c), InvalidText ''nodeExecutablePath must be an absolute path''),
      (socketDir c = [], InvalidText ''socketDir must be a non-empty string'')]"

text \<open>\<open>overrides\<close> is what the object spread does to the defaults.\<close>

definition createConfig :: "raw_config \<Rightarrow> (raw_config \<Rightarrow> raw_config) \<Rightarrow> config_error + raw_config" where
  "createConfig defaults overrides =
     (let config = overrides defaults in
      case first_error (config_checks config) of
        Some e \<Rightarrow> Inl e
      | None \<Rightarrow> Inr config)"

definition is_key_char :: "char \<Rightarrow> bool" where
  "is_key_char c \<longleftrightarrow> (let n = of_char c :: nat in
     (97 \<le> n \<and> n \<le> 122) \<or> (65 \<le> n \<and> n \<le> 90) \<or> (48 \<le> n \<and> n \<le> 57) \<or> n = 95 \<or> n = 45)"

definition safe_key :: "string \<Rightarrow> string" where
  "safe_key k = map (\<lambda>c. if is_key_char c then c else CHR ''_'') k"

definition getSocketPath :: "string \<Rightarrow> string \<Rightarrow> string" where
  "getSocketPath dir workspaceKey = path_join [dir, ''worker-'' @ safe_key workspaceKey @ ''.sock'']"

subsection \<open>validateCredentials\<close>

text \<open>
  The configured roots are parameters. The result is the list of complaints, in the code's
  order; the code throws when it is not empty.
\<close>

datatype credential_error = BadUid | BadGid | CwdEmpty | CwdRelative | CwdOutside | KeyEmpty

record server_paths =
  SITES_ROOT :: string
  E2B_SCRATCH_ROOT :: string
  SUPERADMIN_WORKSPACE :: string

definition validateCredentials :: "server_paths \<Rightarrow> string \<Rightarrow> workspace_credentials \<Rightarrow> credential_error list" where
  "validateCredentials P cwd c =
     (if \<not> num_isInteger (cr_uid c) \<or> num_lt (cr_uid c) (num_int 0) then [BadUid] else []) @
     (if \<not> num_isInteger (cr_gid c) \<or> num_lt (cr_gid c) (num_int 0) then [BadGid] else []) @
     (if cr_cwd c = [] then [CwdEmpty]
      else if \<not> starts_with ''/'' (cr_cwd c) then [CwdRelative]
      else let resolvedCwd = path_resolve cwd (cr_cwd c);
               isWithinSitesRoot = isPathWithinWorkspace resolvedCwd (SITES_ROOT P);
               isWithinE2bScratchRoot = (E2B_SCRATCH_ROOT P \<noteq> [] \<and>
                  isPathWithinWorkspace resolvedCwd (E2B_SCRATCH_ROOT P));
               isSuperadminWorkspace = (resolvedCwd = SUPERADMIN_WORKSPACE P)
           in if \<not> isWithinSitesRoot \<and> \<not> isWithinE2bScratchRoot \<and> \<not> isSuperadminWorkspace
              then [CwdOutside] else []) @
     (if cr_workspaceKey c = [] then [KeyEmpty] else [])"

subsection \<open>Lemmas\<close>

lemma first_error_None: "first_error cs = None \<longleftrightarrow> list_all (\<lambda>c. \<not> fst c) cs"
  by (induction cs rule: first_error.induct) auto

definition config_ok :: "config \<Rightarrow> bool" where
  "config_ok c \<longleftrightarrow>
     1 \<le> maxWorkers c \<and> 0 \<le> inactivityTimeoutMs c \<and> 0 \<le> maxAgeMs c \<and> 1 \<le> readyTimeoutMs c \<and>
     1 \<le> shutdownTimeoutMs c \<and> 1 \<le> cancelTimeoutMs c \<and> 1 \<le> maxWorkersPerUser c \<and>
     1 \<le> maxWorkersPerWorkspace c \<and> 1 \<le> maxQueuedPerUser c \<and> 1 \<le> maxQueuedPerWorkspace c \<and>
     1 \<le> maxQueuedGlobal c \<and> 0 < workersPerCore c \<and> 0 < loadShedThreshold c \<and>
     0 < pidPressureThresholdRatio c \<and> pidPressureThresholdRatio c < 1 \<and>
     1 \<le> pidPressureMinHeadroom c \<and> 1 \<le> pidPressureCheckIntervalMs c \<and> 1 \<le> killGraceMs c \<and>
     1 \<le> orphanSweepIntervalMs c \<and> 1 \<le> orphanMaxAgeMs c \<and>
     evictionStrategy c \<in> {''lru'', ''oldest'', ''least_used''} \<and> workerEntryPath c \<noteq> [] \<and>
     starts_with ''/'' (nodeExecutablePath c) \<and> socketDir c \<noteq> []"

lemma bad_positive_int_iff: "\<not> fst (bad_positive_int n x) \<longleftrightarrow> (\<exists>k. x = num_int k \<and> 1 \<le> k)"
  by (cases x) (auto simp: bad_positive_int_def dest!: num_isIntegerE)

lemma bad_nonneg_int_iff: "\<not> fst (bad_nonneg_int n x) \<longleftrightarrow> (\<exists>k. x = num_int k \<and> 0 \<le> k)"
  by (cases x) (auto simp: bad_nonneg_int_def dest!: num_isIntegerE)

lemma bad_positive_num_iff: "\<not> fst (bad_positive_num n x) \<longleftrightarrow> (\<exists>q. x = Fin q \<and> 0 < q)"
  by (cases x) (auto simp: bad_positive_num_def)

lemma bad_ratio_iff:
  "\<not> (\<not> num_isFinite x \<or> num_le x (num_int 0) \<or> num_le (num_int 1) x) \<longleftrightarrow> (\<exists>q. x = Fin q \<and> 0 < q \<and> q < 1)"
  by (cases x) auto

lemma config_checks_sound:
  assumes "list_all (\<lambda>c. \<not> fst c) (config_checks c)"
  shows "\<exists>v. c = raw_of v \<and> config_ok v"
proof -
  note checks = assms [unfolded config_checks_def list.pred_inject bad_positive_int_iff
      bad_nonneg_int_iff bad_positive_num_iff fst_conv bad_ratio_iff]
  obtain i1 i2 i3 i4 i5 i6 i7 i8 i9 i10 i11 where a:
    "maxWorkers c = num_int i1" "inactivityTimeoutMs c = num_int i2" "maxAgeMs c = num_int i3"
    "readyTimeoutMs c = num_int i4" "shutdownTimeoutMs c = num_int i5" "cancelTimeoutMs c = num_int i6"
    "maxWorkersPerUser c = num_int i7" "maxWorkersPerWorkspace c = num_int i8"
    "maxQueuedPerUser c = num_int i9" "maxQueuedPerWorkspace c = num_int i10"
    "maxQueuedGlobal c = num_int i11"
    "1 \<le> i1" "0 \<le> i2" "0 \<le> i3" "1 \<le> i4" "1 \<le> i5" "1 \<le> i6" "1 \<le> i7" "1 \<le> i8" "1 \<le> i9" "1 \<le> i10" "1 \<le> i11"
    using checks by auto
  obtain r1 r2 r3 j1 j2 j3 j4 j5 where b:
    "workersPerCore c = Fin r1" "loadShedThreshold c = Fin r2" "pidPressureThresholdRatio c = Fin r3"
    "pidPressureMinHeadroom c = num_int j1" "pidPressureCheckIntervalMs c = num_int j2"
    "killGraceMs c = num_int j3" "orphanSweepIntervalMs c = num_int j4" "orphanMaxAgeMs c = num_int j5"
    "0 < r1" "0 < r2" "0 < r3" "r3 < 1" "1 \<le> j1" "1 \<le> j2" "1 \<le> j3" "1 \<le> j4" "1 \<le> j5"
    using checks by auto
  have s: "evictionStrategy c \<in> {''lru'', ''oldest'', ''least_used''}" "workerEntryPath c \<noteq> []"
    "starts_with ''/'' (nodeExecutablePath c)" "socketDir c \<noteq> []"
    using checks by auto
  let ?v = "\<lparr>maxWorkers = i1, inactivityTimeoutMs = i2, maxAgeMs = i3, evictionStrategy = evictionStrategy c,
      workerEntryPath = workerEntryPath c, nodeExecutablePath = nodeExecutablePath c, socketDir = socketDir c,
      readyTimeoutMs = i4, shutdownTimeoutMs = i5, cancelTimeoutMs = i6, maxWorkersPerUser = i7,
      maxWorkersPerWorkspace = i8, maxQueuedPerUser = i9, maxQueuedPerWorkspace = i10, maxQueuedGlobal = i11,
      workersPerCore = r1, loadShedThreshold = r2, pidPressureThresholdRatio = r3, pidPressureMinHeadroom = j1,
      pidPressureCheckIntervalMs = j2, killGraceMs = j3, orphanSweepIntervalMs = j4, orphanMaxAgeMs = j5\<rparr> :: config"
  have "c = raw_of ?v"
    using a b by (simp add: raw_of_def)
  moreover have "config_ok ?v"
    using a b s by (simp add: config_ok_def)
  ultimately show ?thesis by blast
qed

lemma config_checks_complete: "config_ok v \<Longrightarrow> list_all (\<lambda>c. \<not> fst c) (config_checks (raw_of v))"
  unfolding config_checks_def list.pred_inject bad_positive_int_iff bad_nonneg_int_iff bad_positive_num_iff
    fst_conv bad_ratio_iff
  by (auto simp: config_ok_def raw_of_def starts_with_def)

lemma default_config_ok:
  "entry \<noteq> [] \<Longrightarrow> starts_with ''/'' node \<Longrightarrow> config_ok (WORKER_POOL entry node)"
  by (simp add: config_ok_def WORKER_POOL_def)

lemma is_key_char_underscore [simp]: "is_key_char CHR ''_''"
  by (simp add: is_key_char_def)

lemma safe_key_idem: "safe_key (safe_key k) = safe_key k"
  by (simp add: safe_key_def)

lemma safe_key_id_iff: "safe_key k = k \<longleftrightarrow> list_all is_key_char k"
  by (induction k) (auto simp: safe_key_def)

lemma createConfig_Inr:
  "createConfig defaults overrides = Inr c \<longleftrightarrow>
     c = overrides defaults \<and> list_all (\<lambda>c. \<not> fst c) (config_checks c)"
  by (auto simp: createConfig_def Let_def first_error_None [symmetric] split: option.splits)

subsection \<open>Properties\<close>

text \<open>
  \<open>createConfig\<close> accepts exactly the configurations whose integer fields are integers in
  range, whose ratios are finite and in range, whose strategy is one of the three and whose
  paths are given and absolute where they must be: no \<open>NaN\<close>, infinity, fraction or
  out-of-range value reaches the pool, and nothing valid is refused. What it returns is the
  merged configuration unchanged.
\<close>

theorem createConfig_exact:
  "createConfig defaults overrides = Inr c \<longleftrightarrow>
     c = overrides defaults \<and> (\<exists>v. c = raw_of v \<and> config_ok v)"
  unfolding createConfig_Inr by (metis config_checks_complete config_checks_sound)

text \<open>
  The socket path of a workspace is not injective: every key shares its socket file with
  its sanitised form, and the two differ whenever the key has a character other than a
  letter, digit, underscore or hyphen (as every domain name has).
\<close>

theorem getSocketPath_collision:
  "getSocketPath dir k = getSocketPath dir (safe_key k) \<and>
   (safe_key k = k \<longleftrightarrow> list_all is_key_char k)"
  by (simp add: getSocketPath_def safe_key_idem safe_key_id_iff)

text \<open>
  With resolved roots configured, \<open>validateCredentials\<close> has no complaint exactly when uid
  and gid are non-negative integers, the workspace key is not empty, and the working
  directory is an absolute path whose resolution lies at or below the sites root or the
  scratch root, or is the superadmin workspace: a worker never drops privileges into any
  other directory.
\<close>

theorem validateCredentials_exact:
  assumes "SITES_ROOT P = path_resolve cwd sites" and "E2B_SCRATCH_ROOT P = path_resolve cwd scratch"
  shows "validateCredentials P cwd c = [] \<longleftrightarrow>
    (\<exists>u g. cr_uid c = num_int u \<and> 0 \<le> u \<and> cr_gid c = num_int g \<and> 0 \<le> g) \<and>
    cr_workspaceKey c \<noteq> [] \<and> is_absolute (cr_cwd c) \<and>
    (prefix (resolve_segs cwd sites) (resolve_segs cwd (cr_cwd c)) \<or>
     prefix (resolve_segs cwd scratch) (resolve_segs cwd (cr_cwd c)) \<or>
     path_resolve cwd (cr_cwd c) = SUPERADMIN_WORKSPACE P)"
proof -
  have id: "(\<not> num_isInteger x \<or> num_lt x (num_int 0)) \<longleftrightarrow> \<not> (\<exists>n. x = num_int n \<and> 0 \<le> n)" for x
    using bad_nonneg_int_iff [of "[]" x] by (auto simp: bad_nonneg_int_def)
  have "path_resolve cwd scratch \<noteq> []" by (simp add: path_resolve_def render_path_def)
  then show ?thesis
    unfolding validateCredentials_def id assms Let_def within_resolved is_absolute_def
    by (auto simp: starts_with_def)
qed

theorem validateCredentials_exact_witness:
  "validateCredentials \<lparr>SITES_ROOT = ''/srv/sites'', E2B_SCRATCH_ROOT = ''/srv/e2b'', SUPERADMIN_WORKSPACE = ''/root/alive''\<rparr>
     ''/'' \<lparr>cr_uid = Fin 990, cr_gid = Fin 990, cr_cwd = ''/srv/sites/../sites-evil'', cr_workspaceKey = ''k''\<rparr> \<noteq> []"
proof -
  let ?P = "\<lparr>SITES_ROOT = ''/srv/sites'', E2B_SCRATCH_ROOT = ''/srv/e2b'', SUPERADMIN_WORKSPACE = ''/root/alive''\<rparr>"
  let ?c = "\<lparr>cr_uid = Fin 990, cr_gid = Fin 990, cr_cwd = ''/srv/sites/../sites-evil'', cr_workspaceKey = ''k''\<rparr>"
  have roots: "SITES_ROOT ?P = path_resolve ''/'' ''/srv/sites''" "E2B_SCRATCH_ROOT ?P = path_resolve ''/'' ''/srv/e2b''"
    by code_simp+
  have "resolve_segs ''/'' ''/srv/sites'' = [''srv'', ''sites'']" "resolve_segs ''/'' ''/srv/e2b'' = [''srv'', ''e2b'']"
    "resolve_segs ''/'' ''/srv/sites/../sites-evil'' = [''srv'', ''sites-evil'']"
    "path_resolve ''/'' ''/srv/sites/../sites-evil'' = ''/srv/sites-evil''" by code_simp+
  then show ?thesis
    unfolding validateCredentials_exact [OF roots, of ?c] by simp
qed

end
