(* ===== verification/FairQueue.thy ===== *)
theory FairQueue
  imports PoolConfig "HOL-Library.Multiset"
begin

section \<open>The fair request queue of the worker pool\<close>

text \<open>
  \<open>packages/worker-pool/src/manager.ts\<close>: requests that find no worker wait in one queue per
  workspace, in which every owner has a first-in first-out queue and the owners take turns
  (\<open>order\<close>, \<open>cursor\<close>). A \<open>QueuedRequest\<close> is a JavaScript object: \<open>qr_id\<close> is its identity.
  Its abort listener is attached while its id is in \<open>listening\<close>; its promise is settled by
  the entries of \<open>settled\<close>, in order, the first one for an id being the one that counts.
  The queue part of the manager's state is the record \<open>queue_state\<close>, which the theory
  \<open>WorkerPool\<close> extends.
\<close>

record queued_request =
  qr_id :: nat
  qr_credentials :: workspace_credentials
  qr_options :: query_options
  qr_enqueuedAtMs :: int

record workspace_queue =
  wq_owners :: "(string, queued_request list) jsmap"
  wq_order :: "string list"
  wq_cursor :: nat
  wq_total :: int

datatype query_result = QueryResult (success: bool) (result_sessionId: "string option")
  (result_value: "string option") (result_cancelled: bool)

datatype settlement = Resolved query_result | Rejected string

datatype limit_code = QUEUE_FULL | USER_LIMIT | WORKSPACE_LIMIT | LOAD_SHED

record pool_telemetry =
  tm_retiredAfterCancel :: nat
  tm_groupTerminations :: nat
  tm_groupKillEscalations :: nat
  tm_queueRejectedUser :: nat
  tm_queueRejectedWorkspace :: nat
  tm_queueRejectedGlobal :: nat
  tm_loadShedEvents :: nat
  tm_orphansReaped :: nat

record queue_state =
  requestQueues :: "(string, workspace_queue) jsmap"
  queuedByOwner :: "string counters"
  queuedByWorkspace :: "string counters"
  totalQueued :: int
  telemetry :: pool_telemetry
  nextRequestObject :: nat
  listening :: "nat set"
  settled :: "(nat \<times> settlement) list"

abbreviation qr_owner :: "queued_request \<Rightarrow> string" where
  "qr_owner r \<equiv> opt_ownerKey (qr_options r)"

abbreviation qr_workspace :: "queued_request \<Rightarrow> string" where
  "qr_workspace r \<equiv> cr_workspaceKey (qr_credentials r)"

subsection \<open>One workspace queue\<close>

definition emptyWorkspaceQueue :: workspace_queue where
  "emptyWorkspaceQueue = \<lparr>wq_owners = [], wq_order = [], wq_cursor = 0, wq_total = 0\<rparr>"

definition wq_push :: "queued_request \<Rightarrow> workspace_queue \<Rightarrow> workspace_queue" where
  "wq_push r q =
     (case jget (wq_owners q) (qr_owner r) of
        None \<Rightarrow> q\<lparr>wq_owners := jset (qr_owner r) [r] (wq_owners q),
                   wq_order := wq_order q @ [qr_owner r],
                   wq_total := wq_total q + 1\<rparr>
      | Some rs \<Rightarrow> q\<lparr>wq_owners := jset (qr_owner r) (rs @ [r]) (wq_owners q),
                      wq_total := wq_total q + 1\<rparr>)"

text \<open>The loop of \<open>dequeueNextRequest\<close>: the first owner from the cursor on with a request.\<close>

function wq_scan :: "workspace_queue \<Rightarrow> nat \<Rightarrow> (nat \<times> string \<times> queued_request \<times> queued_request list) option" where
  "wq_scan q i =
     (if i < length (wq_order q)
      then let index = (wq_cursor q + i) mod length (wq_order q);
               ownerKey = wq_order q ! index
           in case jget (wq_owners q) ownerKey of
                None \<Rightarrow> wq_scan q (i + 1)
              | Some [] \<Rightarrow> wq_scan q (i + 1)
              | Some (r # rs) \<Rightarrow> Some (index, ownerKey, r, rs)
      else None)"
  by pat_completeness auto
termination by (relation "measure (\<lambda>(q, i). length (wq_order q) - i)") auto

declare wq_scan.simps [simp del]

definition wq_forget_owner :: "string \<Rightarrow> workspace_queue \<Rightarrow> workspace_queue" where
  "wq_forget_owner ownerKey q =
     (let q1 = q\<lparr>wq_owners := jdel ownerKey (wq_owners q)\<rparr> in
      case index_of ownerKey (wq_order q1) of
        None \<Rightarrow> q1
      | Some orderIndex \<Rightarrow>
          let order' = splice_out orderIndex (wq_order q1);
              c = (if orderIndex < wq_cursor q1 then wq_cursor q1 - 1 else wq_cursor q1)
          in q1\<lparr>wq_order := order', wq_cursor := c mod max 1 (length order')\<rparr>)"

definition wq_take :: "nat \<Rightarrow> string \<Rightarrow> queued_request list \<Rightarrow> workspace_queue \<Rightarrow> workspace_queue" where
  "wq_take index ownerKey rest q =
     (let q1 = q\<lparr>wq_owners := jset ownerKey rest (wq_owners q),
                 wq_cursor := (index + 1) mod max 1 (length (wq_order q))\<rparr>;
          q2 = (if rest = [] then wq_forget_owner ownerKey q1 else q1)
      in q2\<lparr>wq_total := wq_total q2 - 1\<rparr>)"

text \<open>\<open>ownerQueue.indexOf(request)\<close>: by object identity.\<close>

definition request_index :: "nat \<Rightarrow> queued_request list \<Rightarrow> nat option" where
  "request_index rid rs = index_of rid (map qr_id rs)"

definition wq_remove :: "string \<Rightarrow> nat \<Rightarrow> queued_request list \<Rightarrow> workspace_queue \<Rightarrow> workspace_queue" where
  "wq_remove ownerKey idx rs q =
     (let rest = splice_out idx rs;
          q1 = q\<lparr>wq_owners := jset ownerKey rest (wq_owners q), wq_total := wq_total q - 1\<rparr>
      in if rest = []
         then let q2 = q1\<lparr>wq_owners := jdel ownerKey (wq_owners q1)\<rparr> in
              case index_of ownerKey (wq_order q2) of
                None \<Rightarrow> q2
              | Some orderIndex \<Rightarrow>
                  let order' = splice_out orderIndex (wq_order q2)
                  in q2\<lparr>wq_order := order',
                        wq_cursor := (if wq_cursor q2 \<ge> length order' then 0 else wq_cursor q2)\<rparr>
         else q1)"

subsection \<open>The queue operations of the manager\<close>

definition getWorkspaceQueue :: "string \<Rightarrow> 'a queue_state_scheme \<Rightarrow> workspace_queue \<times> 'a queue_state_scheme" where
  "getWorkspaceQueue workspaceKey s =
     (case jget (requestQueues s) workspaceKey of
        Some q \<Rightarrow> (q, s)
      | None \<Rightarrow> (emptyWorkspaceQueue,
                 s\<lparr>requestQueues := jset workspaceKey emptyWorkspaceQueue (requestQueues s)\<rparr>))"

definition enqueueRequest :: "string \<Rightarrow> queued_request \<Rightarrow> 'a queue_state_scheme \<Rightarrow> 'a queue_state_scheme" where
  "enqueueRequest workspaceKey r s =
     (let (q, s1) = getWorkspaceQueue workspaceKey s in
      s1\<lparr>requestQueues := jset workspaceKey (wq_push r q) (requestQueues s1),
         totalQueued := totalQueued s1 + 1,
         queuedByOwner := incrementMap (queuedByOwner s1) (qr_owner r),
         queuedByWorkspace := incrementMap (queuedByWorkspace s1) workspaceKey\<rparr>)"

definition store_queue :: "string \<Rightarrow> workspace_queue \<Rightarrow> (string, workspace_queue) jsmap \<Rightarrow> (string, workspace_queue) jsmap" where
  "store_queue workspaceKey q m =
     (if wq_total q \<le> 0 then jdel workspaceKey m else jset workspaceKey q m)"

definition count_dequeued :: "string \<Rightarrow> string \<Rightarrow> nat \<Rightarrow> 'a queue_state_scheme \<Rightarrow> 'a queue_state_scheme" where
  "count_dequeued workspaceKey ownerKey rid s =
     s\<lparr>totalQueued := totalQueued s - 1,
       queuedByOwner := decrementMap (queuedByOwner s) ownerKey,
       queuedByWorkspace := decrementMap (queuedByWorkspace s) workspaceKey,
       listening := listening s - {rid}\<rparr>"

definition dequeueNextRequest :: "string \<Rightarrow> 'a queue_state_scheme \<Rightarrow> queued_request option \<times> 'a queue_state_scheme" where
  "dequeueNextRequest workspaceKey s =
     (case jget (requestQueues s) workspaceKey of
        None \<Rightarrow> (None, s)
      | Some q \<Rightarrow>
          if wq_total q = 0 \<or> wq_order q = [] then (None, s)
          else case wq_scan q 0 of
                 None \<Rightarrow> (None, s)
               | Some (index, ownerKey, r, rest) \<Rightarrow>
                   (Some r,
                    count_dequeued workspaceKey ownerKey (qr_id r)
                      (s\<lparr>requestQueues := store_queue workspaceKey (wq_take index ownerKey rest q) (requestQueues s)\<rparr>)))"

definition removeQueuedRequest :: "string \<Rightarrow> string \<Rightarrow> nat \<Rightarrow> 'a queue_state_scheme \<Rightarrow> bool \<times> 'a queue_state_scheme" where
  "removeQueuedRequest workspaceKey ownerKey rid s =
     (case jget (requestQueues s) workspaceKey of
        None \<Rightarrow> (False, s)
      | Some q \<Rightarrow>
          (case jget (wq_owners q) ownerKey of
             None \<Rightarrow> (False, s)
           | Some rs \<Rightarrow>
               (case request_index rid rs of
                  None \<Rightarrow> (False, s)
                | Some idx \<Rightarrow>
                    (True,
                     count_dequeued workspaceKey ownerKey rid
                       (s\<lparr>requestQueues := store_queue workspaceKey (wq_remove ownerKey idx rs q) (requestQueues s)\<rparr>)))))"

definition settle :: "nat \<Rightarrow> settlement \<Rightarrow> 'a queue_state_scheme \<Rightarrow> 'a queue_state_scheme" where
  "settle rid v s = s\<lparr>settled := settled s @ [(rid, v)]\<rparr>"

definition cancelledResult :: query_result where
  "cancelledResult = QueryResult True None None True"

text \<open>The \<open>onAbort\<close> listener of a queued request.\<close>

definition queuedAbort :: "string \<Rightarrow> string \<Rightarrow> nat \<Rightarrow> 'a queue_state_scheme \<Rightarrow> 'a queue_state_scheme" where
  "queuedAbort workspaceKey ownerKey rid s =
     (let s1 = s\<lparr>listening := listening s - {rid}\<rparr>;
          (removed, s2) = removeQueuedRequest workspaceKey ownerKey rid s1
      in if removed then settle rid (Resolved cancelledResult) s2 else s2)"

datatype queue_outcome =
    LimitError limit_code
  | RequestQueued nat limit_code nat

text \<open>
  \<open>queueRequest\<close>: the three limits in the code's order, each with its telemetry counter, then
  the new request object, the queue position given to \<open>onQueued\<close>, and the abort that may
  already have happened (\<open>aborted\<close>).
\<close>

definition queueRequest ::
  "(int, 'r) pool_config \<Rightarrow> int \<Rightarrow> bool \<Rightarrow> workspace_credentials \<Rightarrow> query_options \<Rightarrow> limit_code
     \<Rightarrow> 'a queue_state_scheme \<Rightarrow> queue_outcome \<times> 'a queue_state_scheme" where
  "queueRequest cfg now aborted creds opts reason s =
     (let workspaceKey = cr_workspaceKey creds; ownerKey = opt_ownerKey opts; t = telemetry s in
      if int (counter_get (queuedByOwner s) ownerKey) \<ge> maxQueuedPerUser cfg
      then (LimitError USER_LIMIT, s\<lparr>telemetry := t\<lparr>tm_queueRejectedUser := tm_queueRejectedUser t + 1\<rparr>\<rparr>)
      else if int (counter_get (queuedByWorkspace s) workspaceKey) \<ge> maxQueuedPerWorkspace cfg
      then (LimitError WORKSPACE_LIMIT,
            s\<lparr>telemetry := t\<lparr>tm_queueRejectedWorkspace := tm_queueRejectedWorkspace t + 1\<rparr>\<rparr>)
      else if totalQueued s \<ge> maxQueuedGlobal cfg
      then (LimitError QUEUE_FULL,
            s\<lparr>telemetry := t\<lparr>tm_queueRejectedGlobal := tm_queueRejectedGlobal t + 1\<rparr>\<rparr>)
      else
        let rid = nextRequestObject s;
            r = \<lparr>qr_id = rid, qr_credentials = creds, qr_options = opts, qr_enqueuedAtMs = now\<rparr>;
            s1 = enqueueRequest workspaceKey r
                   (s\<lparr>nextRequestObject := rid + 1, listening := insert rid (listening s)\<rparr>);
            position = counter_get (queuedByOwner s1) ownerKey;
            s2 = (if aborted then queuedAbort workspaceKey ownerKey rid s1 else s1)
        in (RequestQueued rid reason position, s2))"

definition rejectAllQueuedRequests :: "string \<Rightarrow> 'a queue_state_scheme \<Rightarrow> 'a queue_state_scheme" where
  "rejectAllQueuedRequests reason s =
     (let rs = concat (map (\<lambda>(k, q). concat (map snd (wq_owners q))) (requestQueues s)) in
      s\<lparr>listening := listening s - set (map qr_id rs),
        settled := settled s @ map (\<lambda>r. (qr_id r, Rejected reason)) rs,
        requestQueues := [],
        queuedByOwner := Map.empty,
        queuedByWorkspace := Map.empty,
        totalQueued := 0\<rparr>)"

subsection \<open>Well-formed workspace queues\<close>

text \<open>
  The owners appear in \<open>order\<close> in the order of the map, every owner listed has a request, the
  cursor points at an owner and \<open>total\<close> counts the requests.
\<close>

definition wq_requests :: "workspace_queue \<Rightarrow> queued_request list" where
  "wq_requests q = concat (map snd (wq_owners q))"

definition wq_wf :: "workspace_queue \<Rightarrow> bool" where
  "wq_wf q \<longleftrightarrow> jmap_ok (wq_owners q) \<and> wq_order q = jkeys (wq_owners q) \<and>
     (\<forall>(o', rs)\<in>set (wq_owners q). rs \<noteq> [] \<and> (\<forall>r\<in>set rs. qr_owner r = o')) \<and>
     wq_total q = int (length (wq_requests q))"

definition wq_ok :: "workspace_queue \<Rightarrow> bool" where
  "wq_ok q \<longleftrightarrow> wq_wf q \<and> wq_cursor q < length (wq_order q)"

text \<open>The owners in the order of their turns.\<close>

definition wq_ring :: "workspace_queue \<Rightarrow> (string \<times> queued_request list) list" where
  "wq_ring q = drop (wq_cursor q) (wq_owners q) @ take (wq_cursor q) (wq_owners q)"

lemma wq_wf_empty: "wq_wf emptyWorkspaceQueue"
  by (simp add: wq_wf_def emptyWorkspaceQueue_def wq_requests_def)

lemma jset_middle:
  "k \<notin> fst ` set xs \<Longrightarrow> jset k v (xs @ (k, w) # ys) = xs @ (k, v) # ys"
  by (induction xs) auto

lemma jdel_middle:
  "k \<notin> fst ` set xs \<Longrightarrow> k \<notin> fst ` set ys \<Longrightarrow> jdel k (xs @ (k, w) # ys) = xs @ ys"
  by (induction xs) (auto simp: jdel_absent)

lemma jget_middle: "k \<notin> fst ` set xs \<Longrightarrow> jget (xs @ (k, w) # ys) k = Some w"
  by (induction xs) auto

lemma jget_split:
  assumes "jget m k = Some v"
  obtains xs ys where "m = xs @ (k, v) # ys" and "k \<notin> fst ` set xs"
  using assms
proof (induction m arbitrary: thesis)
  case (Cons p m)
  show ?case
  proof (cases "fst p = k")
    case True
    then show ?thesis using Cons.prems(2) Cons.prems(1) [of "[]" m] by (cases p) auto
  next
    case False
    then have "jget m k = Some v" using Cons.prems(2) by (cases p) auto
    then obtain xs ys where "m = xs @ (k, v) # ys" "k \<notin> fst ` set xs" using Cons.IH by blast
    then show ?thesis using False Cons.prems(1) [of "p # xs" ys] by auto
  qed
qed simp

text \<open>A non-empty well-formed queue, opened at an owner.\<close>

lemma wq_open:
  assumes "wq_wf q" and "wq_owners q = xs @ (k, r # rs) # ys"
  shows "k \<notin> fst ` set xs" and "k \<notin> fst ` set ys" and "wq_order q = jkeys xs @ k # jkeys ys"
    and "jget (wq_owners q) k = Some (r # rs)" and "qr_owner r = k"
proof -
  show k: "k \<notin> fst ` set xs" and "k \<notin> fst ` set ys"
    using assms by (auto simp: wq_wf_def)
  show "wq_order q = jkeys xs @ k # jkeys ys"
    using assms by (simp add: wq_wf_def)
  show "jget (wq_owners q) k = Some (r # rs)"
    unfolding assms(2) by (rule jget_middle [OF k])
  show "qr_owner r = k"
    using assms by (auto simp: wq_wf_def)
qed

lemma wq_open_cursor:
  assumes "wq_ok q"
  obtains xs k r rs ys where "wq_owners q = xs @ (k, r # rs) # ys" and "wq_cursor q = length xs"
proof -
  have "length (wq_order q) = length (wq_owners q)"
    using assms by (auto simp: wq_ok_def wq_wf_def)
  then have c: "wq_cursor q < length (wq_owners q)"
    using assms by (simp add: wq_ok_def)
  obtain k v where e: "wq_owners q ! wq_cursor q = (k, v)" by force
  then have "v \<noteq> []" using assms nth_mem [OF c] by (auto simp: wq_ok_def wq_wf_def)
  then obtain r rs where "v = r # rs" by (cases v) auto
  then show ?thesis
    using that [of "take (wq_cursor q) (wq_owners q)" k r rs "drop (Suc (wq_cursor q)) (wq_owners q)"]
      split_at_nth [OF c] e c by simp
qed

lemma wq_scan_cursor:
  assumes "wq_ok q" and "wq_owners q = xs @ (k, r # rs) # ys" and "wq_cursor q = length xs"
  shows "wq_scan q 0 = Some (length xs, k, r, rs)"
proof -
  have wf: "wq_wf q" using assms(1) by (simp add: wq_ok_def)
  note o = wq_open [OF wf assms(2)]
  show ?thesis
    using o assms(3) by (simp add: wq_scan.simps Let_def nth_append)
qed

lemma wq_take_open:
  assumes "wq_ok q" and "wq_owners q = xs @ (k, r # rs) # ys" and "wq_cursor q = length xs"
  defines "q' \<equiv> wq_take (length xs) k rs q"
  shows "wq_owners q' = xs @ (if rs = [] then [] else [(k, rs)]) @ ys"
    and "wq_order q' = jkeys (wq_owners q')"
    and "wq_cursor q' = (if rs = [] then if ys = [] then 0 else length xs
                          else if ys = [] then 0 else Suc (length xs))"
    and "wq_total q' = wq_total q - 1"
proof -
  have wf: "wq_wf q" using assms(1) by (simp add: wq_ok_def)
  note o = wq_open [OF wf assms(2)]
  have idx: "index_of k (jkeys xs @ k # jkeys ys) = Some (length xs)"
    using index_of_split [of k "jkeys xs" "jkeys ys"] o(1) by simp
  have split: "splice_out (length xs) (jkeys xs @ k # jkeys ys) = jkeys xs @ jkeys ys"
    using splice_out_split [of "jkeys xs" k "jkeys ys"] by simp
  note eqs = q'_def wq_take_def wq_forget_owner_def assms(2) jset_middle [OF o(1)]
    jdel_middle [OF o(1,2)] o(3) idx split
  show "wq_owners q' = xs @ (if rs = [] then [] else [(k, rs)]) @ ys"
    and "wq_order q' = jkeys (wq_owners q')"
    and "wq_total q' = wq_total q - 1"
    by (simp_all add: eqs Let_def)
  show "wq_cursor q' = (if rs = [] then if ys = [] then 0 else length xs
                          else if ys = [] then 0 else Suc (length xs))"
  proof (cases "ys = []")
    case True
    then show ?thesis
      using idx split by (simp add: eqs Let_def)
  next
    case False
    then have "max (Suc 0) (length xs + length ys) = length xs + length ys"
      by (cases ys) auto
    then show ?thesis using False by (simp add: eqs Let_def)
  qed
qed

lemma wq_take_wf:
  assumes "wq_ok q" and "wq_owners q = xs @ (k, r # rs) # ys" and "wq_cursor q = length xs"
  defines "q' \<equiv> wq_take (length xs) k rs q"
  shows "wq_wf q'" and "0 < wq_total q' \<Longrightarrow> wq_ok q'"
    and "mset (wq_requests q) = add_mset r (mset (wq_requests q'))"
    and "wq_ring q = (k, r # rs) # ys @ xs"
    and "wq_ring q' = ys @ xs @ (if rs = [] then [] else [(k, rs)])"
proof -
  have wf: "wq_wf q" using assms(1) by (simp add: wq_ok_def)
  note o = wq_open [OF wf assms(2)]
  note t = wq_take_open [OF assms(1-3), folded q'_def]
  show wf': "wq_wf q'"
    using wf assms(2) t by (auto simp: wq_wf_def wq_requests_def)
  show "mset (wq_requests q) = add_mset r (mset (wq_requests q'))"
    by (simp add: wq_requests_def assms(2) t(1))
  show "wq_ring q = (k, r # rs) # ys @ xs"
    by (simp add: wq_ring_def assms(2,3))
  show "wq_ring q' = ys @ xs @ (if rs = [] then [] else [(k, rs)])"
    by (cases ys) (auto simp: wq_ring_def t)
  show "wq_ok q'" if "0 < wq_total q'"
    using wf' that t by (cases ys) (auto simp: wq_ok_def wq_wf_def wq_requests_def)
qed

lemma wq_push_ok:
  assumes "wq_wf q" and "wq_cursor q < length (wq_order q) \<or> q = emptyWorkspaceQueue"
  shows "wq_ok (wq_push r q)" and "mset (wq_requests (wq_push r q)) = add_mset r (mset (wq_requests q))"
proof -
  have "wq_ok (wq_push r q) \<and> mset (wq_requests (wq_push r q)) = add_mset r (mset (wq_requests q))"
  proof (cases "jget (wq_owners q) (qr_owner r)")
    case None
    then have "qr_owner r \<notin> fst ` set (wq_owners q)" by (simp add: map_of_eq_None_iff)
    then show ?thesis
      using assms None
      by (auto simp: wq_push_def wq_ok_def wq_wf_def wq_requests_def jset_absent emptyWorkspaceQueue_def)
  next
    case (Some rs)
    then obtain xs ys where o: "wq_owners q = xs @ (qr_owner r, rs) # ys" "qr_owner r \<notin> fst ` set xs"
      by (rule jget_split)
    have "wq_owners (wq_push r q) = jset (qr_owner r) (rs @ [r]) (wq_owners q)"
      by (simp add: wq_push_def Some)
    then have "wq_owners (wq_push r q) = xs @ (qr_owner r, rs @ [r]) # ys"
      by (simp add: o(1) jset_middle [OF o(2)])
    moreover have "wq_order (wq_push r q) = wq_order q" "wq_cursor (wq_push r q) = wq_cursor q"
      "wq_total (wq_push r q) = wq_total q + 1"
      by (simp_all add: wq_push_def Some)
    ultimately show ?thesis
      using assms o by (auto simp: wq_ok_def wq_wf_def wq_requests_def emptyWorkspaceQueue_def)
  qed
  then show "wq_ok (wq_push r q)" and "mset (wq_requests (wq_push r q)) = add_mset r (mset (wq_requests q))"
    by blast+
qed

lemma wq_remove_ok:
  assumes "wq_ok q" and "jget (wq_owners q) k = Some rs" and "idx < length rs"
  defines "q' \<equiv> wq_remove k idx rs q"
  shows "wq_wf q'" and "0 < wq_total q' \<Longrightarrow> wq_ok q'"
    and "mset (wq_requests q) = add_mset (rs ! idx) (mset (wq_requests q'))"
proof -
  obtain xs ys where o: "wq_owners q = xs @ (k, rs) # ys" "k \<notin> fst ` set xs"
    using assms(2) by (rule jget_split)
  obtain as r bs where rs: "rs = as @ r # bs" "length as = idx" "rs ! idx = r"
    using id_take_nth_drop [OF assms(3)] assms(3) by (metis length_take min.absorb2 less_imp_le)
  have rest: "splice_out idx rs = as @ bs" unfolding rs(1) using rs(2) by auto
  have k: "k \<notin> fst ` set ys" using assms(1) o by (auto simp: wq_ok_def wq_wf_def)
  have ord: "wq_order q = jkeys xs @ k # jkeys ys" using assms(1) o by (simp add: wq_ok_def wq_wf_def)
  have idx: "index_of k (jkeys xs @ k # jkeys ys) = Some (length xs)"
    using index_of_split [of k "jkeys xs" "jkeys ys"] o(2) by simp
  have split: "splice_out (length xs) (jkeys xs @ k # jkeys ys) = jkeys xs @ jkeys ys"
    using splice_out_split [of "jkeys xs" k "jkeys ys"] by simp
  note eqs = q'_def wq_remove_def rest o(1) jset_middle [OF o(2)] jdel_middle [OF o(2) k] ord idx split
  have own: "wq_owners q' = xs @ (if as @ bs = [] then [] else [(k, as @ bs)]) @ ys"
    and ord': "wq_order q' = jkeys (wq_owners q')" and tot: "wq_total q' = wq_total q - 1"
    by (simp_all add: eqs Let_def)
  have cur: "wq_cursor q' < length (wq_order q') \<or> wq_order q' = []"
    using assms(1) by (auto simp: eqs Let_def wq_ok_def)
  show wf': "wq_wf q'"
    using assms(1) o rs own ord' tot by (auto simp: wq_ok_def wq_wf_def wq_requests_def)
  show "mset (wq_requests q) = add_mset (rs ! idx) (mset (wq_requests q'))"
    using rs o own by (simp add: wq_requests_def)
  show "wq_ok q'" if "0 < wq_total q'"
    using wf' cur that by (auto simp: wq_ok_def wq_wf_def wq_requests_def)
qed

subsection \<open>The invariant of the queue state\<close>

lemma filter_mset_none: "{#x \<in># M. P x#} = {#} \<longleftrightarrow> (\<forall>x\<in>#M. \<not> P x)"
  by (induction M) auto

abbreviation queues_mset :: "(string, workspace_queue) jsmap \<Rightarrow> queued_request multiset" where
  "queues_mset m \<equiv> jsum (\<lambda>k q. mset (wq_requests q)) m"

abbreviation queued :: "'a queue_state_scheme \<Rightarrow> queued_request multiset" where
  "queued s \<equiv> queues_mset (requestQueues s)"

text \<open>The map of queues is well formed; it holds no empty queue.\<close>

definition queues_ok :: "(string, workspace_queue) jsmap \<Rightarrow> bool" where
  "queues_ok m \<longleftrightarrow> jmap_ok m \<and>
     (\<forall>(k, q)\<in>set m. wq_ok q \<and> (\<forall>r\<in>set (wq_requests q). qr_workspace r = k))"

text \<open>The counters are the numbers of queued requests they stand for.\<close>

definition counts_ok :: "queued_request multiset \<Rightarrow> 'a queue_state_scheme \<Rightarrow> bool" where
  "counts_ok M s \<longleftrightarrow> totalQueued s = int (size M) \<and>
     (\<forall>o'. counter_get (queuedByOwner s) o' = size {#r \<in># M. qr_owner r = o'#}) \<and>
     (\<forall>w. counter_get (queuedByWorkspace s) w = size {#r \<in># M. qr_workspace r = w#}) \<and>
     (\<forall>r\<in>#M. qr_id r < nextRequestObject s \<and> count (image_mset qr_id M) (qr_id r) = 1)"

definition queue_ok :: "'a queue_state_scheme \<Rightarrow> bool" where
  "queue_ok s \<longleftrightarrow> queues_ok (requestQueues s) \<and> counts_ok (queued s) s"

definition listeners_ok :: "'a queue_state_scheme \<Rightarrow> bool" where
  "listeners_ok s \<longleftrightarrow> listening s = qr_id ` set_mset (queued s)"

lemma queues_ok_get:
  assumes "queues_ok m" and "jget m k = Some q"
  shows "wq_ok q" and "queues_mset m = mset (wq_requests q) + queues_mset (jdel k m)"
    and "r \<in> set (wq_requests q) \<Longrightarrow> qr_workspace r = k"
proof -
  have "(k, q) \<in> set m" using assms(2) by (rule map_of_SomeD)
  then show "wq_ok q" and "r \<in> set (wq_requests q) \<Longrightarrow> qr_workspace r = k"
    using assms(1) by (auto simp: queues_ok_def)
  show "queues_mset m = mset (wq_requests q) + queues_mset (jdel k m)"
    using jsum_jdel_present [of m k q "\<lambda>k q. mset (wq_requests q)"] assms
    by (simp add: queues_ok_def add.commute)
qed

lemma set_jset_subset: "p \<in> set (jset k v m) \<Longrightarrow> p = (k, v) \<or> p \<in> set m"
  by (induction m) (auto split: if_splits)

lemma set_jdel_subset: "p \<in> set (jdel k m) \<Longrightarrow> p \<in> set m"
  by (induction m) (auto split: if_splits)

lemma queues_mset_jset:
  assumes "jmap_ok m"
  shows "queues_mset (jset k q m) = mset (wq_requests q) + queues_mset (jdel k m)"
proof (cases "jget m k")
  case None
  then have "k \<notin> fst ` set m" by (simp add: map_of_eq_None_iff)
  then show ?thesis by (simp add: jsum_jset_absent jdel_absent)
next
  case (Some q0)
  have "queues_mset (jset k q m) + mset (wq_requests q0) = queues_mset m + mset (wq_requests q)"
    by (rule jsum_jset_present [OF Some])
  moreover have "queues_mset (jdel k m) + mset (wq_requests q0) = queues_mset m"
    by (rule jsum_jdel_present [OF assms Some])
  ultimately have "queues_mset (jset k q m) + mset (wq_requests q0)
      = mset (wq_requests q) + queues_mset (jdel k m) + mset (wq_requests q0)"
    by (simp add: ac_simps)
  then show ?thesis by (rule add_right_imp_eq)
qed

lemma store_queue_ok:
  assumes "queues_ok m" and "wq_wf q" and "0 < wq_total q \<Longrightarrow> wq_ok q"
    and "\<And>r. r \<in> set (wq_requests q) \<Longrightarrow> qr_workspace r = k"
  shows "queues_ok (store_queue k q m)"
    and "queues_mset (store_queue k q m) = mset (wq_requests q) + queues_mset (jdel k m)"
proof -
  have "wq_requests q = []" if "wq_total q \<le> 0"
    using that assms(2) by (simp add: wq_wf_def)
  then show "queues_mset (store_queue k q m) = mset (wq_requests q) + queues_mset (jdel k m)"
    using assms(1) by (simp add: store_queue_def queues_mset_jset queues_ok_def)
  show "queues_ok (store_queue k q m)"
  proof (cases "wq_total q \<le> 0")
    case True
    have "wq_ok x \<and> (\<forall>r\<in>set (wq_requests x). qr_workspace r = j)" if "(j, x) \<in> set (jdel k m)" for j x
      using set_jdel_subset [OF that] assms(1) by (auto simp: queues_ok_def)
    then show ?thesis using assms(1) True by (auto simp: store_queue_def queues_ok_def)
  next
    case False
    have "wq_ok x \<and> (\<forall>r\<in>set (wq_requests x). qr_workspace r = j)" if "(j, x) \<in> set (jset k q m)" for j x
      using set_jset_subset [OF that] assms False by (auto simp: queues_ok_def)
    then show ?thesis using assms(1) False by (auto simp: store_queue_def queues_ok_def)
  qed
qed

lemma counts_ok_add:
  assumes "counts_ok M s" and "qr_id r \<notin> qr_id ` set_mset M" and "qr_id r < nextRequestObject s"
    and "totalQueued s' = totalQueued s + 1"
    and "queuedByOwner s' = incrementMap (queuedByOwner s) (qr_owner r)"
    and "queuedByWorkspace s' = incrementMap (queuedByWorkspace s) (qr_workspace r)"
    and "nextRequestObject s' = nextRequestObject s"
  shows "counts_ok (add_mset r M) s'"
proof -
  have "count (image_mset qr_id M) (qr_id r) = 0"
    using assms(2) by (simp add: count_eq_zero_iff)
  moreover have "qr_id x \<noteq> qr_id r" if "x \<in># M" for x
    using assms(2) that by (metis image_eqI)
  ultimately show ?thesis
    using assms by (auto simp: counts_ok_def)
qed

lemma counts_ok_remove:
  assumes "counts_ok (add_mset r M) s" and "k = qr_owner r" and "w = qr_workspace r"
  shows "counts_ok M (count_dequeued w k i s)"
  using assms by (fastforce simp: counts_ok_def count_dequeued_def split: if_splits)

subsection \<open>The operations keep the invariant and move one request\<close>

lemma enqueueRequest_ok:
  assumes "queue_ok s" and "qr_id r \<notin> qr_id ` set_mset (queued s)" and "qr_id r < nextRequestObject s"
    and "qr_workspace r = w"
  shows "queue_ok (enqueueRequest w r s)" and "queued (enqueueRequest w r s) = add_mset r (queued s)"
    and "listening (enqueueRequest w r s) = listening s" and "settled (enqueueRequest w r s) = settled s"
    and "nextRequestObject (enqueueRequest w r s) = nextRequestObject s"
    and "totalQueued (enqueueRequest w r s) = totalQueued s + 1"
    and "counter_get (queuedByOwner (enqueueRequest w r s)) k =
           counter_get (queuedByOwner s) k + (if k = qr_owner r then 1 else 0)"
    and "counter_get (queuedByWorkspace (enqueueRequest w r s)) v =
           counter_get (queuedByWorkspace s) v + (if v = w then 1 else 0)"
proof -
  let ?q = "case jget (requestQueues s) w of None \<Rightarrow> emptyWorkspaceQueue | Some q \<Rightarrow> q"
  let ?m = "case jget (requestQueues s) w of
      None \<Rightarrow> jset w emptyWorkspaceQueue (requestQueues s) | Some q \<Rightarrow> requestQueues s"
  have ok: "queues_ok (requestQueues s)" using assms(1) by (simp add: queue_ok_def)
  have rq: "requestQueues (enqueueRequest w r s) = jset w (wq_push r ?q) ?m"
    by (simp add: enqueueRequest_def getWorkspaceQueue_def split: option.splits)
  have wf: "wq_wf ?q" "wq_cursor ?q < length (wq_order ?q) \<or> ?q = emptyWorkspaceQueue"
    by (cases "jget (requestQueues s) w"; use queues_ok_get(1) [OF ok] in \<open>simp add: wq_wf_empty wq_ok_def\<close>)+
  have keys: "qr_workspace x = w" if "x \<in> set (wq_requests ?q)" for x
  proof (cases "jget (requestQueues s) w")
    case None
    then show ?thesis using that by (simp add: wq_requests_def emptyWorkspaceQueue_def)
  next
    case (Some q)
    then show ?thesis using that queues_ok_get(3) [OF ok Some] by simp
  qed
  note push = wq_push_ok [OF wf, of r]
  have split: "queued s = mset (wq_requests ?q) + queues_mset (jdel w (requestQueues s))"
    using queues_ok_get(2) [OF ok, of w]
    by (auto simp: wq_requests_def emptyWorkspaceQueue_def jdel_absent map_of_eq_None_iff split: option.splits)
  have twice: "jset w x ?m = jset w x (requestQueues s)" for x
    by (simp add: update_last split: option.split)
  have new: "queued (enqueueRequest w r s) = add_mset r (queued s)"
    using ok by (simp add: rq twice queues_mset_jset push(2) split queues_ok_def)
  then show "queued (enqueueRequest w r s) = add_mset r (queued s)" .
  have eqs: "totalQueued (enqueueRequest w r s) = totalQueued s + 1"
    "queuedByOwner (enqueueRequest w r s) = incrementMap (queuedByOwner s) (qr_owner r)"
    "queuedByWorkspace (enqueueRequest w r s) = incrementMap (queuedByWorkspace s) w"
    "nextRequestObject (enqueueRequest w r s) = nextRequestObject s"
    by (simp_all add: enqueueRequest_def getWorkspaceQueue_def split: option.splits)
  have "set (wq_requests (wq_push r ?q)) = insert r (set (wq_requests ?q))"
    using push(2) by (metis set_mset_mset set_mset_add_mset_insert)
  then have "wq_ok (wq_push r ?q)" "\<forall>x\<in>set (wq_requests (wq_push r ?q)). qr_workspace x = w"
    using push(1) keys assms(4) by auto
  then have "queues_ok (requestQueues (enqueueRequest w r s))"
    using ok unfolding rq twice queues_ok_def by (auto dest!: set_jset_subset)
  moreover have "counts_ok (queued (enqueueRequest w r s)) (enqueueRequest w r s)"
    unfolding new using assms eqs by (intro counts_ok_add) (auto simp: queue_ok_def)
  ultimately show "queue_ok (enqueueRequest w r s)" by (simp add: queue_ok_def)
  show "totalQueued (enqueueRequest w r s) = totalQueued s + 1"
    "nextRequestObject (enqueueRequest w r s) = nextRequestObject s"
    "counter_get (queuedByOwner (enqueueRequest w r s)) k =
           counter_get (queuedByOwner s) k + (if k = qr_owner r then 1 else 0)"
    "counter_get (queuedByWorkspace (enqueueRequest w r s)) v =
           counter_get (queuedByWorkspace s) v + (if v = w then 1 else 0)"
    using eqs by simp_all
  show "listening (enqueueRequest w r s) = listening s" "settled (enqueueRequest w r s) = settled s"
    by (simp_all add: enqueueRequest_def getWorkspaceQueue_def split: option.splits)
qed

text \<open>What both ways of leaving the queue do.\<close>

lemma leave_queue_ok:
  assumes "queue_ok s" and "jget (requestQueues s) w = Some q" and "wq_wf q'" and "0 < wq_total q' \<Longrightarrow> wq_ok q'"
    and "mset (wq_requests q) = add_mset r (mset (wq_requests q'))" and "k = qr_owner r"
  defines "s' \<equiv> count_dequeued w k (qr_id r) (s\<lparr>requestQueues := store_queue w q' (requestQueues s)\<rparr>)"
  shows "queue_ok s'" and "queued s = add_mset r (queued s')" and "qr_workspace r = w"
    and "listeners_ok s \<Longrightarrow> listeners_ok s'"
proof -
  have ok: "queues_ok (requestQueues s)" using assms(1) by (simp add: queue_ok_def)
  note get = queues_ok_get [OF ok assms(2)]
  have sub: "set (wq_requests q) = insert r (set (wq_requests q'))"
    using assms(5) by (metis set_mset_mset set_mset_add_mset_insert)
  then show rw: "qr_workspace r = w" using get(3) by blast
  have "\<And>x. x \<in> set (wq_requests q') \<Longrightarrow> qr_workspace x = w" using get(3) sub by blast
  note st = store_queue_ok [OF ok assms(3,4) this]
  have rq: "requestQueues s' = store_queue w q' (requestQueues s)"
    by (simp add: s'_def count_dequeued_def)
  show split: "queued s = add_mset r (queued s')"
    by (simp add: rq st(2) get(2) assms(5))
  have "counts_ok (add_mset r (queued s')) (s\<lparr>requestQueues := store_queue w q' (requestQueues s)\<rparr>)"
    using assms(1) split by (simp add: queue_ok_def counts_ok_def)
  then have "counts_ok (queued s') s'"
    unfolding s'_def using assms(6) rw by (intro counts_ok_remove) (auto simp: count_dequeued_def)
  then show "queue_ok s'"
    using st(1) by (simp add: queue_ok_def rq)
  have "count (image_mset qr_id (queued s)) (qr_id r) = 1"
    using assms(1) split by (simp add: queue_ok_def counts_ok_def)
  then have "qr_id r \<notin> qr_id ` set_mset (queued s')"
    unfolding split by (auto simp: count_eq_zero_iff)
  then show "listeners_ok s'" if "listeners_ok s"
    using that split by (auto simp: listeners_ok_def s'_def count_dequeued_def)
qed

lemma dequeueNextRequest_Some:
  assumes "queue_ok s" and "jget (requestQueues s) w = Some q"
  obtains xs k r rs ys where "wq_owners q = xs @ (k, r # rs) # ys" and "wq_cursor q = length xs"
    and "wq_ring q = (k, r # rs) # ys @ xs" and "qr_owner r = k"
    and "dequeueNextRequest w s = (Some r, count_dequeued w k (qr_id r)
           (s\<lparr>requestQueues := store_queue w (wq_take (length xs) k rs q) (requestQueues s)\<rparr>))"
proof -
  have ok: "wq_ok q" using queues_ok_get [OF _ assms(2)] assms(1) by (simp add: queue_ok_def)
  then obtain xs k r rs ys where o: "wq_owners q = xs @ (k, r # rs) # ys" "wq_cursor q = length xs"
    by (rule wq_open_cursor)
  note t = wq_take_wf [OF ok o]
  have "wq_total q \<noteq> 0" "wq_order q \<noteq> []"
    using ok o by (auto simp: wq_ok_def wq_wf_def wq_requests_def)
  then have "dequeueNextRequest w s = (Some r, count_dequeued w k (qr_id r)
           (s\<lparr>requestQueues := store_queue w (wq_take (length xs) k rs q) (requestQueues s)\<rparr>))"
    by (simp add: dequeueNextRequest_def assms(2) wq_scan_cursor [OF ok o])
  moreover have "qr_owner r = k" using ok o by (auto simp: wq_ok_def intro: wq_open(5))
  ultimately show ?thesis using that o t(4) by blast
qed

lemma dequeueNextRequest_ok:
  assumes "queue_ok s" and "dequeueNextRequest w s = (Some r, s')"
  shows "queue_ok s'" and "queued s = add_mset r (queued s')" and "qr_workspace r = w"
    and "listeners_ok s \<Longrightarrow> listeners_ok s'"
proof -
  obtain q where q: "jget (requestQueues s) w = Some q"
    using assms(2) by (auto simp: dequeueNextRequest_def split: option.splits)
  have ok: "wq_ok q" using queues_ok_get [OF _ q] assms(1) by (simp add: queue_ok_def)
  obtain xs k r0 rs ys where e: "wq_owners q = xs @ (k, r0 # rs) # ys" "wq_cursor q = length xs" "qr_owner r0 = k"
    "dequeueNextRequest w s = (Some r0, count_dequeued w k (qr_id r0)
       (s\<lparr>requestQueues := store_queue w (wq_take (length xs) k rs q) (requestQueues s)\<rparr>))"
    by (rule dequeueNextRequest_Some [OF assms(1) q])
  then have r0: "r0 = r" and d4: "s' = count_dequeued w k (qr_id r)
       (s\<lparr>requestQueues := store_queue w (wq_take (length xs) k rs q) (requestQueues s)\<rparr>)"
    using assms(2) by simp_all
  note d = e(1-3) [unfolded r0] d4
  note t = wq_take_wf [OF ok d(1,2)]
  note l = leave_queue_ok [OF assms(1) q t(1,2,3) d(3) [symmetric], folded d(4)]
  show "queue_ok s'" "queued s = add_mset r (queued s')" "qr_workspace r = w"
    "listeners_ok s \<Longrightarrow> listeners_ok s'"
    using l by blast+
qed

lemma dequeueNextRequest_None:
  assumes "queue_ok s"
  shows "fst (dequeueNextRequest w s) = None \<longleftrightarrow> {#r \<in># queued s. qr_workspace r = w#} = {#}"
    and "fst (dequeueNextRequest w s) = None \<Longrightarrow> snd (dequeueNextRequest w s) = s"
proof -
  have ok: "queues_ok (requestQueues s)" using assms by (simp add: queue_ok_def)
  show "fst (dequeueNextRequest w s) = None \<longleftrightarrow> {#r \<in># queued s. qr_workspace r = w#} = {#}"
  proof (cases "jget (requestQueues s) w")
    case None
    have "qr_workspace r \<noteq> w" if "(k, q) \<in> set (requestQueues s)" "r \<in> set (wq_requests q)" for k q r
    proof -
      have "k \<in> fst ` set (requestQueues s)" using that(1) by force
      then have "k \<noteq> w" using None by (auto simp: map_of_eq_None_iff)
      moreover have "qr_workspace r = k" using that ok by (auto simp: queues_ok_def)
      ultimately show ?thesis by simp
    qed
    then have "jsum (\<lambda>k q. {#r \<in># mset (wq_requests q). qr_workspace r = w#}) (requestQueues s) = {#}"
      by (intro jsum_zero) (auto simp: filter_mset_none)
    moreover have "{#r \<in># queues_mset m. qr_workspace r = w#}
        = jsum (\<lambda>k q. {#r \<in># mset (wq_requests q). qr_workspace r = w#}) m" for m
      by (induction m) auto
    ultimately show ?thesis by (simp add: dequeueNextRequest_def None)
  next
    case (Some q)
    obtain r s' where d: "dequeueNextRequest w s = (Some r, s')"
      by (rule dequeueNextRequest_Some [OF assms Some])
    then have "r \<in># queued s" "qr_workspace r = w"
      using dequeueNextRequest_ok [OF assms d] by simp_all
    then show ?thesis using d by (auto simp: filter_mset_none)
  qed
  show "snd (dequeueNextRequest w s) = s" if "fst (dequeueNextRequest w s) = None"
    using that by (auto simp: dequeueNextRequest_def split: option.splits if_splits prod.splits)
qed

lemma removeQueuedRequest_ok:
  assumes "queue_ok s" and "removeQueuedRequest w k rid s = (True, s')"
  shows "\<exists>r. qr_id r = rid \<and> qr_workspace r = w \<and> qr_owner r = k \<and> queued s = add_mset r (queued s')"
    and "queue_ok s'" and "listeners_ok s \<Longrightarrow> listeners_ok s'"
proof -
  obtain q rs idx where q: "jget (requestQueues s) w = Some q" "jget (wq_owners q) k = Some rs"
    "request_index rid rs = Some idx"
    "s' = count_dequeued w k rid (s\<lparr>requestQueues := store_queue w (wq_remove k idx rs q) (requestQueues s)\<rparr>)"
    using assms(2) by (auto simp: removeQueuedRequest_def split: option.splits)
  have ok: "wq_ok q" using queues_ok_get [OF _ q(1)] assms(1) by (simp add: queue_ok_def)
  have i: "idx < length rs" "qr_id (rs ! idx) = rid"
    using q(3) index_of_SomeD [of rid "map qr_id rs" idx] by (auto simp: request_index_def)
  have own: "qr_owner (rs ! idx) = k"
    using ok q(2) i(1) by (force simp: wq_ok_def wq_wf_def dest: map_of_SomeD)
  note t = wq_remove_ok [OF ok q(2) i(1)]
  note l = leave_queue_ok [OF assms(1) q(1) t(1,2,3) own [symmetric], unfolded i(2), folded q(4)]
  show "\<exists>r. qr_id r = rid \<and> qr_workspace r = w \<and> qr_owner r = k \<and> queued s = add_mset r (queued s')"
    using l i(2) own by blast
  show "queue_ok s'" "listeners_ok s \<Longrightarrow> listeners_ok s'"
    using l by blast+
qed

subsection \<open>The interface the pool relies on\<close>

text \<open>
  What a queue with one line per home promises: inserting adds one item, removing takes an
  item of the given home, and only an empty line refuses. Draining follows for every
  implementation.
\<close>

fun drain_queue :: "('s \<Rightarrow> 'r option \<times> 's) \<Rightarrow> nat \<Rightarrow> 's \<Rightarrow> 'r list \<times> 's" where
  "drain_queue deq 0 s = ([], s)"
| "drain_queue deq (Suc n) s =
     (case deq s of
        (None, s') \<Rightarrow> ([], s')
      | (Some r, s') \<Rightarrow> let (rs, t) = drain_queue deq n s' in (r # rs, t))"

locale homed_queue =
  fixes enq :: "'w \<Rightarrow> 'r \<Rightarrow> 's \<Rightarrow> 's"
    and deq :: "'w \<Rightarrow> 's \<Rightarrow> 'r option \<times> 's"
    and contents :: "'s \<Rightarrow> 'r multiset"
    and home :: "'r \<Rightarrow> 'w"
    and inv :: "'s \<Rightarrow> bool"
    and fresh :: "'r \<Rightarrow> 's \<Rightarrow> bool"
  assumes enq_inv: "inv s \<Longrightarrow> fresh r s \<Longrightarrow> inv (enq (home r) r s)"
    and enq_contents: "inv s \<Longrightarrow> fresh r s \<Longrightarrow> contents (enq (home r) r s) = add_mset r (contents s)"
    and deq_some: "inv s \<Longrightarrow> deq w s = (Some r, s') \<Longrightarrow>
       inv s' \<and> contents s = add_mset r (contents s') \<and> home r = w"
    and deq_none: "inv s \<Longrightarrow> deq w s = (None, s') \<Longrightarrow> s' = s \<and> {#r \<in># contents s. home r = w#} = {#}"
begin

lemma drain_sound:
  "inv s \<Longrightarrow> drain_queue (deq w) n s = (rs, t) \<Longrightarrow>
     inv t \<and> contents s = mset rs + contents t \<and> (\<forall>r\<in>set rs. home r = w)"
proof (induction n arbitrary: s rs)
  case (Suc n)
  show ?case
  proof (cases "deq w s")
    case (Pair x s')
    show ?thesis
    proof (cases x)
      case None
      then show ?thesis using Suc.prems Pair deq_none [of s w s'] by auto
    next
      case (Some r)
      obtain us u where "drain_queue (deq w) n s' = (us, u)" by force
      then show ?thesis
        using Suc.prems Suc.IH [of s' us] Pair Some deq_some [of s w r s'] by auto
    qed
  qed
qed simp

lemma drain_complete:
  "inv s \<Longrightarrow> size {#r \<in># contents s. home r = w#} \<le> n \<Longrightarrow> drain_queue (deq w) n s = (rs, t) \<Longrightarrow>
     {#r \<in># contents t. home r = w#} = {#}"
proof (induction n arbitrary: s rs)
  case (Suc n)
  show ?case
  proof (cases "deq w s")
    case (Pair x s')
    show ?thesis
    proof (cases x)
      case None
      then show ?thesis using Suc.prems Pair deq_none [of s w s'] by auto
    next
      case (Some r)
      obtain us u where "drain_queue (deq w) n s' = (us, u)" by force
      then show ?thesis
        using Suc.prems Suc.IH [of s' us] Pair Some deq_some [of s w r s'] by auto
    qed
  qed
qed auto

lemma drain_exact:
  assumes "inv s" and "size {#r \<in># contents s. home r = w#} \<le> n" and "drain_queue (deq w) n s = (rs, t)"
  shows "mset rs = {#r \<in># contents s. home r = w#} \<and> {#r \<in># contents t. home r = w#} = {#}"
proof -
  have "contents s = mset rs + contents t" "\<forall>r\<in>set rs. home r = w"
    using drain_sound [OF assms(1,3)] by blast+
  moreover have "{#r \<in># mset rs. home r = w#} = mset rs"
    using \<open>\<forall>r\<in>set rs. home r = w\<close> by (simp add: filter_mset_eq_conv)
  ultimately show ?thesis
    using drain_complete [OF assms] by simp
qed

end

abbreviation fresh_request :: "queued_request \<Rightarrow> 'a queue_state_scheme \<Rightarrow> bool" where
  "fresh_request r s \<equiv> qr_id r \<notin> qr_id ` set_mset (queued s) \<and> qr_id r < nextRequestObject s"

interpretation request_queue: homed_queue enqueueRequest dequeueNextRequest queued
  "\<lambda>r. qr_workspace r" queue_ok fresh_request
proof
  fix s s' :: "'a queue_state_scheme" and r :: queued_request and w :: string
  assume s: "queue_ok s"
  show "queue_ok (enqueueRequest (qr_workspace r) r s)"
    and "queued (enqueueRequest (qr_workspace r) r s) = add_mset r (queued s)" if "fresh_request r s"
    using enqueueRequest_ok(1,2) [OF s _ _ refl] that by blast+
  show "queue_ok s' \<and> queued s = add_mset r (queued s') \<and> qr_workspace r = w"
    if "dequeueNextRequest w s = (Some r, s')"
    using dequeueNextRequest_ok(1-3) [OF s that] by blast
  show "s' = s \<and> {#r \<in># queued s. qr_workspace r = w#} = {#}" if "dequeueNextRequest w s = (None, s')"
    using dequeueNextRequest_None [OF s, of w] that by simp
qed

subsection \<open>The abstract round robin\<close>

text \<open>
  The abstract queue of a workspace is the list of owners in the order of their turns, each
  with its requests: the first owner is served and goes to the end of the line.
\<close>

type_synonym ring = "(string \<times> queued_request list) list"

fun ring_deq :: "ring \<Rightarrow> queued_request option \<times> ring" where
  "ring_deq ((k, r # rs) # rest) = (Some r, rest @ (if rs = [] then [] else [(k, rs)]))"
| "ring_deq c = (None, c)"

definition ring_of :: "string \<Rightarrow> 'a queue_state_scheme \<Rightarrow> ring" where
  "ring_of w s = (case jget (requestQueues s) w of None \<Rightarrow> [] | Some q \<Rightarrow> wq_ring q)"

lemma ring_of_dequeue:
  assumes "queue_ok s"
  shows "ring_deq (ring_of w s) = (fst (dequeueNextRequest w s), ring_of w (snd (dequeueNextRequest w s)))"
proof (cases "jget (requestQueues s) w")
  case None
  then show ?thesis by (simp add: ring_of_def dequeueNextRequest_def)
next
  case (Some q)
  obtain xs k r rs ys where d: "wq_owners q = xs @ (k, r # rs) # ys" "wq_cursor q = length xs"
    "wq_ring q = (k, r # rs) # ys @ xs"
    "dequeueNextRequest w s = (Some r, count_dequeued w k (qr_id r)
       (s\<lparr>requestQueues := store_queue w (wq_take (length xs) k rs q) (requestQueues s)\<rparr>))"
    by (rule dequeueNextRequest_Some [OF assms Some])
  have ok: "wq_ok q" using queues_ok_get [OF _ Some] assms by (simp add: queue_ok_def)
  note t = wq_take_wf [OF ok d(1,2)]
  let ?q = "wq_take (length xs) k rs q"
  have "ring_of w (snd (dequeueNextRequest w s)) = (if wq_total ?q \<le> 0 then [] else wq_ring ?q)"
    by (simp add: ring_of_def d(4) count_dequeued_def store_queue_def)
  moreover have "wq_ring ?q = []" if "wq_total ?q \<le> 0"
  proof -
    have "wq_requests ?q = []"
      using t(1) that by (simp add: wq_wf_def)
    then have "wq_owners ?q = []"
      using t(1) by (cases "wq_owners ?q") (auto simp: wq_wf_def wq_requests_def)
    then show ?thesis by (simp add: wq_ring_def)
  qed
  ultimately show ?thesis
    using d(3,4) t(5) by (auto simp: ring_of_def Some)
qed

lemma drain_ring_of:
  assumes "queue_ok s" and "drain_queue (dequeueNextRequest w) n s = (rs, t)"
  shows "drain_queue ring_deq n (ring_of w s) = (rs, ring_of w t)"
  using assms
proof (induction n arbitrary: s rs)
  case (Suc n)
  obtain x s' where d: "dequeueNextRequest w s = (x, s')" by force
  have ring: "ring_deq (ring_of w s) = (x, ring_of w s')"
    using ring_of_dequeue [OF Suc.prems(1), of w] d by simp
  show ?case
  proof (cases x)
    case None
    then show ?thesis using Suc.prems(2) d ring by simp
  next
    case (Some r)
    have "queue_ok s'" using dequeueNextRequest_ok(1) [OF Suc.prems(1)] d Some by simp
    moreover obtain us u where "drain_queue (dequeueNextRequest w) n s' = (us, u)" by force
    ultimately show ?thesis
      using Suc.IH [of s' us] Suc.prems(2) d ring Some by auto
  qed
qed simp

lemma fst_drain_Suc:
  "fst (drain_queue deq (Suc n) s) =
     (case deq s of (None, s') \<Rightarrow> [] | (Some r, s') \<Rightarrow> r # fst (drain_queue deq n s'))"
  by (auto split: prod.splits option.splits)

lemma drain_ring_turns:
  "\<forall>(k, rs)\<in>set xs. rs \<noteq> [] \<Longrightarrow>
     fst (drain_queue ring_deq (length xs) (xs @ ys)) = map (\<lambda>(k, rs). hd rs) xs"
proof (induction xs arbitrary: ys)
  case (Cons p xs)
  obtain k r rs where p: "p = (k, r # rs)"
    using Cons.prems by (cases p; cases "snd p") auto
  let ?ys = "ys @ (if rs = [] then [] else [(k, rs)])"
  have "fst (drain_queue ring_deq (length xs) (xs @ ?ys)) = map (\<lambda>(k, rs). hd rs) xs"
    using Cons by simp
  then show ?case
    by (simp add: p fst_drain_Suc del: drain_queue.simps(2) split del: if_split)
qed simp

subsection \<open>queueRequest, abort and rejection\<close>

definition queue_bounded :: "(int, 'r) pool_config \<Rightarrow> 'a queue_state_scheme \<Rightarrow> bool" where
  "queue_bounded cfg s \<longleftrightarrow> totalQueued s \<le> maxQueuedGlobal cfg \<and>
     (\<forall>k. int (counter_get (queuedByOwner s) k) \<le> maxQueuedPerUser cfg) \<and>
     (\<forall>w. int (counter_get (queuedByWorkspace s) w) \<le> maxQueuedPerWorkspace cfg)"

lemma queue_bounded_sizes:
  "queue_ok s \<Longrightarrow> queue_bounded cfg s \<longleftrightarrow> int (size (queued s)) \<le> maxQueuedGlobal cfg \<and>
     (\<forall>k. int (size {#r \<in># queued s. qr_owner r = k#}) \<le> maxQueuedPerUser cfg) \<and>
     (\<forall>w. int (size {#r \<in># queued s. qr_workspace r = w#}) \<le> maxQueuedPerWorkspace cfg)"
  by (simp add: queue_bounded_def queue_ok_def counts_ok_def)

lemma queue_bounded_remove:
  assumes "queue_bounded cfg s" and "queue_ok s" and "queue_ok s'" and "queued s = add_mset r (queued s')"
  shows "queue_bounded cfg s'"
proof -
  have le: "int (size {#x \<in># queued s'. P x#}) \<le> int (size {#x \<in># queued s. P x#})" for P
    using assms(4) by simp
  show ?thesis
    using assms(1) le [of "\<lambda>x. True"] order_trans [OF le]
    unfolding queue_bounded_sizes [OF assms(2)] queue_bounded_sizes [OF assms(3)]
    by (metis filter_mset_True)
qed

lemma queue_ok_listening: "queue_ok (s\<lparr>listening := L\<rparr>) \<longleftrightarrow> queue_ok s"
  by (simp add: queue_ok_def counts_ok_def)

lemma queue_ok_settled: "queue_ok (s\<lparr>settled := L\<rparr>) \<longleftrightarrow> queue_ok s"
  by (simp add: queue_ok_def counts_ok_def)

lemma queue_ok_telemetry: "queue_ok (s\<lparr>telemetry := T\<rparr>) \<longleftrightarrow> queue_ok s"
  by (simp add: queue_ok_def counts_ok_def)

lemma queue_ok_allocate:
  "queue_ok s \<Longrightarrow> queue_ok (s\<lparr>nextRequestObject := nextRequestObject s + 1, listening := L\<rparr>)"
  by (auto simp: queue_ok_def counts_ok_def)

lemma fresh_allocated: "queue_ok s \<Longrightarrow> nextRequestObject s \<notin> qr_id ` set_mset (queued s)"
  by (auto simp: queue_ok_def counts_ok_def)

text \<open>A queued request is found by its identity in the line it belongs to.\<close>

lemma queued_found:
  assumes "queue_ok s" and "r \<in># queued s"
  shows "fst (removeQueuedRequest (qr_workspace r) (qr_owner r) (qr_id r) s)"
proof -
  have ok: "queues_ok (requestQueues s)" using assms(1) by (simp add: queue_ok_def)
  have "\<exists>k q. (k, q) \<in> set m \<and> r \<in> set (wq_requests q)" if "r \<in># queues_mset m" for m
    using that by (induction m) fastforce+
  then obtain k q where kq: "(k, q) \<in> set (requestQueues s)" "r \<in> set (wq_requests q)"
    using assms(2) by blast
  then have q: "jget (requestQueues s) k = Some q" "wq_ok q" "k = qr_workspace r"
    using ok by (auto simp: queues_ok_def)
  obtain k' rs where rs: "(k', rs) \<in> set (wq_owners q)" "r \<in> set rs"
    using kq(2) by (auto simp: wq_requests_def)
  then have o: "jget (wq_owners q) (qr_owner r) = Some rs"
    using q(2) by (auto simp: wq_ok_def wq_wf_def)
  have "request_index (qr_id r) rs \<noteq> None"
    using rs(2) by (simp add: request_index_def index_of_None)
  then show ?thesis
    using q o by (auto simp: removeQueuedRequest_def)
qed

lemma queuedAbort_queued:
  assumes "queue_ok s" and "r \<in># queued s"
  defines "s' \<equiv> queuedAbort (qr_workspace r) (qr_owner r) (qr_id r) s"
  shows "queue_ok s'" and "queued s = add_mset r (queued s')"
    and "settled s' = settled s @ [(qr_id r, Resolved cancelledResult)]"
    and "listeners_ok s \<Longrightarrow> listeners_ok s'"
proof -
  let ?s = "s\<lparr>listening := listening s - {qr_id r}\<rparr>"
  have q: "queue_ok ?s" using assms(1) by (simp add: queue_ok_listening)
  moreover have "r \<in># queued ?s" using assms(2) by simp
  ultimately have "fst (removeQueuedRequest (qr_workspace r) (qr_owner r) (qr_id r) ?s)" by (rule queued_found)
  then obtain t where t: "removeQueuedRequest (qr_workspace r) (qr_owner r) (qr_id r) ?s = (True, t)"
    by (cases "removeQueuedRequest (qr_workspace r) (qr_owner r) (qr_id r) ?s") auto
  have s': "s' = settle (qr_id r) (Resolved cancelledResult) t"
    unfolding s'_def queuedAbort_def Let_def t by simp
  obtain r' where r': "qr_id r' = qr_id r" "queued s = add_mset r' (queued t)"
    using removeQueuedRequest_ok(1) [OF q t] by auto
  have unique: "x = r" if "x \<in># queued s" "qr_id x = qr_id r" for x
  proof (rule ccontr)
    assume "x \<noteq> r"
    then have "add_mset x {#r#} \<subseteq># queued s"
      using that(1) assms(2) by (metis insert_subset_eq_iff in_diff_count mset_subset_eq_single not_gr_zero
          count_add_mset count_single insert_DiffM insert_noteq_member)
    then have "image_mset qr_id (add_mset x {#r#}) \<subseteq># image_mset qr_id (queued s)"
      by (rule image_mset_subseteq_mono)
    then have "2 \<le> count (image_mset qr_id (queued s)) (qr_id r)"
      using that(2) mset_subset_eq_count [of "image_mset qr_id (add_mset x {#r#})" _ "qr_id r"] by (simp add: numeral_2_eq_2)
    then show False using assms(1,2) by (simp add: queue_ok_def counts_ok_def)
  qed
  then have "r' = r" using r' by simp
  then show "queued s = add_mset r (queued s')" using r'(2) by (simp add: s' settle_def)
  show "queue_ok s'" using removeQueuedRequest_ok(2) [OF q t] by (simp add: s' settle_def queue_ok_settled)
  have "settled t = settled s" "listening t = listening s - {qr_id r}"
    using t by (auto simp: removeQueuedRequest_def count_dequeued_def split: option.splits)
  then show "settled s' = settled s @ [(qr_id r, Resolved cancelledResult)]"
    by (simp add: s' settle_def)
  show "listeners_ok s'" if "listeners_ok s"
  proof -
    have "qr_id r \<notin> qr_id ` set_mset (queued t)"
      using removeQueuedRequest_ok(2) [OF q t] assms(1) r' \<open>r' = r\<close>
      by (auto simp: queue_ok_def counts_ok_def count_eq_zero_iff)
    then show ?thesis
      using that r'(2) \<open>r' = r\<close> \<open>listening t = listening s - {qr_id r}\<close>
      by (auto simp: listeners_ok_def s' settle_def)
  qed
qed

lemma queueRequest_cases:
  assumes "queue_ok s" and "listeners_ok s" and "queue_bounded cfg s"
    and "queueRequest cfg now aborted creds opts reason s = (out, s')"
  shows "(\<exists>c T. out = LimitError c \<and> s' = s\<lparr>telemetry := T\<rparr>) \<or>
    (\<exists>s1 r. out = RequestQueued (qr_id r) reason (counter_get (queuedByOwner s1) (opt_ownerKey opts)) \<and>
       r = \<lparr>qr_id = nextRequestObject s, qr_credentials = creds, qr_options = opts, qr_enqueuedAtMs = now\<rparr> \<and>
       queue_ok s1 \<and> listeners_ok s1 \<and> queue_bounded cfg s1 \<and> queued s1 = add_mset r (queued s) \<and>
       settled s1 = settled s \<and>
       s' = (if aborted then queuedAbort (qr_workspace r) (qr_owner r) (qr_id r) s1 else s1))"
proof -
  define r where "r = \<lparr>qr_id = nextRequestObject s, qr_credentials = creds, qr_options = opts, qr_enqueuedAtMs = now\<rparr>"
  let ?a = "s\<lparr>nextRequestObject := nextRequestObject s + 1, listening := insert (nextRequestObject s) (listening s)\<rparr>"
  define s1 where "s1 = enqueueRequest (cr_workspaceKey creds) r ?a"
  have a: "queue_ok ?a" by (rule queue_ok_allocate [OF assms(1)])
  have r: "qr_id r = nextRequestObject s" "qr_workspace r = cr_workspaceKey creds" "qr_owner r = opt_ownerKey opts"
    by (simp_all add: r_def)
  have fr: "qr_id r \<notin> qr_id ` set_mset (queued ?a)" "qr_id r < nextRequestObject ?a"
    using fresh_allocated [OF assms(1)] by (simp_all add: r)
  note e = enqueueRequest_ok [OF a fr r(2), folded s1_def]
  have q1: "queued s1 = add_mset r (queued s)" using e(2) by simp
  have l1: "listeners_ok s1" using assms(2) e(3) q1 r by (auto simp: listeners_ok_def)
  consider (limit) c T where "out = LimitError c" "s' = s\<lparr>telemetry := T\<rparr>"
    | (queue) "int (counter_get (queuedByOwner s) (opt_ownerKey opts)) < maxQueuedPerUser cfg"
      "int (counter_get (queuedByWorkspace s) (cr_workspaceKey creds)) < maxQueuedPerWorkspace cfg"
      "totalQueued s < maxQueuedGlobal cfg"
      "out = RequestQueued (qr_id r) reason (counter_get (queuedByOwner s1) (opt_ownerKey opts))"
      "s' = (if aborted then queuedAbort (qr_workspace r) (qr_owner r) (qr_id r) s1 else s1)"
    using assms(4) unfolding queueRequest_def Let_def r r_def [symmetric] s1_def [symmetric]
    by (auto simp: not_le split: if_splits)
  then show ?thesis
  proof cases
    case queue
    then have "queue_bounded cfg s1"
      using assms(3) e(6-8) r(3) by (auto simp: queue_bounded_def)
    then show ?thesis using queue e(1,4) q1 l1 r_def by auto
  qed blast
qed

subsection \<open>Properties\<close>

text \<open>
  C4. \<open>queueRequest\<close> is safe: from a consistent, bounded queue it either refuses with a limit
  error, changing nothing but telemetry, or queues exactly the new request (reporting the
  owner's queue length as its position), or, when the signal is already aborted, leaves the
  queue as it was and resolves the request as cancelled. Per-user, per-workspace and global
  limits, the counters, the round-robin structure and the set of attached abort listeners
  are all consistent afterwards.
\<close>

theorem queueRequest_safe:
  assumes "queue_ok s" and "listeners_ok s" and "queue_bounded cfg s"
    and "queueRequest cfg now aborted creds opts reason s = (out, s')"
  shows "queue_ok s' \<and> listeners_ok s' \<and> queue_bounded cfg s' \<and>
    (case out of
       LimitError c \<Rightarrow> queued s' = queued s \<and> settled s' = settled s
     | RequestQueued rid why position \<Rightarrow>
         if aborted then queued s' = queued s \<and> settled s' = settled s @ [(rid, Resolved cancelledResult)]
         else settled s' = settled s \<and>
           queued s' = add_mset \<lparr>qr_id = rid, qr_credentials = creds, qr_options = opts, qr_enqueuedAtMs = now\<rparr> (queued s) \<and>
           position = size {#r \<in># queued s'. qr_owner r = opt_ownerKey opts#})"
proof -
  from queueRequest_cases [OF assms]
  consider (limit) c T where "out = LimitError c" "s' = s\<lparr>telemetry := T\<rparr>"
    | (queue) s1 r where "out = RequestQueued (qr_id r) reason (counter_get (queuedByOwner s1) (opt_ownerKey opts))"
       "r = \<lparr>qr_id = nextRequestObject s, qr_credentials = creds, qr_options = opts, qr_enqueuedAtMs = now\<rparr>"
       "queue_ok s1" "listeners_ok s1" "queue_bounded cfg s1" "queued s1 = add_mset r (queued s)"
       "settled s1 = settled s"
       "s' = (if aborted then queuedAbort (qr_workspace r) (qr_owner r) (qr_id r) s1 else s1)"
    by blast
  then show ?thesis
  proof cases
    case limit
    then show ?thesis
      using assms(1-3) by (simp add: queue_ok_telemetry listeners_ok_def queue_bounded_def)
  next
    case queue
    show ?thesis
    proof (cases aborted)
      case True
      have "r \<in># queued s1" using queue(6) by simp
      note a = queuedAbort_queued [OF queue(3) this]
      have "queue_bounded cfg s'"
        using queue_bounded_remove [OF queue(5,3) a(1,2)] queue(8) True by simp
      then show ?thesis
        using a(1) a(2) [unfolded queue(6)] a(3) a(4) [OF queue(4)] queue(1,7,8) True by simp
    next
      case False
      have "counter_get (queuedByOwner s1) (opt_ownerKey opts) = size {#r \<in># queued s1. qr_owner r = opt_ownerKey opts#}"
        using queue(3) by (simp add: queue_ok_def counts_ok_def)
      then show ?thesis
        using queue False by simp
    qed
  qed
qed

definition empty_queue_state :: queue_state where
  "empty_queue_state =
     \<lparr>requestQueues = [], queuedByOwner = Map.empty, queuedByWorkspace = Map.empty, totalQueued = 0,
      telemetry = \<lparr>tm_retiredAfterCancel = 0, tm_groupTerminations = 0, tm_groupKillEscalations = 0,
        tm_queueRejectedUser = 0, tm_queueRejectedWorkspace = 0, tm_queueRejectedGlobal = 0,
        tm_loadShedEvents = 0, tm_orphansReaped = 0\<rparr>,
      nextRequestObject = 0, listening = {}, settled = []\<rparr>"

lemma empty_queue_ok:
  "queue_ok empty_queue_state" "listeners_ok empty_queue_state"
  "0 \<le> maxQueuedGlobal cfg \<Longrightarrow> 0 \<le> maxQueuedPerUser cfg \<Longrightarrow> 0 \<le> maxQueuedPerWorkspace cfg \<Longrightarrow>
     queue_bounded cfg empty_queue_state"
  by (simp_all add: empty_queue_state_def queue_ok_def queues_ok_def counts_ok_def listeners_ok_def queue_bounded_def)

definition sample_credentials :: workspace_credentials where
  "sample_credentials = \<lparr>cr_uid = Fin 990, cr_gid = Fin 990, cr_cwd = ''/srv/sites/a'', cr_workspaceKey = ''a.com''\<rparr>"

definition sample_options :: "string \<Rightarrow> string \<Rightarrow> query_options" where
  "sample_options rid owner = \<lparr>opt_requestId = rid, opt_ownerKey = owner, opt_payload = ''p''\<rparr>"

definition sample_queue :: queue_state where
  "sample_queue = snd (queueRequest (WORKER_POOL ''e'' ''/n'') 5 False sample_credentials
     (sample_options ''r1'' ''u1'') USER_LIMIT empty_queue_state)"

theorem queueRequest_safe_witness:
  "queue_ok sample_queue \<and> queue_bounded (WORKER_POOL ''e'' ''/n'') sample_queue"
proof -
  obtain out where run: "queueRequest (WORKER_POOL ''e'' ''/n'') 5 False sample_credentials
     (sample_options ''r1'' ''u1'') USER_LIMIT empty_queue_state = (out, sample_queue)"
    unfolding sample_queue_def by (metis prod.collapse)
  have "queue_bounded (WORKER_POOL ''e'' ''/n'') empty_queue_state"
    by (rule empty_queue_ok) (simp_all add: WORKER_POOL_def)
  from queueRequest_safe [OF empty_queue_ok(1,2) this run] show ?thesis by blast
qed

text \<open>
  C2. Refinement: on a consistent queue \<open>dequeueNextRequest\<close>, with its cursor arithmetic,
  array splices and map updates, is exactly the abstract round robin step, which serves the
  oldest request of the owner whose turn it is and sends the owner to the end of the line.
\<close>

theorem dequeue_refines_round_robin:
  assumes "queue_ok s"
  shows "ring_deq (ring_of w s) = (fst (dequeueNextRequest w s), ring_of w (snd (dequeueNextRequest w s))) \<and>
         queue_ok (snd (dequeueNextRequest w s))"
proof
  show "ring_deq (ring_of w s) = (fst (dequeueNextRequest w s), ring_of w (snd (dequeueNextRequest w s)))"
    by (rule ring_of_dequeue [OF assms])
  show "queue_ok (snd (dequeueNextRequest w s))"
    using dequeueNextRequest_ok(1) [OF assms, of w] dequeueNextRequest_None(2) [OF assms, of w] assms
    by (cases "dequeueNextRequest w s"; cases "fst (dequeueNextRequest w s)") auto
qed

lemma enqueue_list_ok:
  assumes "queue_ok s" and "distinct (map qr_id rs)"
    and "\<forall>r\<in>set rs. fresh_request r s \<and> qr_workspace r = w"
  shows "queue_ok (fold (enqueueRequest w) rs s) \<and> queued (fold (enqueueRequest w) rs s) = mset rs + queued s \<and>
         listening (fold (enqueueRequest w) rs s) = listening s"
  using assms
proof (induction rs arbitrary: s)
  case (Cons r rs)
  have r: "qr_id r \<notin> qr_id ` set_mset (queued s)" "qr_id r < nextRequestObject s" "qr_workspace r = w"
    using Cons.prems(3) by auto
  note e = enqueueRequest_ok [OF Cons.prems(1) r]
  have "qr_id x \<noteq> qr_id r" if "x \<in> set rs" for x
    using Cons.prems(2) that by (metis distinct.simps(2) imageI list.set_map list.simps(9))
  then have "\<forall>x\<in>set rs. fresh_request x (enqueueRequest w r s) \<and> qr_workspace x = w"
    using Cons.prems(3) e(2,5) by auto
  then show ?case
    using Cons.IH [OF e(1)] Cons.prems(2) e(2,3) by simp
qed simp

definition sample_request :: "nat \<Rightarrow> string \<Rightarrow> queued_request" where
  "sample_request i k =
     \<lparr>qr_id = i, qr_credentials = sample_credentials, qr_options = sample_options ''r'' k, qr_enqueuedAtMs = 0\<rparr>"

lemma sample_request_simps [simp]:
  "qr_id (sample_request i k) = i" "qr_owner (sample_request i k) = k" "qr_workspace (sample_request i k) = ''a.com''"
  by (simp_all add: sample_request_def sample_options_def sample_credentials_def)

definition sample_queue3 :: queue_state where
  "sample_queue3 = fold (enqueueRequest ''a.com'')
     [sample_request 0 ''u1'', sample_request 1 ''u1'', sample_request 2 ''u2'', sample_request 3 ''u3'']
     (empty_queue_state\<lparr>nextRequestObject := 4, listening := {0, 1, 2, 3}\<rparr>)"

lemma sample_queue3_queues:
  "requestQueues sample_queue3 =
     [(''a.com'', \<lparr>wq_owners =
        [(''u1'', [sample_request 0 ''u1'', sample_request 1 ''u1'']),
         (''u2'', [sample_request 2 ''u2'']), (''u3'', [sample_request 3 ''u3''])],
        wq_order = [''u1'', ''u2'', ''u3''], wq_cursor = 0, wq_total = 4\<rparr>)]"
  by (simp add: sample_queue3_def enqueueRequest_def getWorkspaceQueue_def wq_push_def emptyWorkspaceQueue_def
      empty_queue_state_def)

lemma sample_queue3_ok: "queue_ok sample_queue3" "listeners_ok sample_queue3"
proof -
  let ?rs = "[sample_request 0 ''u1'', sample_request 1 ''u1'', sample_request 2 ''u2'', sample_request 3 ''u3'']"
  let ?s = "empty_queue_state\<lparr>nextRequestObject := 4, listening := {0, 1, 2, 3}\<rparr>"
  have "queue_ok ?s" and q: "queued ?s = {#}"
    by (simp_all add: empty_queue_state_def queue_ok_def queues_ok_def counts_ok_def)
  then have e: "queue_ok sample_queue3 \<and> queued sample_queue3 = mset ?rs + queued ?s \<and> listening sample_queue3 = listening ?s"
    unfolding sample_queue3_def by (intro enqueue_list_ok) (auto simp: empty_queue_state_def)
  then show "queue_ok sample_queue3" by blast
  show "listeners_ok sample_queue3"
    using e q by (auto simp: listeners_ok_def)
qed

theorem dequeue_refines_round_robin_witness:
  "ring_deq (ring_of ''a.com'' sample_queue3) =
     (fst (dequeueNextRequest ''a.com'' sample_queue3), ring_of ''a.com'' (snd (dequeueNextRequest ''a.com'' sample_queue3)))"
  using dequeue_refines_round_robin [OF sample_queue3_ok(1)] by blast

text \<open>
  Fairness: if a workspace has \<open>n\<close> waiting owners, its next \<open>n\<close> dequeues serve every one of
  them exactly once, in the order of their turns and each with its oldest request, however
  many requests any one owner has queued.
\<close>

theorem dequeue_one_turn_each:
  assumes "queue_ok s" and "jget (requestQueues s) w = Some q"
  shows "fst (drain_queue (dequeueNextRequest w) (length (wq_order q)) s) = map (\<lambda>(k, rs). hd rs) (wq_ring q) \<and>
         distinct (map fst (wq_ring q)) \<and> set (map fst (wq_ring q)) = set (wq_order q)"
proof -
  have ok: "wq_ok q" using queues_ok_get [OF _ assms(2)] assms(1) by (simp add: queue_ok_def)
  have "mset (wq_ring q) = mset (wq_owners q)"
    unfolding wq_ring_def by (metis append_take_drop_id mset_append union_commute)
  then have same: "mset (map fst (wq_ring q)) = mset (wq_order q)" "set (wq_ring q) = set (wq_owners q)"
    and len: "length (wq_order q) = length (wq_ring q)"
    using ok by (auto simp: wq_ok_def wq_wf_def dest: mset_eq_setD mset_eq_length)
  obtain rs t where d: "drain_queue (dequeueNextRequest w) (length (wq_order q)) s = (rs, t)" by force
  have "rs = fst (drain_queue ring_deq (length (wq_ring q)) (wq_ring q @ []))"
    using drain_ring_of [OF assms(1) d] assms(2) by (simp add: ring_of_def len)
  also have "\<dots> = map (\<lambda>(k, rs). hd rs) (wq_ring q)"
    using ok same(2) by (intro drain_ring_turns) (auto simp: wq_ok_def wq_wf_def)
  finally show ?thesis
    using d ok same(1) by (metis fst_conv mset_eq_imp_distinct_iff mset_eq_setD wq_ok_def wq_wf_def)
qed

theorem dequeue_one_turn_each_witness:
  "map qr_id (fst (drain_queue (dequeueNextRequest ''a.com'') 3 sample_queue3)) = [0, 2, 3]"
proof -
  obtain q where q: "jget (requestQueues sample_queue3) ''a.com'' = Some q"
      "length (wq_order q) = 3" "map qr_id (map (\<lambda>(k, rs). hd rs) (wq_ring q)) = [0, 2, 3]"
    by (simp add: sample_queue3_queues wq_ring_def)
  show ?thesis
    using dequeue_one_turn_each [OF sample_queue3_ok(1) q(1)] q(2,3) by simp
qed

text \<open>
  C3. Nothing is lost, invented or sent to the wrong workspace: dequeuing a workspace often
  enough returns exactly the requests that were queued for it, each once, and leaves those
  of every other workspace in place.
\<close>

theorem drain_serves_exactly_the_workspace:
  assumes "queue_ok s" and "size {#r \<in># queued s. qr_workspace r = w#} \<le> n"
    and "drain_queue (dequeueNextRequest w) n s = (rs, t)"
  shows "mset rs = {#r \<in># queued s. qr_workspace r = w#} \<and>
         queued t = {#r \<in># queued s. qr_workspace r \<noteq> w#} \<and> queue_ok t"
proof -
  have s: "queue_ok t" "queued s = mset rs + queued t"
    using request_queue.drain_sound [OF assms(1,3)] by blast+
  have e: "mset rs = {#r \<in># queued s. qr_workspace r = w#}" "{#r \<in># queued t. qr_workspace r = w#} = {#}"
    using request_queue.drain_exact [OF assms] by blast+
  have "queued s = {#r \<in># queued s. qr_workspace r = w#} + {#r \<in># queued s. qr_workspace r \<noteq> w#}"
    by (rule multiset_partition)
  then show ?thesis using s e by (metis add_left_cancel)
qed

theorem drain_serves_exactly_the_workspace_witness:
  "mset (fst (drain_queue (dequeueNextRequest ''a.com'') 9 sample_queue3)) = queued sample_queue3"
proof -
  obtain rs t where d: "drain_queue (dequeueNextRequest ''a.com'') 9 sample_queue3 = (rs, t)" by force
  have "size {#r \<in># queued sample_queue3. qr_workspace r = ''a.com''#} \<le> 9"
    and "{#r \<in># queued sample_queue3. qr_workspace r = ''a.com''#} = queued sample_queue3"
    by (simp_all add: sample_queue3_queues wq_requests_def)
  then show ?thesis using drain_serves_exactly_the_workspace [OF sample_queue3_ok(1) _ d] d by simp
qed

text \<open>
  Aborting a queued request removes that one request, resolves its promise exactly once as
  cancelled and detaches its listener; the remaining queue is consistent.
\<close>

theorem queuedAbort_exactly_once:
  assumes "queue_ok s" and "listeners_ok s" and "r \<in># queued s"
    and "s' = queuedAbort (qr_workspace r) (qr_owner r) (qr_id r) s"
  shows "queue_ok s' \<and> listeners_ok s' \<and> queued s = add_mset r (queued s') \<and>
         settled s' = settled s @ [(qr_id r, Resolved cancelledResult)]"
  using queuedAbort_queued [OF assms(1,3)] assms(2,4) by simp

theorem queuedAbort_exactly_once_witness:
  "queue_ok (queuedAbort ''a.com'' ''u2'' 2 sample_queue3) \<and>
   settled (queuedAbort ''a.com'' ''u2'' 2 sample_queue3) = settled sample_queue3 @ [(2, Resolved cancelledResult)]"
proof -
  have "sample_request 2 ''u2'' \<in># queued sample_queue3"
    by (simp add: sample_queue3_queues wq_requests_def)
  from queuedAbort_exactly_once [OF sample_queue3_ok this refl] show ?thesis by simp
qed

lemma queued_ids_distinct:
  assumes "queue_ok s" and "mset rs = queued s"
  shows "distinct (map qr_id rs)"
  unfolding distinct_count_atmost_1
proof
  fix a
  have im: "mset (map qr_id rs) = image_mset qr_id (queued s)" using assms(2) by simp
  show "count (mset (map qr_id rs)) a = (if a \<in> set (map qr_id rs) then 1 else 0)"
  proof (cases "a \<in> set (map qr_id rs)")
    case True
    then obtain r where "r \<in># queued s" "a = qr_id r" using assms(2) by (metis image_iff list.set_map set_mset_mset)
    then show ?thesis using assms(1) True unfolding im by (simp add: queue_ok_def counts_ok_def)
  next
    case False
    then show ?thesis by (simp only: count_mset_0_iff if_False not_False_eq_True)
  qed
qed

lemma all_requests_mset:
  "mset (concat (map (\<lambda>(k, q). concat (map snd (wq_owners q))) m)) = queues_mset m"
  by (induction m) (auto simp: wq_requests_def)

lemma rejectAll_state:
  assumes "listeners_ok s"
  shows "listening (rejectAllQueuedRequests reason s) = {}"
    and "queued (rejectAllQueuedRequests reason s) = {#}"
    and "queue_ok (rejectAllQueuedRequests reason s)"
proof -
  have "set (concat (map (\<lambda>(k, q). concat (map snd (wq_owners q))) (requestQueues s))) = set_mset (queued s)"
    by (metis all_requests_mset set_mset_mset)
  then show "listening (rejectAllQueuedRequests reason s) = {}"
    using assms unfolding rejectAllQueuedRequests_def Let_def listeners_ok_def
    by (simp only: set_map) simp
  show "queued (rejectAllQueuedRequests reason s) = {#}" "queue_ok (rejectAllQueuedRequests reason s)"
    by (simp_all add: rejectAllQueuedRequests_def Let_def queue_ok_def queues_ok_def counts_ok_def)
qed

text \<open>
  Shutting the pool down rejects every queued request exactly once, in queue order, and
  leaves an empty consistent queue with no abort listener attached.
\<close>

theorem rejectAll_rejects_everyone:
  assumes "queue_ok s" and "listeners_ok s"
  shows "\<exists>rs. mset rs = queued s \<and>
      settled (rejectAllQueuedRequests reason s) = settled s @ map (\<lambda>r. (qr_id r, Rejected reason)) rs \<and>
      distinct (map qr_id rs) \<and> listening (rejectAllQueuedRequests reason s) = {} \<and>
      queued (rejectAllQueuedRequests reason s) = {#} \<and> queue_ok (rejectAllQueuedRequests reason s)"
proof -
  let ?rs = "concat (map (\<lambda>(k, q). concat (map snd (wq_owners q))) (requestQueues s))"
  have rs: "mset ?rs = queued s" by (rule all_requests_mset)
  then have "distinct (map qr_id ?rs)" by (rule queued_ids_distinct [OF assms(1)])
  moreover have "settled (rejectAllQueuedRequests reason s) = settled s @ map (\<lambda>r. (qr_id r, Rejected reason)) ?rs"
    by (simp add: rejectAllQueuedRequests_def Let_def)
  ultimately show ?thesis
    using rs rejectAll_state [OF assms(2), of reason] by blast
qed

theorem rejectAll_rejects_everyone_witness:
  "listening (rejectAllQueuedRequests ''down'' sample_queue3) = {} \<and>
   queue_ok (rejectAllQueuedRequests ''down'' sample_queue3)"
  using rejectAll_rejects_everyone [OF sample_queue3_ok, of "''down''"] by blast

subsection \<open>Two limits of the fairness\<close>

definition wq_shift :: "workspace_queue \<Rightarrow> queued_request option \<times> workspace_queue" where
  "wq_shift q = (case wq_scan q 0 of
     None \<Rightarrow> (None, q) | Some (i, k, r, rs) \<Rightarrow> (Some r, wq_take i k rs q))"

text \<open>Alternating: one request arrives, one is served.\<close>

fun push_and_serve :: "workspace_queue \<Rightarrow> queued_request list \<Rightarrow> queued_request option list \<times> workspace_queue" where
  "push_and_serve q [] = ([], q)"
| "push_and_serve q (r # rs) =
     (let (x, q1) = wq_shift (wq_push r q); (xs, q2) = push_and_serve q1 rs in (x # xs, q2))"

definition two_owners :: "string \<Rightarrow> queued_request list \<Rightarrow> queued_request \<Rightarrow> workspace_queue" where
  "two_owners k rs b =
     \<lparr>wq_owners = [(k, rs), (qr_owner b, [b])], wq_order = [k, qr_owner b], wq_cursor = 1,
      wq_total = int (length rs) + 1\<rparr>"

lemma wq_scan_hit:
  assumes "i < length (wq_order q)" and "index = (wq_cursor q + i) mod length (wq_order q)"
    and "jget (wq_owners q) (wq_order q ! index) = Some (r # rs)"
  shows "wq_scan q i = Some (index, wq_order q ! index, r, rs)"
  using assms by (subst wq_scan.simps) (simp add: Let_def)

lemma two_owners_round:
  assumes "qr_owner b \<noteq> k" and "qr_owner c \<noteq> k" and "qr_owner c \<noteq> qr_owner b"
  shows "wq_shift (wq_push c (two_owners k rs b)) = (Some b, two_owners k rs c)"
proof -
  let ?q = "\<lparr>wq_owners = [(k, rs), (qr_owner b, [b]), (qr_owner c, [c])], wq_order = [k, qr_owner b, qr_owner c],
      wq_cursor = 1, wq_total = int (length rs) + 2\<rparr>"
  have push: "wq_push c (two_owners k rs b) = ?q"
    using assms by (simp add: two_owners_def wq_push_def)
  have "wq_scan ?q 0 = Some (1, wq_order ?q ! 1, b, [])"
    by (rule wq_scan_hit) (use assms in simp_all)
  moreover have "wq_take 1 (qr_owner b) [] ?q = two_owners k rs c"
    using assms by (simp add: two_owners_def wq_take_def wq_forget_owner_def splice_out_def)
  ultimately show ?thesis by (simp add: wq_shift_def push)
qed

fun alternating :: "string \<Rightarrow> queued_request \<Rightarrow> queued_request list \<Rightarrow> bool" where
  "alternating k b [] = True"
| "alternating k b (c # cs) = (qr_owner c \<noteq> k \<and> qr_owner c \<noteq> qr_owner b \<and> alternating k c cs)"

text \<open>
  The round robin does not prevent starvation. An owner \<open>k\<close> that was just served and still
  has requests waits for ever when two other owners keep sending one request each: new
  owners join behind the cursor, so each arrival delays the turn of \<open>k\<close> by one. For any
  number of such arrivals, every dequeue serves somebody else and the queue of \<open>k\<close> is
  untouched.
\<close>

theorem round_robin_starvation:
  assumes "qr_owner b \<noteq> k" and "alternating k b cs"
  shows "fst (push_and_serve (two_owners k rs b) cs) = map Some (butlast (b # cs)) \<and>
         snd (push_and_serve (two_owners k rs b) cs) = two_owners k rs (last (b # cs))"
  using assms
proof (induction cs arbitrary: b)
  case (Cons c cs)
  then have "wq_shift (wq_push c (two_owners k rs b)) = (Some b, two_owners k rs c)"
    by (intro two_owners_round) auto
  moreover have "fst (push_and_serve (two_owners k rs c) cs) = map Some (butlast (c # cs)) \<and>
         snd (push_and_serve (two_owners k rs c) cs) = two_owners k rs (last (c # cs))"
    using Cons by (intro Cons.IH) auto
  ultimately show ?case
    by (cases "push_and_serve (two_owners k rs c) cs") simp
qed simp

theorem round_robin_starvation_witness:
  "map (map_option qr_id) (fst (push_and_serve
       (two_owners ''u1'' [sample_request 0 ''u1''] (sample_request 1 ''u2''))
       [sample_request 2 ''u3'', sample_request 3 ''u2'', sample_request 4 ''u3''])) = [Some 1, Some 2, Some 3]"
proof -
  have "qr_owner (sample_request 1 ''u2'') \<noteq> ''u1''"
    "alternating ''u1'' (sample_request 1 ''u2'') [sample_request 2 ''u3'', sample_request 3 ''u2'', sample_request 4 ''u3'']"
    by simp_all
  from round_robin_starvation [OF this, of "[sample_request 0 ''u1'']"] show ?thesis by simp
qed

text \<open>
  Removing an aborted request can cost another owner its turn: with owners \<open>a\<close>, \<open>b\<close>, \<open>c\<close> and
  the cursor at \<open>b\<close>, aborting the only request of \<open>a\<close> removes an entry before the cursor but
  leaves the cursor where it is, so \<open>c\<close> is served next and \<open>b\<close> only after it
  (\<open>dequeueNextRequest\<close> makes the matching adjustment, \<open>removeQueuedRequest\<close> does not).
\<close>

theorem abort_skips_a_turn:
  fixes x y z :: queued_request
  assumes "a \<noteq> b" and "b \<noteq> c" and "a \<noteq> c"
  defines "q \<equiv> \<lparr>wq_owners = [(a, [x]), (b, [y]), (c, [z])], wq_order = [a, b, c], wq_cursor = 1, wq_total = 3\<rparr>"
  shows "wq_ring q = [(b, [y]), (c, [z]), (a, [x])] \<and>
         wq_ring (wq_remove a 0 [x] q) = [(c, [z]), (b, [y])]"
  using assms by (simp add: wq_ring_def wq_remove_def splice_out_def q_def numeral_2_eq_2)

theorem abort_skips_a_turn_witness:
  "wq_ring (wq_remove ''u1'' 0 [sample_request 0 ''u1'']
     \<lparr>wq_owners = [(''u1'', [sample_request 0 ''u1'']), (''u2'', [sample_request 1 ''u2'']), (''u3'', [sample_request 2 ''u3''])],
      wq_order = [''u1'', ''u2'', ''u3''], wq_cursor = 1, wq_total = 3\<rparr>)
   = [(''u3'', [sample_request 2 ''u3'']), (''u2'', [sample_request 1 ''u2''])]"
  using abort_skips_a_turn [of "''u1''" "''u2''" "''u3''"] by simp

end
