(* ===== verification/WorkerPool.thy ===== *)
theory WorkerPool
  imports FairQueue
begin

section \<open>The worker pool\<close>

text \<open>
  \<open>WorkerPoolManager\<close> of \<open>packages/worker-pool/src/manager.ts\<close>. The manager is one
  JavaScript object: its fields are the record \<open>pool_state\<close>, which extends the queue state,
  and every stretch of code between two \<open>await\<close>s is one definition on it. A call of
  \<open>query\<close> is suspended at a program point (\<open>query_pc\<close>) between its stretches, so
  calls, messages of workers, exits, aborts and timers interleave in any order: the
  relation \<open>pool_step\<close> below.

  What leaves the process is recorded in order: \<open>outbox\<close> (IPC messages to workers),
  \<open>emitted\<close> (events), \<open>signals\<close> (kills), \<open>callbacks\<close> (\<open>onMessage\<close>), \<open>settled\<close> (promises).
  A worker is named by its key; a handle that has left the map is dead to the code that
  still holds it. The closure flags \<open>resolved\<close> and \<open>accountingCleaned\<close> need no field:
  each closure deletes its own \<open>pendingQueries\<close> entry in the step that sets the flag.
  Clock, load average, CPU count, pid pressure and the abort flags are inputs.
\<close>

subsection \<open>State\<close>

datatype worker_state = WStarting | WReady | WBusy | WShuttingDown | WDead

record pending_query =
  pq_requestId :: string
  pq_ownerKey :: string
  pq_workspaceKey :: string
  pq_call :: nat
  pq_sessionId :: "string option"

record worker_handle =
  wh_state :: worker_state
  wh_credentials :: workspace_credentials
  wh_createdAt :: int
  wh_lastActivity :: int
  wh_queriesProcessed :: nat
  wh_activeRequestId :: "string option"
  wh_currentOwnerKey :: "string option"
  wh_pending :: "(string, pending_query) jsmap"
  wh_credentialsVersion :: "string option"
  wh_needsRestart :: bool
  wh_retiredAfterCancel :: bool
  wh_pid :: int
  wh_ipcOpen :: bool

datatype parent_message = PMQuery string string | PMCancel string | PMShutdown bool

text \<open>A field of a worker's message is \<open>None\<close> when it is missing or of the wrong type.\<close>

datatype worker_message =
    WMReady
  | WMShutdownAck
  | WMHealthOk
  | WMSession "string option" "string option"
  | WMMessage "string option" string
  | WMComplete "string option" "string option"
  | WMError "string option" "string option"

datatype pool_event =
    EvSpawned string int
  | EvReady string int
  | EvBusy string string
  | EvIdle string
  | EvShutdown string
  | EvCrashed string
  | EvEvicted string string
  | EvAtCapacity nat int

datatype kill_signal = SIGTERM | SIGKILL

datatype defer_reason = DeferCapacity | DeferUserLimit | DeferWorkspaceLimit | DeferLoadShed

datatype query_pc =
    AtOAuth
  | AtFresh
  | AtPids
  | AtEvicted
  | AtSpawn string
  | AtResolved "string + defer_reason"
  | AtReady string

record query_call =
  qc_credentials :: workspace_credentials
  qc_options :: query_options
  qc_pc :: query_pc

record pool_state = queue_state +
  workers :: "(string, worker_handle) jsmap"
  nextInstanceId :: "string counters"
  isShuttingDown :: bool
  poolCredentialsVersion :: "string option"
  lastCredentialsCheckMs :: int
  activeByOwner :: "string counters"
  activeByWorkspace :: "string counters"
  knownWorkerPids :: "int list"
  calls :: "(nat, query_call) jsmap"
  forwards :: "(nat \<times> nat) list"
  outbox :: "(string \<times> parent_message) list"
  emitted :: "pool_event list"
  signals :: "(int \<times> kill_signal) list"
  callbacks :: "(nat \<times> worker_message) list"

text \<open>What the process reads from its surroundings in one step.\<close>

record pool_env =
  env_paths :: server_paths
  env_cwd :: string
  env_now :: int
  env_cpus :: int
  env_load :: rat

subsection \<open>Small operations\<close>

definition update_worker :: "string \<Rightarrow> (worker_handle \<Rightarrow> worker_handle) \<Rightarrow> pool_state \<Rightarrow> pool_state" where
  "update_worker k f s =
     (case jget (workers s) k of None \<Rightarrow> s | Some w \<Rightarrow> s\<lparr>workers := jset k (f w) (workers s)\<rparr>)"

definition emit_event :: "pool_event \<Rightarrow> pool_state \<Rightarrow> pool_state" where
  "emit_event e s = s\<lparr>emitted := emitted s @ [e]\<rparr>"

definition sendToWorker :: "string \<Rightarrow> parent_message \<Rightarrow> pool_state \<Rightarrow> pool_state" where
  "sendToWorker k m s = s\<lparr>outbox := outbox s @ [(k, m)]\<rparr>"

definition incrementActive :: "string \<Rightarrow> string \<Rightarrow> pool_state \<Rightarrow> pool_state" where
  "incrementActive ownerKey workspaceKey s =
     s\<lparr>activeByOwner := incrementMap (activeByOwner s) ownerKey,
       activeByWorkspace := incrementMap (activeByWorkspace s) workspaceKey\<rparr>"

definition decrementActive :: "string \<Rightarrow> string \<Rightarrow> pool_state \<Rightarrow> pool_state" where
  "decrementActive ownerKey workspaceKey s =
     s\<lparr>activeByOwner := decrementMap (activeByOwner s) ownerKey,
       activeByWorkspace := decrementMap (activeByWorkspace s) workspaceKey\<rparr>"

definition getActiveByOwner :: "string \<Rightarrow> pool_state \<Rightarrow> int" where
  "getActiveByOwner ownerKey s = int (counter_get (activeByOwner s) ownerKey)"

definition getActiveByWorkspace :: "string \<Rightarrow> pool_state \<Rightarrow> int" where
  "getActiveByWorkspace workspaceKey s = int (counter_get (activeByWorkspace s) workspaceKey)"

definition getDynamicMaxWorkers :: "config \<Rightarrow> int \<Rightarrow> int" where
  "getDynamicMaxWorkers cfg cpus =
     (let cpuCount = max 1 cpus;
          dynamic = max 4 \<lfloor>of_int cpuCount * workersPerCore cfg\<rfloor>
      in min (maxWorkers cfg) dynamic)"

definition shouldLoadShed :: "config \<Rightarrow> int \<Rightarrow> rat \<Rightarrow> bool" where
  "shouldLoadShed cfg cpus load = (load > of_int (max 1 cpus) * loadShedThreshold cfg)"

definition belongs_to :: "string \<Rightarrow> string \<Rightarrow> bool" where
  "belongs_to workspaceKey workerKey = starts_with (workspaceKey @ '':'') workerKey"

fun hasLiveWorker :: "string \<Rightarrow> (string, worker_handle) jsmap \<Rightarrow> bool" where
  "hasLiveWorker workspaceKey [] = False"
| "hasLiveWorker workspaceKey ((k, w) # ws) =
     (if \<not> belongs_to workspaceKey k then hasLiveWorker workspaceKey ws
      else if wh_state w = WDead then hasLiveWorker workspaceKey ws
      else True)"

definition baseWorkspaceKey :: "string \<Rightarrow> string" where
  "baseWorkspaceKey k = (if str_includes '':'' k then hd (split_on (CHR '':'') k) else k)"

definition workerKeyOf :: "string \<Rightarrow> nat \<Rightarrow> string" where
  "workerKeyOf workspaceKey instanceId = workspaceKey @ '':'' @ digits instanceId"

subsection \<open>Shutting workers down\<close>

definition gracefulShutdown :: "string \<Rightarrow> pool_state \<Rightarrow> pool_state" where
  "gracefulShutdown k s =
     (case jget (workers s) k of
        None \<Rightarrow> s
      | Some w \<Rightarrow>
          if wh_state w = WShuttingDown \<or> wh_state w = WDead then s
          else sendToWorker k (PMShutdown True) (update_worker k (\<lambda>w. w\<lparr>wh_state := WShuttingDown\<rparr>) s))"

definition killProcessTree :: "int \<Rightarrow> kill_signal \<Rightarrow> pool_state \<Rightarrow> pool_state" where
  "killProcessTree pid sig s = s\<lparr>signals := signals s @ [(pid, sig)]\<rparr>"

text \<open>\<open>terminateWorkerTree\<close> up to its \<open>sleep\<close>, and what follows the sleep.\<close>

definition terminateWorkerTree :: "string \<Rightarrow> pool_state \<Rightarrow> pool_state" where
  "terminateWorkerTree k s =
     (case jget (workers s) k of
        None \<Rightarrow> s
      | Some w \<Rightarrow>
          if wh_state w = WDead then s
          else let s1 = update_worker k (\<lambda>w. w\<lparr>wh_state := WShuttingDown\<rparr>) s;
                   s2 = (case wh_activeRequestId w of
                           None \<Rightarrow> s1
                         | Some r \<Rightarrow> if r = [] then s1 else sendToWorker k (PMCancel r) s1);
                   s3 = sendToWorker k (PMShutdown False) s2
               in if wh_pid w \<le> 0 then s3
                  else killProcessTree (wh_pid w) SIGTERM
                         (s3\<lparr>telemetry := (telemetry s3)\<lparr>tm_groupTerminations := tm_groupTerminations (telemetry s3) + 1\<rparr>\<rparr>))"

definition escalateKill :: "string \<Rightarrow> int \<Rightarrow> pool_state \<Rightarrow> pool_state" where
  "escalateKill k pid s =
     (if jget (workers s) k = None then s
      else killProcessTree pid SIGKILL
             (s\<lparr>telemetry := (telemetry s)\<lparr>tm_groupKillEscalations := tm_groupKillEscalations (telemetry s) + 1\<rparr>\<rparr>))"

definition retireWorkerAfterCancel :: "string \<Rightarrow> pool_state \<Rightarrow> pool_state" where
  "retireWorkerAfterCancel k s =
     terminateWorkerTree k
       (s\<lparr>telemetry := (telemetry s)\<lparr>tm_retiredAfterCancel := tm_retiredAfterCancel (telemetry s) + 1\<rparr>\<rparr>)"

subsection \<open>Starting and processing queries\<close>

definition finish_call :: "nat \<Rightarrow> settlement \<Rightarrow> pool_state \<Rightarrow> pool_state" where
  "finish_call c v s = settle c v (s\<lparr>calls := jdel c (calls s)\<rparr>)"

definition suspend_call :: "nat \<Rightarrow> query_pc \<Rightarrow> pool_state \<Rightarrow> pool_state" where
  "suspend_call c pc s =
     (case jget (calls s) c of None \<Rightarrow> s | Some q \<Rightarrow> s\<lparr>calls := jset c (q\<lparr>qc_pc := pc\<rparr>) (calls s)\<rparr>)"

text \<open>
  The first stretch of \<open>query\<close>: validation, then \<open>ensureOAuthCredentialsFresh\<close>, which reads
  the credentials file at most once a second.
\<close>

definition beginQuery :: "pool_env \<Rightarrow> nat \<Rightarrow> workspace_credentials \<Rightarrow> query_options \<Rightarrow> pool_state \<Rightarrow> pool_state" where
  "beginQuery E c creds opts s =
     (if validateCredentials (env_paths E) (env_cwd E) creds \<noteq> [] then settle c (Rejected ''Invalid credentials'') s
      else if opt_ownerKey opts = [] then settle c (Rejected ''Query ownerKey is required'') s
      else if env_now E - lastCredentialsCheckMs s < 1000
      then s\<lparr>calls := jset c \<lparr>qc_credentials = creds, qc_options = opts, qc_pc = AtFresh\<rparr> (calls s)\<rparr>
      else s\<lparr>lastCredentialsCheckMs := env_now E,
             calls := jset c \<lparr>qc_credentials = creds, qc_options = opts, qc_pc = AtOAuth\<rparr> (calls s)\<rparr>)"

definition query :: "pool_env \<Rightarrow> workspace_credentials \<Rightarrow> query_options \<Rightarrow> pool_state \<Rightarrow> pool_state" where
  "query E creds opts s =
     beginQuery E (nextRequestObject s) creds opts (s\<lparr>nextRequestObject := nextRequestObject s + 1\<rparr>)"

text \<open>\<open>processQueue\<close>: a dequeued request runs \<open>query\<close> again; its own promise gets the result.\<close>

definition processQueue :: "pool_env \<Rightarrow> string \<Rightarrow> pool_state \<Rightarrow> pool_state" where
  "processQueue E workspaceKey s =
     (case dequeueNextRequest workspaceKey s of
        (None, s1) \<Rightarrow> s1
      | (Some r, s1) \<Rightarrow> beginQuery E (qr_id r) (qr_credentials r) (qr_options r) s1)"

text \<open>\<open>emit('worker:idle')\<close> runs the queue of the worker's workspace first.\<close>

definition emitIdle :: "pool_env \<Rightarrow> string \<Rightarrow> pool_state \<Rightarrow> pool_state" where
  "emitIdle E k s = emit_event (EvIdle k) (processQueue E (baseWorkspaceKey k) s)"

text \<open>The \<open>queueRequest\<close> a call ends in: its promise follows the queued request's.\<close>

definition queueCall :: "config \<Rightarrow> int \<Rightarrow> bool \<Rightarrow> nat \<Rightarrow> limit_code \<Rightarrow> pool_state \<Rightarrow> pool_state" where
  "queueCall cfg now aborted c reason s =
     (case jget (calls s) c of
        None \<Rightarrow> s
      | Some q \<Rightarrow>
          (case queueRequest cfg now aborted (qc_credentials q) (qc_options q) reason (s\<lparr>calls := jdel c (calls s)\<rparr>) of
             (LimitError e, s1) \<Rightarrow> settle c (Rejected (case e of USER_LIMIT \<Rightarrow> ''USER_LIMIT''
                 | WORKSPACE_LIMIT \<Rightarrow> ''WORKSPACE_LIMIT'' | QUEUE_FULL \<Rightarrow> ''QUEUE_FULL'' | LOAD_SHED \<Rightarrow> ''LOAD_SHED'')) s1
           | (RequestQueued rid why position, s1) \<Rightarrow> s1\<lparr>forwards := forwards s1 @ [(rid, c)]\<rparr>))"

subsection \<open>OAuth credentials\<close>

fun restartWorkers :: "string \<Rightarrow> bool \<Rightarrow> string list \<Rightarrow> pool_state \<Rightarrow> pool_state" where
  "restartWorkers version force [] s = s"
| "restartWorkers version force (k # ks) s =
     (case jget (workers s) k of
        None \<Rightarrow> restartWorkers version force ks s
      | Some w \<Rightarrow>
          if \<not> force \<and> wh_credentialsVersion w = Some version \<and> \<not> wh_needsRestart w
          then restartWorkers version force ks s
          else if wh_state w = WReady
          then restartWorkers version force ks
                 (gracefulShutdown k (update_worker k (\<lambda>w. w\<lparr>wh_needsRestart := False\<rparr>) s))
          else if wh_state w = WBusy
          then restartWorkers version force ks (update_worker k (\<lambda>w. w\<lparr>wh_needsRestart := True\<rparr>) s)
          else restartWorkers version force ks s)"

text \<open>
  The rest of \<open>ensureOAuthCredentialsFresh\<close> once the file has been read: \<open>result\<close> is its
  version and whether permissions were adjusted, \<open>None\<close> when it cannot be read.
\<close>

definition credentialsRead :: "(string \<times> bool) option \<Rightarrow> pool_state \<Rightarrow> pool_state" where
  "credentialsRead result s =
     (case result of
        None \<Rightarrow> s
      | Some (version, adjusted) \<Rightarrow>
          (case poolCredentialsVersion s of
             None \<Rightarrow>
               if adjusted
               then restartWorkers version True (jkeys (workers s)) (s\<lparr>poolCredentialsVersion := Some version\<rparr>)
               else s\<lparr>poolCredentialsVersion := Some version,
                      workers := map (\<lambda>(k, w). (k, case wh_credentialsVersion w of
                          None \<Rightarrow> w\<lparr>wh_credentialsVersion := Some version\<rparr> | Some v \<Rightarrow> w)) (workers s)\<rparr>
           | Some old \<Rightarrow>
               if old = version \<and> \<not> adjusted then s
               else restartWorkers version adjusted (jkeys (workers s)) (s\<lparr>poolCredentialsVersion := Some version\<rparr>)))"

definition oauthChecked :: "nat \<Rightarrow> (string \<times> bool) option \<Rightarrow> pool_state \<Rightarrow> pool_state" where
  "oauthChecked c result s = suspend_call c AtFresh (credentialsRead result s)"

subsection \<open>Finding or creating a worker\<close>

text \<open>The loop of \<open>getOrCreateWorker\<close>: a usable worker, retiring outdated ones on the way.\<close>

fun findReady :: "string \<Rightarrow> string list \<Rightarrow> pool_state \<Rightarrow> string option \<times> pool_state" where
  "findReady workspaceKey [] s = (None, s)"
| "findReady workspaceKey (k # ks) s =
     (case jget (workers s) k of
        None \<Rightarrow> findReady workspaceKey ks s
      | Some w \<Rightarrow>
          if \<not> belongs_to workspaceKey k then findReady workspaceKey ks s
          else if wh_state w \<noteq> WReady then findReady workspaceKey ks s
          else if wh_retiredAfterCancel w then findReady workspaceKey ks s
          else if wh_needsRestart w then findReady workspaceKey ks (gracefulShutdown k s)
          else if poolCredentialsVersion s \<noteq> None \<and> wh_credentialsVersion w \<noteq> poolCredentialsVersion s
          then findReady workspaceKey ks
                 (gracefulShutdown k (update_worker k (\<lambda>w. w\<lparr>wh_needsRestart := True\<rparr>) s))
          else (Some k, s))"

text \<open>
  \<open>query\<close> after the OAuth check: abort, the two limits, and \<open>getOrCreateWorker\<close> up to its
  first wait.
\<close>

definition afterOAuth :: "config \<Rightarrow> pool_env \<Rightarrow> bool \<Rightarrow> nat \<Rightarrow> pool_state \<Rightarrow> pool_state" where
  "afterOAuth cfg E aborted c s =
     (case jget (calls s) c of
        None \<Rightarrow> s
      | Some q \<Rightarrow>
          let ownerKey = opt_ownerKey (qc_options q); workspaceKey = cr_workspaceKey (qc_credentials q) in
          if aborted then finish_call c (Resolved cancelledResult) s
          else if getActiveByOwner ownerKey s \<ge> maxWorkersPerUser cfg
          then queueCall cfg (env_now E) False c USER_LIMIT s
          else if getActiveByWorkspace workspaceKey s \<ge> maxWorkersPerWorkspace cfg
          then queueCall cfg (env_now E) False c WORKSPACE_LIMIT s
          else case findReady workspaceKey (jkeys (workers s)) s of
                 (Some k, s1) \<Rightarrow>
                   suspend_call c (AtResolved (Inl k)) (update_worker k (\<lambda>w. w\<lparr>wh_lastActivity := env_now E\<rparr>) s1)
               | (None, s1) \<Rightarrow>
                   if getActiveByOwner ownerKey s1 \<ge> maxWorkersPerUser cfg
                   then suspend_call c (AtResolved (Inr DeferUserLimit)) s1
                   else if getActiveByWorkspace workspaceKey s1 \<ge> maxWorkersPerWorkspace cfg
                   then suspend_call c (AtResolved (Inr DeferWorkspaceLimit)) s1
                   else suspend_call c AtPids s1)"

text \<open>Candidates for eviction are compared by \<open>key\<close>; the sort is stable, so the first least one.\<close>

fun first_least :: "('a \<Rightarrow> int) \<Rightarrow> 'a \<Rightarrow> 'a list \<Rightarrow> 'a" where
  "first_least key x [] = x"
| "first_least key x (y # ys) = first_least key (if key y < key x then y else x) ys"

definition evictionKey :: "string \<Rightarrow> worker_handle \<Rightarrow> int" where
  "evictionKey strategy w =
     (if strategy = ''lru'' then wh_lastActivity w
      else if strategy = ''oldest'' then wh_createdAt w
      else int (wh_queriesProcessed w))"

definition evictWorker :: "config \<Rightarrow> pool_env \<Rightarrow> pool_state \<Rightarrow> bool \<times> pool_state" where
  "evictWorker cfg E s =
     (case filter (\<lambda>(k, w). wh_state w = WReady \<and> \<not> wh_retiredAfterCancel w) (workers s) of
        [] \<Rightarrow> (False, emit_event (EvAtCapacity (length (workers s)) (getDynamicMaxWorkers cfg (env_cpus E))) s)
      | x # xs \<Rightarrow>
          let k = fst (first_least (\<lambda>(k, w). evictionKey (evictionStrategy cfg) w) x xs)
          in (True, gracefulShutdown k (emit_event (EvEvicted k (evictionStrategy cfg)) s)))"

definition allocateInstance :: "nat \<Rightarrow> pool_state \<Rightarrow> pool_state" where
  "allocateInstance c s =
     (case jget (calls s) c of
        None \<Rightarrow> s
      | Some q \<Rightarrow>
          let workspaceKey = cr_workspaceKey (qc_credentials q);
              instanceId = counter_get (nextInstanceId s) workspaceKey
          in suspend_call c (AtSpawn (workerKeyOf workspaceKey instanceId))
               (s\<lparr>nextInstanceId := (nextInstanceId s)(workspaceKey \<mapsto> instanceId + 1)\<rparr>))"

text \<open>\<open>getOrCreateWorker\<close> after the pid-pressure check (\<open>None\<close>: no answer).\<close>

definition afterPids :: "config \<Rightarrow> pool_env \<Rightarrow> bool option \<Rightarrow> nat \<Rightarrow> pool_state \<Rightarrow> pool_state" where
  "afterPids cfg E pressured c s =
     (case jget (calls s) c of
        None \<Rightarrow> s
      | Some q \<Rightarrow>
          let shed = s\<lparr>telemetry := (telemetry s)\<lparr>tm_loadShedEvents := tm_loadShedEvents (telemetry s) + 1\<rparr>\<rparr> in
          if pressured = Some True then suspend_call c (AtResolved (Inr DeferLoadShed)) shed
          else if shouldLoadShed cfg (env_cpus E) (env_load E) \<and>
                  hasLiveWorker (cr_workspaceKey (qc_credentials q)) (workers s)
          then suspend_call c (AtResolved (Inr DeferLoadShed)) shed
          else if int (length (workers s)) \<ge> getDynamicMaxWorkers cfg (env_cpus E)
          then (case evictWorker cfg E s of
                  (False, s1) \<Rightarrow> suspend_call c (AtResolved (Inr DeferCapacity)) s1
                | (True, s1) \<Rightarrow> suspend_call c AtEvicted s1)
          else allocateInstance c s)"

definition new_worker :: "pool_env \<Rightarrow> workspace_credentials \<Rightarrow> string option \<Rightarrow> int \<Rightarrow> worker_handle" where
  "new_worker E creds version pid =
     \<lparr>wh_state = WStarting, wh_credentials = creds, wh_createdAt = env_now E, wh_lastActivity = env_now E,
      wh_queriesProcessed = 0, wh_activeRequestId = None, wh_currentOwnerKey = None, wh_pending = [],
      wh_credentialsVersion = version, wh_needsRestart = False, wh_retiredAfterCancel = False,
      wh_pid = pid, wh_ipcOpen = True\<rparr>"

text \<open>\<open>spawnWorker\<close> once the socket is listening: \<open>None\<close> is a \<open>spawn\<close> that threw.\<close>

definition spawned :: "pool_env \<Rightarrow> int option \<Rightarrow> nat \<Rightarrow> pool_state \<Rightarrow> pool_state" where
  "spawned E pid c s =
     (case jget (calls s) c of
        None \<Rightarrow> s
      | Some q \<Rightarrow>
          (case (qc_pc q, pid) of
             (AtSpawn k, None) \<Rightarrow> finish_call c (Rejected ''Worker spawn error'') s
           | (AtSpawn k, Some p) \<Rightarrow>
               suspend_call c (AtResolved (Inl k))
                 (emit_event (EvSpawned k p)
                   (s\<lparr>knownWorkerPids := (if p > 0 then knownWorkerPids s @ [p] else knownWorkerPids s),
                      workers := jset k (new_worker E (qc_credentials q) (poolCredentialsVersion s) p) (workers s)\<rparr>))
           | _ \<Rightarrow> s))"

subsection \<open>Handing the query to a worker\<close>

definition limit_of :: "defer_reason \<Rightarrow> limit_code" where
  "limit_of r = (case r of DeferUserLimit \<Rightarrow> USER_LIMIT | DeferWorkspaceLimit \<Rightarrow> WORKSPACE_LIMIT
     | DeferLoadShed \<Rightarrow> LOAD_SHED | DeferCapacity \<Rightarrow> QUEUE_FULL)"

definition startOnWorker :: "config \<Rightarrow> pool_env \<Rightarrow> bool \<Rightarrow> nat \<Rightarrow> string \<Rightarrow> pool_state \<Rightarrow> pool_state" where
  "startOnWorker cfg E aborted c k s =
     (case jget (calls s) c of
        None \<Rightarrow> s
      | Some q \<Rightarrow>
          let opts = qc_options q; creds = qc_credentials q; requestId = opt_requestId opts in
          if aborted then finish_call c (Resolved cancelledResult) s
          else case jget (workers s) k of
                 None \<Rightarrow> queueCall cfg (env_now E) False c QUEUE_FULL s
               | Some w \<Rightarrow>
                   if wh_state w \<noteq> WReady \<or> wh_retiredAfterCancel w
                   then queueCall cfg (env_now E) False c QUEUE_FULL s
                   else
                     let p = \<lparr>pq_requestId = requestId, pq_ownerKey = opt_ownerKey opts,
                              pq_workspaceKey = cr_workspaceKey creds, pq_call = c, pq_sessionId = None\<rparr>;
                         s1 = update_worker k (\<lambda>w. w\<lparr>wh_state := WBusy, wh_activeRequestId := Some requestId,
                                wh_currentOwnerKey := Some (opt_ownerKey opts)\<rparr>) s;
                         s2 = incrementActive (opt_ownerKey opts) (cr_workspaceKey creds) s1;
                         s3 = emit_event (EvBusy k requestId) s2;
                         s4 = update_worker k (\<lambda>w. w\<lparr>wh_pending := jset requestId p (wh_pending w)\<rparr>) s3
                     in sendToWorker k (PMQuery requestId (opt_payload opts)) (s4\<lparr>calls := jdel c (calls s4)\<rparr>))"

text \<open>\<open>query\<close> after \<open>getOrCreateWorker\<close>: defer, or wait for a starting worker, or go on.\<close>

definition afterResolved :: "config \<Rightarrow> pool_env \<Rightarrow> bool \<Rightarrow> nat \<Rightarrow> pool_state \<Rightarrow> pool_state" where
  "afterResolved cfg E aborted c s =
     (case jget (calls s) c of
        None \<Rightarrow> s
      | Some q \<Rightarrow>
          (case qc_pc q of
             AtResolved (Inr reason) \<Rightarrow> queueCall cfg (env_now E) aborted c (limit_of reason) s
           | AtResolved (Inl k) \<Rightarrow>
               if aborted then finish_call c (Resolved cancelledResult) s
               else if map_option wh_state (jget (workers s) k) = Some WStarting
               then suspend_call c (AtReady k) s
               else startOnWorker cfg E False c k s
           | _ \<Rightarrow> s))"

definition afterReady :: "config \<Rightarrow> pool_env \<Rightarrow> bool \<Rightarrow> nat \<Rightarrow> pool_state \<Rightarrow> pool_state" where
  "afterReady cfg E aborted c s =
     (case jget (calls s) c of
        Some q \<Rightarrow> (case qc_pc q of AtReady k \<Rightarrow> startOnWorker cfg E aborted c k s | _ \<Rightarrow> s)
      | None \<Rightarrow> s)"

text \<open>\<open>waitForReady\<close> giving up: by its timeout, or because the worker crashed first.\<close>

definition readyTimeout :: "nat \<Rightarrow> pool_state \<Rightarrow> pool_state" where
  "readyTimeout c s =
     (case jget (calls s) c of
        Some q \<Rightarrow>
          (case qc_pc q of
             AtReady k \<Rightarrow>
               (case jget (workers s) k of
                  None \<Rightarrow> finish_call c (Rejected ''ready timeout'') s
                | Some w \<Rightarrow>
                    finish_call c (Rejected ''ready timeout'')
                      (s\<lparr>signals := signals s @ [(wh_pid w, SIGKILL)], workers := jdel k (workers s)\<rparr>))
           | _ \<Rightarrow> s)
      | None \<Rightarrow> s)"

definition readyCrash :: "nat \<Rightarrow> pool_state \<Rightarrow> pool_state" where
  "readyCrash c s = finish_call c (Rejected ''crashed before becoming ready'') s"

subsection \<open>The end of a query\<close>

text \<open>The \<open>cleanup\<close> closure of a pending query.\<close>

definition cleanupQuery :: "pool_env \<Rightarrow> string \<Rightarrow> pending_query \<Rightarrow> pool_state \<Rightarrow> pool_state" where
  "cleanupQuery E k p s =
     (let s1 = update_worker k (\<lambda>w. w\<lparr>wh_pending := jdel (pq_requestId p) (wh_pending w)\<rparr>) s;
          s2 = decrementActive (pq_ownerKey p) (pq_workspaceKey p) s1;
          s3 = update_worker k (\<lambda>w. w\<lparr>wh_queriesProcessed := wh_queriesProcessed w + 1, wh_activeRequestId := None,
                 wh_currentOwnerKey := None, wh_lastActivity := env_now E\<rparr>) s2
      in case jget (workers s3) k of
           None \<Rightarrow> s3
         | Some w \<Rightarrow>
             if wh_state w = WBusy
             then if wh_needsRestart w
                  then gracefulShutdown k (update_worker k (\<lambda>w. w\<lparr>wh_needsRestart := False\<rparr>) s3)
                  else emitIdle E k (update_worker k (\<lambda>w. w\<lparr>wh_state := WReady\<rparr>) s3)
             else s3)"

fun rejectEach :: "pool_env \<Rightarrow> string \<Rightarrow> string \<Rightarrow> pending_query list \<Rightarrow> pool_state \<Rightarrow> pool_state" where
  "rejectEach E k reason [] s = s"
| "rejectEach E k reason (p # ps) s =
     rejectEach E k reason ps (settle (pq_call p) (Rejected reason) (cleanupQuery E k p s))"

definition rejectPendingQueries :: "pool_env \<Rightarrow> string \<Rightarrow> string \<Rightarrow> pool_state \<Rightarrow> pool_state" where
  "rejectPendingQueries E k reason s =
     (case jget (workers s) k of
        None \<Rightarrow> s
      | Some w \<Rightarrow>
          update_worker k (\<lambda>w. w\<lparr>wh_pending := []\<rparr>) (rejectEach E k reason (map snd (wh_pending w)) s))"

text \<open>The abort listener of a running query.\<close>

definition abortQuery :: "pool_env \<Rightarrow> string \<Rightarrow> string \<Rightarrow> pool_state \<Rightarrow> pool_state" where
  "abortQuery E k requestId s =
     (case jget (workers s) k of
        None \<Rightarrow> s
      | Some w \<Rightarrow>
          (case jget (wh_pending w) requestId of
             None \<Rightarrow> s
           | Some p \<Rightarrow>
               let s1 = decrementActive (pq_ownerKey p) (pq_workspaceKey p) (sendToWorker k (PMCancel requestId) s);
                   s2 = update_worker k (\<lambda>w. w\<lparr>wh_pending := jdel requestId (wh_pending w),
                          wh_queriesProcessed := wh_queriesProcessed w + 1, wh_activeRequestId := None,
                          wh_currentOwnerKey := None, wh_lastActivity := env_now E\<rparr>) s1;
                   s3 = settle (pq_call p) (Resolved (QueryResult True (pq_sessionId p) None True)) s2
               in retireWorkerAfterCancel k
                    (update_worker k (\<lambda>w. w\<lparr>wh_retiredAfterCancel := True, wh_state := WShuttingDown\<rparr>) s3)))"

subsection \<open>Messages, disconnects and exits of workers\<close>

definition call_back :: "nat \<Rightarrow> worker_message \<Rightarrow> pool_state \<Rightarrow> pool_state" where
  "call_back c m s = s\<lparr>callbacks := callbacks s @ [(c, m)]\<rparr>"

text \<open>The messages that carry a request id, once its pending query is known.\<close>

definition handleQueryMessage :: "pool_env \<Rightarrow> string \<Rightarrow> pending_query \<Rightarrow> worker_message \<Rightarrow> pool_state \<Rightarrow> pool_state" where
  "handleQueryMessage E k p m s =
     (case m of
        WMSession r sid \<Rightarrow>
          (case sid of
             None \<Rightarrow> s
           | Some i \<Rightarrow> call_back (pq_call p) m
               (update_worker k (\<lambda>w. w\<lparr>wh_pending := jset (pq_requestId p) (p\<lparr>pq_sessionId := Some i\<rparr>) (wh_pending w)\<rparr>) s))
      | WMMessage r content \<Rightarrow> call_back (pq_call p) m s
      | WMComplete r result \<Rightarrow>
          (case result of
             None \<Rightarrow> s
           | Some v \<Rightarrow> settle (pq_call p) (Resolved (QueryResult True (pq_sessionId p) (Some v) False))
               (cleanupQuery E k p (call_back (pq_call p) m s)))
      | WMError r text \<Rightarrow>
          settle (pq_call p) (Rejected (case text of Some t \<Rightarrow> t | None \<Rightarrow> ''Unknown error'')) (cleanupQuery E k p s)
      | _ \<Rightarrow> s)"

fun message_requestId :: "worker_message \<Rightarrow> string option" where
  "message_requestId (WMSession r sid) = r"
| "message_requestId (WMMessage r content) = r"
| "message_requestId (WMComplete r result) = r"
| "message_requestId (WMError r text) = r"
| "message_requestId _ = None"

definition handleWorkerMessage :: "pool_env \<Rightarrow> string \<Rightarrow> worker_message \<Rightarrow> pool_state \<Rightarrow> pool_state" where
  "handleWorkerMessage E k m s =
     (case jget (workers s) k of
        None \<Rightarrow> s
      | Some w \<Rightarrow>
          (case m of
             WMReady \<Rightarrow>
               if wh_retiredAfterCancel w then s
               else emit_event (EvReady k (wh_pid w)) (update_worker k (\<lambda>w. w\<lparr>wh_state := WReady\<rparr>) s)
           | WMShutdownAck \<Rightarrow> update_worker k (\<lambda>w. w\<lparr>wh_state := WDead\<rparr>) s
           | WMHealthOk \<Rightarrow> s
           | _ \<Rightarrow>
               (case message_requestId m of
                  None \<Rightarrow> s
                | Some r \<Rightarrow>
                    if r = [] then s
                    else (case jget (wh_pending w) r of
                            None \<Rightarrow> s
                          | Some p \<Rightarrow> handleQueryMessage E k p m s))))"

definition handleWorkerDisconnect :: "pool_env \<Rightarrow> string \<Rightarrow> pool_state \<Rightarrow> pool_state" where
  "handleWorkerDisconnect E k s =
     (case jget (workers s) k of
        None \<Rightarrow> s
      | Some w \<Rightarrow>
          if wh_state w \<noteq> WShuttingDown \<and> wh_state w \<noteq> WDead
          then rejectPendingQueries E k ''Worker disconnected unexpectedly''
                 (update_worker k (\<lambda>w. w\<lparr>wh_state := WDead, wh_ipcOpen := False\<rparr>) s)
          else s)"

definition handleWorkerExit :: "pool_env \<Rightarrow> string \<Rightarrow> string \<Rightarrow> pool_state \<Rightarrow> pool_state" where
  "handleWorkerExit E k exitReason s =
     (case jget (workers s) k of
        None \<Rightarrow> s
      | Some w \<Rightarrow>
          let wasShuttingDown = (wh_state w = WShuttingDown);
              s1 = update_worker k (\<lambda>w. w\<lparr>wh_state := WDead\<rparr>) s;
              s2 = rejectPendingQueries E k (''Worker exited: '' @ exitReason) s1;
              s3 = update_worker k (\<lambda>w. w\<lparr>wh_ipcOpen := False\<rparr>) s2;
              s4 = (if \<not> wasShuttingDown \<and> \<not> isShuttingDown s3 then emit_event (EvCrashed k) s3
                    else emit_event (EvShutdown k) s3)
          in processQueue E (baseWorkspaceKey k) (s4\<lparr>workers := jdel k (workers s4)\<rparr>))"

text \<open>The \<open>error\<close> event of a child process: the handle stays in the map.\<close>

definition childError :: "pool_env \<Rightarrow> string \<Rightarrow> pool_state \<Rightarrow> pool_state" where
  "childError E k s =
     rejectPendingQueries E k ''Worker spawn error''
       (update_worker k (\<lambda>w. w\<lparr>wh_state := WDead, wh_ipcOpen := False\<rparr>) s)"

subsection \<open>Timers and shutdown\<close>

fun evictInactive :: "config \<Rightarrow> pool_env \<Rightarrow> string list \<Rightarrow> pool_state \<Rightarrow> pool_state" where
  "evictInactive cfg E [] s = s"
| "evictInactive cfg E (k # ks) s =
     (case jget (workers s) k of
        None \<Rightarrow> evictInactive cfg E ks s
      | Some w \<Rightarrow>
          if wh_state w \<noteq> WReady then evictInactive cfg E ks s
          else if env_now E - wh_lastActivity w > inactivityTimeoutMs cfg
          then evictInactive cfg E ks (gracefulShutdown k s)
          else if env_now E - wh_createdAt w > maxAgeMs cfg
          then evictInactive cfg E ks (gracefulShutdown k s)
          else evictInactive cfg E ks s)"

definition evictInactiveWorkers :: "config \<Rightarrow> pool_env \<Rightarrow> pool_state \<Rightarrow> pool_state" where
  "evictInactiveWorkers cfg E s = evictInactive cfg E (jkeys (workers s)) s"

fun drainEach :: "pool_env \<Rightarrow> string list \<Rightarrow> pool_state \<Rightarrow> pool_state" where
  "drainEach E [] s = s"
| "drainEach E (w # ws) s =
     (case jget (requestQueues s) w of
        None \<Rightarrow> drainEach E ws s
      | Some q \<Rightarrow> if wq_total q = 0 then drainEach E ws s else drainEach E ws (processQueue E w s))"

definition drainQueueIfLoadDropped :: "config \<Rightarrow> pool_env \<Rightarrow> pool_state \<Rightarrow> pool_state" where
  "drainQueueIfLoadDropped cfg E s =
     (if totalQueued s = 0 then s
      else if shouldLoadShed cfg (env_cpus E) (env_load E) then s
      else drainEach E (jkeys (requestQueues s)) s)"

text \<open>A line of \<open>ps\<close>, already matched: pid, parent, elapsed seconds and arguments.\<close>

record ps_line =
  ps_pid :: int
  ps_ppid :: int
  ps_elapsed :: int
  ps_args :: string

definition is_orphan :: "config \<Rightarrow> int list \<Rightarrow> int list \<Rightarrow> ps_line \<Rightarrow> bool" where
  "is_orphan cfg known live l \<longleftrightarrow>
     str_includes ''claude-agent-sdk/cli.js'' (ps_args l) \<and>
     \<not> ps_elapsed l * 1000 < orphanMaxAgeMs cfg \<and>
     ps_ppid l \<in> set known \<and> ps_ppid l \<notin> set live"

fun reapOrphans :: "config \<Rightarrow> int list \<Rightarrow> ps_line list \<Rightarrow> pool_state \<Rightarrow> pool_state" where
  "reapOrphans cfg live [] s = s"
| "reapOrphans cfg live (l # ls) s =
     (if is_orphan cfg (knownWorkerPids s) live l
      then reapOrphans cfg live ls
        (let s1 = killProcessTree (ps_pid l) SIGKILL s in
         s1\<lparr>telemetry := (telemetry s1)\<lparr>tm_orphansReaped := tm_orphansReaped (telemetry s1) + 1\<rparr>\<rparr>)
      else reapOrphans cfg live ls s)"

definition livePids :: "pool_state \<Rightarrow> int list" where
  "livePids s = filter (\<lambda>p. p > 0) (map (\<lambda>(k, w). wh_pid w) (workers s))"

definition sweepOrphanedCliProcesses :: "config \<Rightarrow> ps_line list \<Rightarrow> pool_state \<Rightarrow> pool_state" where
  "sweepOrphanedCliProcesses cfg ls s =
     (let live = livePids s; s1 = reapOrphans cfg live ls s in
      s1\<lparr>knownWorkerPids := filter (\<lambda>p. p \<in> set live) (knownWorkerPids s1)\<rparr>)"

fun shutdownEach :: "pool_env \<Rightarrow> string list \<Rightarrow> pool_state \<Rightarrow> pool_state" where
  "shutdownEach E [] s = s"
| "shutdownEach E (k # ks) s =
     shutdownEach E ks (terminateWorkerTree k (rejectPendingQueries E k ''Worker pool is shutting down'' s))"

text \<open>\<open>shutdownAll\<close> up to the wait for the workers, and after it (\<open>ks\<close> is the snapshot).\<close>

definition shutdownAllBegin :: "pool_env \<Rightarrow> pool_state \<Rightarrow> pool_state" where
  "shutdownAllBegin E s =
     shutdownEach E (jkeys (workers s))
       (rejectAllQueuedRequests ''Worker pool is shutting down'' (s\<lparr>isShuttingDown := True\<rparr>))"

definition resetCounters :: "pool_state \<Rightarrow> pool_state" where
  "resetCounters s =
     s\<lparr>activeByOwner := Map.empty, activeByWorkspace := Map.empty, queuedByOwner := Map.empty,
       queuedByWorkspace := Map.empty, totalQueued := 0\<rparr>"

definition shutdownAllEnd :: "string list \<Rightarrow> pool_state \<Rightarrow> pool_state" where
  "shutdownAllEnd ks s =
     (resetCounters (s\<lparr>workers := fold jdel ks (workers s)\<rparr>))\<lparr>isShuttingDown := False\<rparr>"

record pool_stats =
  st_totalWorkers :: nat
  st_activeWorkers :: nat
  st_idleWorkers :: nat
  st_maxWorkers :: int
  st_dynamicMaxWorkers :: int
  st_queuedRequests :: int
  st_telemetry :: pool_telemetry

definition getStats :: "config \<Rightarrow> int \<Rightarrow> pool_state \<Rightarrow> pool_stats" where
  "getStats cfg cpus s =
     \<lparr>st_totalWorkers = length (workers s),
      st_activeWorkers = length (filter (\<lambda>(k, w). wh_state w = WBusy) (workers s)),
      st_idleWorkers = length (filter (\<lambda>(k, w). wh_state w = WReady) (workers s)),
      st_maxWorkers = maxWorkers cfg,
      st_dynamicMaxWorkers = getDynamicMaxWorkers cfg cpus,
      st_queuedRequests = totalQueued s,
      st_telemetry = telemetry s\<rparr>"

subsection \<open>The interleaving of the stretches\<close>

text \<open>
  One step of the pool: any enabled stretch, with any input from outside. Two guards state
  what callers and timers guarantee: the request id of a query handed to a worker is not
  already pending there (ids are generated per request), and the ready timer of a worker
  fires only while the worker was never given a query (it is cleared by the ready event).
  The first argument after the configuration is a ghost: it marks the end of a \<open>shutdownAll\<close>, the
  stretch after its waits, that finds queries running or queued, for nothing stops new ones from
  coming while it waits. The snapshot \<open>ks\<close> of the workers may be any list of keys.
\<close>

definition quiet_pool :: "pool_state \<Rightarrow> bool" where
  "quiet_pool s \<longleftrightarrow> list_all (\<lambda>(k, w). wh_pending w = []) (workers s) \<and> queued s = {#}"

inductive pool_step :: "config \<Rightarrow> bool \<Rightarrow> pool_state \<Rightarrow> pool_state \<Rightarrow> bool" for cfg where
  StepQuery: "pool_step cfg False s (query E creds opts s)"
| StepOAuth: "pool_step cfg False s (oauthChecked c result s)"
| StepAfterOAuth: "pool_step cfg False s (afterOAuth cfg E aborted c s)"
| StepPids: "pool_step cfg False s (afterPids cfg E pressured c s)"
| StepEvicted: "pool_step cfg False s (allocateInstance c s)"
| StepSpawned: "pool_step cfg False s (spawned E pid c s)"
| StepResolved: "\<forall>q k w. jget (calls s) c = Some q \<longrightarrow> jget (workers s) k = Some w \<longrightarrow>
      jget (wh_pending w) (opt_requestId (qc_options q)) = None \<Longrightarrow>
    pool_step cfg False s (afterResolved cfg E aborted c s)"
| StepReady: "\<forall>q k w. jget (calls s) c = Some q \<longrightarrow> jget (workers s) k = Some w \<longrightarrow>
      jget (wh_pending w) (opt_requestId (qc_options q)) = None \<Longrightarrow>
    pool_step cfg False s (afterReady cfg E aborted c s)"
| StepReadyTimeout: "\<forall>q k w. jget (calls s) c = Some q \<longrightarrow> qc_pc q = AtReady k \<longrightarrow>
      jget (workers s) k = Some w \<longrightarrow> wh_pending w = [] \<Longrightarrow>
    pool_step cfg False s (readyTimeout c s)"
| StepReadyCrash: "pool_step cfg False s (readyCrash c s)"
| StepMessage: "pool_step cfg False s (handleWorkerMessage E k m s)"
| StepDisconnect: "pool_step cfg False s (handleWorkerDisconnect E k s)"
| StepExit: "pool_step cfg False s (handleWorkerExit E k why s)"
| StepChildError: "pool_step cfg False s (childError E k s)"
| StepAbort: "pool_step cfg False s (abortQuery E k r s)"
| StepQueuedAbort: "r \<in># queued s \<Longrightarrow>
    pool_step cfg False s (queuedAbort (qr_workspace r) (qr_owner r) (qr_id r) s)"
| StepGraceful: "pool_step cfg False s (gracefulShutdown k s)"
| StepTerminate: "pool_step cfg False s (terminateWorkerTree k s)"
| StepEscalate: "pool_step cfg False s (escalateKill k pid s)"
| StepEvictInactive: "pool_step cfg False s (evictInactiveWorkers cfg E s)"
| StepDrain: "pool_step cfg False s (drainQueueIfLoadDropped cfg E s)"
| StepSweep: "pool_step cfg False s (sweepOrphanedCliProcesses cfg ls s)"
| StepShutdown: "pool_step cfg False s (shutdownAllBegin E s)"
| StepShutdownEnd: "pool_step cfg (\<not> quiet_pool s) s (shutdownAllEnd ks s)"

text \<open>The state \<open>s\<close> can be reached; the flag tells whether some shutdown on the way ended over late queries.\<close>

inductive pool_reachable :: "config \<Rightarrow> pool_state \<Rightarrow> bool \<Rightarrow> pool_state \<Rightarrow> bool" for cfg s0 where
  ReachInit: "pool_reachable cfg s0 False s0"
| ReachStep: "pool_reachable cfg s0 late s \<Longrightarrow> pool_step cfg False s t \<Longrightarrow> pool_reachable cfg s0 late t"
| ReachLate: "pool_reachable cfg s0 late s \<Longrightarrow> pool_step cfg True s t \<Longrightarrow> pool_reachable cfg s0 True t"

definition initial_pool :: pool_state where
  "initial_pool =
     \<lparr>requestQueues = [], queuedByOwner = Map.empty, queuedByWorkspace = Map.empty, totalQueued = 0,
      telemetry = telemetry empty_queue_state, nextRequestObject = 0, listening = {}, settled = [],
      workers = [], nextInstanceId = Map.empty, isShuttingDown = False, poolCredentialsVersion = None,
      lastCredentialsCheckMs = 0, activeByOwner = Map.empty, activeByWorkspace = Map.empty,
      knownWorkerPids = [], calls = [], forwards = [], outbox = [], emitted = [], signals = [], callbacks = []\<rparr>"

subsection \<open>The accounting invariant\<close>

type_synonym pend_map = "(string, (string, pending_query) jsmap) jsmap"

definition pend_of :: "pool_state \<Rightarrow> pend_map" where
  "pend_of s = map (\<lambda>(k, w). (k, wh_pending w)) (workers s)"

definition pvals :: "(string, pending_query) jsmap \<Rightarrow> pending_query multiset" where
  "pvals ps = mset (map snd ps)"

definition pend_mset :: "pend_map \<Rightarrow> pending_query multiset" where
  "pend_mset m = jsum (\<lambda>k ps. pvals ps) m"

definition pend_wf :: "pend_map \<Rightarrow> bool" where
  "pend_wf m \<longleftrightarrow> jmap_ok m \<and>
     (\<forall>(k, ps)\<in>set m. jmap_ok ps \<and> (\<forall>(r, p)\<in>set ps. pq_requestId p = r))"

definition pend_counts :: "pend_map \<Rightarrow> string counters \<Rightarrow> string counters \<Rightarrow> bool" where
  "pend_counts m byOwner byWorkspace \<longleftrightarrow>
     (\<forall>k. counter_get byOwner k = size {#p \<in># pend_mset m. pq_ownerKey p = k#}) \<and>
     (\<forall>k. counter_get byWorkspace k = size {#p \<in># pend_mset m. pq_workspaceKey p = k#})"

text \<open>The active counters are exactly the queries the workers are running.\<close>

definition acct_ok :: "pool_state \<Rightarrow> bool" where
  "acct_ok s \<longleftrightarrow> pend_wf (pend_of s) \<and> pend_counts (pend_of s) (activeByOwner s) (activeByWorkspace s)"

text \<open>Worker keys come from instance numbers already handed out; a key still to be spawned is new.\<close>

definition spawning :: "pool_state \<Rightarrow> (nat \<times> string) set" where
  "spawning s = {(c, k). \<exists>q. jget (calls s) c = Some q \<and> qc_pc q = AtSpawn k}"

definition issued :: "pool_state \<Rightarrow> string \<Rightarrow> bool" where
  "issued s k \<longleftrightarrow> (\<exists>w i. k = workerKeyOf w i \<and> i < counter_get (nextInstanceId s) w)"

definition worker_keys :: "pool_state \<Rightarrow> string set" where
  "worker_keys s = fst ` set (workers s)"

definition keys_ok :: "pool_state \<Rightarrow> bool" where
  "keys_ok s \<longleftrightarrow> (\<forall>k\<in>worker_keys s. issued s k) \<and>
     (\<forall>(c, k)\<in>spawning s. issued s k \<and> k \<notin> worker_keys s) \<and>
     (\<forall>c d k. (c, k) \<in> spawning s \<longrightarrow> (d, k) \<in> spawning s \<longrightarrow> c = d)"

definition queue_inv :: "config \<Rightarrow> pool_state \<Rightarrow> bool" where
  "queue_inv cfg s \<longleftrightarrow> queue_ok s \<and> listeners_ok s \<and> queue_bounded cfg s"

definition pool_ok :: "config \<Rightarrow> pool_state \<Rightarrow> bool" where
  "pool_ok cfg s \<longleftrightarrow> acct_ok s \<and> keys_ok s \<and> queue_inv cfg s"

text \<open>
  What a stretch that runs no query to its end or start leaves alone: the set of keys and
  instances does not grow and the queue invariant is kept (\<open>calm\<close>); the accounting is
  unchanged (\<open>still\<close>).
\<close>

definition calm :: "config \<Rightarrow> pool_state \<Rightarrow> pool_state \<Rightarrow> bool" where
  "calm cfg s t \<longleftrightarrow> worker_keys t \<subseteq> worker_keys s \<and> nextInstanceId t = nextInstanceId s \<and>
     spawning t \<subseteq> spawning s \<and> (queue_inv cfg s \<longrightarrow> queue_inv cfg t)"

definition same_acct :: "pool_state \<Rightarrow> pool_state \<Rightarrow> bool" where
  "same_acct s t \<longleftrightarrow> pend_of t = pend_of s \<and> activeByOwner t = activeByOwner s \<and>
     activeByWorkspace t = activeByWorkspace s"

definition still :: "config \<Rightarrow> pool_state \<Rightarrow> pool_state \<Rightarrow> bool" where
  "still cfg s t \<longleftrightarrow> calm cfg s t \<and> same_acct s t"

lemma calm_refl [simp]: "calm cfg s s"
  by (simp add: calm_def)

lemma still_refl [simp]: "still cfg s s"
  by (simp add: still_def same_acct_def)

lemma calm_trans: "calm cfg s t \<Longrightarrow> calm cfg t u \<Longrightarrow> calm cfg s u"
  unfolding calm_def by (metis subset_trans)

lemma still_trans: "still cfg s t \<Longrightarrow> still cfg t u \<Longrightarrow> still cfg s u"
  by (auto simp: still_def same_acct_def intro: calm_trans)

lemma still_calm: "still cfg s t \<Longrightarrow> calm cfg s t"
  by (simp add: still_def)

lemma still_acct: "still cfg s t \<Longrightarrow> acct_ok s \<Longrightarrow> acct_ok t"
  by (simp add: still_def same_acct_def acct_ok_def)

lemma calm_keys_ok:
  assumes "calm cfg s t" and "keys_ok s"
  shows "keys_ok t"
proof -
  have w: "worker_keys t \<subseteq> worker_keys s" and p: "spawning t \<subseteq> spawning s"
    and i: "issued t k = issued s k" for k
    using assms(1) by (auto simp: calm_def issued_def)
  show ?thesis
    unfolding keys_ok_def i
  proof (intro conjI allI impI ballI)
    show "issued s k" if "k \<in> worker_keys t" for k
      using that w assms(2) by (auto simp: keys_ok_def)
    show "case x of (c, k) \<Rightarrow> issued s k \<and> k \<notin> worker_keys t" if "x \<in> spawning t" for x
    proof -
      have "x \<in> spawning s" using that p by blast
      then have "case x of (c, k) \<Rightarrow> issued s k \<and> k \<notin> worker_keys s" using assms(2) unfolding keys_ok_def by blast
      then show ?thesis using w by (auto split: prod.splits)
    qed
    show "c = d" if "(c, k) \<in> spawning t" "(d, k) \<in> spawning t" for c d k
      using that p assms(2) unfolding keys_ok_def by blast
  qed
qed

lemma still_pool_ok: "still cfg s t \<Longrightarrow> pool_ok cfg s \<Longrightarrow> pool_ok cfg t"
  using still_acct [of cfg s t] calm_keys_ok [of cfg s t] by (auto simp: pool_ok_def still_def calm_def)

text \<open>States that differ only in what the invariant does not look at.\<close>

lemma queue_inv_cong:
  assumes "requestQueues t = requestQueues s" and "queuedByOwner t = queuedByOwner s"
    and "queuedByWorkspace t = queuedByWorkspace s" and "totalQueued t = totalQueued s"
    and "nextRequestObject t = nextRequestObject s" and "listening t = listening s"
  shows "queue_inv cfg t \<longleftrightarrow> queue_inv cfg s"
  using assms by (simp add: queue_inv_def queue_ok_def counts_ok_def listeners_ok_def queue_bounded_def)

lemma still_eq:
  assumes "map (\<lambda>(k, w). (k, wh_pending w)) (workers t) = map (\<lambda>(k, w). (k, wh_pending w)) (workers s)"
    and "nextInstanceId t = nextInstanceId s" and "spawning t \<subseteq> spawning s"
    and "activeByOwner t = activeByOwner s" and "activeByWorkspace t = activeByWorkspace s"
    and "requestQueues t = requestQueues s" and "queuedByOwner t = queuedByOwner s"
    and "queuedByWorkspace t = queuedByWorkspace s" and "totalQueued t = totalQueued s"
    and "nextRequestObject t = nextRequestObject s" and "listening t = listening s"
  shows "still cfg s t"
proof -
  have "map fst (map (\<lambda>(k, w). (k, wh_pending w)) m) = map fst m" for m :: "(string, worker_handle) jsmap"
    by (induction m) auto
  then have "map fst (workers t) = map fst (workers s)" using assms(1) by metis
  then have "worker_keys t = worker_keys s" unfolding worker_keys_def by (metis list.set_map)
  then show ?thesis
    using assms queue_inv_cong [OF assms(6-11), of cfg]
    by (simp add: still_def calm_def same_acct_def pend_of_def)
qed

subsection \<open>Stretches that leave the accounting alone\<close>

lemma pend_jset:
  "map (\<lambda>(k, w). (k, wh_pending w)) (jset k w' m) = jset k (wh_pending w') (map (\<lambda>(k, w). (k, wh_pending w)) m)"
  by (induction m) auto

lemma pend_jdel:
  "map (\<lambda>(k, w). (k, wh_pending w)) (jdel k m) = jdel k (map (\<lambda>(k, w). (k, wh_pending w)) m)"
  by (induction m) auto

lemma pend_jget: "jget (map (\<lambda>(k, w). (k, wh_pending w)) m) k = map_option wh_pending (jget m k)"
  by (induction m) auto

lemma jget_pend_of: "jget (pend_of s) k = map_option wh_pending (jget (workers s) k)"
  by (simp add: pend_of_def pend_jget)

lemma jset_same: "jget m k = Some v \<Longrightarrow> jset k v m = m"
  by (induction m) auto

lemma update_worker_sel [simp]:
  "nextInstanceId (update_worker k f s) = nextInstanceId s" "calls (update_worker k f s) = calls s"
  "spawning (update_worker k f s) = spawning s" "activeByOwner (update_worker k f s) = activeByOwner s"
  "activeByWorkspace (update_worker k f s) = activeByWorkspace s" "requestQueues (update_worker k f s) = requestQueues s"
  "queuedByOwner (update_worker k f s) = queuedByOwner s" "queuedByWorkspace (update_worker k f s) = queuedByWorkspace s"
  "totalQueued (update_worker k f s) = totalQueued s" "nextRequestObject (update_worker k f s) = nextRequestObject s"
  "listening (update_worker k f s) = listening s" "settled (update_worker k f s) = settled s"
  "telemetry (update_worker k f s) = telemetry s" "emitted (update_worker k f s) = emitted s"
  "isShuttingDown (update_worker k f s) = isShuttingDown s"
  "poolCredentialsVersion (update_worker k f s) = poolCredentialsVersion s"
  "lastCredentialsCheckMs (update_worker k f s) = lastCredentialsCheckMs s"
  by (auto simp: update_worker_def spawning_def split: option.splits)

lemma jget_update_worker:
  "jget (workers (update_worker k f s)) k' =
     (if k' = k then map_option f (jget (workers s) k) else jget (workers s) k')"
  by (auto simp: update_worker_def split: option.splits)

lemma pend_of_update:
  "pend_of (update_worker k f s) =
     (case jget (workers s) k of None \<Rightarrow> pend_of s | Some w \<Rightarrow> jset k (wh_pending (f w)) (pend_of s))"
  by (simp add: update_worker_def pend_of_def pend_jset split: option.splits)

lemma still_update:
  assumes "\<And>w. wh_pending (f w) = wh_pending w"
  shows "still cfg s (update_worker k f s)"
proof (rule still_eq)
  have "pend_of (update_worker k f s) = pend_of s"
    by (auto simp: pend_of_update assms jset_same jget_pend_of split: option.splits)
  then show "map (\<lambda>(k, w). (k, wh_pending w)) (workers (update_worker k f s))
      = map (\<lambda>(k, w). (k, wh_pending w)) (workers s)"
    by (simp add: pend_of_def)
qed simp_all

lemma still_emit [intro!]: "still cfg s t \<Longrightarrow> still cfg s (emit_event e t)"
  by (erule still_trans, rule still_eq) (simp_all add: emit_event_def spawning_def)

lemma still_send [intro!]: "still cfg s t \<Longrightarrow> still cfg s (sendToWorker k m t)"
  by (erule still_trans, rule still_eq) (simp_all add: sendToWorker_def spawning_def)

lemma still_kill [intro!]: "still cfg s t \<Longrightarrow> still cfg s (killProcessTree p x t)"
  by (erule still_trans, rule still_eq) (simp_all add: killProcessTree_def spawning_def)

lemma still_settle [intro!]: "still cfg s t \<Longrightarrow> still cfg s (settle c v t)"
  by (erule still_trans, rule still_eq) (simp_all add: settle_def spawning_def)

lemma still_call_back [intro!]: "still cfg s t \<Longrightarrow> still cfg s (call_back c m t)"
  by (erule still_trans, rule still_eq) (simp_all add: call_back_def spawning_def)

lemma still_telemetry [intro!]: "still cfg s t \<Longrightarrow> still cfg s (t\<lparr>telemetry := T\<rparr>)"
  by (erule still_trans, rule still_eq) (simp_all add: spawning_def)

lemma still_update' [intro!]:
  "still cfg s t \<Longrightarrow> (\<And>w. wh_pending (f w) = wh_pending w) \<Longrightarrow> still cfg s (update_worker k f t)"
  by (erule still_trans, rule still_update)

lemma still_finish [intro!]: "still cfg s t \<Longrightarrow> still cfg s (finish_call c v t)"
  by (erule still_trans, rule still_eq) (auto simp: finish_call_def settle_def spawning_def split: if_splits)

lemma still_suspend [intro!]: "still cfg s t \<Longrightarrow> (\<And>k. pc \<noteq> AtSpawn k) \<Longrightarrow> still cfg s (suspend_call c pc t)"
  by (erule still_trans, rule still_eq) (auto simp: suspend_call_def spawning_def split: option.splits if_splits)

lemma still_drop_call [intro!]: "still cfg s t \<Longrightarrow> still cfg s (t\<lparr>calls := jdel c (calls t)\<rparr>)"
  by (erule still_trans, rule still_eq) (auto simp: spawning_def split: if_splits)

lemma still_gracefulShutdown [intro!]: "still cfg s t \<Longrightarrow> still cfg s (gracefulShutdown k t)"
  by (auto simp: gracefulShutdown_def split: option.splits)

lemma still_terminateWorkerTree [intro!]: "still cfg s t \<Longrightarrow> still cfg s (terminateWorkerTree k t)"
  unfolding terminateWorkerTree_def Let_def by (auto split: option.splits)

lemma still_escalateKill [intro!]: "still cfg s t \<Longrightarrow> still cfg s (escalateKill k p t)"
  by (auto simp: escalateKill_def)

lemma still_retire [intro!]: "still cfg s t \<Longrightarrow> still cfg s (retireWorkerAfterCancel k t)"
  by (auto simp: retireWorkerAfterCancel_def)

lemma still_beginQuery [intro!]: "still cfg s t \<Longrightarrow> still cfg s (beginQuery E c creds opts t)"
proof -
  have "still cfg t (beginQuery E c creds opts t)"
    unfolding beginQuery_def
    by (auto intro!: still_eq simp: spawning_def settle_def split: if_splits)
  then show "still cfg s t \<Longrightarrow> still cfg s (beginQuery E c creds opts t)" by (blast intro: still_trans)
qed

lemma dequeue_pool_sel [simp]:
  "workers (snd (dequeueNextRequest w s)) = workers s" "calls (snd (dequeueNextRequest w s)) = calls s"
  "nextInstanceId (snd (dequeueNextRequest w s)) = nextInstanceId s"
  "activeByOwner (snd (dequeueNextRequest w s)) = activeByOwner s"
  "activeByWorkspace (snd (dequeueNextRequest w s)) = activeByWorkspace s"
  "isShuttingDown (snd (dequeueNextRequest w s)) = isShuttingDown s"
  "emitted (snd (dequeueNextRequest w s)) = emitted s"
  "outbox (snd (dequeueNextRequest w s)) = outbox s"
  by (auto simp: dequeueNextRequest_def count_dequeued_def split: option.splits)

lemma still_queue_op:
  assumes "workers t = workers s" and "calls t = calls s" and "nextInstanceId t = nextInstanceId s"
    and "activeByOwner t = activeByOwner s" and "activeByWorkspace t = activeByWorkspace s"
    and "queue_inv cfg s \<Longrightarrow> queue_inv cfg t"
  shows "still cfg s t"
  using assms by (simp add: still_def calm_def same_acct_def pend_of_def worker_keys_def spawning_def)

lemma still_dequeue: "still cfg s (snd (dequeueNextRequest w s))"
proof (rule still_queue_op)
  assume s: "queue_inv cfg s"
  show "queue_inv cfg (snd (dequeueNextRequest w s))"
  proof (cases "fst (dequeueNextRequest w s)")
    case None
    then show ?thesis using dequeueNextRequest_None(2) [of s w] s by (simp add: queue_inv_def)
  next
    case (Some r)
    then have d: "dequeueNextRequest w s = (Some r, snd (dequeueNextRequest w s))" by (metis prod.collapse)
    then show ?thesis
      using dequeueNextRequest_ok [OF _ d] queue_bounded_remove [of cfg s "snd (dequeueNextRequest w s)" r] s
      by (auto simp: queue_inv_def)
  qed
qed simp_all

lemma still_processQueue [intro!]: "still cfg s t \<Longrightarrow> still cfg s (processQueue E w t)"
proof -
  assume s: "still cfg s t"
  have d: "still cfg s (snd (dequeueNextRequest w t))"
    using still_trans [OF s still_dequeue] .
  then show ?thesis
    by (cases "dequeueNextRequest w t"; cases "fst (dequeueNextRequest w t)") (auto simp: processQueue_def)
qed

lemma still_emitIdle [intro!]: "still cfg s t \<Longrightarrow> still cfg s (emitIdle E k t)"
  by (auto simp: emitIdle_def)

text \<open>The queue operations leave the rest of the pool alone.\<close>

lemma enqueue_pool_sel:
  "workers (enqueueRequest w r s) = workers s" "calls (enqueueRequest w r s) = calls s"
  "nextInstanceId (enqueueRequest w r s) = nextInstanceId s" "activeByOwner (enqueueRequest w r s) = activeByOwner s"
  "activeByWorkspace (enqueueRequest w r s) = activeByWorkspace s"
  by (auto simp: enqueueRequest_def getWorkspaceQueue_def Let_def split: option.splits prod.splits)

lemma remove_pool_sel:
  "workers (snd (removeQueuedRequest w k rid s)) = workers s" "calls (snd (removeQueuedRequest w k rid s)) = calls s"
  "nextInstanceId (snd (removeQueuedRequest w k rid s)) = nextInstanceId s"
  "activeByOwner (snd (removeQueuedRequest w k rid s)) = activeByOwner s"
  "activeByWorkspace (snd (removeQueuedRequest w k rid s)) = activeByWorkspace s"
  by (auto simp: removeQueuedRequest_def count_dequeued_def split: option.splits)

lemma queuedAbort_pool_sel:
  "workers (queuedAbort w k rid s) = workers s" "calls (queuedAbort w k rid s) = calls s"
  "nextInstanceId (queuedAbort w k rid s) = nextInstanceId s"
  "activeByOwner (queuedAbort w k rid s) = activeByOwner s" "activeByWorkspace (queuedAbort w k rid s) = activeByWorkspace s"
  using remove_pool_sel [of w k rid "s\<lparr>listening := listening s - {rid}\<rparr>"]
  by (simp_all add: queuedAbort_def Let_def settle_def case_prod_unfold)

lemma queueRequest_pool_sel:
  assumes "queueRequest cfg now aborted creds opts reason s = (out, t)"
  shows "workers t = workers s" "calls t = calls s" "nextInstanceId t = nextInstanceId s"
    "activeByOwner t = activeByOwner s" "activeByWorkspace t = activeByWorkspace s"
  using assms
  by (auto simp: queueRequest_def Let_def enqueue_pool_sel queuedAbort_pool_sel split: if_splits)

lemma still_queueRequest:
  assumes "queueRequest cfg now aborted creds opts reason s = (out, t)"
  shows "still cfg s t"
proof (rule still_queue_op)
  assume "queue_inv cfg s"
  then have "queue_ok s" "listeners_ok s" "queue_bounded cfg s" by (simp_all add: queue_inv_def)
  from queueRequest_cases [OF this assms] show "queue_inv cfg t"
  proof (elim disjE exE conjE)
    fix c T assume "t = s\<lparr>telemetry := T\<rparr>"
    then show ?thesis using \<open>queue_inv cfg s\<close> queue_inv_cong [of t s] by simp
  next
    fix s1 r assume a: "queue_ok s1" "listeners_ok s1" "queue_bounded cfg s1" "queued s1 = add_mset r (queued s)"
      "t = (if aborted then queuedAbort (qr_workspace r) (qr_owner r) (qr_id r) s1 else s1)"
    have "r \<in># queued s1" using a(4) by simp
    note q = queuedAbort_queued [OF a(1) this]
    show ?thesis
      using a(1,2,3,5) q queue_bounded_remove [OF a(3,1) q(1,2)] by (simp add: queue_inv_def)
  qed
qed (use queueRequest_pool_sel [OF assms] in simp_all)

lemma still_queueCall [intro!]: "still cfg s t \<Longrightarrow> still cfg s (queueCall cfg now aborted c reason t)"
proof -
  have "still cfg t (queueCall cfg now aborted c reason t)"
  proof (cases "jget (calls t) c")
    case (Some q)
    let ?t = "t\<lparr>calls := jdel c (calls t)\<rparr>"
    obtain out u where o: "queueRequest cfg now aborted (qc_credentials q) (qc_options q) reason ?t = (out, u)" by force
    have "still cfg t ?t" by (rule still_drop_call) simp
    then have "still cfg t u" using still_queueRequest [OF o] by (rule still_trans)
    moreover have "still cfg u (u\<lparr>forwards := F\<rparr>)" for F
      by (rule still_eq) (simp_all add: spawning_def)
    ultimately show ?thesis
      using o Some by (cases out) (auto simp: queueCall_def intro: still_trans)
  qed (simp add: queueCall_def)
  then show "still cfg s t \<Longrightarrow> still cfg s (queueCall cfg now aborted c reason t)" by (blast intro: still_trans)
qed

lemma still_restartWorkers [intro!]: "still cfg s t \<Longrightarrow> still cfg s (restartWorkers v force ks t)"
proof (induction ks arbitrary: t)
  case (Cons k ks)
  then show ?case by (auto intro!: Cons.IH split: option.splits)
qed simp

lemma still_findReady: "findReady w ks s = (x, t) \<Longrightarrow> still cfg s t"
proof -
  have "still cfg u (snd (findReady w ks s))" if "still cfg u s" for u
    using that
  proof (induction ks arbitrary: s)
    case (Cons k ks)
    then show ?case by (auto intro!: Cons.IH split: option.splits)
  qed simp
  then show "findReady w ks s = (x, t) \<Longrightarrow> still cfg s t" by fastforce
qed

lemma still_credentialsRead [intro!]: "still cfg s t \<Longrightarrow> still cfg s (credentialsRead result t)"
proof -
  have v: "still cfg t (t\<lparr>poolCredentialsVersion := V\<rparr>)" for V
    by (rule still_eq) (simp_all add: spawning_def)
  have m: "still cfg t (t\<lparr>poolCredentialsVersion := V, workers := map (\<lambda>(k, w). (k, case wh_credentialsVersion w of
      None \<Rightarrow> w\<lparr>wh_credentialsVersion := V\<rparr> | Some v \<Rightarrow> w)) (workers t)\<rparr>)" for V
    by (rule still_eq) (auto simp: spawning_def split: option.splits)
  have "still cfg t (credentialsRead result t)"
    unfolding credentialsRead_def using v m by (auto split: option.splits)
  then show "still cfg s t \<Longrightarrow> still cfg s (credentialsRead result t)" by (blast intro: still_trans)
qed

lemma still_oauthChecked: "still cfg s (oauthChecked c result s)"
  by (auto simp: oauthChecked_def)

lemma still_afterOAuth: "still cfg s (afterOAuth cfg E aborted c s)"
proof (cases "jget (calls s) c")
  case (Some q)
  obtain x t where f: "findReady (cr_workspaceKey (qc_credentials q)) (jkeys (workers s)) s = (x, t)" by force
  note t = still_findReady [OF f]
  show ?thesis
    by (cases x) (auto simp: afterOAuth_def Let_def Some f t)
qed (simp add: afterOAuth_def)

lemma still_evictWorker: "evictWorker cfg E s = (b, t) \<Longrightarrow> still cfg s t"
  by (auto simp: evictWorker_def Let_def split: list.splits)

lemma still_evictInactive [intro!]: "still cfg s t \<Longrightarrow> still cfg s (evictInactive cfg E ks t)"
proof (induction ks arbitrary: t)
  case (Cons k ks)
  then show ?case by (auto intro!: Cons.IH split: option.splits)
qed simp

lemma still_drainEach [intro!]: "still cfg s t \<Longrightarrow> still cfg s (drainEach E ks t)"
proof (induction ks arbitrary: t)
  case (Cons k ks)
  then show ?case by (auto intro!: Cons.IH split: option.splits)
qed simp

lemma still_reapOrphans [intro!]: "still cfg s t \<Longrightarrow> still cfg s (reapOrphans cfg live ls t)"
proof (induction ls arbitrary: t)
  case (Cons l ls)
  then show ?case by (auto simp: Let_def intro!: Cons.IH)
qed simp

lemma still_sweep: "still cfg s (sweepOrphanedCliProcesses cfg ls s)"
proof -
  have "still cfg t (t\<lparr>knownWorkerPids := K\<rparr>)" for t K
    by (rule still_eq) (simp_all add: spawning_def)
  then show ?thesis
    unfolding sweepOrphanedCliProcesses_def Let_def
    by (rule still_trans [OF still_reapOrphans [OF still_refl]])
qed

subsection \<open>Worker keys\<close>

lemma digits_no_colon: "CHR '':'' \<notin> set (digits n)"
proof (induction n rule: less_induct)
  case (less n)
  have "(char_of (48 + m mod 10 :: nat) :: char) \<noteq> CHR '':''" for m
  proof
    assume "(char_of (48 + m mod 10 :: nat) :: char) = CHR '':''"
    then have "(of_char (char_of (48 + m mod 10 :: nat) :: char) :: nat) = of_char (CHR '':'')" by (rule arg_cong)
    moreover have "m mod 10 < 10" by simp
    ultimately show False by simp
  qed
  note d = this
  show ?case
  proof (cases "n < 10")
    case True
    then show ?thesis using d [of n] by (subst digits.simps) simp
  next
    case False
    then have "CHR '':'' \<notin> set (digits (n div 10))" by (intro less) simp
    then show ?thesis using False d [of n] by (subst digits.simps) simp
  qed
qed

lemma workerKeyOf_inject: "workerKeyOf w i = workerKeyOf v j \<longleftrightarrow> w = v \<and> i = j"
proof
  assume "workerKeyOf w i = workerKeyOf v j"
  then have "rev (digits i) @ CHR '':'' # rev w = rev (digits j) @ CHR '':'' # rev v"
    by (metis workerKeyOf_def append.assoc append_Cons append_Nil rev.simps(2) rev_append rev_rev_ident)
  then have "rev (digits i) = rev (digits j) \<and> rev w = rev v"
    by (rule sep_split) (simp_all add: digits_no_colon)
  then show "w = v \<and> i = j" by (auto dest: digits_inject)
qed simp

subsection \<open>Changing the pending queries of a worker\<close>

lemma pend_wf_get:
  assumes "pend_wf m" and "jget m k = Some ps"
  shows "jmap_ok ps" and "jget ps r = Some p \<Longrightarrow> pq_requestId p = r"
  using assms by (auto simp: pend_wf_def dest!: map_of_SomeD)

lemma pend_wf_entry: "pend_wf m \<Longrightarrow> (k, ps) \<in> set m \<Longrightarrow> (r, p) \<in> set ps \<Longrightarrow> pq_requestId p = r"
  by (auto simp: pend_wf_def)

lemma pend_wf_jset:
  assumes "pend_wf m" and "jmap_ok ps" and "\<And>r p. (r, p) \<in> set ps \<Longrightarrow> pq_requestId p = r"
  shows "pend_wf (jset k ps m)"
  unfolding pend_wf_def
proof (intro conjI ballI)
  show "jmap_ok (jset k ps m)" using assms(1) by (simp add: pend_wf_def)
  fix x assume "x \<in> set (jset k ps m)"
  then consider "x = (k, ps)" | "x \<in> set m" using set_jset_subset by metis
  then show "case x of (k, ps) \<Rightarrow> jmap_ok ps \<and> (\<forall>(r, p)\<in>set ps. pq_requestId p = r)"
    using assms by cases (auto simp: pend_wf_def)
qed

lemma pend_mset_jset:
  "jget m k = Some ps \<Longrightarrow> pend_mset (jset k ps' m) + pvals ps = pend_mset m + pvals ps'"
  unfolding pend_mset_def by (rule jsum_jset_present)

lemma pvals_jset_absent: "jget ps r = None \<Longrightarrow> pvals (jset r p ps) = add_mset p (pvals ps)"
  by (simp add: pvals_def jset_absent map_of_eq_None_iff)

lemma pvals_jsum: "pvals m = jsum (\<lambda>k v. {#v#}) m"
  unfolding pvals_def by (induction m) auto

lemma pvals_jdel_present:
  "jmap_ok ps \<Longrightarrow> jget ps r = Some p \<Longrightarrow> pvals ps = add_mset p (pvals (jdel r ps))"
  using jsum_jdel_present [of ps r p "\<lambda>k v. {#v#}"] by (simp add: pvals_jsum)

lemma pvals_jset_present: "jget ps r = Some p \<Longrightarrow> add_mset p (pvals (jset r p' ps)) = add_mset p' (pvals ps)"
  using jsum_jset_present [of ps r p "\<lambda>k v. {#v#}" p'] by (simp add: pvals_jsum)

lemma pvals_Nil [simp]: "pvals [] = {#}"
  by (simp add: pvals_def)

lemma acct_add:
  assumes "acct_ok s" and "jget (pend_of s) k = Some ps" and "jget ps (pq_requestId p) = None"
    and "pend_of t = jset k (jset (pq_requestId p) p ps) (pend_of s)"
    and "activeByOwner t = incrementMap (activeByOwner s) (pq_ownerKey p)"
    and "activeByWorkspace t = incrementMap (activeByWorkspace s) (pq_workspaceKey p)"
  shows "acct_ok t"
proof -
  have wf: "pend_wf (pend_of s)" using assms(1) by (simp add: acct_ok_def)
  have "pend_mset (pend_of t) + pvals ps = add_mset p (pend_mset (pend_of s)) + pvals ps"
    using pend_mset_jset [OF assms(2)] assms(3,4) by (simp add: pvals_jset_absent)
  then have m: "pend_mset (pend_of t) = add_mset p (pend_mset (pend_of s))" by (rule add_right_imp_eq)
  have "pend_wf (pend_of t)"
    unfolding assms(4)
  proof (rule pend_wf_jset [OF wf])
    show "jmap_ok (jset (pq_requestId p) p ps)" using pend_wf_get(1) [OF wf assms(2)] by simp
    show "pq_requestId x = r" if "(r, x) \<in> set (jset (pq_requestId p) p ps)" for r x
      using set_jset_subset [OF that] wf map_of_SomeD [OF assms(2)] by (auto simp: pend_wf_def)
  qed
  then show ?thesis
    using assms(1) by (simp add: acct_ok_def pend_counts_def m assms(5,6))
qed

lemma acct_remove:
  assumes "acct_ok s" and "jget (pend_of s) k = Some ps" and "jget ps r = Some p"
    and "pend_of t = jset k (jdel r ps) (pend_of s)"
    and "activeByOwner t = decrementMap (activeByOwner s) (pq_ownerKey p)"
    and "activeByWorkspace t = decrementMap (activeByWorkspace s) (pq_workspaceKey p)"
  shows "acct_ok t"
proof -
  have wf: "pend_wf (pend_of s)" using assms(1) by (simp add: acct_ok_def)
  note ok = pend_wf_get(1) [OF wf assms(2)]
  have "add_mset p (pend_mset (pend_of t)) + pvals (jdel r ps) = pend_mset (pend_of s) + pvals (jdel r ps)"
    using pend_mset_jset [OF assms(2), of "jdel r ps"] pvals_jdel_present [OF ok assms(3)] assms(4) by simp
  then have m: "pend_mset (pend_of s) = add_mset p (pend_mset (pend_of t))"
    by (metis add_right_imp_eq)
  have "pend_wf (pend_of t)"
    unfolding assms(4)
  proof (rule pend_wf_jset [OF wf])
    show "jmap_ok (jdel r ps)" using ok by simp
    show "pq_requestId x = r'" if "(r', x) \<in> set (jdel r ps)" for r' x
      using set_jdel_subset [OF that] wf map_of_SomeD [OF assms(2)] by (auto simp: pend_wf_def)
  qed
  then show ?thesis
    using assms(1) by (simp add: acct_ok_def pend_counts_def m assms(5,6))
qed

lemma acct_replace:
  assumes "acct_ok s" and "jget (pend_of s) k = Some ps" and "jget ps r = Some p"
    and "pend_of t = jset k (jset r p' ps) (pend_of s)"
    and "pq_requestId p' = r" and "pq_ownerKey p' = pq_ownerKey p" and "pq_workspaceKey p' = pq_workspaceKey p"
    and "activeByOwner t = activeByOwner s" and "activeByWorkspace t = activeByWorkspace s"
  shows "acct_ok t"
proof -
  have wf: "pend_wf (pend_of s)" using assms(1) by (simp add: acct_ok_def)
  have "add_mset p (pend_mset (pend_of t)) + pvals ps = add_mset p' (pend_mset (pend_of s)) + pvals ps"
    using pend_mset_jset [OF assms(2), of "jset r p' ps"] assms(4) pvals_jset_present [OF assms(3), of p']
    by (metis union_mset_add_mset_left union_mset_add_mset_right)
  then have m: "add_mset p (pend_mset (pend_of t)) = add_mset p' (pend_mset (pend_of s))" by (rule add_right_imp_eq)
  have sizes: "size {#x \<in># pend_mset (pend_of t). Q x#} = size {#x \<in># pend_mset (pend_of s). Q x#}"
    if "Q p = Q p'" for Q
  proof -
    have "size {#x \<in># add_mset p (pend_mset (pend_of t)). Q x#} = size {#x \<in># add_mset p' (pend_mset (pend_of s)). Q x#}"
      by (simp only: m)
    then show ?thesis using that by (simp split: if_splits)
  qed
  have "pend_wf (pend_of t)"
    unfolding assms(4)
  proof (rule pend_wf_jset [OF wf])
    show "jmap_ok (jset r p' ps)" using pend_wf_get(1) [OF wf assms(2)] by simp
    show "pq_requestId x = r'" if "(r', x) \<in> set (jset r p' ps)" for r' x
      using set_jset_subset [OF that] wf map_of_SomeD [OF assms(2)] assms(5) by (auto simp: pend_wf_def)
  qed
  then show ?thesis
    using assms(1,6-9) by (simp add: acct_ok_def pend_counts_def sizes)
qed

lemma acct_drop_worker:
  assumes "acct_ok s" and "pend_of t = jdel k (pend_of s)" and "jget (pend_of s) k = Some [] \<or> jget (pend_of s) k = None"
    and "activeByOwner t = activeByOwner s" and "activeByWorkspace t = activeByWorkspace s"
  shows "acct_ok t"
proof -
  have wf: "pend_wf (pend_of s)" using assms(1) by (simp add: acct_ok_def)
  have "pend_mset (jdel k (pend_of s)) = pend_mset (pend_of s)"
    using assms(3)
  proof
    assume "jget (pend_of s) k = Some []"
    then show ?thesis
      using jsum_jdel_present [of "pend_of s" k "[]" "\<lambda>k ps. pvals ps"] wf by (simp add: pend_wf_def pend_mset_def)
  qed (simp add: jdel_absent map_of_eq_None_iff)
  moreover have "pend_wf (jdel k (pend_of s))"
    using wf by (auto simp: pend_wf_def dest!: set_jdel_subset)
  ultimately show ?thesis
    using assms(1,2,4,5) by (simp add: acct_ok_def pend_counts_def)
qed

lemma acct_new_worker:
  assumes "acct_ok s" and "pend_of t = jset k [] (pend_of s)" and "jget (pend_of s) k = None"
    and "activeByOwner t = activeByOwner s" and "activeByWorkspace t = activeByWorkspace s"
  shows "acct_ok t"
proof -
  have wf: "pend_wf (pend_of s)" using assms(1) by (simp add: acct_ok_def)
  have "pend_mset (jset k [] (pend_of s)) = pend_mset (pend_of s)"
    using assms(3) by (simp add: pend_mset_def jsum_jset_absent map_of_eq_None_iff)
  moreover have "pend_wf (jset k [] (pend_of s))"
    using wf by (intro pend_wf_jset) auto
  ultimately show ?thesis
    using assms(1,2,4,5) by (simp add: acct_ok_def pend_counts_def)
qed

subsection \<open>Stretches that change the accounting or the keys\<close>

lemma calm_still: "calm cfg s t \<Longrightarrow> still cfg t u \<Longrightarrow> calm cfg s u"
  by (blast intro: calm_trans still_calm)

lemma worker_keys_update [simp]: "worker_keys (update_worker k f s) = worker_keys s"
proof (cases "jget (workers s) k")
  case (Some w)
  then have "k \<in> fst ` set (workers s)" by (force dest: map_of_SomeD)
  then show ?thesis by (simp add: worker_keys_def update_worker_def Some insert_absorb)
qed (simp add: worker_keys_def update_worker_def)

lemma calm_update: "calm cfg s (update_worker k f s)"
  using queue_inv_cong [of "update_worker k f s" s cfg] by (simp add: calm_def)

lemma calm_decrement: "calm cfg s (decrementActive a b s)"
  using queue_inv_cong [of "decrementActive a b s" s cfg]
  by (simp add: calm_def decrementActive_def worker_keys_def spawning_def)

lemma calm_increment: "calm cfg s (incrementActive a b s)"
  using queue_inv_cong [of "incrementActive a b s" s cfg]
  by (simp add: calm_def incrementActive_def worker_keys_def spawning_def)

lemma calm_remove_worker: "calm cfg s (s\<lparr>workers := jdel k (workers s)\<rparr>)"
  using queue_inv_cong [of "s\<lparr>workers := jdel k (workers s)\<rparr>" s cfg]
  by (auto simp: calm_def worker_keys_def spawning_def)

lemma pool_okI: "acct_ok t \<Longrightarrow> calm cfg s t \<Longrightarrow> pool_ok cfg s \<Longrightarrow> pool_ok cfg t"
  using calm_keys_ok [of cfg s t] by (auto simp: pool_ok_def calm_def)

lemma startOnWorker_ok:
  assumes "pool_ok cfg s"
    and "\<And>q w. jget (calls s) c = Some q \<Longrightarrow> jget (workers s) k = Some w \<Longrightarrow>
      jget (wh_pending w) (opt_requestId (qc_options q)) = None"
  shows "pool_ok cfg (startOnWorker cfg E aborted c k s)"
proof (cases "jget (calls s) c")
  case None
  then show ?thesis using assms(1) by (simp add: startOnWorker_def)
next
  case c: (Some q)
  show ?thesis
  proof (cases "aborted \<or> jget (workers s) k = None \<or>
      (\<exists>w. jget (workers s) k = Some w \<and> (wh_state w \<noteq> WReady \<or> wh_retiredAfterCancel w))")
    case True
    then have "still cfg s (startOnWorker cfg E aborted c k s)"
      by (auto simp: startOnWorker_def c Let_def)
    then show ?thesis using assms(1) by (rule still_pool_ok)
  next
    case False
    then obtain w where w: "jget (workers s) k = Some w" "wh_state w = WReady" "\<not> wh_retiredAfterCancel w" "\<not> aborted"
      by auto
    let ?o = "qc_options q"
    let ?p = "\<lparr>pq_requestId = opt_requestId ?o, pq_ownerKey = opt_ownerKey ?o,
        pq_workspaceKey = cr_workspaceKey (qc_credentials q), pq_call = c, pq_sessionId = None\<rparr>"
    let ?s1 = "update_worker k (\<lambda>w. w\<lparr>wh_state := WBusy, wh_activeRequestId := Some (opt_requestId ?o),
        wh_currentOwnerKey := Some (opt_ownerKey ?o)\<rparr>) s"
    let ?s3 = "emit_event (EvBusy k (opt_requestId ?o))
        (incrementActive (opt_ownerKey ?o) (cr_workspaceKey (qc_credentials q)) ?s1)"
    let ?s4 = "update_worker k (\<lambda>w. w\<lparr>wh_pending := jset (opt_requestId ?o) ?p (wh_pending w)\<rparr>) ?s3"
    let ?t = "sendToWorker k (PMQuery (opt_requestId ?o) (opt_payload ?o)) (?s4\<lparr>calls := jdel c (calls ?s4)\<rparr>)"
    have t: "startOnWorker cfg E aborted c k s = ?t"
      by (simp add: startOnWorker_def c Let_def w)
    have "calm cfg s ?s1" by (rule calm_update)
    then have "calm cfg s (incrementActive (opt_ownerKey ?o) (cr_workspaceKey (qc_credentials q)) ?s1)"
      by (rule calm_trans) (rule calm_increment)
    then have "calm cfg s ?s3" by (rule calm_still) (rule still_emit [OF still_refl])
    then have "calm cfg s ?s4" by (rule calm_trans) (rule calm_update)
    then have calm: "calm cfg s ?t"
      by (rule calm_still) (rule still_send [OF still_drop_call [OF still_refl]])
    have pend: "pend_of ?t = jset k (jset (pq_requestId ?p) ?p (wh_pending w)) (pend_of s)"
      by (simp add: w update_worker_def incrementActive_def emit_event_def sendToWorker_def pend_of_def pend_jset)
    have counts: "activeByOwner ?t = incrementMap (activeByOwner s) (pq_ownerKey ?p)"
      "activeByWorkspace ?t = incrementMap (activeByWorkspace s) (pq_workspaceKey ?p)"
      by (simp_all add: update_worker_def incrementActive_def emit_event_def sendToWorker_def w)
    have get: "jget (pend_of s) k = Some (wh_pending w)" by (simp add: jget_pend_of w)
    have none: "jget (wh_pending w) (pq_requestId ?p) = None" using assms(2) [OF c w(1)] by simp
    have "acct_ok s" using assms(1) by (simp add: pool_ok_def)
    then have "acct_ok ?t" by (rule acct_add [OF _ get none pend counts])
    then show ?thesis unfolding t using calm assms(1) by (rule pool_okI)
  qed
qed

lemma afterResolved_ok:
  assumes "pool_ok cfg s"
    and "\<forall>q k w. jget (calls s) c = Some q \<longrightarrow> jget (workers s) k = Some w \<longrightarrow>
      jget (wh_pending w) (opt_requestId (qc_options q)) = None"
  shows "pool_ok cfg (afterResolved cfg E aborted c s)"
proof -
  have st: "pool_ok cfg t" if "still cfg s t" for t using that assms(1) by (rule still_pool_ok)
  have go: "pool_ok cfg (startOnWorker cfg E False c k s)" for k
    using assms by (intro startOnWorker_ok) auto
  show ?thesis
    unfolding afterResolved_def
    by (auto simp: assms(1) go intro!: st split: option.splits query_pc.splits sum.splits)
qed

lemma afterReady_ok:
  assumes "pool_ok cfg s"
    and "\<forall>q k w. jget (calls s) c = Some q \<longrightarrow> jget (workers s) k = Some w \<longrightarrow>
      jget (wh_pending w) (opt_requestId (qc_options q)) = None"
  shows "pool_ok cfg (afterReady cfg E aborted c s)"
proof -
  have go: "pool_ok cfg (startOnWorker cfg E aborted c k s)" for k
    using assms by (intro startOnWorker_ok) auto
  show ?thesis
    unfolding afterReady_def by (auto simp: assms(1) go split: option.splits query_pc.splits)
qed

lemma allocateInstance_ok:
  assumes "pool_ok cfg s"
  shows "pool_ok cfg (allocateInstance c s)"
proof (cases "jget (calls s) c")
  case (Some q)
  let ?w = "cr_workspaceKey (qc_credentials q)"
  let ?i = "counter_get (nextInstanceId s) ?w"
  let ?k = "workerKeyOf ?w ?i"
  let ?t = "allocateInstance c s"
  have t: "?t = s\<lparr>nextInstanceId := (nextInstanceId s)(?w \<mapsto> ?i + 1), calls := jset c (q\<lparr>qc_pc := AtSpawn ?k\<rparr>) (calls s)\<rparr>"
    by (simp add: allocateInstance_def suspend_call_def Some Let_def)
  have keys: "keys_ok s" and acct: "acct_ok s" and q: "queue_inv cfg s"
    using assms by (simp_all add: pool_ok_def)
  have new: "\<not> issued s ?k" by (auto simp: issued_def workerKeyOf_inject)
  have cg: "counter_get (nextInstanceId ?t) w = (if w = ?w then Suc ?i else counter_get (nextInstanceId s) w)" for w
    by (simp add: t counter_get_def)
  have old: "issued ?t k" if k: "issued s k" for k
  proof -
    obtain w i where "k = workerKeyOf w i" "i < counter_get (nextInstanceId s) w"
      using k by (auto simp: issued_def)
    then show ?thesis unfolding issued_def cg by (intro exI [of _ w] exI [of _ i]) auto
  qed
  have me: "issued ?t ?k" unfolding issued_def cg by (intro exI [of _ ?w] exI [of _ ?i]) simp
  have sp: "(d, k) \<in> spawning ?t \<longleftrightarrow> (if d = c then k = ?k else (d, k) \<in> spawning s)" for d k
    by (auto simp: spawning_def t)
  have wk: "worker_keys ?t = worker_keys s" by (simp add: worker_keys_def t)
  have "keys_ok ?t"
    unfolding keys_ok_def wk
  proof (intro conjI ballI allI impI)
    show "issued ?t k" if "k \<in> worker_keys s" for k using that keys old by (auto simp: keys_ok_def)
    show "case x of (d, k) \<Rightarrow> issued ?t k \<and> k \<notin> worker_keys s" if "x \<in> spawning ?t" for x
      using that keys old me new by (cases x) (auto simp: sp keys_ok_def split: if_splits)
    show "d = e" if "(d, k) \<in> spawning ?t" "(e, k) \<in> spawning ?t" for d e k
      using that keys new by (auto simp: sp keys_ok_def split: if_splits)
  qed
  moreover have "acct_ok ?t" using acct by (simp add: acct_ok_def pend_of_def t)
  moreover have "queue_inv cfg ?t" using q by (subst queue_inv_cong [of _ s]) (simp_all add: t)
  ultimately show ?thesis by (simp add: pool_ok_def)
qed (simp add: allocateInstance_def assms)

lemma afterPids_ok:
  assumes "pool_ok cfg s"
  shows "pool_ok cfg (afterPids cfg E pressured c s)"
proof -
  have st: "pool_ok cfg t" if "still cfg s t" for t using that assms by (rule still_pool_ok)
  obtain b u where e: "evictWorker cfg E s = (b, u)" by force
  note eu = still_evictWorker [OF e]
  show ?thesis
    unfolding afterPids_def Let_def e
    using allocateInstance_ok [OF assms] by (auto simp: assms eu intro!: st split: option.splits bool.splits)
qed

lemma spawned_ok:
  assumes "pool_ok cfg s"
  shows "pool_ok cfg (spawned E pid c s)"
proof (cases "jget (calls s) c")
  case (Some q)
  show ?thesis
  proof (cases "\<exists>k p. qc_pc q = AtSpawn k \<and> pid = Some p")
    case True
    then obtain k p where k: "qc_pc q = AtSpawn k" and p: "pid = Some p" by blast
    let ?n = "new_worker E (qc_credentials q) (poolCredentialsVersion s) p"
    let ?t = "s\<lparr>knownWorkerPids := (if p > 0 then knownWorkerPids s @ [p] else knownWorkerPids s),
        workers := jset k ?n (workers s), calls := jset c (q\<lparr>qc_pc := AtResolved (Inl k)\<rparr>) (calls s),
        emitted := emitted s @ [EvSpawned k p]\<rparr>"
    have t: "spawned E pid c s = ?t"
      by (simp add: spawned_def suspend_call_def emit_event_def Some k p)
    have keys: "keys_ok s" and acct: "acct_ok s" and q: "queue_inv cfg s"
      using assms by (simp_all add: pool_ok_def)
    have sk: "(c, k) \<in> spawning s" by (simp add: spawning_def Some k)
    then have fresh: "k \<notin> worker_keys s" "issued s k" using keys by (auto simp: keys_ok_def)
    have sp: "(d, j) \<in> spawning ?t \<longleftrightarrow> d \<noteq> c \<and> (d, j) \<in> spawning s" for d j
      by (auto simp: spawning_def)
    have wk: "worker_keys ?t = insert k (worker_keys s)" by (simp add: worker_keys_def)
    have iss: "issued ?t j = issued s j" for j by (simp add: issued_def)
    have "keys_ok ?t"
      unfolding keys_ok_def wk iss
    proof (intro conjI ballI allI impI)
      show "issued s j" if "j \<in> insert k (worker_keys s)" for j using that keys fresh by (auto simp: keys_ok_def)
      show "case x of (d, j) \<Rightarrow> issued s j \<and> j \<notin> insert k (worker_keys s)" if "x \<in> spawning ?t" for x
        using that keys sk by (cases x) (auto simp: sp keys_ok_def)
      show "d = e" if "(d, j) \<in> spawning ?t" "(e, j) \<in> spawning ?t" for d e j
        using that keys by (auto simp: sp keys_ok_def)
    qed
    moreover have "acct_ok ?t"
      using acct by (rule acct_new_worker [where k = k])
        (use fresh in \<open>simp_all add: pend_of_def pend_jset new_worker_def pend_jget map_of_eq_None_iff worker_keys_def\<close>)
    moreover have "queue_inv cfg ?t" using q by (subst queue_inv_cong [of _ s]) simp_all
    ultimately show ?thesis unfolding t by (simp add: pool_ok_def)
  next
    case False
    then have "still cfg s (spawned E pid c s)"
      by (auto simp: spawned_def Some split: query_pc.splits option.splits)
    then show ?thesis using assms by (rule still_pool_ok)
  qed
qed (simp add: spawned_def assms)

lemma pend_of_record [simp]:
  "pend_of (decrementActive a b s) = pend_of s" "pend_of (incrementActive a b s) = pend_of s"
  "pend_of (sendToWorker k m s) = pend_of s" "pend_of (settle c v s) = pend_of s"
  "pend_of (emit_event e s) = pend_of s" "pend_of (call_back c msg s) = pend_of s"
  by (simp_all add: pend_of_def decrementActive_def incrementActive_def sendToWorker_def settle_def
      emit_event_def call_back_def)

lemma workers_record [simp]:
  "workers (decrementActive a b s) = workers s" "workers (sendToWorker k m s) = workers s"
  "workers (settle c v s) = workers s" "workers (emit_event e s) = workers s" "workers (call_back c msg s) = workers s"
  by (simp_all add: decrementActive_def sendToWorker_def settle_def emit_event_def call_back_def)

text \<open>Removing a pending query from its worker and its counts, then anything calm.\<close>

lemma remove_pending:
  assumes "pool_ok cfg s" and "jget (workers s) k = Some w" and "jget (wh_pending w) (pq_requestId p) = Some p"
    and "\<And>w. wh_pending (f w) = jdel (pq_requestId p) (wh_pending w)"
  defines "t \<equiv> update_worker k f (decrementActive (pq_ownerKey p) (pq_workspaceKey p) s)"
  shows "pool_ok cfg t" and "pend_of t = jset k (jdel (pq_requestId p) (wh_pending w)) (pend_of s)" and "calm cfg s t"
proof -
  show pend: "pend_of t = jset k (jdel (pq_requestId p) (wh_pending w)) (pend_of s)"
    by (simp add: t_def pend_of_update assms(2,4))
  have get: "jget (pend_of s) k = Some (wh_pending w)" by (simp add: jget_pend_of assms(2))
  have counts: "activeByOwner t = decrementMap (activeByOwner s) (pq_ownerKey p)"
    "activeByWorkspace t = decrementMap (activeByWorkspace s) (pq_workspaceKey p)"
    by (simp_all add: t_def decrementActive_def)
  have "acct_ok s" using assms(1) by (simp add: pool_ok_def)
  then have acct: "acct_ok t" by (rule acct_remove [OF _ get assms(3) pend counts])
  show c: "calm cfg s t"
    unfolding t_def by (rule calm_trans [OF calm_decrement calm_update])
  show "pool_ok cfg t" using acct c assms(1) by (rule pool_okI)
qed

lemma still_pend: "still cfg s t \<Longrightarrow> pend_of t = pend_of s"
  by (simp add: still_def same_acct_def)

lemma cleanup_state:
  "still cfg (update_worker k (\<lambda>w. w\<lparr>wh_pending := jdel (pq_requestId p) (wh_pending w)\<rparr>)
       (decrementActive (pq_ownerKey p) (pq_workspaceKey p) s)) (cleanupQuery E k p s)"
proof -
  let ?s2 = "decrementActive (pq_ownerKey p) (pq_workspaceKey p)
      (update_worker k (\<lambda>w. w\<lparr>wh_pending := jdel (pq_requestId p) (wh_pending w)\<rparr>) s)"
  have swap: "?s2 = update_worker k (\<lambda>w. w\<lparr>wh_pending := jdel (pq_requestId p) (wh_pending w)\<rparr>)
      (decrementActive (pq_ownerKey p) (pq_workspaceKey p) s)"
    by (simp add: decrementActive_def update_worker_def split: option.splits)
  have "still cfg ?s2 (cleanupQuery E k p s)"
    unfolding cleanupQuery_def Let_def by (auto split: option.splits)
  then show ?thesis unfolding swap .
qed

lemma cleanupQuery_ok:
  assumes "pool_ok cfg s" and "jget (workers s) k = Some w" and "jget (wh_pending w) (pq_requestId p) = Some p"
  shows "pool_ok cfg (cleanupQuery E k p s)"
    and "pend_of (cleanupQuery E k p s) = jset k (jdel (pq_requestId p) (wh_pending w)) (pend_of s)"
    and "calm cfg s (cleanupQuery E k p s)"
proof -
  let ?f = "\<lambda>w. w\<lparr>wh_pending := jdel (pq_requestId p) (wh_pending w)\<rparr>"
  have f: "\<And>w. wh_pending (?f w) = jdel (pq_requestId p) (wh_pending w)" by simp
  note r = remove_pending [OF assms f]
  have st: "still cfg (update_worker k ?f (decrementActive (pq_ownerKey p) (pq_workspaceKey p) s)) (cleanupQuery E k p s)"
    by (rule cleanup_state)
  show "pool_ok cfg (cleanupQuery E k p s)" using still_pool_ok [OF st r(1)] .
  show "pend_of (cleanupQuery E k p s) = jset k (jdel (pq_requestId p) (wh_pending w)) (pend_of s)"
    using still_pend [OF st] r(2) by simp
  show "calm cfg s (cleanupQuery E k p s)" using r(3) st by (rule calm_still)
qed

lemma rejectEach_ok:
  assumes "pool_ok cfg s" and "jget (pend_of s) k = Some qs" and "map snd qs = ps"
  shows "pool_ok cfg (rejectEach E k why ps s) \<and> pend_of (rejectEach E k why ps s) = jset k [] (pend_of s) \<and>
         calm cfg s (rejectEach E k why ps s)"
  using assms
proof (induction ps arbitrary: s qs)
  case Nil
  then have "qs = []" by simp
  then show ?case using Nil by (simp add: jset_same)
next
  case (Cons p ps)
  then obtain r rest where qs: "qs = (r, p) # rest" "map snd rest = ps" by (cases qs) auto
  obtain w where w: "jget (workers s) k = Some w" "wh_pending w = qs"
    using Cons.prems(2) by (auto simp: jget_pend_of)
  have wf: "pend_wf (pend_of s)" using Cons.prems(1) by (simp add: pool_ok_def acct_ok_def)
  have r: "pq_requestId p = r" using pend_wf_get(2) [OF wf Cons.prems(2)] qs(1) by simp
  have d: "r \<notin> fst ` set rest" using pend_wf_get(1) [OF wf Cons.prems(2)] qs(1) by simp
  let ?s = "cleanupQuery E k p s"
  let ?t = "settle (pq_call p) (Rejected why) ?s"
  have "jget (wh_pending w) (pq_requestId p) = Some p" by (simp add: w qs(1) r)
  note c = cleanupQuery_ok [OF Cons.prems(1) w(1) this, of E]
  have del: "jdel r qs = rest" using d by (simp add: qs(1) jdel_absent)
  have st: "still cfg ?s ?t" by (rule still_settle [OF still_refl])
  have ok: "pool_ok cfg ?t" using still_pool_ok [OF st c(1)] .
  have pend: "pend_of ?t = jset k rest (pend_of s)" using c(2) by (simp add: w(2) r del)
  have "jget (pend_of ?t) k = Some rest" unfolding pend by simp
  note IH = Cons.IH [OF ok this qs(2)]
  have "calm cfg s (rejectEach E k why ps ?t)"
    using calm_trans [OF calm_still [OF c(3) st]] IH by blast
  moreover have "jset k [] (pend_of ?t) = jset k [] (pend_of s)" unfolding pend by (simp add: update_last)
  ultimately show ?case using IH by simp
qed

lemma rejectPending_ok:
  assumes "pool_ok cfg s"
  shows "pool_ok cfg (rejectPendingQueries E k why s) \<and> calm cfg s (rejectPendingQueries E k why s) \<and>
         (jget (pend_of (rejectPendingQueries E k why s)) k = Some [] \<or>
          jget (pend_of (rejectPendingQueries E k why s)) k = None)"
proof (cases "jget (workers s) k")
  case None
  then show ?thesis using assms by (simp add: rejectPendingQueries_def jget_pend_of)
next
  case (Some w)
  let ?t = "rejectEach E k why (map snd (wh_pending w)) s"
  have "jget (pend_of s) k = Some (wh_pending w)" by (simp add: jget_pend_of Some)
  note r = rejectEach_ok [OF assms this refl, of E why]
  then have "jget (pend_of ?t) k = Some []" by simp
  then obtain w' where w': "jget (workers ?t) k = Some w'" "wh_pending w' = []" by (auto simp: jget_pend_of)
  let ?u = "update_worker k (\<lambda>w. w\<lparr>wh_pending := []\<rparr>) ?t"
  have same: "pend_of ?u = pend_of ?t"
    using \<open>jget (pend_of ?t) k = Some []\<close> by (simp add: pend_of_update w' jset_same)
  have "acct_ok ?t" using r by (simp add: pool_ok_def)
  then have "acct_ok ?u" unfolding acct_ok_def same by simp
  moreover have "calm cfg ?t ?u" by (rule calm_update)
  ultimately have "pool_ok cfg ?u" using r by (blast intro: pool_okI)
  moreover have "calm cfg s ?u" using r \<open>calm cfg ?t ?u\<close> by (blast intro: calm_trans)
  moreover have "rejectPendingQueries E k why s = ?u" by (simp add: rejectPendingQueries_def Some)
  ultimately show ?thesis using same \<open>jget (pend_of ?t) k = Some []\<close> by simp
qed

lemma abortQuery_ok:
  assumes "pool_ok cfg s"
  shows "pool_ok cfg (abortQuery E k r s)"
proof (cases "\<exists>w p. jget (workers s) k = Some w \<and> jget (wh_pending w) r = Some p")
  case True
  then obtain w p where w: "jget (workers s) k = Some w" and p: "jget (wh_pending w) r = Some p" by blast
  have wf: "pend_wf (pend_of s)" using assms by (simp add: pool_ok_def acct_ok_def)
  have r: "pq_requestId p = r"
    using pend_wf_get(2) [OF wf, of k "wh_pending w"] p by (simp add: jget_pend_of w)
  let ?f = "\<lambda>w. w\<lparr>wh_pending := jdel r (wh_pending w), wh_queriesProcessed := wh_queriesProcessed w + 1,
      wh_activeRequestId := None, wh_currentOwnerKey := None, wh_lastActivity := env_now E\<rparr>"
  let ?s0 = "sendToWorker k (PMCancel r) s"
  have ok0: "pool_ok cfg ?s0" using still_pool_ok [OF still_send [OF still_refl] assms] .
  have w0: "jget (workers ?s0) k = Some w" using w by simp
  have p0: "jget (wh_pending w) (pq_requestId p) = Some p" using p r by simp
  have f: "\<And>w. wh_pending (?f w) = jdel (pq_requestId p) (wh_pending w)" using r by simp
  note rem = remove_pending(1) [OF ok0 w0 p0 f]
  let ?m = "update_worker k ?f (decrementActive (pq_ownerKey p) (pq_workspaceKey p) ?s0)"
  have a: "abortQuery E k r s = retireWorkerAfterCancel k
      (update_worker k (\<lambda>w. w\<lparr>wh_retiredAfterCancel := True, wh_state := WShuttingDown\<rparr>)
        (settle (pq_call p) (Resolved (QueryResult True (pq_sessionId p) None True)) ?m))"
    by (simp add: abortQuery_def w p Let_def)
  have "still cfg ?m (abortQuery E k r s)"
    unfolding a by (rule still_retire, rule still_update', rule still_settle, rule still_refl) simp
  then show ?thesis using rem by (rule still_pool_ok)
next
  case False
  then have "abortQuery E k r s = s" by (auto simp: abortQuery_def split: option.splits)
  then show ?thesis using assms by simp
qed

lemma handleQueryMessage_ok:
  assumes "pool_ok cfg s" and "jget (workers s) k = Some w" and "jget (wh_pending w) (pq_requestId p) = Some p"
  shows "pool_ok cfg (handleQueryMessage E k p m s)"
proof -
  have st: "pool_ok cfg t" if "still cfg s t" for t using that assms(1) by (rule still_pool_ok)
  have ok1: "pool_ok cfg (call_back (pq_call p) m s)" by (rule st) (rule still_call_back [OF still_refl])
  have w1: "jget (workers (call_back (pq_call p) m s)) k = Some w" using assms(2) by simp
  show ?thesis
  proof (cases m)
    case (WMSession r sid)
    show ?thesis
    proof (cases sid)
      case None
      then show ?thesis using assms(1) by (simp add: handleQueryMessage_def WMSession)
    next
      case (Some i)
      let ?p = "p\<lparr>pq_sessionId := Some i\<rparr>"
      let ?t = "update_worker k (\<lambda>w. w\<lparr>wh_pending := jset (pq_requestId p) ?p (wh_pending w)\<rparr>) s"
      have pend: "pend_of ?t = jset k (jset (pq_requestId p) ?p (wh_pending w)) (pend_of s)"
        by (simp add: pend_of_update assms(2))
      have get: "jget (pend_of s) k = Some (wh_pending w)" by (simp add: jget_pend_of assms(2))
      have "acct_ok s" using assms(1) by (simp add: pool_ok_def)
      then have "acct_ok ?t"
        by (rule acct_replace [OF _ get assms(3) pend]) simp_all
      then have "pool_ok cfg ?t" using calm_update assms(1) by (rule pool_okI)
      then have "pool_ok cfg (call_back (pq_call p) m ?t)"
        using still_pool_ok [OF still_call_back [OF still_refl]] by blast
      then show ?thesis by (simp add: handleQueryMessage_def WMSession Some)
    qed
  next
    case (WMMessage r c)
    then show ?thesis using ok1 by (simp add: handleQueryMessage_def)
  next
    case (WMComplete r result)
    show ?thesis
    proof (cases result)
      case (Some v)
      have "pool_ok cfg (cleanupQuery E k p (call_back (pq_call p) m s))"
        by (rule cleanupQuery_ok(1) [OF ok1 w1 assms(3)])
      then have "pool_ok cfg (settle (pq_call p) x (cleanupQuery E k p (call_back (pq_call p) m s)))" for x
        using still_pool_ok [OF still_settle [OF still_refl]] by blast
      then show ?thesis by (simp add: handleQueryMessage_def WMComplete Some)
    qed (use assms(1) in \<open>simp add: handleQueryMessage_def WMComplete\<close>)
  next
    case (WMError r e)
    have "pool_ok cfg (cleanupQuery E k p s)" by (rule cleanupQuery_ok(1) [OF assms])
    then have "pool_ok cfg (settle (pq_call p) x (cleanupQuery E k p s))" for x
      using still_pool_ok [OF still_settle [OF still_refl]] by blast
    then show ?thesis by (simp add: handleQueryMessage_def WMError)
  qed (use assms(1) in \<open>simp_all add: handleQueryMessage_def\<close>)
qed

lemma handleWorkerMessage_ok:
  assumes "pool_ok cfg s"
  shows "pool_ok cfg (handleWorkerMessage E k m s)"
proof (cases "jget (workers s) k")
  case (Some w)
  have st: "pool_ok cfg t" if "still cfg s t" for t using that assms by (rule still_pool_ok)
  have wf: "pend_wf (pend_of s)" using assms by (simp add: pool_ok_def acct_ok_def)
  have q: "pool_ok cfg (handleQueryMessage E k p m s)" if "jget (wh_pending w) r = Some p" for r p
  proof -
    have "pq_requestId p = r" using pend_wf_get(2) [OF wf, of k "wh_pending w"] that by (simp add: jget_pend_of Some)
    then show ?thesis using handleQueryMessage_ok [OF assms Some, of p] that by simp
  qed
  show ?thesis
    unfolding handleWorkerMessage_def Some
    using q assms by (auto intro!: st split: worker_message.splits option.splits)
qed (simp add: handleWorkerMessage_def assms)

lemma fail_worker_ok:
  assumes "pool_ok cfg s" and "\<And>w. wh_pending (f w) = wh_pending w"
  shows "pool_ok cfg (rejectPendingQueries E k why (update_worker k f s)) \<and>
     (jget (pend_of (rejectPendingQueries E k why (update_worker k f s))) k = Some [] \<or>
      jget (pend_of (rejectPendingQueries E k why (update_worker k f s))) k = None)"
proof -
  have "pool_ok cfg (update_worker k f s)"
    by (rule still_pool_ok [OF still_update assms(1)]) (rule assms(2))
  from rejectPending_ok [OF this, of E k why] show ?thesis by (elim conjE) (intro conjI)
qed

lemma handleWorkerDisconnect_ok: "pool_ok cfg s \<Longrightarrow> pool_ok cfg (handleWorkerDisconnect E k s)"
  unfolding handleWorkerDisconnect_def by (auto simp: fail_worker_ok split: option.splits)

lemma childError_ok: "pool_ok cfg s \<Longrightarrow> pool_ok cfg (childError E k s)"
  unfolding childError_def by (simp add: fail_worker_ok)

lemma remove_idle_worker_ok:
  assumes "pool_ok cfg s" and "jget (pend_of s) k = Some [] \<or> jget (pend_of s) k = None"
  shows "pool_ok cfg (s\<lparr>workers := jdel k (workers s)\<rparr>)"
proof -
  have "acct_ok (s\<lparr>workers := jdel k (workers s)\<rparr>)"
    by (rule acct_drop_worker [OF _ _ assms(2)]) (use assms(1) in \<open>simp_all add: pool_ok_def pend_of_def pend_jdel\<close>)
  then show ?thesis using calm_remove_worker assms(1) by (rule pool_okI)
qed

lemma handleWorkerExit_ok:
  assumes "pool_ok cfg s"
  shows "pool_ok cfg (handleWorkerExit E k why s)"
proof (cases "jget (workers s) k")
  case (Some w)
  let ?r = "''Worker exited: '' @ why"
  let ?s2 = "rejectPendingQueries E k ?r (update_worker k (\<lambda>w. w\<lparr>wh_state := WDead\<rparr>) s)"
  let ?s3 = "update_worker k (\<lambda>w. w\<lparr>wh_ipcOpen := False\<rparr>) ?s2"
  note f = fail_worker_ok [OF assms, of "\<lambda>w. w\<lparr>wh_state := WDead\<rparr>" E k ?r]
  have s4: "pool_ok cfg (emit_event e ?s3) \<and> pend_of (emit_event e ?s3) = pend_of ?s2" for e
  proof -
    have st: "still cfg ?s2 (emit_event e ?s3)" by auto
    then show ?thesis using still_pool_ok [OF st] still_pend [OF st] f by simp
  qed
  have "pool_ok cfg ((emit_event e ?s3)\<lparr>workers := jdel k (workers (emit_event e ?s3))\<rparr>)" for e
    using remove_idle_worker_ok [of cfg "emit_event e ?s3" k] s4 [of e] f by simp
  then have "pool_ok cfg (processQueue E v ((emit_event e ?s3)\<lparr>workers := jdel k (workers (emit_event e ?s3))\<rparr>))" for e v
    using still_pool_ok [OF still_processQueue [OF still_refl]] by blast
  then show ?thesis by (simp add: handleWorkerExit_def Some Let_def)
qed (simp add: handleWorkerExit_def assms)

lemma readyTimeout_ok:
  assumes "pool_ok cfg s"
    and "\<forall>q k w. jget (calls s) c = Some q \<longrightarrow> qc_pc q = AtReady k \<longrightarrow> jget (workers s) k = Some w \<longrightarrow> wh_pending w = []"
  shows "pool_ok cfg (readyTimeout c s)"
proof (cases "\<exists>q k w. jget (calls s) c = Some q \<and> qc_pc q = AtReady k \<and> jget (workers s) k = Some w")
  case True
  then obtain q k w where q: "jget (calls s) c = Some q" "qc_pc q = AtReady k" "jget (workers s) k = Some w" by blast
  then have "jget (pend_of s) k = Some []" using assms(2) by (simp add: jget_pend_of)
  then have "pool_ok cfg (s\<lparr>workers := jdel k (workers s)\<rparr>)"
    using remove_idle_worker_ok [OF assms(1)] by blast
  moreover have "still cfg (s\<lparr>workers := jdel k (workers s)\<rparr>)
      (s\<lparr>signals := signals s @ [(wh_pid w, SIGKILL)], workers := jdel k (workers s)\<rparr>)"
    by (rule still_eq) (simp_all add: spawning_def)
  ultimately have "pool_ok cfg (s\<lparr>signals := signals s @ [(wh_pid w, SIGKILL)], workers := jdel k (workers s)\<rparr>)"
    using still_pool_ok by blast
  then show ?thesis
    using still_pool_ok [OF still_finish [OF still_refl]] by (simp add: readyTimeout_def q)
next
  case False
  then have "still cfg s (readyTimeout c s)"
    by (auto simp: readyTimeout_def split: option.splits query_pc.splits)
  then show ?thesis using assms(1) by (rule still_pool_ok)
qed

lemma queuedAbort_ok:
  assumes "pool_ok cfg s" and "r \<in># queued s"
  shows "pool_ok cfg (queuedAbort (qr_workspace r) (qr_owner r) (qr_id r) s)"
proof -
  let ?t = "queuedAbort (qr_workspace r) (qr_owner r) (qr_id r) s"
  have q: "queue_ok s" "listeners_ok s" "queue_bounded cfg s" using assms(1) by (simp_all add: pool_ok_def queue_inv_def)
  note a = queuedAbort_queued [OF q(1) assms(2)]
  have "still cfg s ?t"
  proof (rule still_queue_op)
    show "queue_inv cfg ?t"
      using a q queue_bounded_remove [OF q(3,1) a(1,2)] by (simp add: queue_inv_def)
  qed (auto simp: queuedAbort_def Let_def settle_def removeQueuedRequest_def count_dequeued_def split: option.splits)
  then show ?thesis using assms(1) by (rule still_pool_ok)
qed

lemma query_ok:
  assumes "pool_ok cfg s"
  shows "pool_ok cfg (query E creds opts s)"
proof -
  let ?s = "s\<lparr>nextRequestObject := nextRequestObject s + 1\<rparr>"
  have "still cfg s ?s"
    by (rule still_queue_op) (auto simp: queue_inv_def queue_ok_def counts_ok_def listeners_ok_def queue_bounded_def)
  then have "still cfg s (query E creds opts s)" unfolding query_def by (rule still_beginQuery)
  then show ?thesis using assms by (rule still_pool_ok)
qed

lemma shutdownEach_ok: "pool_ok cfg s \<Longrightarrow> pool_ok cfg (shutdownEach E ks s)"
proof (induction ks arbitrary: s)
  case (Cons k ks)
  have "pool_ok cfg (rejectPendingQueries E k ''Worker pool is shutting down'' s)"
    using rejectPending_ok [OF Cons.prems] by blast
  then have "pool_ok cfg (terminateWorkerTree k (rejectPendingQueries E k ''Worker pool is shutting down'' s))"
    using still_pool_ok [OF still_terminateWorkerTree [OF still_refl]] by blast
  then show ?case using Cons.IH by simp
qed simp

lemma shutdownAllBegin_ok:
  assumes "config_ok cfg" and "pool_ok cfg s"
  shows "pool_ok cfg (shutdownAllBegin E s)"
proof -
  let ?t = "rejectAllQueuedRequests ''Worker pool is shutting down'' (s\<lparr>isShuttingDown := True\<rparr>)"
  have "still cfg s ?t"
  proof (rule still_queue_op)
    assume "queue_inv cfg s"
    then have "listeners_ok (s\<lparr>isShuttingDown := True\<rparr>)" by (simp add: queue_inv_def listeners_ok_def)
    note r = rejectAll_state [OF this, of "''Worker pool is shutting down''"]
    have "queue_bounded cfg ?t"
      using assms(1) unfolding queue_bounded_sizes [OF r(3)] r(2) by (simp add: config_ok_def)
    then show "queue_inv cfg ?t" using r by (simp add: queue_inv_def listeners_ok_def)
  qed (simp_all add: rejectAllQueuedRequests_def Let_def)
  then have "pool_ok cfg ?t" using assms(2) by (rule still_pool_ok)
  then show ?thesis unfolding shutdownAllBegin_def by (rule shutdownEach_ok)
qed

end
