(* ===== verification/PoolProperties.thy ===== *)
theory PoolProperties
  imports WorkerPool
begin

section \<open>Properties of the worker pool\<close>

text \<open>
  What the pool guarantees in every reachable state (the accounting and queue invariant of
  \<open>WorkerPool\<close>), what single operations do, and three places where the code does less
  than its limits and events promise.
\<close>

lemma initial_pool_ok:
  assumes "config_ok cfg"
  shows "pool_ok cfg initial_pool"
proof -
  have "acct_ok initial_pool"
    by (simp add: acct_ok_def pend_wf_def pend_counts_def pend_of_def pend_mset_def initial_pool_def)
  moreover have "keys_ok initial_pool"
    by (simp add: keys_ok_def worker_keys_def spawning_def initial_pool_def)
  moreover have "queue_inv cfg initial_pool"
    using assms
    by (simp add: queue_inv_def queue_ok_def queues_ok_def counts_ok_def listeners_ok_def queue_bounded_def
        config_ok_def initial_pool_def)
  ultimately show ?thesis by (simp add: pool_ok_def)
qed

lemma shutdownAllEnd_ok:
  assumes "pool_ok cfg s" and "quiet_pool s"
  shows "pool_ok cfg (shutdownAllEnd ks s)"
proof -
  let ?t = "shutdownAllEnd ks s"
  have sub: "set (fold jdel ks m) \<subseteq> set m" and ok: "jmap_ok m \<Longrightarrow> jmap_ok (fold jdel ks m)"
    for m :: "(string, worker_handle) jsmap"
    by (induction ks arbitrary: m) (auto dest: set_jdel_subset)
  have workers: "workers ?t = fold jdel ks (workers s)"
    by (simp add: shutdownAllEnd_def resetCounters_def)
  have none: "wh_pending w = []" if "(k, w) \<in> set (workers ?t)" for k w
    using subsetD [OF sub that [unfolded workers]] assms(2) by (auto simp: quiet_pool_def list_all_iff)
  have nopend: "(k, ps) \<in> set (pend_of ?t) \<Longrightarrow> ps = []" for k ps
    using none by (auto simp: pend_of_def)
  then have empty: "pend_mset (pend_of ?t) = {#}"
    unfolding pend_mset_def by (intro jsum_zero) (auto simp: pvals_def)
  have keys: "jkeys (pend_of u) = jkeys (workers u)" for u
    unfolding pend_of_def by (induction "workers u") (auto simp: split_def)
  have inv: "queue_inv cfg ?t"
    using assms by (auto simp: pool_ok_def queue_inv_def queue_ok_def counts_ok_def listeners_ok_def queue_bounded_def
        quiet_pool_def shutdownAllEnd_def resetCounters_def)
  have "jmap_ok (workers s)" using assms(1) keys [of s] by (simp add: pool_ok_def acct_ok_def pend_wf_def)
  then have "jmap_ok (pend_of ?t)" using ok keys [of ?t] by (simp add: workers)
  then have "pend_wf (pend_of ?t)" using nopend by (fastforce simp: pend_wf_def)
  moreover have "pend_counts (pend_of ?t) (activeByOwner ?t) (activeByWorkspace ?t)"
    by (simp add: pend_counts_def empty) (simp add: shutdownAllEnd_def resetCounters_def)
  moreover have "keys_ok ?t"
  proof (rule calm_keys_ok)
    show "keys_ok s" using assms(1) by (simp add: pool_ok_def)
    have "worker_keys ?t \<subseteq> worker_keys s"
      unfolding worker_keys_def workers by (rule image_mono) (rule sub)
    then show "calm cfg s ?t"
      using inv by (simp add: calm_def spawning_def shutdownAllEnd_def resetCounters_def)
  qed
  ultimately show ?thesis using inv by (simp add: pool_ok_def acct_ok_def)
qed

lemma pool_step_ok:
  assumes "pool_step cfg False s t" and "config_ok cfg" and "pool_ok cfg s"
  shows "pool_ok cfg t"
  using assms(1)
proof cases
  case (StepQuery E creds opts)
  then show ?thesis using query_ok [OF assms(3)] by simp
next
  case (StepOAuth c result)
  then show ?thesis using still_pool_ok [OF still_oauthChecked assms(3)] by simp
next
  case (StepAfterOAuth E aborted c)
  then show ?thesis using still_pool_ok [OF still_afterOAuth assms(3)] by simp
next
  case (StepPids E pressured c)
  then show ?thesis using afterPids_ok [OF assms(3)] by simp
next
  case (StepEvicted c)
  then show ?thesis using allocateInstance_ok [OF assms(3)] by simp
next
  case (StepSpawned E pid c)
  then show ?thesis using spawned_ok [OF assms(3)] by simp
next
  case (StepResolved c E aborted)
  then show ?thesis using afterResolved_ok [OF assms(3)] by simp
next
  case (StepReady c E aborted)
  then show ?thesis using afterReady_ok [OF assms(3)] by simp
next
  case (StepReadyTimeout c)
  then show ?thesis using readyTimeout_ok [OF assms(3)] by simp
next
  case (StepReadyCrash c)
  then show ?thesis using still_pool_ok [OF still_finish [OF still_refl] assms(3)] by (simp add: readyCrash_def)
next
  case (StepMessage E k m)
  then show ?thesis using handleWorkerMessage_ok [OF assms(3)] by simp
next
  case (StepDisconnect E k)
  then show ?thesis using handleWorkerDisconnect_ok [OF assms(3)] by simp
next
  case (StepExit E k why)
  then show ?thesis using handleWorkerExit_ok [OF assms(3)] by simp
next
  case (StepChildError E k)
  then show ?thesis using childError_ok [OF assms(3)] by simp
next
  case (StepAbort E k r)
  then show ?thesis using abortQuery_ok [OF assms(3)] by simp
next
  case (StepQueuedAbort r)
  then show ?thesis using queuedAbort_ok [OF assms(3)] by simp
next
  case (StepGraceful k)
  then show ?thesis using still_pool_ok [OF still_gracefulShutdown [OF still_refl] assms(3)] by simp
next
  case (StepTerminate k)
  then show ?thesis using still_pool_ok [OF still_terminateWorkerTree [OF still_refl] assms(3)] by simp
next
  case (StepEscalate k pid)
  then show ?thesis using still_pool_ok [OF still_escalateKill [OF still_refl] assms(3)] by simp
next
  case (StepEvictInactive E)
  then show ?thesis
    using still_pool_ok [OF still_evictInactive [OF still_refl] assms(3)] by (simp add: evictInactiveWorkers_def)
next
  case (StepDrain E)
  then show ?thesis
    using still_pool_ok [OF still_drainEach [OF still_refl] assms(3)] assms(3) by (simp add: drainQueueIfLoadDropped_def)
next
  case (StepSweep ls)
  then show ?thesis using still_pool_ok [OF still_sweep assms(3)] by simp
next
  case (StepShutdown E)
  then show ?thesis using shutdownAllBegin_ok [OF assms(2,3)] by simp
next
  case (StepShutdownEnd ks)
  then show ?thesis using shutdownAllEnd_ok [OF assms(3)] by simp
qed

lemma pool_reachable_ok:
  assumes "pool_reachable cfg s0 late s" and "\<not> late" and "config_ok cfg" and "pool_ok cfg s0"
  shows "pool_ok cfg s"
  using assms(1,2)
proof induction
  case ReachInit
  show ?case by (rule assms(4))
next
  case (ReachStep late s t)
  then show ?case using pool_step_ok assms(3) by blast
qed simp

text \<open>
  C1. In every state the pool reaches, whatever calls, worker messages, crashes, aborts, timers and
  shutdowns have interleaved, as long as no shutdown has ended over queries that came while it
  waited (\<open>shutdown_forgets_late_query\<close> shows what happens then), the per-owner and per-workspace activity counters
  are exactly the numbers of queries the workers are running, the request queue is
  consistent and within its limits, and no two workers share a key.
\<close>

theorem pool_accounting_exact:
  assumes "config_ok cfg" and "pool_reachable cfg initial_pool False s"
  shows "counter_get (activeByOwner s) owner = size {#p \<in># pend_mset (pend_of s). pq_ownerKey p = owner#} \<and>
         counter_get (activeByWorkspace s) ws = size {#p \<in># pend_mset (pend_of s). pq_workspaceKey p = ws#} \<and>
         queue_ok s \<and> listeners_ok s \<and> queue_bounded cfg s \<and> distinct (jkeys (workers s))"
proof -
  have ok: "pool_ok cfg s"
    using pool_reachable_ok [OF assms(2) _ assms(1) initial_pool_ok [OF assms(1)]] by simp
  have "map fst (pend_of s) = jkeys (workers s)"
    unfolding pend_of_def by (induction "workers s") (auto simp: split_def)
  then have "distinct (jkeys (workers s))"
    using ok by (metis pool_ok_def acct_ok_def pend_wf_def)
  then show ?thesis
    using ok by (simp add: pool_ok_def acct_ok_def pend_counts_def queue_inv_def)
qed

subsection \<open>A run with two concurrent queries\<close>

definition tight_config :: config where
  "tight_config = (WORKER_POOL ''e'' ''/n'')\<lparr>maxWorkersPerUser := 1, maxWorkers := 1\<rparr>"

lemma tight_config_ok: "config_ok tight_config"
  by (simp add: tight_config_def config_ok_def WORKER_POOL_def starts_with_def)

definition sample_env :: pool_env where
  "sample_env = \<lparr>env_paths = \<lparr>SITES_ROOT = ''/srv/sites'', E2B_SCRATCH_ROOT = '''', SUPERADMIN_WORKSPACE = ''/alive''\<rparr>,
     env_cwd = ''/'', env_now = 5000, env_cpus = 4, env_load = 0\<rparr>"

definition two_started :: pool_state where
  "two_started = query sample_env (sample_credentials\<lparr>cr_workspaceKey := ''b.com''\<rparr>) (sample_options ''r2'' ''u1'')
     (query sample_env sample_credentials (sample_options ''r1'' ''u1'') initial_pool)"

definition two_checked :: pool_state where
  "two_checked = afterOAuth tight_config sample_env False 1
     (afterOAuth tight_config sample_env False 0 (oauthChecked 0 None two_started))"

definition two_spawned :: pool_state where
  "two_spawned = spawned sample_env (Some 12) 1 (spawned sample_env (Some 11) 0
     (afterPids tight_config sample_env None 1 (afterPids tight_config sample_env None 0 two_checked)))"

definition two_ready :: pool_state where
  "two_ready = handleWorkerMessage sample_env ''b.com:0'' WMReady
     (handleWorkerMessage sample_env ''a.com:0'' WMReady two_spawned)"

definition one_busy :: pool_state where
  "one_busy = afterResolved tight_config sample_env False 0 two_ready"

definition two_busy :: pool_state where
  "two_busy = afterResolved tight_config sample_env False 1 one_busy"

text \<open>The guard of a start, as a test.\<close>

definition start_guard :: "nat \<Rightarrow> pool_state \<Rightarrow> bool" where
  "start_guard c s = (case jget (calls s) c of None \<Rightarrow> True
     | Some q \<Rightarrow> list_all (\<lambda>(k, w). jget (wh_pending w) (opt_requestId (qc_options q)) = None) (workers s))"

lemma start_guardD:
  "start_guard c s \<Longrightarrow> \<forall>q k w. jget (calls s) c = Some q \<longrightarrow> jget (workers s) k = Some w \<longrightarrow>
     jget (wh_pending w) (opt_requestId (qc_options q)) = None"
proof (intro allI impI)
  fix q k w
  assume g: "start_guard c s" and q: "jget (calls s) c = Some q" and w: "jget (workers s) k = Some w"
  from w have "(k, w) \<in> set (workers s)" by (rule map_of_SomeD)
  then show "jget (wh_pending w) (opt_requestId (qc_options q)) = None"
    using g q by (auto simp: start_guard_def list_all_iff)
qed

lemma two_ready_reachable: "pool_reachable tight_config initial_pool False two_ready"
proof -
  have "pool_reachable tight_config initial_pool False two_started"
    unfolding two_started_def by (intro ReachStep [OF _ StepQuery] ReachInit)
  then have "pool_reachable tight_config initial_pool False two_checked"
    unfolding two_checked_def by (intro ReachStep [OF _ StepAfterOAuth] ReachStep [OF _ StepOAuth])
  then have "pool_reachable tight_config initial_pool False two_spawned"
    unfolding two_spawned_def by (intro ReachStep [OF _ StepSpawned] ReachStep [OF _ StepPids])
  then show ?thesis
    unfolding two_ready_def by (intro ReachStep [OF _ StepMessage])
qed

lemma two_busy_reachable: "pool_reachable tight_config initial_pool False two_busy"
proof -
  note two_ready_reachable
  moreover have "start_guard 0 two_ready" by code_simp
  ultimately have "pool_reachable tight_config initial_pool False one_busy"
    unfolding one_busy_def by (intro ReachStep [OF _ StepResolved] start_guardD)
  moreover have "start_guard 1 one_busy" by code_simp
  ultimately show ?thesis
    unfolding two_busy_def by (intro ReachStep [OF _ StepResolved] start_guardD)
qed

theorem pool_accounting_exact_witness:
  "counter_get (activeByOwner two_busy) ''u1'' = size {#p \<in># pend_mset (pend_of two_busy). pq_ownerKey p = ''u1''#}"
  using pool_accounting_exact [OF tight_config_ok two_busy_reachable] by blast

text \<open>
  The concurrency limits are checked before the code waits and not again afterwards: there
  are a valid configuration and a run of the pool in which one user runs more queries than
  \<open>maxWorkersPerUser\<close> and the pool holds more workers than its maximum.
\<close>

theorem pool_limits_exceeded:
  "\<exists>cfg s owner. config_ok cfg \<and> pool_reachable cfg initial_pool False s \<and>
     getActiveByOwner owner s > maxWorkersPerUser cfg \<and> int (length (workers s)) > maxWorkers cfg"
proof (intro exI conjI)
  show "config_ok tight_config" by (rule tight_config_ok)
  show "pool_reachable tight_config initial_pool False two_busy" by (rule two_busy_reachable)
  show "getActiveByOwner ''u1'' two_busy > maxWorkersPerUser tight_config" by code_simp
  show "int (length (workers two_busy)) > maxWorkers tight_config" by code_simp
qed

subsection \<open>Single operations\<close>

text \<open>
  Aborting a running query frees its slot and retires its worker: the query leaves the
  pending map and both counters, its promise is resolved once, as cancelled and with the
  session id seen so far, the worker is told to cancel and then to shut down, is marked
  retired, and its process group is sent SIGTERM when it has a pid.
\<close>

theorem abortQuery_retires_worker:
  fixes E :: pool_env
  assumes "jget (workers s) k = Some w" and "jget (wh_pending w) r = Some p"
  defines "t \<equiv> abortQuery E k r s"
  shows "\<exists>w'. jget (workers t) k = Some w' \<and> wh_state w' = WShuttingDown \<and> wh_retiredAfterCancel w' \<and>
      wh_activeRequestId w' = None \<and> jget (wh_pending w') r = None \<and>
      activeByOwner t = decrementMap (activeByOwner s) (pq_ownerKey p) \<and>
      activeByWorkspace t = decrementMap (activeByWorkspace s) (pq_workspaceKey p) \<and>
      settled t = settled s @ [(pq_call p, Resolved (QueryResult True (pq_sessionId p) None True))] \<and>
      outbox t = outbox s @ [(k, PMCancel r), (k, PMShutdown False)] \<and>
      signals t = signals s @ (if wh_pid w \<le> 0 then [] else [(wh_pid w, SIGTERM)])"
  using assms(1,2)
  by (simp add: t_def abortQuery_def Let_def retireWorkerAfterCancel_def terminateWorkerTree_def sendToWorker_def
      decrementActive_def update_worker_def settle_def killProcessTree_def)

lemma two_busy_worker:
  "\<exists>w p. jget (workers two_busy) ''a.com:0'' = Some w \<and> jget (wh_pending w) ''r1'' = Some p \<and> wh_pid w = 11 \<and> pq_call p = 0"
proof -
  have "(case jget (workers two_busy) ''a.com:0'' of None \<Rightarrow> False | Some w \<Rightarrow>
      (case jget (wh_pending w) ''r1'' of None \<Rightarrow> False | Some p \<Rightarrow> wh_pid w = 11 \<and> pq_call p = 0))"
    by code_simp
  then show ?thesis by (auto split: option.splits)
qed

theorem abortQuery_retires_worker_witness:
  "signals (abortQuery sample_env ''a.com:0'' ''r1'' two_busy) = signals two_busy @ [(11, SIGTERM)]"
proof -
  obtain w p where w: "jget (workers two_busy) ''a.com:0'' = Some w" "jget (wh_pending w) ''r1'' = Some p" "wh_pid w = 11"
    using two_busy_worker by blast
  have "signals (abortQuery sample_env ''a.com:0'' ''r1'' two_busy) =
      signals two_busy @ (if wh_pid w \<le> 0 then [] else [(wh_pid w, SIGTERM)])"
    using abortQuery_retires_worker [OF w(1,2), of sample_env] by blast
  then show ?thesis using w(3) by simp
qed

text \<open>
  A graceful shutdown that works is reported as a crash: an idle worker that acknowledges
  its shutdown and exits emits \<open>worker:crashed\<close>, because the acknowledgement has already
  set its state to dead; the \<open>worker:shutdown\<close> event that \<open>gracefulShutdown\<close> waits for is
  emitted only if the worker exits without acknowledging.
\<close>

theorem acknowledged_shutdown_reported_as_crash:
  assumes "jget (workers s) k = Some w" and "wh_state w = WReady" and "wh_pending w = []"
    and "\<not> isShuttingDown s" and "queue_ok s"
    and "{#r \<in># queued s. qr_workspace r = baseWorkspaceKey k#} = {#}"
  defines "asked \<equiv> gracefulShutdown k s"
  shows "emitted (handleWorkerExit E k why (handleWorkerMessage E k WMShutdownAck asked)) = emitted s @ [EvCrashed k] \<and>
         emitted (handleWorkerExit E k why asked) = emitted s @ [EvShutdown k]"
proof -
  have pq: "emitted (processQueue E (baseWorkspaceKey k) t) = emitted t" if "requestQueues t = requestQueues s" for t
  proof -
    have "dequeueNextRequest (baseWorkspaceKey k) s = (None, s)"
      using dequeueNextRequest_None [OF assms(5), of "baseWorkspaceKey k"] assms(6) by (metis prod.collapse)
    then have "fst (dequeueNextRequest (baseWorkspaceKey k) t) = None" "snd (dequeueNextRequest (baseWorkspaceKey k) t) = t"
      using that by (auto simp: dequeueNextRequest_def split: option.splits if_splits)
    then have "dequeueNextRequest (baseWorkspaceKey k) t = (None, t)" by (metis prod.collapse)
    then show ?thesis by (simp add: processQueue_def)
  qed
  show ?thesis
    using assms(1-4)
    by (simp add: handleWorkerExit_def Let_def handleWorkerMessage_def asked_def gracefulShutdown_def sendToWorker_def
        update_worker_def rejectPendingQueries_def pq emit_event_def)
qed

theorem acknowledged_shutdown_reported_as_crash_witness:
  "emitted (handleWorkerExit sample_env ''a.com:0'' ''exit code 0'' (handleWorkerMessage sample_env ''a.com:0'' WMShutdownAck
      (gracefulShutdown ''a.com:0'' two_ready))) = emitted two_ready @ [EvCrashed ''a.com:0'']"
proof -
  have "(case jget (workers two_ready) ''a.com:0'' of None \<Rightarrow> False | Some w \<Rightarrow> wh_state w = WReady \<and> wh_pending w = [])"
    by code_simp
  then obtain w where w: "jget (workers two_ready) ''a.com:0'' = Some w" "wh_state w = WReady" "wh_pending w = []"
    by (auto split: option.splits)
  have n: "\<not> isShuttingDown two_ready" by code_simp
  have "requestQueues two_ready = []" by code_simp
  then have q: "{#r \<in># queued two_ready. qr_workspace r = baseWorkspaceKey ''a.com:0''#} = {#}" by simp
  have "queue_ok two_ready"
    using pool_reachable_ok [OF two_ready_reachable _ tight_config_ok initial_pool_ok [OF tight_config_ok]]
    by (simp add: pool_ok_def queue_inv_def)
  from acknowledged_shutdown_reported_as_crash [OF w n this q, of sample_env "''exit code 0''"]
  show ?thesis by blast
qed

text \<open>
  \<open>shutdownAll\<close> does not stop new queries while it waits, and then resets the counters: a
  worker that joined the pool after the snapshot stays in the map with its query running,
  while its owner is counted as running nothing.
\<close>

theorem shutdown_forgets_late_query:
  assumes "jget (workers s) k = Some w" and "k \<notin> set ks" and "p \<in># pvals (wh_pending w)"
  shows "jget (workers (shutdownAllEnd ks s)) k = Some w \<and>
         counter_get (activeByOwner (shutdownAllEnd ks s)) (pq_ownerKey p) = 0 \<and>
         \<not> acct_ok (shutdownAllEnd ks s)"
proof -
  have "jget (fold jdel ks m) k = jget m k" for m :: "(string, worker_handle) jsmap"
    using assms(2) by (induction ks arbitrary: m) auto
  then have w: "jget (workers (shutdownAllEnd ks s)) k = Some w"
    using assms(1) by (simp add: shutdownAllEnd_def resetCounters_def)
  have z: "counter_get (activeByOwner (shutdownAllEnd ks s)) (pq_ownerKey p) = 0"
    by (simp add: shutdownAllEnd_def resetCounters_def)
  have "jget (pend_of (shutdownAllEnd ks s)) k = Some (wh_pending w)" by (simp add: jget_pend_of w)
  then have "(k, wh_pending w) \<in> set (pend_of (shutdownAllEnd ks s))" by (rule map_of_SomeD)
  then have "p \<in># pend_mset (pend_of (shutdownAllEnd ks s))"
    using assms(3) unfolding pend_mset_def
    by (induction "pend_of (shutdownAllEnd ks s)" rule: list.induct) (auto simp: jsum_def split: prod.splits)
  then have "{#x \<in># pend_mset (pend_of (shutdownAllEnd ks s)). pq_ownerKey x = pq_ownerKey p#} \<noteq> {#}"
    by (auto simp: filter_mset_none)
  then show ?thesis using w z by (auto simp: acct_ok_def pend_counts_def)
qed

theorem shutdown_forgets_late_query_witness:
  "\<not> acct_ok (shutdownAllEnd [] two_busy)"
proof -
  obtain w p where w: "jget (workers two_busy) ''a.com:0'' = Some w" "jget (wh_pending w) ''r1'' = Some p"
    using two_busy_worker by blast
  then have "p \<in># pvals (wh_pending w)" by (force simp: pvals_def dest: map_of_SomeD)
  then show ?thesis using shutdown_forgets_late_query [OF w(1), of "[]" p] by simp
qed

text \<open>
  The workspace of a worker key is recovered exactly when the workspace key contains no
  colon; otherwise idle and exit events look at another workspace's queue.
\<close>

theorem baseWorkspaceKey_exact:
  "baseWorkspaceKey (workerKeyOf w i) = w \<longleftrightarrow> CHR '':'' \<notin> set w"
proof
  have inc: "str_includes '':'' s \<longleftrightarrow> CHR '':'' \<in> set s" for s
    by (induction s) (auto simp: starts_with_def)
  then have base: "baseWorkspaceKey (workerKeyOf w i) = hd (split_on (CHR '':'') (workerKeyOf w i))"
    by (simp add: baseWorkspaceKey_def workerKeyOf_def)
  show "CHR '':'' \<notin> set w" if "baseWorkspaceKey (workerKeyOf w i) = w"
    using that split_on_pieces [of "hd (split_on (CHR '':'') (workerKeyOf w i))" "CHR '':''" "workerKeyOf w i"]
      hd_in_set [of "split_on (CHR '':'') (workerKeyOf w i)"]
    unfolding base by simp
  show "baseWorkspaceKey (workerKeyOf w i) = w" if "CHR '':'' \<notin> set w"
    using that split_on_append_sep [of "CHR '':''" w "digits i"] unfolding base by (simp add: workerKeyOf_def)
qed

end
