(* ===== verification/Utf8.thy ===== *)
theory Utf8
  imports Prelude
begin

section \<open>Texts as their UTF-8 bytes\<close>

text \<open>
  Where the program turns bytes into text (\<open>Buffer.toString()\<close>, \<open>readFile\<close> with \<open>utf8\<close>) a text is given
  by the bytes of its UTF-8 form, one \<open>char\<close> each. Decoding then is a function on bytes: it keeps
  what is well-formed and puts the replacement character for everything else. Lengths and
  positions of JavaScript count UTF-16 code units.
\<close>

subsection \<open>Decoding\<close>

text \<open>The ranges of the bytes that may follow a first byte; \<open>None\<close>: no first byte.\<close>

definition followers :: "nat \<Rightarrow> (nat \<times> nat) list option" where
  "followers b =
     (if b < 0x80 then Some []
      else if 0xC2 \<le> b \<and> b \<le> 0xDF then Some [(0x80, 0xBF)]
      else if b = 0xE0 then Some [(0xA0, 0xBF), (0x80, 0xBF)]
      else if b = 0xED then Some [(0x80, 0x9F), (0x80, 0xBF)]
      else if 0xE1 \<le> b \<and> b \<le> 0xEF then Some [(0x80, 0xBF), (0x80, 0xBF)]
      else if b = 0xF0 then Some [(0x90, 0xBF), (0x80, 0xBF), (0x80, 0xBF)]
      else if 0xF1 \<le> b \<and> b \<le> 0xF3 then Some [(0x80, 0xBF), (0x80, 0xBF), (0x80, 0xBF)]
      else if b = 0xF4 then Some [(0x80, 0x8F), (0x80, 0xBF), (0x80, 0xBF)]
      else None)"

text \<open>The bytes that fit the ranges, whether all ranges were served, and the rest.\<close>

fun take_followers :: "(nat \<times> nat) list \<Rightarrow> string \<Rightarrow> string \<times> bool \<times> string" where
  "take_followers [] s = ([], True, s)"
| "take_followers ((lo, hi) # rs) [] = ([], False, [])"
| "take_followers ((lo, hi) # rs) (c # s) =
     (if lo \<le> of_char c \<and> of_char c \<le> hi
      then (case take_followers rs s of (t, ok, rest) \<Rightarrow> (c # t, ok, rest))
      else ([], False, c # s))"

lemma take_followers_rest: "take_followers rs s = (t, ok, rest) \<Longrightarrow> length rest \<le> length s"
  by (induction rs s arbitrary: t rule: take_followers.induct) (fastforce split: if_splits prod.splits)+

definition replacement :: string where
  "replacement = [CHR 0xEF, CHR 0xBF, CHR 0xBD]"

text \<open>One replacement character stands for a byte that begins nothing, or for the longest beginning of a character that breaks off.\<close>

function utf8_text :: "string \<Rightarrow> string" where
  "utf8_text [] = []"
| "utf8_text (c # s) =
     (case followers (of_char c) of
        None \<Rightarrow> replacement @ utf8_text s
      | Some rs \<Rightarrow> (case take_followers rs s of
                      (t, ok, rest) \<Rightarrow> (if ok then c # t else replacement) @ utf8_text rest))"
  by pat_completeness auto
termination
  by (relation "measure length") (auto simp: less_Suc_eq_le dest: take_followers_rest [OF sym])

text \<open>A text of whole characters is what it decodes to.\<close>

definition whole_chars :: "string \<Rightarrow> bool" where
  "whole_chars s \<longleftrightarrow> utf8_text s = s"

lemma utf8_text_ascii: "list_all (\<lambda>c. of_char c < (0x80 :: nat)) s \<Longrightarrow> utf8_text s = s"
  by (induction s) (auto simp: followers_def)

lemma whole_chars_ascii: "list_all (\<lambda>c. of_char c < (0x80 :: nat)) s \<Longrightarrow> whole_chars s"
  by (simp add: whole_chars_def utf8_text_ascii)

subsection \<open>Lengths, positions and white space\<close>

definition continues :: "char \<Rightarrow> bool" where
  "continues c \<longleftrightarrow> (0x80 :: nat) \<le> of_char c \<and> of_char c < (0xC0 :: nat)"

text \<open>The code units a byte stands for: two for the first byte of a character beyond the basic plane.\<close>

definition code_units :: "char \<Rightarrow> nat" where
  "code_units c = (if continues c then 0 else if (0xF0 :: nat) \<le> of_char c then 2 else 1)"

definition js_length :: "string \<Rightarrow> nat" where
  "js_length s = sum_list (map code_units s)"

lemma js_length_simps [simp]:
  "js_length [] = 0"
  "js_length (c # s) = code_units c + js_length s"
  "js_length (s @ t) = js_length s + js_length t"
  by (simp_all add: js_length_def)

text \<open>\<open>s.slice(0, n)\<close>; a character cut in half is printed as the replacement character.\<close>

fun js_take :: "nat \<Rightarrow> string \<Rightarrow> string" where
  "js_take n [] = []"
| "js_take n (c # s) =
     (if continues c then c # js_take n s
      else if n = 0 then []
      else if code_units c > n then replacement
      else c # js_take (n - code_units c) s)"

text \<open>The UTF-8 forms of the characters that \<open>trim\<close> removes.\<close>

definition utf8_spaces :: "string list" where
  "utf8_spaces =
     map (\<lambda>b. [char_of (b :: nat)]) [9, 10, 11, 12, 13, 32] @
     [[CHR 0xC2, CHR 0xA0], [CHR 0xE1, CHR 0x9A, CHR 0x80]] @
     map (\<lambda>b. [CHR 0xE2, CHR 0x80, char_of (b :: nat)])
       [0x80, 0x81, 0x82, 0x83, 0x84, 0x85, 0x86, 0x87, 0x88, 0x89, 0x8A, 0xA8, 0xA9, 0xAF] @
     [[CHR 0xE2, CHR 0x81, CHR 0x9F], [CHR 0xE3, CHR 0x80, CHR 0x80], [CHR 0xEF, CHR 0xBB, CHR 0xBF]]"

text \<open>Removes words of the list from the front, as long as there is one.\<close>

fun strip_words :: "string list \<Rightarrow> nat \<Rightarrow> string \<Rightarrow> string" where
  "strip_words ws 0 s = s"
| "strip_words ws (Suc n) s =
     (case find (\<lambda>w. starts_with w s) ws of
        None \<Rightarrow> s
      | Some w \<Rightarrow> strip_words ws n (drop (length w) s))"

definition utf8_trim :: "string \<Rightarrow> string" where
  "utf8_trim s =
     (let t = strip_words utf8_spaces (length s) s
      in rev (strip_words (map rev utf8_spaces) (length t) (rev t)))"

lemma utf8_trim_Nil [simp]: "utf8_trim [] = []"
  by (simp add: utf8_trim_def)

text \<open>A text that neither begins nor ends with white space stays as it is.\<close>

lemma utf8_trim_id:
  assumes "\<forall>w\<in>set utf8_spaces. \<not> starts_with w s" and "\<forall>w\<in>set utf8_spaces. \<not> ends_with w s"
  shows "utf8_trim s = s"
proof -
  have "find (\<lambda>w. starts_with w s) utf8_spaces = None" using assms(1) by (simp add: find_None_iff)
  then have front: "strip_words utf8_spaces n s = s" for n by (cases n) simp_all
  have "\<not> starts_with (rev w) (rev s)" if "w \<in> set utf8_spaces" for w
  proof -
    have "drop (length s - length w) s = w \<Longrightarrow> length w \<le> length s" by (metis diff_le_self length_drop)
    then show ?thesis using assms(2) that by (auto simp: ends_with_def starts_with_def take_rev)
  qed
  then have "find (\<lambda>w. starts_with w (rev s)) (map rev utf8_spaces) = None" by (simp add: find_None_iff)
  then have rear: "strip_words (map rev utf8_spaces) n (rev s) = rev s" for n by (cases n) simp_all
  show ?thesis by (simp add: utf8_trim_def front rear)
qed

end
