(* ===== verification/Ndjson.thy ===== *)
theory Ndjson
  imports Utf8
begin

section \<open>The IPC channel between pool and worker\<close>

text \<open>
  \<open>packages/worker-pool/src/ipc.ts\<close>: the newline-delimited JSON parser, the socket server
  the pool opens for a worker, and the message guards. \<open>JSON.parse\<close> is a parameter
  (\<open>None\<close>: it throws). The loop of \<open>write\<close> is a \<open>partial_function\<close>, because it does not
  always stop: \<open>None\<close> is a call that never returns. A chunk is the bytes of a \<open>Buffer\<close>, and a text its
  UTF-8 form (\<open>Utf8\<close>).
\<close>

subsection \<open>Splitting a text at newlines\<close>

lemma split_on_append_last:
  "split_on d (s @ t) = butlast (split_on d s) @ split_on d (last (split_on d s) @ t)"
proof (induction s)
  case (Cons c s)
  obtain w ws where s: "split_on d s = w # ws" by (cases "split_on d s") auto
  show ?case
  proof (cases "c = d")
    case True
    with Cons s show ?thesis by simp
  next
    case False
    show ?thesis
    proof (cases "ws = []")
      case True
      with Cons s False show ?thesis by (simp split: list.splits)
    next
      case ws: False
      with Cons s False show ?thesis by (simp split: list.splits)
    qed
  qed
qed simp

lemma last_split_on_no_sep: "d \<notin> set (last (split_on d s))"
  by (rule split_on_pieces [of _ d s]) simp

lemma split_on_single: "split_on d s = [w] \<Longrightarrow> w = s \<and> d \<notin> set s"
proof (induction s arbitrary: w)
  case (Cons c s)
  then show ?case by (cases "split_on d s") (auto split: if_splits)
qed simp

lemma index_of_split_on:
  "split_on d s = w # ws \<Longrightarrow> ws \<noteq> [] \<Longrightarrow>
     index_of d s = Some (length w) \<and> take (length w) s = w \<and> split_on d (drop (Suc (length w)) s) = ws"
proof (induction s arbitrary: w)
  case (Cons c s)
  show ?case
  proof (cases "c = d")
    case True
    with Cons.prems show ?thesis by auto
  next
    case False
    obtain v vs where s: "split_on d s = v # vs" by (cases "split_on d s") auto
    with False Cons.prems have w: "w = c # v" and v: "vs = ws" by auto
    have "split_on d s = v # ws" using s v by simp
    from Cons.IH [OF this Cons.prems(2)] w False show ?thesis by auto
  qed
qed simp

subsection \<open>The parser\<close>

datatype 'm nd_event = NdMessage 'm | NdError string

record ndjson_parser =
  nd_buffer :: string
  nd_maxBufferSize :: nat

definition new_parser :: "nat \<Rightarrow> ndjson_parser" where
  "new_parser maxBufferSize = \<lparr>nd_buffer = [], nd_maxBufferSize = maxBufferSize\<rparr>"

definition MAX_BUFFER_SIZE :: nat where
  "MAX_BUFFER_SIZE = 10 * 1024 * 1024"

definition nd_parse :: "(string \<Rightarrow> 'm option) \<Rightarrow> string \<Rightarrow> string \<Rightarrow> 'm nd_event" where
  "nd_parse parse problem line =
     (case parse line of Some m \<Rightarrow> NdMessage m | None \<Rightarrow> NdError (problem @ js_take 200 line))"

text \<open>
  The \<open>while\<close> loop. On a blank line the code continues without computing \<open>newlineIndex\<close>
  anew, so the old index is used on the shorter buffer.
\<close>

partial_function (option) write_loop ::
  "(string \<Rightarrow> 'm option) \<Rightarrow> nat option \<Rightarrow> string \<Rightarrow> 'm nd_event list \<Rightarrow> (string \<times> 'm nd_event list) option" where
  "write_loop parse newlineIndex buf evs =
     (case newlineIndex of
        None \<Rightarrow> Some (buf, evs)
      | Some i \<Rightarrow>
          let line = utf8_trim (take i buf); buf' = drop (i + 1) buf in
          if line = [] then write_loop parse (Some i) buf' evs
          else write_loop parse (index_of newline buf') buf'
                 (evs @ [nd_parse parse ''Failed to parse NDJSON: '' line]))"

definition nd_write ::
  "(string \<Rightarrow> 'm option) \<Rightarrow> string \<Rightarrow> ndjson_parser \<Rightarrow> (ndjson_parser \<times> 'm nd_event list) option" where
  "nd_write parse chunk p =
     (let buf = nd_buffer p @ utf8_text chunk in
      if js_length buf > nd_maxBufferSize p
      then Some (p\<lparr>nd_buffer := []\<rparr>, [NdError ''Buffer exceeded''])
      else map_option (\<lambda>(rest, evs). (p\<lparr>nd_buffer := rest\<rparr>, evs)) (write_loop parse (index_of newline buf) buf []))"

definition nd_flush :: "(string \<Rightarrow> 'm option) \<Rightarrow> ndjson_parser \<Rightarrow> ndjson_parser \<times> 'm nd_event list" where
  "nd_flush parse p =
     (let remaining = utf8_trim (nd_buffer p); p' = p\<lparr>nd_buffer := []\<rparr> in
      if remaining = [] then (p', [])
      else (p', [nd_parse parse ''Unparseable content in buffer on flush: '' remaining]))"

text \<open>A sequence of chunks, as the socket delivers them.\<close>

fun nd_feed ::
  "(string \<Rightarrow> 'm option) \<Rightarrow> string list \<Rightarrow> ndjson_parser \<Rightarrow> (ndjson_parser \<times> 'm nd_event list) option" where
  "nd_feed parse [] p = Some (p, [])"
| "nd_feed parse (c # cs) p =
     (case nd_write parse c p of
        None \<Rightarrow> None
      | Some (p1, evs) \<Rightarrow> map_option (\<lambda>(p2, evs'). (p2, evs @ evs')) (nd_feed parse cs p1))"

definition blank :: "string \<Rightarrow> bool" where
  "blank w \<longleftrightarrow> utf8_trim w = []"

definition nd_line :: "(string \<Rightarrow> 'm option) \<Rightarrow> string \<Rightarrow> 'm nd_event" where
  "nd_line parse w = nd_parse parse ''Failed to parse NDJSON: '' (utf8_trim w)"

lemma write_loop_prefix:
  assumes "\<forall>w\<in>set ws. \<not> blank w" and "split_on newline buf = ws @ vs" and "vs \<noteq> []"
  shows "\<exists>buf'. split_on newline buf' = vs \<and>
    write_loop parse (index_of newline buf) buf evs =
    write_loop parse (index_of newline buf') buf' (evs @ map (nd_line parse) ws)"
  using assms
proof (induction ws arbitrary: buf evs)
  case Nil
  then show ?case by auto
next
  case (Cons w ws)
  have b: "index_of newline buf = Some (length w)" "take (length w) buf = w"
    "split_on newline (drop (Suc (length w)) buf) = ws @ vs"
    using index_of_split_on [of newline buf w "ws @ vs"] Cons.prems(2,3) by auto
  have nb: "utf8_trim w \<noteq> []" using Cons.prems(1) by (simp add: blank_def)
  have "\<forall>w\<in>set ws. \<not> blank w" using Cons.prems(1) by simp
  from Cons.IH [OF this b(3) Cons.prems(3), of "evs @ [nd_line parse w]"] obtain buf' where
    buf': "split_on newline buf' = vs"
    "write_loop parse (index_of newline (drop (Suc (length w)) buf)) (drop (Suc (length w)) buf) (evs @ [nd_line parse w])
       = write_loop parse (index_of newline buf') buf' ((evs @ [nd_line parse w]) @ map (nd_line parse) ws)"
    by blast
  have "write_loop parse (index_of newline buf) buf evs =
      write_loop parse (index_of newline (drop (Suc (length w)) buf)) (drop (Suc (length w)) buf) (evs @ [nd_line parse w])"
    by (subst write_loop.simps) (simp add: b(1,2) nb Let_def nd_line_def)
  then show ?case using buf' by auto
qed

lemma write_loop_exact:
  assumes "\<forall>w\<in>set (butlast (split_on newline buf)). \<not> blank w"
  shows "write_loop parse (index_of newline buf) buf [] =
    Some (last (split_on newline buf), map (nd_line parse) (butlast (split_on newline buf)))"
proof -
  obtain buf' where b: "split_on newline buf' = [last (split_on newline buf)]"
    "write_loop parse (index_of newline buf) buf [] =
     write_loop parse (index_of newline buf') buf' ([] @ map (nd_line parse) (butlast (split_on newline buf)))"
    using write_loop_prefix [OF assms, of buf "[last (split_on newline buf)]" parse "[]"] by auto
  have "last (split_on newline buf) = buf'" "newline \<notin> set buf'"
    using split_on_single [OF b(1)] by auto
  then have "index_of newline buf' = None" by (simp add: index_of_None)
  then show ?thesis using b(2) \<open>last _ = buf'\<close> by (simp add: write_loop.simps)
qed

subsection \<open>The blank line\<close>

text \<open>With index 0 the loop cuts off one character at a time and never looks for a newline again.\<close>

lemma write_loop_stuck:
  assumes "write_loop parse newlineIndex buf evs = Some r" and "newlineIndex = Some 0"
  shows False
proof -
  have "newlineIndex \<noteq> Some 0"
  proof (rule write_loop.raw_induct [where P = "\<lambda>p i b e r. i \<noteq> Some 0", OF _ assms(1)])
    fix f and parse :: "string \<Rightarrow> 'a option" and i :: "nat option" and buf evs r
    assume IH: "\<And>p i b e r. f p i b e = Some r \<Longrightarrow> i \<noteq> Some 0"
      and eq: "(case i of None \<Rightarrow> Some (buf, evs)
        | Some i \<Rightarrow> let line = utf8_trim (take i buf); buf' = drop (i + 1) buf in
            if line = [] then f parse (Some i) buf' evs
            else f parse (index_of newline buf') buf' (evs @ [nd_parse parse ''Failed to parse NDJSON: '' line])) = Some r"
    show "i \<noteq> Some 0"
    proof
      assume "i = Some 0"
      with eq have "f parse (Some 0) (drop 1 buf) evs = Some r" by (simp add: Let_def)
      then show False using IH by blast
    qed
  qed
  then show False using assms(2) by simp
qed

text \<open>
  A blank line hangs the process: if the buffered text has an empty line after any number
  of ordinary ones, \<open>write\<close> never returns, so the process that receives it stops serving.
\<close>

theorem ndjson_empty_line_hangs:
  assumes "js_length (nd_buffer p @ utf8_text chunk) \<le> nd_maxBufferSize p"
    and "split_on newline (nd_buffer p @ utf8_text chunk) = ws @ [] # vs" and "vs \<noteq> []"
    and "\<forall>w\<in>set ws. \<not> blank w"
  shows "nd_write parse chunk p = None"
proof -
  let ?b = "nd_buffer p @ utf8_text chunk"
  obtain buf' where b: "split_on newline buf' = [] # vs"
    "write_loop parse (index_of newline ?b) ?b [] = write_loop parse (index_of newline buf') buf' (map (nd_line parse) ws)"
    using write_loop_prefix [OF assms(4,2), of parse "[]"] by auto
  have "index_of newline buf' = Some 0" using index_of_split_on [OF b(1) assms(3)] by simp
  then have "write_loop parse (index_of newline ?b) ?b [] = None"
    using b(2) write_loop_stuck [of parse "Some 0" buf' "map (nd_line parse) ws"]
    by (cases "write_loop parse (Some 0) buf' (map (nd_line parse) ws)") auto
  then show ?thesis using assms(1) by (simp add: nd_write_def Let_def)
qed

theorem ndjson_empty_line_hangs_witness:
  "nd_write (\<lambda>s. Some s) [CHR ''x'', newline, newline] (new_parser 100) = None"
  by (rule ndjson_empty_line_hangs [where ws = "[''x'']" and vs = "[[]]"], code_simp+)

subsection \<open>Chunks\<close>

text \<open>Whatever the chunk boundaries, the parser sees the lines of the whole text.\<close>

lemma split_on_starts: "d \<notin> set v \<Longrightarrow> \<exists>h hs. split_on d (v @ t) = (v @ h) # hs"
proof (induction v)
  case Nil
  then show ?case by (cases "split_on d t") auto
qed auto

lemma split_on_last_le:
  "\<exists>w\<in>set (split_on d (s @ t)). js_length (last (split_on d s)) \<le> js_length w"
proof -
  obtain h hs where "split_on d (last (split_on d s) @ t) = (last (split_on d s) @ h) # hs"
    using split_on_starts [OF last_split_on_no_sep] by blast
  then have "last (split_on d s) @ h \<in> set (split_on d (s @ t))"
    unfolding split_on_append_last [of d s t] by simp
  then show ?thesis by (metis js_length_simps(3) le_add1)
qed

definition roomy :: "string list \<Rightarrow> string \<Rightarrow> nat \<Rightarrow> bool" where
  "roomy chunks txt limit \<longleftrightarrow>
     (\<forall>c\<in>set chunks. \<forall>w\<in>set (split_on newline txt). js_length w + js_length c \<le> limit)"

lemma nd_write_exact:
  assumes "js_length (nd_buffer p @ utf8_text chunk) \<le> nd_maxBufferSize p"
    and "\<forall>w\<in>set (butlast (split_on newline (nd_buffer p @ utf8_text chunk))). \<not> blank w"
  shows "nd_write parse chunk p =
    Some (p\<lparr>nd_buffer := last (split_on newline (nd_buffer p @ utf8_text chunk))\<rparr>,
          map (nd_line parse) (butlast (split_on newline (nd_buffer p @ utf8_text chunk))))"
  using assms by (simp add: nd_write_def Let_def write_loop_exact)

lemma nd_feed_exact:
  assumes "\<forall>w\<in>set (butlast (split_on newline (nd_buffer p @ concat (map utf8_text chunks)))). \<not> blank w"
    and "roomy (map utf8_text chunks) (nd_buffer p @ concat (map utf8_text chunks)) (nd_maxBufferSize p)"
    and "newline \<notin> set (nd_buffer p)"
  shows "nd_feed parse chunks p =
    Some (p\<lparr>nd_buffer := last (split_on newline (nd_buffer p @ concat (map utf8_text chunks)))\<rparr>,
          map (nd_line parse) (butlast (split_on newline (nd_buffer p @ concat (map utf8_text chunks)))))"
  using assms
proof (induction chunks arbitrary: p)
  case Nil
  then show ?case by (simp add: split_on_no_sep)
next
  case (Cons c cs)
  let ?s = "nd_buffer p @ utf8_text c" and ?t = "concat (map utf8_text cs)"
  let ?p = "p\<lparr>nd_buffer := last (split_on newline ?s)\<rparr>"
  have split: "split_on newline (?s @ ?t) = butlast (split_on newline ?s) @ split_on newline (nd_buffer ?p @ ?t)"
    using split_on_append_last [of newline ?s ?t] by simp
  have ne: "split_on newline (nd_buffer ?p @ ?t) \<noteq> []" by simp
  obtain w where w: "w \<in> set (split_on newline (?s @ ?t))" "js_length (last (split_on newline (nd_buffer p))) \<le> js_length w"
    using split_on_last_le [of newline "nd_buffer p" "utf8_text c @ ?t"] by auto
  have "js_length w + js_length (utf8_text c) \<le> nd_maxBufferSize p"
    using Cons.prems(2) w(1) by (simp add: roomy_def)
  then have room: "js_length ?s \<le> nd_maxBufferSize p"
    using Cons.prems(3) w(2) by (simp add: split_on_no_sep)
  have nb: "\<forall>w\<in>set (butlast (split_on newline ?s) @ butlast (split_on newline (nd_buffer ?p @ ?t))). \<not> blank w"
    using Cons.prems(1) split ne by (simp add: butlast_append)
  then have "\<forall>w\<in>set (butlast (split_on newline ?s)). \<not> blank w" by simp
  from nd_write_exact [OF room this, of parse]
  have w1: "nd_write parse c p = Some (?p, map (nd_line parse) (butlast (split_on newline ?s)))" .
  have "nd_feed parse cs ?p = Some (?p\<lparr>nd_buffer := last (split_on newline (nd_buffer ?p @ ?t))\<rparr>,
      map (nd_line parse) (butlast (split_on newline (nd_buffer ?p @ ?t))))"
  proof (rule Cons.IH)
    show "\<forall>w\<in>set (butlast (split_on newline (nd_buffer ?p @ ?t))). \<not> blank w" using nb by simp
    show "roomy (map utf8_text cs) (nd_buffer ?p @ ?t) (nd_maxBufferSize ?p)"
      using Cons.prems(2) split by (auto simp: roomy_def)
    show "newline \<notin> set (nd_buffer ?p)" by (simp add: last_split_on_no_sep)
  qed
  then have "nd_feed parse (c # cs) p = Some (p\<lparr>nd_buffer := last (split_on newline (nd_buffer ?p @ ?t))\<rparr>,
      map (nd_line parse) (butlast (split_on newline ?s) @ butlast (split_on newline (nd_buffer ?p @ ?t))))"
    by (simp add: w1)
  then show ?case
    using split ne by (simp add: butlast_append)
qed

subsection \<open>Messages survive the channel\<close>

definition wire :: "('m \<Rightarrow> string) \<Rightarrow> 'm list \<Rightarrow> string" where
  "wire stringify ms = concat (map (\<lambda>m. stringify m @ [newline]) ms)"

text \<open>What the code relies on of \<open>JSON.stringify\<close> and \<open>JSON.parse\<close> for a message object.\<close>

definition json_ok :: "('m \<Rightarrow> string) \<Rightarrow> (string \<Rightarrow> 'm option) \<Rightarrow> 'm \<Rightarrow> bool" where
  "json_ok stringify parse m \<longleftrightarrow>
     parse (stringify m) = Some m \<and> newline \<notin> set (stringify m) \<and>
     utf8_trim (stringify m) = stringify m \<and> stringify m \<noteq> []"

lemma split_on_wire:
  "\<forall>m\<in>set ms. newline \<notin> set (stringify m) \<Longrightarrow> split_on newline (wire stringify ms) = map stringify ms @ [[]]"
  by (induction ms) (simp_all add: wire_def split_on_append_sep)

text \<open>
  C29. Round trip: the messages one side sends are the messages the other side receives, each once
  and in order, and nothing is left in the buffer, wherever the bytes are cut into chunks between two
  characters, as long as no unfinished message together with a chunk exceeds the buffer limit.
  (\<open>split_character_corrupted\<close> shows what a cut inside a character does.)
\<close>

theorem ndjson_roundtrip:
  assumes "\<forall>m\<in>set ms. json_ok stringify parse m"
    and "concat chunks = wire stringify ms" and "\<forall>c\<in>set chunks. whole_chars c"
    and "roomy chunks (wire stringify ms) limit"
  shows "nd_feed parse chunks (new_parser limit) = Some (new_parser limit, map NdMessage ms)"
proof -
  have whole: "map utf8_text chunks = chunks"
    using assms(3) by (induction chunks) (simp_all add: whole_chars_def)
  have s: "split_on newline (wire stringify ms) = map stringify ms @ [[]]"
    using assms(1) by (intro split_on_wire) (simp add: json_ok_def)
  have "nd_feed parse chunks (new_parser limit) =
    Some ((new_parser limit)\<lparr>nd_buffer := []\<rparr>, map (nd_line parse) (map stringify ms))"
    using assms nd_feed_exact [of "new_parser limit" chunks parse] unfolding whole
    by (simp add: new_parser_def s blank_def json_ok_def)
  moreover have "map (nd_line parse) (map stringify ms) = map NdMessage ms"
    using assms(1) by (simp add: nd_line_def nd_parse_def json_ok_def)
  ultimately show ?thesis by (simp add: new_parser_def)
qed

text \<open>The text of the message is the letter e with an acute accent, two bytes in UTF-8.\<close>

definition accented :: string where
  "accented = [CHR ''{'', CHR 0xC3, CHR 0xA9, CHR ''}'']"

theorem ndjson_roundtrip_witness:
  "nd_feed (\<lambda>s. if s = accented then Some (1::nat) else None)
     [[CHR ''{'', CHR 0xC3, CHR 0xA9], [CHR ''}'', newline, CHR ''{''], [CHR 0xC3, CHR 0xA9, CHR ''}'', newline]] (new_parser 10)
   = Some (new_parser 10, map NdMessage [1, 1])"
proof (rule ndjson_roundtrip [where stringify = "\<lambda>_. accented"])
  show "\<forall>m\<in>set [1, 1]. json_ok (\<lambda>_. accented) (\<lambda>s. if s = accented then Some (1::nat) else None) m" by code_simp
qed code_simp+

text \<open>The parser decodes every chunk by itself: a character that a cut splits arrives as two replacement characters.\<close>

lemma split_character_corrupted:
  "nd_feed (\<lambda>s. Some s) [[CHR ''{'', CHR 0xC3], [CHR 0xA9, CHR ''}'', newline]] (new_parser 20)
   = Some (new_parser 20, [NdMessage (''{'' @ replacement @ replacement @ ''}'')])"
proof -
  let ?cs = "[[CHR ''{'', CHR 0xC3], [CHR 0xA9, CHR ''}'', newline]]"
  let ?l = "''{'' @ replacement @ replacement @ ''}''"
  have t: "concat (map utf8_text ?cs) = ?l @ [newline]" by code_simp
  have l: "split_on newline (nd_buffer (new_parser 20) @ ?l @ [newline]) = [?l, []]" by code_simp
  have b: "\<forall>w\<in>set (butlast [?l, []]). \<not> blank w" by code_simp
  have r: "roomy (map utf8_text ?cs) (nd_buffer (new_parser 20) @ ?l @ [newline]) (nd_maxBufferSize (new_parser 20))"
    by code_simp
  have m: "nd_line (\<lambda>s. Some s) ?l = NdMessage ?l" by code_simp
  show ?thesis
    using nd_feed_exact [of "new_parser 20" ?cs "\<lambda>s. Some s", unfolded t l, OF b r] m by (simp add: new_parser_def)
qed

end
