(* ===== verification/Json.thy ===== *)
theory Json
  imports Prelude Complex_Main
begin

section \<open>JSON values\<close>

text \<open>
  What \<open>JSON.parse\<close> returns, and the property accessors of the source. The entries of an object
  are in insertion order; a number is a rational.
\<close>

datatype json = JNull | JBool bool | JNum rat | JStr string | JArr "json list" | JObj "(string \<times> json) list"

text \<open>\<open>None\<close> is \<open>undefined\<close>; the keys asked for are no members of arrays.\<close>

fun getObjectProperty :: "json \<Rightarrow> string \<Rightarrow> json option" where
  "getObjectProperty (JObj m) k = map_of m k"
| "getObjectProperty _ k = None"

definition getStringProperty :: "json \<Rightarrow> string \<Rightarrow> string option" where
  "getStringProperty v k = (case getObjectProperty v k of Some (JStr s) \<Rightarrow> Some s | _ \<Rightarrow> None)"

definition getNumberProperty :: "json \<Rightarrow> string \<Rightarrow> rat option" where
  "getNumberProperty v k = (case getObjectProperty v k of Some (JNum n) \<Rightarrow> Some n | _ \<Rightarrow> None)"

text \<open>\<open>x ?? d\<close>.\<close>

definition or_else :: "'a option \<Rightarrow> 'a \<Rightarrow> 'a" where
  "or_else x d = (case x of None \<Rightarrow> d | Some v \<Rightarrow> v)"

end
