(* ===== verification/IpcServer.thy ===== *)
theory IpcServer
  imports Ndjson Json
begin

section \<open>The socket server of the pool\<close>

text \<open>
  \<open>createIpcServer\<close> and the message guards of \<open>packages/worker-pool/src/ipc.ts\<close>. The server
  keeps one client socket and one parser in variables that all its handlers share; a socket
  is a number, its handlers run as the events of the socket arrive. An \<open>error\<close> that a parser
  emits when its listeners are gone is thrown by \<open>EventEmitter\<close>: \<open>Uncaught\<close>.
\<close>

definition json_type :: "json \<Rightarrow> json option" where
  "json_type v = (case v of JObj fs \<Rightarrow> map_of fs ''type'' | _ \<Rightarrow> None)"

definition hasType :: "json \<Rightarrow> bool" where
  "hasType v \<longleftrightarrow> json_type v \<noteq> None"

definition VALID_WORKER_TYPES :: "string list" where
  "VALID_WORKER_TYPES = [''ready'', ''session'', ''message'', ''complete'', ''error'', ''shutdown_ack'', ''health_ok'']"

definition VALID_PARENT_TYPES :: "string list" where
  "VALID_PARENT_TYPES = [''query'', ''cancel'', ''shutdown'', ''health_check'']"

definition isWorkerMessage :: "json \<Rightarrow> bool" where
  "isWorkerMessage v \<longleftrightarrow> hasType v \<and> json_type v \<in> (\<lambda>t. Some (JStr t)) ` set VALID_WORKER_TYPES"

definition isParentMessage :: "json \<Rightarrow> bool" where
  "isParentMessage v \<longleftrightarrow> hasType v \<and> json_type v \<in> (\<lambda>t. Some (JStr t)) ` set VALID_PARENT_TYPES"

text \<open>No message is taken for both directions.\<close>

lemma guards_disjoint: "\<not> (isWorkerMessage v \<and> isParentMessage v)"
  by (auto simp: isWorkerMessage_def isParentMessage_def VALID_WORKER_TYPES_def VALID_PARENT_TYPES_def)

datatype 'm ipc_event = Connected | Received 'm | IpcError string | Disconnected | Uncaught string

record 'm ipc_server =
  clientSocket :: "nat option"
  destroyed :: "nat list"
  ipc_parser :: "ndjson_parser option"
  listening_parser :: bool
  ipc_log :: "'m ipc_event list"
  ipc_written :: "(nat \<times> string) list"

definition ipc_start :: "'m ipc_server" where
  "ipc_start = \<lparr>clientSocket = None, destroyed = [], ipc_parser = None, listening_parser = False,
     ipc_log = [], ipc_written = []\<rparr>"

text \<open>What the parser emits, as the listeners see it; \<open>None\<close> stands for nothing.\<close>

fun deliver :: "bool \<Rightarrow> 'm nd_event \<Rightarrow> 'm ipc_event option" where
  "deliver True (NdMessage m) = Some (Received m)"
| "deliver True (NdError e) = Some (IpcError e)"
| "deliver False (NdMessage m) = None"
| "deliver False (NdError e) = Some (Uncaught e)"

definition ipc_emit :: "'m nd_event list \<Rightarrow> 'm ipc_server \<Rightarrow> 'm ipc_server" where
  "ipc_emit evs s = s\<lparr>ipc_log := ipc_log s @ List.map_filter (deliver (listening_parser s)) evs\<rparr>"

definition ipc_destroy :: "'m ipc_server \<Rightarrow> 'm ipc_server" where
  "ipc_destroy s =
     (case clientSocket s of
        None \<Rightarrow> s
      | Some j \<Rightarrow> if j \<in> set (destroyed s) then s else s\<lparr>destroyed := destroyed s @ [j]\<rparr>)"

definition ipc_flush :: "(string \<Rightarrow> 'm option) \<Rightarrow> 'm ipc_server \<Rightarrow> 'm ipc_server" where
  "ipc_flush parse s =
     (case ipc_parser s of
        None \<Rightarrow> s
      | Some p \<Rightarrow> let (p', evs) = nd_flush parse p in ipc_emit evs (s\<lparr>ipc_parser := Some p'\<rparr>))"

definition ipc_connect :: "(string \<Rightarrow> 'm option) \<Rightarrow> nat \<Rightarrow> 'm ipc_server \<Rightarrow> 'm ipc_server" where
  "ipc_connect parse i s =
     (let s1 = ipc_flush parse (ipc_destroy s) in
      s1\<lparr>clientSocket := Some i, ipc_parser := Some (new_parser MAX_BUFFER_SIZE), listening_parser := True,
         ipc_log := ipc_log s1 @ [Connected]\<rparr>)"

text \<open>A chunk of a socket goes to whatever parser is current; \<open>None\<close>: the handler never returns.\<close>

definition ipc_data :: "(string \<Rightarrow> 'm option) \<Rightarrow> nat \<Rightarrow> string \<Rightarrow> 'm ipc_server \<Rightarrow> 'm ipc_server option" where
  "ipc_data parse i chunk s =
     (if i \<in> set (destroyed s) then Some s
      else case ipc_parser s of
             None \<Rightarrow> Some s
           | Some p \<Rightarrow>
               map_option (\<lambda>(p', evs). ipc_emit evs (s\<lparr>ipc_parser := Some p'\<rparr>)) (nd_write parse chunk p))"

text \<open>The \<open>close\<close> event of a socket; an error thrown by the flush skips \<open>onDisconnect\<close>.\<close>

definition ipc_socketClosed :: "(string \<Rightarrow> 'm option) \<Rightarrow> nat \<Rightarrow> 'm ipc_server \<Rightarrow> 'm ipc_server" where
  "ipc_socketClosed parse i s =
     (let s1 = ipc_flush parse (s\<lparr>clientSocket := None\<rparr>) in
      if \<exists>e\<in>set (drop (length (ipc_log s)) (ipc_log s1)). \<exists>t. e = Uncaught t then s1
      else s1\<lparr>ipc_log := ipc_log s1 @ [Disconnected]\<rparr>)"

definition ipc_sendMessage :: "string \<Rightarrow> 'm ipc_server \<Rightarrow> 'm ipc_server" where
  "ipc_sendMessage txt s =
     (case clientSocket s of
        None \<Rightarrow> s
      | Some i \<Rightarrow> if i \<in> set (destroyed s) then s
                 else s\<lparr>ipc_written := ipc_written s @ [(i, txt @ [newline])]\<rparr>)"

definition ipc_close :: "'m ipc_server \<Rightarrow> 'm ipc_server" where
  "ipc_close s = (ipc_destroy s)\<lparr>listening_parser := False\<rparr>"

subsection \<open>Properties\<close>

lemma ipc_flush_keeps [simp]:
  "clientSocket (ipc_flush parse s) = clientSocket s" "destroyed (ipc_flush parse s) = destroyed s"
  "ipc_written (ipc_flush parse s) = ipc_written s" "listening_parser (ipc_flush parse s) = listening_parser s"
  by (auto simp: ipc_flush_def ipc_emit_def split: option.splits prod.splits)

lemma ipc_destroy_keeps [simp]:
  "clientSocket (ipc_destroy s) = clientSocket s" "ipc_parser (ipc_destroy s) = ipc_parser s"
  "ipc_written (ipc_destroy s) = ipc_written s" "ipc_log (ipc_destroy s) = ipc_log s"
  by (auto simp: ipc_destroy_def split: option.splits)

lemma ipc_flush_empty: "ipc_parser s = Some p \<Longrightarrow> nd_buffer p = [] \<Longrightarrow> ipc_flush parse s = s"
  by (cases p) (simp add: ipc_flush_def nd_flush_def ipc_emit_def List.map_filter_def Let_def)

text \<open>
  A reconnecting worker silences the server. The new connection destroys the old socket,
  whose \<open>close\<close> event arrives afterwards and clears the variable that by then holds the new
  socket: the pool is told that its worker disconnected, and every message it sends from
  then on is dropped although the new socket is open.
\<close>

theorem ipc_reconnect_mutes_server:
  fixes parse :: "string \<Rightarrow> 'm option"
  assumes "clientSocket s = Some i" and "j \<noteq> i" and "j \<notin> set (destroyed s)"
  defines "t \<equiv> ipc_socketClosed parse i (ipc_connect parse j s)"
  shows "j \<notin> set (destroyed t) \<and> ipc_sendMessage txt t = t \<and>
    (\<exists>evs. ipc_log t = ipc_log s @ evs @ [Connected, Disconnected])"
proof -
  let ?c = "ipc_connect parse j s"
  have c: "ipc_parser ?c = Some (new_parser MAX_BUFFER_SIZE)" by (simp add: ipc_connect_def Let_def)
  have f: "ipc_flush parse (?c\<lparr>clientSocket := None\<rparr>) = ?c\<lparr>clientSocket := None\<rparr>"
    by (rule ipc_flush_empty [of _ "new_parser MAX_BUFFER_SIZE"]) (simp_all add: c new_parser_def)
  have "\<exists>evs. ipc_log ?c = ipc_log s @ evs @ [Connected]"
    by (simp add: ipc_connect_def Let_def ipc_flush_def ipc_emit_def split: option.splits prod.splits)
  moreover have "j \<notin> set (destroyed ?c)"
    using assms(1-3) by (simp add: ipc_connect_def Let_def ipc_destroy_def)
  ultimately show ?thesis
    by (auto simp: t_def ipc_socketClosed_def f Let_def ipc_sendMessage_def)
qed

theorem ipc_reconnect_mutes_server_witness:
  "ipc_sendMessage ''{}'' (ipc_socketClosed (\<lambda>s. Some s) 0
     (ipc_connect (\<lambda>s. Some s) 1 (ipc_connect (\<lambda>s. Some s) 0 ipc_start)))
   = ipc_socketClosed (\<lambda>s. Some s) 0 (ipc_connect (\<lambda>s. Some s) 1 (ipc_connect (\<lambda>s. Some s) 0 ipc_start))"
  using ipc_reconnect_mutes_server [of "ipc_connect (\<lambda>s. Some s) 0 ipc_start" 0 1 "\<lambda>s. Some s" "''{}''"]
  by (simp add: ipc_connect_def ipc_start_def ipc_destroy_def Let_def)

text \<open>
  Closing the server while half a message is buffered throws: \<open>close\<close> removes the parser's
  listeners before the socket's \<open>close\<close> event flushes the parser, so the \<open>error\<close> of the
  unparseable rest has no listener and escapes to the event loop of the pool's process.
\<close>

theorem ipc_close_throws:
  assumes "ipc_parser s = Some p" and "utf8_trim (nd_buffer p) \<noteq> []" and "parse (utf8_trim (nd_buffer p)) = None"
  shows "\<exists>e. ipc_log (ipc_socketClosed parse i (ipc_close s)) = ipc_log s @ [Uncaught e]"
  using assms
  by (auto simp: ipc_socketClosed_def ipc_close_def ipc_flush_def nd_flush_def Let_def ipc_emit_def nd_parse_def
      List.map_filter_def)

lemma brace_is_not_blank: "utf8_trim ''{'' = ''{''"
  by code_simp

theorem ipc_close_throws_witness:
  "\<exists>e. ipc_log (ipc_socketClosed (\<lambda>s. None :: nat option) 0 (ipc_close
      (\<lparr>clientSocket = Some 0, destroyed = [], ipc_parser = Some \<lparr>nd_buffer = ''{'', nd_maxBufferSize = 9\<rparr>,
        listening_parser = True, ipc_log = [], ipc_written = []\<rparr>))) = [Uncaught e]"
  using ipc_close_throws [of "\<lparr>clientSocket = Some 0, destroyed = [],
      ipc_parser = Some \<lparr>nd_buffer = ''{'', nd_maxBufferSize = 9\<rparr>,
      listening_parser = True, ipc_log = [], ipc_written = []\<rparr>" _ "\<lambda>s. None" 0]
  by (simp add: brace_is_not_blank)

end
