(* ===== verification/StreamBuffer.thy ===== *)
theory StreamBuffer
  imports Prelude
begin

section \<open>The reconnect buffer of a stream\<close>

text \<open>
  \<open>apps/web/lib/stream/stream-buffer.ts\<close>: the messages of a running stream are appended to a
  Redis entry, from which a reconnecting tab reads what it has not seen. Redis is a store of
  entries with an expiry time in milliseconds (\<open>GET\<close>, \<open>TTL\<close>, \<open>SETEX\<close> and \<open>DEL\<close> as documented);
  a Lua script is one atomic step. \<open>online\<close> says whether \<open>getRedis\<close> returned a client. JSON
  encoding and decoding of an entry are the identity.
\<close>

subsection \<open>Redis\<close>

type_synonym 'v redis_map = "(string, 'v \<times> int) jsmap"

definition redis_get :: "int \<Rightarrow> string \<Rightarrow> 'v redis_map \<Rightarrow> 'v option" where
  "redis_get now k m =
     (case jget m k of None \<Rightarrow> None | Some (v, expiry) \<Rightarrow> if now < expiry then Some v else None)"

text \<open>\<open>TTL\<close> in seconds, rounded to the nearest; \<open>-2\<close> when the key does not exist.\<close>

definition redis_ttl :: "int \<Rightarrow> string \<Rightarrow> 'v redis_map \<Rightarrow> int" where
  "redis_ttl now k m =
     (case jget m k of
        None \<Rightarrow> -2
      | Some (v, expiry) \<Rightarrow> if now < expiry then (expiry - now + 500) div 1000 else -2)"

definition redis_setex :: "int \<Rightarrow> string \<Rightarrow> int \<Rightarrow> 'v \<Rightarrow> 'v redis_map \<Rightarrow> 'v redis_map" where
  "redis_setex now k seconds v m = jset k (v, now + seconds * 1000) m"

definition redis_del :: "string \<Rightarrow> 'v redis_map \<Rightarrow> 'v redis_map" where
  "redis_del k m = jdel k m"

lemma redis_ttl_get: "redis_ttl now k m > 0 \<Longrightarrow> \<exists>v. redis_get now k m = Some v"
  by (auto simp: redis_ttl_def redis_get_def split: option.splits if_splits)

lemma redis_get_setex [simp]:
  "redis_get now k (redis_setex now' k' seconds v m) =
     (if k = k' then if now < now' + seconds * 1000 then Some v else None else redis_get now k m)"
  by (simp add: redis_get_def redis_setex_def)

lemma redis_get_del [simp]: "redis_get now k (redis_del k' m) = (if k = k' then None else redis_get now k m)"
  by (simp add: redis_get_def redis_del_def)

subsection \<open>Entries\<close>

datatype entry_state = SbStreaming | SbComplete | SbError

text \<open>A buffered message is a table with a sequence number or, in old buffers, a plain line.\<close>

datatype buffered_message = SeqMessage "int option" string | LegacyLine string

record stream_buffer_entry =
  sb_requestId :: string
  sb_tabKey :: string
  sb_userId :: string
  sb_tabId :: "string option"
  sb_state :: entry_state
  sb_messages :: "buffered_message list"
  sb_startedAt :: int
  sb_lastMessageAt :: int
  sb_completedAt :: "int option"
  sb_error :: "string option"
  sb_lastReadSeq :: "int option"
  sb_lastReadIndex :: "int option"

record buffer_store =
  bs_entries :: "stream_buffer_entry redis_map"
  bs_tabs :: "string redis_map"

definition BUFFER_TTL_SECONDS :: int where
  "BUFFER_TTL_SECONDS = 30 * 60"

definition MAX_BUFFERED_MESSAGES :: nat where
  "MAX_BUFFERED_MESSAGES = 1000"

definition STALE_STREAM_THRESHOLD_MS :: int where
  "STALE_STREAM_THRESHOLD_MS = 5 * 60 * 1000"

subsection \<open>Operations\<close>

definition createStreamBuffer ::
  "bool \<Rightarrow> int \<Rightarrow> string \<Rightarrow> string \<Rightarrow> string \<Rightarrow> string option \<Rightarrow> buffer_store \<Rightarrow> buffer_store" where
  "createStreamBuffer online now requestId tabKey userId tabId s =
     (if \<not> online then s
      else let e = \<lparr>sb_requestId = requestId, sb_tabKey = tabKey, sb_userId = userId, sb_tabId = tabId,
                    sb_state = SbStreaming, sb_messages = [], sb_startedAt = now, sb_lastMessageAt = now,
                    sb_completedAt = None, sb_error = None, sb_lastReadSeq = Some 0, sb_lastReadIndex = None\<rparr>
           in s\<lparr>bs_entries := redis_setex now requestId BUFFER_TTL_SECONDS e (bs_entries s),
                bs_tabs := redis_setex now tabKey BUFFER_TTL_SECONDS requestId (bs_tabs s)\<rparr>)"

text \<open>Writing a script's result back keeps the remaining time to live.\<close>

definition persist :: "int \<Rightarrow> string \<Rightarrow> stream_buffer_entry \<Rightarrow> buffer_store \<Rightarrow> buffer_store" where
  "persist now requestId e s =
     (let ttl = redis_ttl now requestId (bs_entries s) in
      if ttl > 0 then s\<lparr>bs_entries := redis_setex now requestId ttl e (bs_entries s)\<rparr> else s)"

definition APPEND_SCRIPT ::
  "int \<Rightarrow> string \<Rightarrow> int option \<Rightarrow> nat \<Rightarrow> string \<Rightarrow> buffer_store \<Rightarrow> int \<times> buffer_store" where
  "APPEND_SCRIPT now requestId seq limit message s =
     (case redis_get now requestId (bs_entries s) of
        None \<Rightarrow> (-1, s)
      | Some e \<Rightarrow>
          (case seq of
             None \<Rightarrow> (-2, s)
           | Some q \<Rightarrow>
               if length (sb_messages e) \<ge> limit then (0, s)
               else (1, persist now requestId
                       (e\<lparr>sb_messages := sb_messages e @ [SeqMessage (Some q) message], sb_lastMessageAt := now\<rparr>) s)))"

definition appendToStreamBuffer ::
  "bool \<Rightarrow> int \<Rightarrow> string \<Rightarrow> string \<Rightarrow> int option \<Rightarrow> buffer_store \<Rightarrow> bool \<times> buffer_store" where
  "appendToStreamBuffer online now requestId message streamSeq s =
     (if \<not> online then (False, s)
      else let (result, t) = APPEND_SCRIPT now requestId streamSeq MAX_BUFFERED_MESSAGES message s in
        if result = -1 then (False, t) else if result = 0 then (False, t)
        else if result = -2 then (False, t) else (True, t))"

text \<open>
  \<open>completeStreamBuffer\<close> reads the entry in one round trip and writes it in another; other
  clients can act in between.
\<close>

definition completeRead :: "bool \<Rightarrow> int \<Rightarrow> string \<Rightarrow> buffer_store \<Rightarrow> stream_buffer_entry option" where
  "completeRead online now requestId s = (if \<not> online then None else redis_get now requestId (bs_entries s))"

definition completeWrite :: "int \<Rightarrow> string \<Rightarrow> stream_buffer_entry option \<Rightarrow> buffer_store \<Rightarrow> buffer_store" where
  "completeWrite now requestId raw s =
     (case raw of
        None \<Rightarrow> s
      | Some e \<Rightarrow> s\<lparr>bs_entries := redis_setex now requestId BUFFER_TTL_SECONDS
          (e\<lparr>sb_state := SbComplete, sb_completedAt := Some now\<rparr>) (bs_entries s)\<rparr>)"

definition completeStreamBuffer :: "bool \<Rightarrow> int \<Rightarrow> string \<Rightarrow> buffer_store \<Rightarrow> buffer_store" where
  "completeStreamBuffer online now requestId s = completeWrite now requestId (completeRead online now requestId s) s"

text \<open>\<open>errorStreamBuffer\<close> asks for the time to live between its read and its write; \<open>replied\<close> is the time of the read's reply.\<close>

definition errorRead :: "bool \<Rightarrow> int \<Rightarrow> string \<Rightarrow> buffer_store \<Rightarrow> stream_buffer_entry option" where
  "errorRead online now requestId s = (if \<not> online then None else redis_get now requestId (bs_entries s))"

definition errorWrite :: "int \<Rightarrow> string \<Rightarrow> string \<Rightarrow> int \<Rightarrow> stream_buffer_entry \<Rightarrow> int \<Rightarrow> buffer_store \<Rightarrow> buffer_store" where
  "errorWrite now requestId problem replied e ttl s =
     (if ttl > 0
      then s\<lparr>bs_entries := redis_setex now requestId ttl
          (e\<lparr>sb_state := SbError, sb_error := Some problem, sb_completedAt := Some replied\<rparr>) (bs_entries s)\<rparr>
      else s)"

definition errorStreamBuffer :: "bool \<Rightarrow> int \<Rightarrow> string \<Rightarrow> string \<Rightarrow> buffer_store \<Rightarrow> buffer_store" where
  "errorStreamBuffer online now requestId problem s =
     (case errorRead online now requestId s of
        None \<Rightarrow> s
      | Some e \<Rightarrow> errorWrite now requestId problem now e (redis_ttl now requestId (bs_entries s)) s)"

definition getStreamBuffer :: "bool \<Rightarrow> int \<Rightarrow> string \<Rightarrow> buffer_store \<Rightarrow> stream_buffer_entry option" where
  "getStreamBuffer online now requestId s = (if \<not> online then None else redis_get now requestId (bs_entries s))"

definition findStreamBufferByTab :: "bool \<Rightarrow> int \<Rightarrow> string \<Rightarrow> buffer_store \<Rightarrow> string option" where
  "findStreamBufferByTab online now tabKey s = (if \<not> online then None else redis_get now tabKey (bs_tabs s))"

text \<open>The cursor of an entry, with the fallback for old buffers.\<close>

definition cursor_of :: "stream_buffer_entry \<Rightarrow> int" where
  "cursor_of e =
     (case sb_lastReadSeq e of Some n \<Rightarrow> n
      | None \<Rightarrow> (case sb_lastReadIndex e of Some n \<Rightarrow> n | None \<Rightarrow> 0))"

text \<open>The loop over the messages: \<open>i\<close> counts from 1; returned are the unread lines and the last sequence.\<close>

fun message_seq :: "int \<Rightarrow> buffered_message \<Rightarrow> int \<times> string" where
  "message_seq i (SeqMessage seq line) = (case seq of Some q \<Rightarrow> q | None \<Rightarrow> 0, line)"
| "message_seq i (LegacyLine line) = (i, line)"

fun collect_unread :: "int \<Rightarrow> int \<Rightarrow> int \<Rightarrow> buffered_message list \<Rightarrow> string list \<times> int" where
  "collect_unread cursor i lastReturned [] = ([], lastReturned)"
| "collect_unread cursor i lastReturned (m # ms) =
     (let (seq, line) = message_seq i m in
      if seq > cursor
      then let (ls, r) = collect_unread cursor (i + 1) (if seq > lastReturned then seq else lastReturned) ms
           in (line # ls, r)
      else collect_unread cursor (i + 1) lastReturned ms)"

datatype unread_reply = Unauthorized | Unread "string list" entry_state "string option" int

definition GET_UNREAD_SCRIPT ::
  "int \<Rightarrow> string \<Rightarrow> string \<Rightarrow> int option \<Rightarrow> buffer_store \<Rightarrow> unread_reply option \<times> buffer_store" where
  "GET_UNREAD_SCRIPT now requestId userId afterSeq s =
     (case redis_get now requestId (bs_entries s) of
        None \<Rightarrow> (None, s)
      | Some e \<Rightarrow>
          if sb_userId e \<noteq> userId then (Some Unauthorized, s)
          else let c0 = cursor_of e;
                   advanced = (case afterSeq of Some a \<Rightarrow> a > c0 | None \<Rightarrow> False);
                   c1 = (case afterSeq of Some a \<Rightarrow> if a > c0 then a else c0 | None \<Rightarrow> c0);
                   (unread, lastReturned) = collect_unread c1 1 c1 (sb_messages e);
                   c2 = (if lastReturned > c1 then lastReturned else c1)
               in if advanced \<or> unread \<noteq> []
                  then (Some (Unread unread (sb_state e) (sb_error e) c2),
                        persist now requestId (e\<lparr>sb_lastReadSeq := Some c2\<rparr>) s)
                  else (Some (Unread unread (sb_state e) (sb_error e) c1), s))"

definition getUnreadMessages ::
  "bool \<Rightarrow> int \<Rightarrow> string \<Rightarrow> string \<Rightarrow> int option \<Rightarrow> buffer_store \<Rightarrow> unread_reply option \<times> buffer_store" where
  "getUnreadMessages online now requestId userId afterSeq s =
     (if \<not> online then (None, s)
      else let (r, t) = GET_UNREAD_SCRIPT now requestId userId
                          (Some (case afterSeq of Some a \<Rightarrow> a | None \<Rightarrow> -1)) s
           in (case r of Some Unauthorized \<Rightarrow> None | _ \<Rightarrow> r, t))"


definition deleteStreamBuffer :: "bool \<Rightarrow> int \<Rightarrow> string \<Rightarrow> buffer_store \<Rightarrow> buffer_store" where
  "deleteStreamBuffer online now requestId s =
     (if \<not> online then s
      else let s1 = (case redis_get now requestId (bs_entries s) of
                       None \<Rightarrow> s
                     | Some e \<Rightarrow> s\<lparr>bs_tabs := redis_del (sb_tabKey e) (bs_tabs s)\<rparr>)
           in s1\<lparr>bs_entries := redis_del requestId (bs_entries s1)\<rparr>)"

text \<open>\<open>lastMessageAt || startedAt\<close>: a zero counts as missing.\<close>

definition hasActiveStream ::
  "bool \<Rightarrow> int \<Rightarrow> string \<Rightarrow> buffer_store \<Rightarrow> (entry_state \<times> string) option \<times> buffer_store" where
  "hasActiveStream online now tabKey s =
     (case findStreamBufferByTab online now tabKey s of
        None \<Rightarrow> (None, s)
      | Some requestId \<Rightarrow>
          if requestId = [] then (None, s)
          else case getStreamBuffer online now requestId s of
                 None \<Rightarrow> (None, s)
               | Some e \<Rightarrow>
                   let lastActivity = (if sb_lastMessageAt e \<noteq> 0 then sb_lastMessageAt e else sb_startedAt e) in
                   if sb_state e = SbStreaming \<and> now - lastActivity > STALE_STREAM_THRESHOLD_MS
                   then (Some (SbComplete, requestId), completeStreamBuffer online now requestId s)
                   else (Some (sb_state e, requestId), s))"

subsection \<open>Delivery\<close>


definition entry_of :: "string \<Rightarrow> buffer_store \<Rightarrow> stream_buffer_entry option" where
  "entry_of requestId s = map_option fst (jget (bs_entries s) requestId)"


lemma get_entry: "redis_get now r (bs_entries s) = Some e \<Longrightarrow> entry_of r s = Some e"
  by (auto simp: entry_of_def redis_get_def split: option.splits if_splits)























subsection \<open>A concrete history\<close>

definition sb_created :: buffer_store where
  "sb_created = createStreamBuffer True 0 ''r'' ''tab'' ''u'' None \<lparr>bs_entries = [], bs_tabs = []\<rparr>"

definition sb_one :: buffer_store where
  "sb_one = snd (appendToStreamBuffer True 10 ''r'' ''m1'' (Some 1) sb_created)"

definition sb_read :: buffer_store where
  "sb_read = snd (getUnreadMessages True 20 ''r'' ''u'' None sb_one)"

definition sb_two :: buffer_store where
  "sb_two = snd (appendToStreamBuffer True 30 ''r'' ''m2'' (Some 2) sb_read)"



subsection \<open>Two ways to lose messages\<close>

text \<open>
  Completing a buffer is not atomic: whatever is done to the live entry between its read
  and its write is undone by the write. An append in between is reported as successful and
  its message is gone; a read in between is forgotten and its lines are delivered again.
\<close>

theorem complete_loses_updates:
  assumes "completeRead True now r s = Some e" and "now' < now + BUFFER_TTL_SECONDS * 1000"
  shows "getStreamBuffer True now' r (completeWrite now r (completeRead True now r s) t) =
    Some (e\<lparr>sb_state := SbComplete, sb_completedAt := Some now\<rparr>)"
  using assms by (simp add: getStreamBuffer_def completeWrite_def)

theorem complete_loses_updates_witness:
  "fst (appendToStreamBuffer True 10 ''r'' ''m1'' (Some 1) sb_created) \<and>
   map_option sb_messages (getStreamBuffer True 20 ''r'' (completeWrite 5 ''r'' (completeRead True 5 ''r'' sb_created) sb_one))
     = Some []"
proof -
  obtain e where e: "completeRead True 5 ''r'' sb_created = Some e" "sb_messages e = []"
    by (simp add: completeRead_def sb_created_def createStreamBuffer_def BUFFER_TTL_SECONDS_def Let_def)
  have "fst (appendToStreamBuffer True 10 ''r'' ''m1'' (Some 1) sb_created)" by code_simp
  then show ?thesis
    using complete_loses_updates [OF e(1), of 20 sb_one] e(2) by (simp add: BUFFER_TTL_SECONDS_def)
qed

text \<open>
  Deleting the buffer of an old request cuts the tab off from its running one: the tab
  lookup is removed without checking that it still points to the deleted request, so after a
  new stream of the same tab has started, \<open>hasActiveStream\<close> no longer finds it.
\<close>

theorem delete_forgets_newer_stream:
  assumes "getStreamBuffer True now old s = Some e" and "sb_tabKey e = tab" and "old \<noteq> new"
  shows "let t = deleteStreamBuffer True now old (createStreamBuffer True now new tab u tabId s)
    in getStreamBuffer True now new t \<noteq> None \<and> hasActiveStream True now' tab t = (None, t)"
  using assms
  by (simp add: getStreamBuffer_def deleteStreamBuffer_def createStreamBuffer_def Let_def hasActiveStream_def
      findStreamBufferByTab_def BUFFER_TTL_SECONDS_def)

theorem delete_forgets_newer_stream_witness:
  "let t = deleteStreamBuffer True 50 ''r'' (createStreamBuffer True 50 ''new'' ''tab'' ''u'' None sb_two)
    in getStreamBuffer True 50 ''new'' t \<noteq> None \<and> hasActiveStream True 60 ''tab'' t = (None, t)"
proof -
  have "map_option sb_tabKey (getStreamBuffer True 50 ''r'' sb_two) = Some ''tab''" by code_simp
  then obtain e where e: "getStreamBuffer True 50 ''r'' sb_two = Some e" "sb_tabKey e = ''tab''" by auto
  from delete_forgets_newer_stream [OF e, of "''new''" "''u''" None 60] show ?thesis by simp
qed

end
