(* ===== verification/Scheduler.thy ===== *)
theory Scheduler
  imports Prelude Complex_Main
begin

section \<open>Schedules\<close>

text \<open>
  \<open>computeNextRunAtMs\<close> of \<open>packages/automation/src/scheduler.ts\<close> and the execution gate of
  \<open>packages/shared/src/execution-guard.ts\<close>. The cron library is a parameter: the next run of
  an expression in a time zone after a time, \<open>None\<close> when there is none or it throws. Times
  are integer milliseconds, the configured interval and anchor may be fractional.
\<close>

datatype schedule = ScheduleAt int | ScheduleEvery rat "rat option" | ScheduleCron string "string option"

type_synonym cron_library = "string \<Rightarrow> string option \<Rightarrow> int \<Rightarrow> int option"

definition trim_tz :: "string option \<Rightarrow> string option" where
  "trim_tz tz = (case tz of None \<Rightarrow> None | Some z \<Rightarrow> if trim z = [] then None else Some (trim z))"

definition computeNextRunAtMs :: "cron_library \<Rightarrow> schedule \<Rightarrow> int \<Rightarrow> int option" where
  "computeNextRunAtMs cron s nowMs =
     (case s of
        ScheduleAt atMs \<Rightarrow> if atMs > nowMs then Some atMs else None
      | ScheduleEvery every anchorMs \<Rightarrow>
          (let everyMs = max 1 \<lfloor>every\<rfloor>;
               anchor = max 0 (case anchorMs of None \<Rightarrow> nowMs | Some a \<Rightarrow> \<lfloor>a\<rfloor>)
           in if nowMs < anchor then Some anchor
              else let elapsed = nowMs - anchor;
                       steps = max 1 ((elapsed + everyMs - 1) div everyMs)
                   in Some (anchor + steps * everyMs))
      | ScheduleCron expr0 tz \<Rightarrow>
          (let expr = trim expr0 in if expr = [] then None else cron expr (trim_tz tz) nowMs))"

text \<open>\<open>getAutomationExecutionGate\<close>: the reason is the error text.\<close>

definition getAutomationExecutionGate :: "string option \<Rightarrow> bool \<Rightarrow> bool \<times> string" where
  "getAutomationExecutionGate aliveEnv isAutomationPrimary =
     (if aliveEnv \<noteq> Some ''production''
      then (False, ''ALIVE_ENV must be production (got '' @ (case aliveEnv of None \<Rightarrow> ''unset'' | Some e \<Rightarrow> e) @ '')'')
      else if \<not> isAutomationPrimary
      then (False, ''Automations are disabled on this server (automationPrimary is not set)'')
      else (True, ''ok''))"

text \<open>The least multiple of \<open>e\<close> that is at least \<open>x\<close>.\<close>

lemma ceil_multiple:
  fixes x e :: int
  assumes "1 \<le> e"
  shows "x \<le> (x + e - 1) div e * e \<and> (x + e - 1) div e * e < x + e"
proof -
  have "(x + e - 1) div e * e = x + e - 1 - (x + e - 1) mod e"
    by (simp add: minus_mod_eq_div_mult)
  moreover have "0 \<le> (x + e - 1) mod e" "(x + e - 1) mod e < e" using assms by simp_all
  ultimately show ?thesis by linarith
qed

text \<open>
  Interval schedules: the next run lies on the grid of the anchor, one interval or less
  after now, never in the past. It is later than now except when now is itself a grid point
  after the anchor: then the job is due again at once.
\<close>

theorem every_next_run:
  assumes "anchor = max 0 (case anchorMs of None \<Rightarrow> now | Some a \<Rightarrow> \<lfloor>a\<rfloor>)" and "e = max 1 \<lfloor>every\<rfloor>"
  shows "\<exists>t k. computeNextRunAtMs cron (ScheduleEvery every anchorMs) now = Some t \<and> t = anchor + k * e \<and> 0 \<le> k \<and>
    now \<le> t \<and> (now \<ge> anchor \<longrightarrow> t \<le> now + e) \<and> (t = now \<longleftrightarrow> now > anchor \<and> e dvd (now - anchor))"
proof -
  have e: "1 \<le> e" using assms(2) by simp
  let ?q = "(now - anchor + e - 1) div e"
  have q: "now - anchor \<le> ?q * e" "?q * e < now - anchor + e" using ceil_multiple [OF e, of "now - anchor"] by simp_all
  consider (before) "now < anchor" | (at) "now = anchor" | (after) "now > anchor" by linarith
  then show ?thesis
  proof cases
    case before
    then have "computeNextRunAtMs cron (ScheduleEvery every anchorMs) now = Some anchor"
      using assms by (simp add: computeNextRunAtMs_def Let_def)
    then show ?thesis using before by (intro exI [of _ anchor] exI [of _ 0]) simp
  next
    case at
    have "(e - 1) div e = 0" using e by simp
    then have "computeNextRunAtMs cron (ScheduleEvery every anchorMs) now = Some (anchor + 1 * e)"
      using assms at by (simp add: computeNextRunAtMs_def Let_def)
    then show ?thesis using at e by (intro exI [of _ "anchor + 1 * e"] exI [of _ 1]) simp
  next
    case after
    have "?q * e > 0" using q(1) after by linarith
    then have q1: "?q \<ge> 1" using e by (metis int_one_le_iff_zero_less le_less_linear mult_nonpos_nonneg not_less order_trans zero_le_one)
    then have c: "computeNextRunAtMs cron (ScheduleEvery every anchorMs) now = Some (anchor + ?q * e)"
    proof -
      have "computeNextRunAtMs cron (ScheduleEvery every anchorMs) now =
          (if now < anchor then Some anchor else Some (anchor + max 1 ?q * e))"
        unfolding assms by (simp add: computeNextRunAtMs_def Let_def)
      also have "\<dots> = Some (anchor + ?q * e)" using after q1 by (simp only: max_absorb2) simp
      finally show ?thesis .
    qed
    have "?q * e = now - anchor \<longleftrightarrow> e dvd (now - anchor)"
    proof
      assume "?q * e = now - anchor"
      then show "e dvd (now - anchor)" by (metis dvd_triv_right)
    next
      assume "e dvd (now - anchor)"
      then obtain m where m: "now - anchor = m * e" by (metis dvdE mult.commute)
      then have "m * e \<le> ?q * e" "?q * e < (m + 1) * e" using q by (simp_all add: algebra_simps)
      then have "m \<le> ?q" "?q < m + 1" using e by simp_all
      then show "?q * e = now - anchor" using m by simp
    qed
    then show ?thesis using c q q1 after by (intro exI [of _ "anchor + ?q * e"] exI [of _ ?q]) auto
  qed
qed

theorem every_next_run_witness:
  "\<exists>t k. computeNextRunAtMs (\<lambda>_ _ _. None) (ScheduleEvery 10 (Some 100)) 120 = Some t \<and> t = 100 + k * 10 \<and> (0 :: int) \<le> k \<and>
    120 \<le> t \<and> ((120 :: int) \<ge> 100 \<longrightarrow> t \<le> 120 + 10) \<and> (t = 120 \<longleftrightarrow> (120 :: int) > 100 \<and> (10 :: int) dvd (120 - 100))"
  by (rule every_next_run) simp_all

end
