(* ===== verification/Engine.thy ===== *)
theory Engine
  imports Scheduler
begin

section \<open>The automation engine\<close>

text \<open>
  \<open>packages/automation-engine/src/engine.ts\<close> (claim, heartbeat, finish) with the database
  operations of \<open>apps/worker/src/cron-service.ts\<close> (due jobs, stale reaping). The table
  \<open>automation_jobs\<close> is a map from job ids to rows; one \<open>update\<close> statement is one atomic
  step on it, refused as a whole when it would break a constraint
  of the schema. \<open>randomUUID\<close> draws fresh numbers. Clock,
  random numbers, the cron library and the site table are inputs.
\<close>

subsection \<open>Jobs\<close>

datatype trigger_type = TCron | TOneTime | TWebhook | TEmail
datatype job_status = Idle | Running | Paused | Disabled
datatype run_status = RunSuccess | RunFailure | RunSkipped

record automation_job =
  aj_site_id :: string
  aj_user_id :: string
  aj_trigger_type :: trigger_type
  aj_cron_schedule :: "string option"
  aj_cron_timezone :: "string option"
  aj_run_at :: "int option"
  aj_action_type :: string
  aj_action_prompt :: "string option"
  aj_action_timeout_seconds :: "int option"
  aj_is_active :: bool
  aj_status :: job_status
  aj_running_at :: "int option"
  aj_run_id :: "nat option"
  aj_claimed_by :: "string option"
  aj_lease_expires_at :: "int option"
  aj_last_run_at :: "int option"
  aj_last_run_status :: "run_status option"
  aj_last_run_error :: "string option"
  aj_last_run_duration_ms :: "int option"
  aj_next_run_at :: "int option"
  aj_consecutive_failures :: "int option"

type_synonym job_table = "(string, automation_job) jsmap"

record run_context =
  rc_jobId :: string
  rc_job :: automation_job
  rc_hostname :: string
  rc_runId :: nat
  rc_claimedAt :: int
  rc_serverId :: string
  rc_timeoutSeconds :: int

text \<open>\<open>claims\<close> are the calls of \<open>claimJob\<close> that have written their claim and not yet resolved the site.\<close>

record engine_state =
  es_jobs :: job_table
  es_uuid :: nat
  es_claims :: "run_context list"
  es_contexts :: "run_context list"
  es_runs :: "(nat \<times> string \<times> run_status) list"

type_synonym site_table = "string \<Rightarrow> (string \<times> string) option"

definition LEASE_BUFFER_SECONDS :: int where
  "LEASE_BUFFER_SECONDS = 120"

subsection \<open>Database statements\<close>

definition schema_check :: "automation_job \<Rightarrow> bool" where
  "schema_check j \<longleftrightarrow>
     (aj_trigger_type j \<noteq> TOneTime \<or> aj_run_at j \<noteq> None) \<and>
     (aj_action_type j \<noteq> ''prompt'' \<or> aj_action_prompt j \<noteq> None)"

definition row_check :: "automation_job \<Rightarrow> bool" where
  "row_check j \<longleftrightarrow>
     (aj_trigger_type j \<noteq> TCron \<or> aj_cron_schedule j \<noteq> None) \<and>
     (aj_trigger_type j = TCron \<or> aj_cron_schedule j = None) \<and>
     (\<forall>n\<in>set_option (aj_action_timeout_seconds j). 10 \<le> n \<and> n \<le> 3600) \<and>
     ((aj_status j = Running \<and> aj_running_at j \<noteq> None) \<or>
      (aj_status j \<noteq> Running \<and> aj_running_at j = None)) \<and>
     schema_check j"

text \<open>\<open>update ... where id = k and p\<close>: the row count (an error counts as none) and the new table.\<close>

definition db_update ::
  "string \<Rightarrow> (automation_job \<Rightarrow> bool) \<Rightarrow> (automation_job \<Rightarrow> automation_job) \<Rightarrow> job_table \<Rightarrow> nat \<times> job_table" where
  "db_update k p f t =
     (case jget t k of
        None \<Rightarrow> (0, t)
      | Some j \<Rightarrow> if p j \<and> row_check (f j) then (1, jset k (f j) t) else (0, t))"

definition released :: "automation_job \<Rightarrow> automation_job" where
  "released j = j\<lparr>aj_status := Idle, aj_running_at := None, aj_run_id := None, aj_claimed_by := None,
     aj_lease_expires_at := None\<rparr>"

definition claimed :: "int \<Rightarrow> nat \<Rightarrow> string \<Rightarrow> int \<Rightarrow> automation_job \<Rightarrow> automation_job" where
  "claimed now runId serverId expiry j = j\<lparr>aj_status := Running, aj_running_at := Some now, aj_run_id := Some runId,
     aj_claimed_by := Some serverId, aj_lease_expires_at := Some expiry\<rparr>"

definition timeout_of :: "automation_job \<Rightarrow> int" where
  "timeout_of j = (case aj_action_timeout_seconds j of None \<Rightarrow> 300 | Some n \<Rightarrow> n)"

subsection \<open>Claiming\<close>

text \<open>\<open>claimJob\<close> up to its conditional update; \<open>job\<close> is the row its caller has read before.\<close>

definition claimJobBegin ::
  "int \<Rightarrow> string \<Rightarrow> int option \<Rightarrow> string \<Rightarrow> automation_job \<Rightarrow> engine_state \<Rightarrow> engine_state" where
  "claimJobBegin now serverId leaseDurationSeconds jobId job s =
     (let runId = es_uuid s;
          s0 = s\<lparr>es_uuid := runId + 1\<rparr>;
          leaseDuration = (case leaseDurationSeconds of None \<Rightarrow> timeout_of job + LEASE_BUFFER_SECONDS | Some n \<Rightarrow> n);
          (count, t) = db_update jobId (\<lambda>j. aj_running_at j = None)
                         (claimed now runId serverId (now + leaseDuration * 1000)) (es_jobs s0)
      in if count = 0 then s0
         else s0\<lparr>es_jobs := t,
                 es_claims := es_claims s0 @ [\<lparr>rc_jobId = jobId, rc_job = job, rc_hostname = [], rc_runId = runId,
                    rc_claimedAt = now, rc_serverId = serverId, rc_timeoutSeconds = timeout_of job\<rparr>]\<rparr>)"

text \<open>The rest of \<open>claimJob\<close>: release the claim when the site is unknown, else hand out the context.\<close>

definition claimJobEnd :: "site_table \<Rightarrow> run_context \<Rightarrow> engine_state \<Rightarrow> engine_state" where
  "claimJobEnd sites c s =
     (if c \<notin> set (es_claims s) then s
      else let s0 = s\<lparr>es_claims := remove1 c (es_claims s)\<rparr> in
        case sites (aj_site_id (rc_job c)) of
          None \<Rightarrow> s0\<lparr>es_jobs := snd (db_update (rc_jobId c) (\<lambda>j. aj_run_id j = Some (rc_runId c)) released (es_jobs s0))\<rparr>
        | Some (hostname, server) \<Rightarrow>
            if hostname = []
            then s0\<lparr>es_jobs := snd (db_update (rc_jobId c) (\<lambda>j. aj_run_id j = Some (rc_runId c)) released (es_jobs s0))\<rparr>
            else s0\<lparr>es_contexts := es_contexts s0 @ [c\<lparr>rc_hostname := hostname\<rparr>]\<rparr>)"

text \<open>The due jobs of a server: \<open>claim_due_jobs\<close> and the selections of the cron service.\<close>

definition is_due :: "site_table \<Rightarrow> int \<Rightarrow> string \<Rightarrow> automation_job \<Rightarrow> bool" where
  "is_due sites now serverId j \<longleftrightarrow>
     aj_status j = Idle \<and> aj_is_active j \<and> (\<exists>n\<in>set_option (aj_next_run_at j). n \<le> now) \<and>
     aj_run_id j = None \<and> aj_running_at j = None \<and>
     map_option snd (sites (aj_site_id j)) = Some serverId"

definition dueJobs :: "site_table \<Rightarrow> int \<Rightarrow> string \<Rightarrow> nat \<Rightarrow> job_table \<Rightarrow> string list" where
  "dueJobs sites now serverId limit t =
     map fst (take limit (sort_key (\<lambda>(k, j). the (aj_next_run_at j)) (filter (\<lambda>(k, j). is_due sites now serverId j) t)))"

text \<open>
  The transaction of \<open>claim_due_jobs\<close> claims each due row with a run id of its own and returns
  the rows as updated.
\<close>

definition claimDueRow :: "int \<Rightarrow> string \<Rightarrow> string \<Rightarrow> engine_state \<Rightarrow> engine_state" where
  "claimDueRow now serverId k s =
     (case jget (es_jobs s) k of
        None \<Rightarrow> s
      | Some j \<Rightarrow>
          (let runId = es_uuid s;
               j' = claimed now runId serverId (now + (timeout_of j + 120) * 1000) j
           in s\<lparr>es_uuid := runId + 1, es_jobs := jset k j' (es_jobs s),
                es_claims := es_claims s @ [\<lparr>rc_jobId = k, rc_job = j', rc_hostname = [], rc_runId = runId,
                   rc_claimedAt = now, rc_serverId = serverId, rc_timeoutSeconds = timeout_of j\<rparr>]\<rparr>))"

definition claim_due_jobs :: "site_table \<Rightarrow> int \<Rightarrow> string \<Rightarrow> nat \<Rightarrow> engine_state \<Rightarrow> engine_state" where
  "claim_due_jobs sites now serverId limit s = fold (claimDueRow now serverId) (dueJobs sites now serverId limit (es_jobs s)) s"

text \<open>
  \<open>claimDueJobs\<close> with nothing in between: the remote procedure, then the site of each claimed row.
\<close>

definition claimDueJobs :: "site_table \<Rightarrow> int \<Rightarrow> string \<Rightarrow> nat \<Rightarrow> engine_state \<Rightarrow> engine_state" where
  "claimDueJobs sites now serverId limit s =
     (let s1 = claim_due_jobs sites now serverId limit s
      in fold (claimJobEnd sites) (drop (length (es_claims s)) (es_claims s1)) s1)"

subsection \<open>Heartbeat\<close>

definition extendLease :: "int \<Rightarrow> run_context \<Rightarrow> engine_state \<Rightarrow> bool \<times> engine_state" where
  "extendLease now c s =
     (let newExpiry = now + (rc_timeoutSeconds c + LEASE_BUFFER_SECONDS) * 1000;
          (count, t) = db_update (rc_jobId c) (\<lambda>j. aj_run_id j = Some (rc_runId c))
                         (\<lambda>j. j\<lparr>aj_lease_expires_at := Some newExpiry\<rparr>) (es_jobs s)
      in (count \<noteq> 0, s\<lparr>es_jobs := t\<rparr>))"

subsection \<open>Finishing\<close>

record finish_options =
  fo_status :: run_status
  fo_durationMs :: int
  fo_error :: "string option"
  fo_maxRetries :: "int option"
  fo_retryBaseDelayMs :: "int option"

text \<open>What \<open>finishJob\<close> decides: next run, failure count, activity, status, disabled by failures.\<close>

record finish_decision =
  fd_nextRunAt :: "int option"
  fd_consecutiveFailures :: int
  fd_isActive :: bool
  fd_jobStatus :: job_status
  fd_disabledDueToFailures :: bool

definition next_cron_run :: "cron_library \<Rightarrow> automation_job \<Rightarrow> int \<Rightarrow> int option" where
  "next_cron_run cron j now =
     (case aj_cron_schedule j of
        None \<Rightarrow> None
      | Some expr \<Rightarrow> (case computeNextRunAtMs cron (ScheduleCron expr (aj_cron_timezone j)) now of
                      None \<Rightarrow> None | Some t \<Rightarrow> if t = 0 then None else Some t))"

text \<open>An empty schedule is falsy, so \<open>cron_schedule\<close> counts only when it is not empty.\<close>

definition has_cron :: "automation_job \<Rightarrow> bool" where
  "has_cron j \<longleftrightarrow> aj_trigger_type j = TCron \<and> (\<exists>e\<in>set_option (aj_cron_schedule j). e \<noteq> [])"

definition decideFinish :: "cron_library \<Rightarrow> int \<Rightarrow> rat \<Rightarrow> automation_job \<Rightarrow> finish_options \<Rightarrow> finish_decision" where
  "decideFinish cron now random j r =
     (let maxRetries = (case fo_maxRetries r of None \<Rightarrow> 3 | Some n \<Rightarrow> n);
          retryBaseDelayMs = (case fo_retryBaseDelayMs r of None \<Rightarrow> 60000 | Some n \<Rightarrow> n);
          failures = (case aj_consecutive_failures j of None \<Rightarrow> 0 | Some n \<Rightarrow> n);
          isActive = aj_is_active j;
          disable = (\<lambda>n. \<lparr>fd_nextRunAt = None, fd_consecutiveFailures = n, fd_isActive = False,
                          fd_jobStatus = Disabled, fd_disabledDueToFailures = True\<rparr>);
          keep = (\<lambda>next n. \<lparr>fd_nextRunAt = next, fd_consecutiveFailures = n, fd_isActive = isActive,
                            fd_jobStatus = Idle, fd_disabledDueToFailures = False\<rparr>)
      in case fo_status r of
           RunSuccess \<Rightarrow>
             if aj_trigger_type j = TOneTime
             then \<lparr>fd_nextRunAt = None, fd_consecutiveFailures = 0, fd_isActive = False,
                   fd_jobStatus = Disabled, fd_disabledDueToFailures = False\<rparr>
             else if has_cron j then keep (next_cron_run cron j now) 0
             else keep None 0
         | RunFailure \<Rightarrow>
             (let n = failures + 1 in
              if aj_trigger_type j = TEmail
              then if n \<ge> maxRetries then disable n else keep None n
              else if n \<ge> maxRetries
              then if has_cron j
                   then (case next_cron_run cron j now of
                           Some t \<Rightarrow> keep (Some t) 0
                         | None \<Rightarrow> disable n)
                   else disable n
              else let baseMs = retryBaseDelayMs * 2 ^ nat (n - 1);
                       jitter = random * of_int baseMs * (1 / 5)
                   in keep (Some \<lfloor>of_int (now + baseMs) + jitter\<rfloor>) n)
         | RunSkipped \<Rightarrow> keep None failures)"

definition finished :: "run_context \<Rightarrow> finish_options \<Rightarrow> finish_decision \<Rightarrow> automation_job \<Rightarrow> automation_job" where
  "finished c r d j =
     j\<lparr>aj_status := fd_jobStatus d, aj_running_at := None, aj_run_id := None, aj_claimed_by := None,
       aj_lease_expires_at := None, aj_last_run_at := Some (rc_claimedAt c), aj_last_run_status := Some (fo_status r),
       aj_last_run_error := fo_error r, aj_last_run_duration_ms := Some (fo_durationMs r),
       aj_next_run_at := fd_nextRunAt d, aj_is_active := fd_isActive d,
       aj_consecutive_failures := Some (fd_consecutiveFailures d)\<rparr>"

text \<open>The decision rests on the job as it was read at claim time; a run that lost its claim records nothing.\<close>

definition finishJob ::
  "cron_library \<Rightarrow> int \<Rightarrow> rat \<Rightarrow> run_context \<Rightarrow> finish_options \<Rightarrow> engine_state \<Rightarrow> bool \<times> engine_state" where
  "finishJob cron now random c r s =
     (let d = decideFinish cron now random (rc_job c) r;
          (count, t) = db_update (rc_jobId c) (\<lambda>j. aj_run_id j = Some (rc_runId c)) (finished c r d) (es_jobs s)
      in if count = 0 then (False, s)
         else (True, s\<lparr>es_jobs := t, es_runs := es_runs s @ [(rc_runId c, rc_jobId c, fo_status r)]\<rparr>))"

subsection \<open>Stale jobs\<close>

definition on_server :: "site_table \<Rightarrow> string \<Rightarrow> automation_job \<Rightarrow> bool" where
  "on_server sites serverId j \<longleftrightarrow> map_option snd (sites (aj_site_id j)) = Some serverId"

definition is_stale :: "site_table \<Rightarrow> int \<Rightarrow> string \<Rightarrow> automation_job \<Rightarrow> bool" where
  "is_stale sites now serverId j \<longleftrightarrow>
     aj_is_active j \<and> aj_status j = Running \<and> aj_running_at j \<noteq> None \<and> on_server sites serverId j \<and>
     (\<exists>e\<in>set_option (aj_lease_expires_at j). e < now)"

definition is_legacy_stale :: "site_table \<Rightarrow> int \<Rightarrow> string \<Rightarrow> automation_job \<Rightarrow> bool" where
  "is_legacy_stale sites now serverId j \<longleftrightarrow>
     aj_is_active j \<and> (\<exists>t\<in>set_option (aj_running_at j). t < now - 60 * 60 * 1000) \<and> aj_lease_expires_at j = None \<and>
     on_server sites serverId j"

text \<open>The two selections of \<open>reapStaleJobs\<close>, and the update for one selected row.\<close>

definition selectStale :: "site_table \<Rightarrow> int \<Rightarrow> string \<Rightarrow> job_table \<Rightarrow> (string \<times> nat option) list" where
  "selectStale sites now serverId t =
     (case filter (\<lambda>(k, j). is_stale sites now serverId j) t of
        [] \<Rightarrow> map (\<lambda>(k, j). (k, None)) (filter (\<lambda>(k, j). is_legacy_stale sites now serverId j) t)
      | stale \<Rightarrow> map (\<lambda>(k, j). (k, aj_run_id j)) stale)"

definition reapOne :: "string \<times> nat option \<Rightarrow> engine_state \<Rightarrow> engine_state" where
  "reapOne x s =
     (case x of
        (k, None) \<Rightarrow> s\<lparr>es_jobs := snd (db_update k (\<lambda>j. True) released (es_jobs s))\<rparr>
      | (k, Some runId) \<Rightarrow> s\<lparr>es_jobs := snd (db_update k (\<lambda>j. aj_run_id j = Some runId) released (es_jobs s))\<rparr>)"

definition reapStaleJobs :: "site_table \<Rightarrow> int \<Rightarrow> string \<Rightarrow> engine_state \<Rightarrow> engine_state" where
  "reapStaleJobs sites now serverId s = fold reapOne (selectStale sites now serverId (es_jobs s)) s"

definition getNextWakeTime :: "site_table \<Rightarrow> string \<Rightarrow> job_table \<Rightarrow> int option" where
  "getNextWakeTime sites serverId t =
     (case sort_key id (List.map_filter (\<lambda>(k, j).
         if aj_is_active j \<and> aj_status j = Idle \<and> aj_run_id j = None \<and> aj_running_at j = None \<and> on_server sites serverId j
         then aj_next_run_at j else None) t) of
        [] \<Rightarrow> None
      | x # xs \<Rightarrow> if x = 0 then None else Some x)"

text \<open>The delay until the next tick, without its jitter; \<open>None\<close> is the five-minute sleep.\<close>

definition MAX_TIMEOUT_MS :: int where
  "MAX_TIMEOUT_MS = 2 ^ 31 - 1"

definition timer_delay :: "int option \<Rightarrow> int \<Rightarrow> int \<Rightarrow> int" where
  "timer_delay nextWakeMs now jitter =
     (case nextWakeMs of
        None \<Rightarrow> 5 * 60 * 1000
      | Some t \<Rightarrow> min (max 1000 (t - now) + jitter) MAX_TIMEOUT_MS)"

end
