(* ===== verification/JobRoutes.thy ===== *)
theory JobRoutes
  imports Engine
begin

section \<open>Editing automation jobs\<close>

text \<open>
  The field validators of \<open>apps/web/lib/automation/validation.ts\<close> and the handlers \<open>PATCH\<close> and
  \<open>DELETE\<close> of \<open>apps/web/app/api/automations/[id]/route.ts\<close>. A request body has passed its schema.
  Which expressions, time zones and models the libraries accept, how a schedule text resolves
  and how a date parses are inputs. A key of the body is absent (\<open>None\<close>) or present, possibly
  with \<open>null\<close> (\<open>Some None\<close>); the columns the engine never reads are one flag.
\<close>

subsection \<open>Field validators\<close>

definition MIN_CRON_INTERVAL_MS :: int where
  "MIN_CRON_INTERVAL_MS = 5 * 60 * 1000"

definition CRON_INTERVAL_VALIDATION_RUNS :: nat where
  "CRON_INTERVAL_VALIDATION_RUNS = 20"

text \<open>The loop of \<open>findShortestCronIntervalMs\<close>, with the iterations left as its first argument.\<close>

fun shortest_interval :: "nat \<Rightarrow> (int \<Rightarrow> int option) \<Rightarrow> int option \<Rightarrow> int \<Rightarrow> int option \<Rightarrow> int option" where
  "shortest_interval 0 nextRun previousRun probe shortest = shortest"
| "shortest_interval (Suc n) nextRun previousRun probe shortest =
     (case nextRun probe of
        None \<Rightarrow> shortest
      | Some next \<Rightarrow>
          (case previousRun of
             None \<Rightarrow> shortest_interval n nextRun (Some next) (next + 1) shortest
           | Some prev \<Rightarrow>
               if next - prev \<le> 0 then shortest
               else shortest_interval n nextRun (Some next) (next + 1)
                      (Some (case shortest of None \<Rightarrow> next - prev | Some m \<Rightarrow> min m (next - prev)))))"

definition findShortestCronIntervalMs :: "(int \<Rightarrow> int option) \<Rightarrow> int \<Rightarrow> int option" where
  "findShortestCronIntervalMs nextRun now =
     shortest_interval CRON_INTERVAL_VALIDATION_RUNS nextRun None now None"

fun next_runs :: "nat \<Rightarrow> (int \<Rightarrow> int option) \<Rightarrow> int \<Rightarrow> int list" where
  "next_runs 0 nextRun current = []"
| "next_runs (Suc n) nextRun current =
     (case nextRun current of None \<Rightarrow> [] | Some next \<Rightarrow> next # next_runs n nextRun (next + 1))"

datatype cron_check = CronEmpty | CronTooFrequent | CronInvalid | CronValid "int list"

text \<open>\<open>valid_expr\<close> says when \<open>new Cron\<close> does not throw.\<close>

definition validateCronSchedule ::
  "(string \<Rightarrow> string option \<Rightarrow> bool) \<Rightarrow> cron_library \<Rightarrow> int \<Rightarrow> string option \<Rightarrow> string option \<Rightarrow> cron_check" where
  "validateCronSchedule valid_expr cron now expr tz =
     (case expr of
        None \<Rightarrow> CronEmpty
      | Some e \<Rightarrow>
          if trim e = [] then CronEmpty
          else if \<not> valid_expr (trim e) (trim_tz tz) then CronInvalid
          else (case findShortestCronIntervalMs (cron (trim e) (trim_tz tz)) now of
                  Some m \<Rightarrow> if m < MIN_CRON_INTERVAL_MS then CronTooFrequent
                            else CronValid (next_runs 3 (cron (trim e) (trim_tz tz)) now)
                | None \<Rightarrow> CronValid (next_runs 3 (cron (trim e) (trim_tz tz)) now)))"

definition validateTimezone :: "(string \<Rightarrow> bool) \<Rightarrow> string option \<Rightarrow> bool" where
  "validateTimezone known_tz tz = (case trim_tz tz of None \<Rightarrow> True | Some z \<Rightarrow> known_tz z)"

definition validateActionPrompt :: "string \<Rightarrow> string option \<Rightarrow> bool" where
  "validateActionPrompt actionType prompt \<longleftrightarrow>
     actionType \<noteq> ''prompt'' \<or>
     (case prompt of None \<Rightarrow> False | Some p \<Rightarrow> trim p \<noteq> [] \<and> length p \<le> 10000)"

definition validateTimeout :: "rat option \<Rightarrow> bool" where
  "validateTimeout seconds =
     (case seconds of None \<Rightarrow> True | Some n \<Rightarrow> n = of_int \<lfloor>n\<rfloor> \<and> 1 \<le> n \<and> n \<le> 3600)"

subsection \<open>The request\<close>

record patch_body =
  pb_cron_schedule :: "string option option"
  pb_cron_timezone :: "string option option"
  pb_schedule_text :: "string option option"
  pb_run_at :: "string option option"
  pb_action_prompt :: "string option option"
  pb_action_model :: "string option option"
  pb_action_timeout_seconds :: "rat option option"
  pb_is_active :: "bool option"
  pb_other_columns :: bool

datatype patch_error = JobNotFound | Forbidden | InvalidField string | NoValidFields
  | AlreadyRunning int | InternalError

record patch_libs =
  pl_valid_expr :: "string \<Rightarrow> string option \<Rightarrow> bool"
  pl_cron :: cron_library
  pl_known_tz :: "string \<Rightarrow> bool"
  pl_valid_model :: "string \<Rightarrow> bool"
  pl_resolve :: "string \<Rightarrow> string option \<Rightarrow> (string \<times> string option) option"
  pl_date_parse :: "string \<Rightarrow> int option"

text \<open>The columns an update sets: those of the body, \<open>next_run_at\<close> and \<open>status\<close>.\<close>

record job_updates =
  up_cron_schedule :: "string option option"
  up_cron_timezone :: "string option option"
  up_run_at :: "string option option"
  up_action_prompt :: "string option option"
  up_action_model :: "string option option"
  up_action_timeout_seconds :: "rat option option"
  up_is_active :: "bool option"
  up_other_columns :: bool
  up_next_run_at :: "int option"
  up_status :: "job_status option"

text \<open>\<open>schedule_text\<close> of a cron job, when it is not empty; \<open>Inl\<close> when it cannot be resolved.\<close>

definition resolvedSchedule :: "patch_libs \<Rightarrow> automation_job \<Rightarrow> patch_body \<Rightarrow> unit + (string \<times> string option) option" where
  "resolvedSchedule L existing b =
     (case pb_schedule_text b of
        Some (Some txt) \<Rightarrow>
          if txt = [] \<or> aj_trigger_type existing \<noteq> TCron then Inr None
          else (case pl_resolve L txt (case pb_cron_timezone b of None \<Rightarrow> None | Some tz \<Rightarrow> tz) of
                  None \<Rightarrow> Inl () | Some r \<Rightarrow> Inr (Some r))
      | _ \<Rightarrow> Inr None)"

text \<open>The update object after the resolved schedule and the per-trigger stripping.\<close>

definition collectUpdates :: "automation_job \<Rightarrow> patch_body \<Rightarrow> (string \<times> string option) option \<Rightarrow> job_updates" where
  "collectUpdates existing b resolved =
     (let cronSchedule = (case resolved of None \<Rightarrow> pb_cron_schedule b | Some (c, _) \<Rightarrow> Some (Some c));
          cronTimezone = (case resolved of Some (_, Some tz) \<Rightarrow> Some (Some tz) | _ \<Rightarrow> pb_cron_timezone b);
          isCron = (aj_trigger_type existing = TCron);
          isOneTime = (aj_trigger_type existing = TOneTime)
      in \<lparr>up_cron_schedule = (if isCron then cronSchedule else None),
          up_cron_timezone = (if isCron then cronTimezone else None),
          up_run_at = (if isOneTime then pb_run_at b else None),
          up_action_prompt = pb_action_prompt b, up_action_model = pb_action_model b,
          up_action_timeout_seconds = pb_action_timeout_seconds b,
          up_is_active = pb_is_active b, up_other_columns = pb_other_columns b,
          up_next_run_at = None, up_status = None\<rparr>)"

definition no_updates :: "job_updates \<Rightarrow> bool" where
  "no_updates u \<longleftrightarrow> up_cron_schedule u = None \<and> up_cron_timezone u = None \<and> up_run_at u = None \<and>
     up_action_prompt u = None \<and> up_action_model u = None \<and> up_action_timeout_seconds u = None \<and>
     up_is_active u = None \<and> \<not> up_other_columns u"

definition coalesce :: "'a option option \<Rightarrow> 'a option \<Rightarrow> 'a option" where
  "coalesce x y = (case x of Some (Some v) \<Rightarrow> Some v | _ \<Rightarrow> y)"

text \<open>A change of schedule or time zone is validated and gives the next run.\<close>

definition checkSchedule :: "patch_libs \<Rightarrow> int \<Rightarrow> automation_job \<Rightarrow> job_updates \<Rightarrow> patch_error + job_updates" where
  "checkSchedule L now existing u =
     (if up_cron_schedule u = None \<and> up_cron_timezone u = None then Inr u
      else (let tz = coalesce (up_cron_timezone u) (aj_cron_timezone existing) in
        case coalesce (up_cron_schedule u) (aj_cron_schedule existing) of
          None \<Rightarrow> Inr u
        | Some expr \<Rightarrow>
            if expr = [] then Inr u
            else (case validateCronSchedule (pl_valid_expr L) (pl_cron L) now (Some expr) tz of
                    CronValid _ \<Rightarrow>
                      (case computeNextRunAtMs (pl_cron L) (ScheduleCron expr tz) now of
                         None \<Rightarrow> Inr u
                       | Some t \<Rightarrow> if t = 0 then Inr u else Inr (u\<lparr>up_next_run_at := Some t\<rparr>))
                  | _ \<Rightarrow> Inl (InvalidField ''cron_schedule''))))"

definition checkTimezone :: "patch_libs \<Rightarrow> job_updates \<Rightarrow> patch_error + job_updates" where
  "checkTimezone L u =
     (case up_cron_timezone u of
        None \<Rightarrow> Inr u
      | Some tz \<Rightarrow> if validateTimezone (pl_known_tz L) tz then Inr u else Inl (InvalidField ''cron_timezone''))"

definition checkRunAt :: "patch_libs \<Rightarrow> job_updates \<Rightarrow> patch_error + job_updates" where
  "checkRunAt L u =
     (case up_run_at u of
        None \<Rightarrow> Inr u
      | Some None \<Rightarrow> Inl (InvalidField ''run_at'')
      | Some (Some d) \<Rightarrow> (case pl_date_parse L d of
                           None \<Rightarrow> Inl (InvalidField ''run_at'')
                         | Some t \<Rightarrow> Inr (u\<lparr>up_next_run_at := Some t\<rparr>)))"

definition checkFields :: "patch_libs \<Rightarrow> automation_job \<Rightarrow> job_updates \<Rightarrow> patch_error + job_updates" where
  "checkFields L existing u =
     (if \<exists>s\<in>set_option (up_action_timeout_seconds u). \<not> validateTimeout s
      then Inl (InvalidField ''action_timeout_seconds'')
      else if \<exists>m\<in>set_option (Option.bind (up_action_model u) id). \<not> pl_valid_model L m
      then Inl (InvalidField ''action_model'')
      else if \<exists>p\<in>set_option (up_action_prompt u). \<not> validateActionPrompt (aj_action_type existing) p
      then Inl (InvalidField ''action_prompt'')
      else Inr u)"

definition syncStatus :: "automation_job \<Rightarrow> job_updates \<Rightarrow> patch_error + job_updates" where
  "syncStatus existing u =
     (case up_is_active u of
        None \<Rightarrow> Inr u
      | Some a \<Rightarrow> (case aj_running_at existing of
                    Some t \<Rightarrow> Inl (AlreadyRunning t)
                  | None \<Rightarrow> Inr (u\<lparr>up_status := Some (if a then Idle else Disabled)\<rparr>)))"

definition bind_sum :: "'e + 'a \<Rightarrow> ('a \<Rightarrow> 'e + 'b) \<Rightarrow> 'e + 'b" where
  "bind_sum r f = (case r of Inl e \<Rightarrow> Inl e | Inr x \<Rightarrow> f x)"

text \<open>The handler up to its update: what it will write, from the row as first read.\<close>

definition planPatch ::
  "patch_libs \<Rightarrow> int \<Rightarrow> string \<Rightarrow> automation_job option \<Rightarrow> patch_body \<Rightarrow> patch_error + job_updates" where
  "planPatch L now user existing0 b =
     (case existing0 of
        None \<Rightarrow> Inl JobNotFound
      | Some existing \<Rightarrow>
          if aj_user_id existing \<noteq> user then Inl Forbidden
          else (case resolvedSchedule L existing b of
                  Inl _ \<Rightarrow> Inl (InvalidField ''schedule_text'')
                | Inr resolved \<Rightarrow>
                    (let u = collectUpdates existing b resolved in
                     if no_updates u then Inl NoValidFields
                     else bind_sum (checkSchedule L now existing u)
                       (\<lambda>u1. bind_sum (checkTimezone L u1)
                       (\<lambda>u2. bind_sum (checkRunAt L u2)
                       (\<lambda>u3. bind_sum (checkFields L existing u3) (syncStatus existing)))))))"

definition written :: "'a option \<Rightarrow> 'a \<Rightarrow> 'a" where
  "written x old = (case x of None \<Rightarrow> old | Some v \<Rightarrow> v)"

definition applyUpdates :: "patch_libs \<Rightarrow> job_updates \<Rightarrow> automation_job \<Rightarrow> automation_job" where
  "applyUpdates L u j =
     j\<lparr>aj_cron_schedule := written (up_cron_schedule u) (aj_cron_schedule j),
       aj_cron_timezone := written (up_cron_timezone u) (aj_cron_timezone j),
       aj_run_at := (case up_run_at u of Some (Some d) \<Rightarrow> pl_date_parse L d | Some None \<Rightarrow> None | None \<Rightarrow> aj_run_at j),
       aj_action_prompt := written (up_action_prompt u) (aj_action_prompt j),
       aj_action_timeout_seconds := written (map_option (map_option floor) (up_action_timeout_seconds u)) (aj_action_timeout_seconds j),
       aj_is_active := written (up_is_active u) (aj_is_active j),
       aj_next_run_at := (case up_next_run_at u of None \<Rightarrow> aj_next_run_at j | Some t \<Rightarrow> Some t),
       aj_status := written (up_status u) (aj_status j)\<rparr>"

text \<open>The whole handler; \<open>existing\<close> was read before, so other statements may have run since.\<close>

definition patchJob ::
  "patch_libs \<Rightarrow> int \<Rightarrow> string \<Rightarrow> string \<Rightarrow> automation_job option \<Rightarrow> patch_body \<Rightarrow> engine_state \<Rightarrow>
     (patch_error + automation_job) \<times> engine_state" where
  "patchJob L now user k existing b s =
     (case planPatch L now user existing b of
        Inl e \<Rightarrow> (Inl e, s)
      | Inr u \<Rightarrow>
          (let (count, t) = db_update k (\<lambda>j. True) (applyUpdates L u) (es_jobs s)
           in if count = 0 then (Inl InternalError, s)
              else (Inr (the (jget t k)), s\<lparr>es_jobs := t\<rparr>)))"

definition deleteJob :: "string \<Rightarrow> string \<Rightarrow> automation_job option \<Rightarrow> engine_state \<Rightarrow> (patch_error + unit) \<times> engine_state" where
  "deleteJob user k existing s =
     (case existing of
        None \<Rightarrow> (Inl JobNotFound, s)
      | Some j \<Rightarrow> if aj_user_id j \<noteq> user then (Inl Forbidden, s)
                  else (Inr (), s\<lparr>es_jobs := jdel k (es_jobs s)\<rparr>))"

subsection \<open>Creating a job\<close>

text \<open>
  \<open>POST\<close> of \<open>apps/web/app/api/automations/route.ts\<close>; \<open>site\<close> is what \<open>validateSiteId\<close> found
  (\<open>None\<close>: refused), and the new row has the column defaults of the table: idle, unclaimed.
\<close>

record create_body =
  cb_site_id :: string
  cb_trigger_type :: trigger_type
  cb_cron_schedule :: "string option"
  cb_cron_timezone :: "string option"
  cb_schedule_text :: "string option"
  cb_run_at :: "string option"
  cb_action_type :: string
  cb_action_prompt :: "string option"
  cb_is_active :: bool

datatype create_error = CreateInvalid string | CreateSiteNotFound | CreateForbidden | CreateInternal

definition isAliveWorkspace :: "string \<Rightarrow> bool" where
  "isAliveWorkspace hostname \<longleftrightarrow> hostname = ''alive''"

definition truthy :: "string option \<Rightarrow> bool" where
  "truthy x \<longleftrightarrow> (\<exists>s\<in>set_option x. s \<noteq> [])"

definition newJob ::
  "patch_libs \<Rightarrow> string \<Rightarrow> create_body \<Rightarrow> string option \<Rightarrow> string option \<Rightarrow> int option \<Rightarrow> automation_job" where
  "newJob L user b cronSchedule cronTimezone nextRunAt =
     \<lparr>aj_site_id = cb_site_id b, aj_user_id = user, aj_trigger_type = cb_trigger_type b,
      aj_cron_schedule = cronSchedule, aj_cron_timezone = cronTimezone,
      aj_run_at = Option.bind (cb_run_at b) (pl_date_parse L),
      aj_action_type = cb_action_type b, aj_action_prompt = cb_action_prompt b,
      aj_action_timeout_seconds = Some 300, aj_is_active = cb_is_active b, aj_status = Idle,
      aj_running_at = None, aj_run_id = None, aj_claimed_by = None, aj_lease_expires_at = None,
      aj_last_run_at = None, aj_last_run_status = None, aj_last_run_error = None,
      aj_last_run_duration_ms = None, aj_next_run_at = nextRunAt, aj_consecutive_failures = Some 0\<rparr>"

definition planCreate ::
  "patch_libs \<Rightarrow> int \<Rightarrow> string \<Rightarrow> bool \<Rightarrow> string option \<Rightarrow> create_body \<Rightarrow> create_error + automation_job" where
  "planCreate L now user isSuperadmin site b =
     (if \<not> validateActionPrompt (cb_action_type b) (cb_action_prompt b) then Inl (CreateInvalid ''action_prompt'')
      else if truthy (cb_cron_timezone b) \<and> \<not> validateTimezone (pl_known_tz L) (cb_cron_timezone b)
      then Inl (CreateInvalid ''cron_timezone'')
      else case site of
        None \<Rightarrow> Inl CreateSiteNotFound
      | Some hostname \<Rightarrow>
          if isAliveWorkspace hostname \<and> \<not> isSuperadmin then Inl CreateForbidden
          else (case (if cb_trigger_type b = TCron \<and> truthy (cb_schedule_text b)
                      then map_option (\<lambda>(c, tz). (Some c, if truthy tz then tz else cb_cron_timezone b))
                             (pl_resolve L (the (cb_schedule_text b)) (cb_cron_timezone b))
                      else Some (cb_cron_schedule b, cb_cron_timezone b)) of
            None \<Rightarrow> Inl (CreateInvalid ''schedule_text'')
          | Some (cronSchedule, cronTimezone) \<Rightarrow>
              if cb_trigger_type b = TCron \<and> truthy cronSchedule
              then (case validateCronSchedule (pl_valid_expr L) (pl_cron L) now cronSchedule cronTimezone of
                      CronValid _ \<Rightarrow>
                        Inr (newJob L user b cronSchedule cronTimezone
                          (case computeNextRunAtMs (pl_cron L) (ScheduleCron (the cronSchedule) cronTimezone) now of
                             None \<Rightarrow> None | Some t \<Rightarrow> if t = 0 then None else Some t))
                    | _ \<Rightarrow> Inl (CreateInvalid ''cron_schedule''))
              else Inr (newJob L user b cronSchedule cronTimezone
                     (if cb_trigger_type b = TOneTime \<and> truthy (cb_run_at b)
                      then Option.bind (cb_run_at b) (pl_date_parse L) else None))))"

definition createJob ::
  "patch_libs \<Rightarrow> int \<Rightarrow> string \<Rightarrow> bool \<Rightarrow> string option \<Rightarrow> create_body \<Rightarrow> string \<Rightarrow> engine_state \<Rightarrow>
     (create_error + automation_job) \<times> engine_state" where
  "createJob L now user isSuperadmin site b newId s =
     (case planCreate L now user isSuperadmin site b of
        Inl e \<Rightarrow> (Inl e, s)
      | Inr j \<Rightarrow>
          if \<not> row_check j \<or> newId \<in> set (jkeys (es_jobs s)) then (Inl CreateInternal, s)
          else (Inr j, s\<lparr>es_jobs := jset newId j (es_jobs s)\<rparr>))"

subsection \<open>The minimum interval\<close>

fun close_pair :: "int \<Rightarrow> int list \<Rightarrow> bool" where
  "close_pair m (a # b # xs) \<longleftrightarrow> b - a < m \<or> close_pair m (b # xs)"
| "close_pair m xs \<longleftrightarrow> False"

lemma close_pair_nth: "close_pair m xs \<longleftrightarrow> (\<exists>i. Suc i < length xs \<and> xs ! Suc i - xs ! i < m)"
proof (induction m xs rule: close_pair.induct)
  case (1 m a b xs)
  show ?case
  proof
    assume "close_pair m (a # b # xs)"
    then consider "b - a < m" | i where "Suc i < length (b # xs)" "(b # xs) ! Suc i - (b # xs) ! i < m"
      using 1 by auto
    then show "\<exists>i. Suc i < length (a # b # xs) \<and> (a # b # xs) ! Suc i - (a # b # xs) ! i < m"
    proof cases
      case 1
      then show ?thesis by (intro exI [of _ 0]) simp
    next
      case 2
      then show ?thesis by (intro exI [of _ "Suc i"]) simp
    qed
  next
    assume "\<exists>i. Suc i < length (a # b # xs) \<and> (a # b # xs) ! Suc i - (a # b # xs) ! i < m"
    then obtain i where "Suc i < length (a # b # xs)" "(a # b # xs) ! Suc i - (a # b # xs) ! i < m" by blast
    then show "close_pair m (a # b # xs)" using 1 by (cases i) auto
  qed
qed simp_all

abbreviation opt_below :: "int \<Rightarrow> int option \<Rightarrow> bool" where
  "opt_below m x \<equiv> (\<exists>y\<in>set_option x. y < m)"

lemma shortest_interval_below:
  assumes "\<And>t t'. nextRun t = Some t' \<Longrightarrow> t < t'"
  shows "opt_below m (shortest_interval n nextRun (Some p) (p + 1) sh) \<longleftrightarrow>
         opt_below m sh \<or> close_pair m (p # next_runs n nextRun (p + 1))"
proof (induction n arbitrary: p sh)
  case (Suc n)
  show ?case
  proof (cases "nextRun (p + 1)")
    case (Some t)
    then have "p + 1 < t" by (rule assms)
    then show ?thesis using Some Suc.IH by (auto split: option.split)
  qed simp
qed simp

lemma next_runs_take: "take k (next_runs n nextRun now) = next_runs (min k n) nextRun now"
proof (induction n arbitrary: k now)
  case (Suc n)
  then show ?case by (cases k; cases "nextRun now") simp_all
qed simp

text \<open>
  C28. Schedules that fire too often are refused, exactly. For an expression the library accepts,
  validation says \<open>too frequent\<close> exactly when two consecutive runs among the next twenty are
  less than five minutes apart, and otherwise previews the first three of them.
\<close>

theorem cron_interval_exact:
  fixes now :: int
  assumes "expr = Some e" and "trim e \<noteq> []" and "valid_expr (trim e) (trim_tz tz)"
    and "\<And>t t'. cron (trim e) (trim_tz tz) t = Some t' \<Longrightarrow> t < t'"
  defines "runs \<equiv> next_runs 20 (cron (trim e) (trim_tz tz)) now"
  shows "validateCronSchedule valid_expr cron now expr tz =
    (if \<exists>i. Suc i < length runs \<and> runs ! Suc i - runs ! i < 300000 then CronTooFrequent else CronValid (take 3 runs))"
proof -
  define f where "f = cron (trim e) (trim_tz tz)"
  have later: "t < t'" if "f t = Some t'" for t t' using assms(4) that by (simp add: f_def)
  have "opt_below 300000 (findShortestCronIntervalMs f now) \<longleftrightarrow> close_pair 300000 runs"
  proof (cases "f now")
    case None
    then show ?thesis
      by (simp add: findShortestCronIntervalMs_def CRON_INTERVAL_VALIDATION_RUNS_def runs_def f_def [symmetric] numeral_eq_Suc)
  next
    case (Some t)
    have 20: "(20::nat) = Suc 19" by simp
    have "shortest_interval 20 f None now None = shortest_interval 19 f (Some t) (t + 1) None"
      unfolding 20 shortest_interval.simps by (simp add: Some)
    moreover have "next_runs 20 f now = t # next_runs 19 f (t + 1)"
      unfolding 20 next_runs.simps by (simp add: Some)
    ultimately show ?thesis
      using shortest_interval_below [where nextRun = f and m = 300000 and n = 19 and p = t and sh = None, OF later]
      by (simp add: findShortestCronIntervalMs_def CRON_INTERVAL_VALIDATION_RUNS_def runs_def f_def [symmetric])
  qed
  moreover have "next_runs 3 f now = take 3 runs"
    by (simp add: runs_def f_def [symmetric] next_runs_take)
  ultimately show ?thesis
    using assms(1-3) unfolding close_pair_nth
    by (cases "findShortestCronIntervalMs f now")
      (simp_all add: validateCronSchedule_def f_def [symmetric] MIN_CRON_INTERVAL_MS_def)
qed

theorem cron_interval_exact_witness:
  "validateCronSchedule (\<lambda>e tz. True) (\<lambda>e tz t. Some (t + 60000)) 0 (Some ''* * * * *'') None = CronTooFrequent"
proof -
  have t: "trim ''* * * * *'' \<noteq> []" by code_simp
  have r: "Suc 0 < length (next_runs 20 (\<lambda>t. Some (t + 60000)) 0) \<and>
      next_runs 20 (\<lambda>t. Some (t + 60000)) 0 ! Suc 0 - next_runs 20 (\<lambda>t. Some (t + 60000)) 0 ! 0 < 300000"
    by (simp add: numeral_eq_Suc)
  show ?thesis
    using cron_interval_exact [of "Some ''* * * * *''" "''* * * * *''" "\<lambda>e tz. True" None "\<lambda>e tz t. Some (t + 60000)" 0] t r
    by auto
qed

end
