(* ===== verification/EngineProperties.thy ===== *)
theory EngineProperties
  imports JobRoutes
begin

section \<open>Leases, finishing and rescheduling\<close>

text \<open>
  The automation engine with its concurrent actors: claims by triggers and by the scheduler,
  heartbeats, finishes (any number by one run), the reaper working from an older selection, and
  the editing routes working from an older read. The lemmas show what the run id fences off.
\<close>

subsection \<open>Steps\<close>

inductive engine_step :: "engine_state \<Rightarrow> engine_state \<Rightarrow> bool" where
  Claim: "engine_step s (claimJobBegin now serverId lease k job s)"
| ClaimDue: "engine_step s (claim_due_jobs sites now serverId limit s)"
| ClaimEnd: "engine_step s (claimJobEnd sites c s)"
| Heartbeat: "c \<in> set (es_contexts s) \<Longrightarrow> engine_step s (snd (extendLease now c s))"
| Finish: "c \<in> set (es_contexts s) \<Longrightarrow> engine_step s (snd (finishJob cron now random c r s))"
| Reap: "engine_step s (reapOne x s)"
| Patch: "engine_step s (snd (patchJob L now user k existing b s))"
| Create: "engine_step s (snd (createJob L now user isSuperadmin site b newId s))"
| Delete: "engine_step s (snd (deleteJob user k existing s))"

definition engine_init :: engine_state where
  "engine_init = \<lparr>es_jobs = [], es_uuid = 0, es_claims = [], es_contexts = [], es_runs = []\<rparr>"

inductive engine_reachable :: "engine_state \<Rightarrow> bool" where
  start: "engine_reachable engine_init"
| step: "engine_reachable s \<Longrightarrow> engine_step s s' \<Longrightarrow> engine_reachable s'"

subsection \<open>The invariant\<close>

definition claim_ok :: "automation_job \<Rightarrow> bool" where
  "claim_ok j \<longleftrightarrow> row_check j \<and>
     (aj_run_id j \<noteq> None \<longleftrightarrow> aj_status j = Running) \<and>
     (aj_claimed_by j \<noteq> None \<longleftrightarrow> aj_status j = Running) \<and>
     (aj_lease_expires_at j \<noteq> None \<longleftrightarrow> aj_status j = Running)"

definition recorded :: "engine_state \<Rightarrow> nat set" where
  "recorded s = fst ` set (es_runs s)"

definition engine_ok :: "engine_state \<Rightarrow> bool" where
  "engine_ok s \<longleftrightarrow>
     (\<forall>k j. jget (es_jobs s) k = Some j \<longrightarrow> claim_ok j) \<and>
     (\<forall>k j r. jget (es_jobs s) k = Some j \<longrightarrow> aj_run_id j = Some r \<longrightarrow> r < es_uuid s \<and> r \<notin> recorded s) \<and>
     (\<forall>k j k' j' r. jget (es_jobs s) k = Some j \<longrightarrow> aj_run_id j = Some r \<longrightarrow>
        jget (es_jobs s) k' = Some j' \<longrightarrow> aj_run_id j' = Some r \<longrightarrow> k' = k) \<and>
     (\<forall>r\<in>recorded s. r < es_uuid s) \<and> distinct (map fst (es_runs s))"

text \<open>
  Every operation changes at most one row. What the invariant needs of the new row: it is
  consistent, and its run id is the old one, none, or a fresh one.
\<close>

lemma engine_ok_row:
  assumes ok: "engine_ok s" and jobs: "es_jobs s' = jset k j' (es_jobs s)"
    and runs: "es_runs s' = es_runs s" and u: "es_uuid s \<le> es_uuid s'" and c: "claim_ok j'"
    and r: "aj_run_id j' = None \<or>
      (\<exists>j. jget (es_jobs s) k = Some j \<and> aj_run_id j' = aj_run_id j) \<or>
      (aj_run_id j' = Some (es_uuid s) \<and> es_uuid s < es_uuid s')"
  shows "engine_ok s'"
proof -
  note ok' = ok [unfolded engine_ok_def]
  have rec: "recorded s' = recorded s" by (simp add: recorded_def runs)
  have id: "r < es_uuid s' \<and> r \<notin> recorded s" if "aj_run_id j' = Some r" for r
    using assms(6) that ok' u by fastforce
  have uniq: "k' = k" if "aj_run_id j' = Some r" "jget (es_jobs s) k' = Some j''" "aj_run_id j'' = Some r" for r k' j''
    using assms(6) that ok' by (metis less_irrefl option.distinct(1) option.inject)
  have 1: "\<forall>x j. jget (es_jobs s') x = Some j \<longrightarrow> claim_ok j" using ok' c by (simp add: jobs)
  have 2: "\<forall>x j r. jget (es_jobs s') x = Some j \<longrightarrow> aj_run_id j = Some r \<longrightarrow> r < es_uuid s' \<and> r \<notin> recorded s'"
    using ok' id u by (simp add: jobs rec) (meson order_less_le_trans)
  have 3: "\<forall>x j x' j'' r. jget (es_jobs s') x = Some j \<longrightarrow> aj_run_id j = Some r \<longrightarrow>
        jget (es_jobs s') x' = Some j'' \<longrightarrow> aj_run_id j'' = Some r \<longrightarrow> x' = x"
    using ok' uniq by (auto simp: jobs)
  have 4: "\<forall>r\<in>recorded s'. r < es_uuid s'" using ok' u by (simp add: rec) (meson order_less_le_trans)
  show ?thesis unfolding engine_ok_def using 1 2 3 4 ok' by (simp add: runs)
qed

lemma engine_ok_same:
  assumes "engine_ok s" and "es_jobs s' = es_jobs s" and "es_runs s' = es_runs s" and "es_uuid s \<le> es_uuid s'"
  shows "engine_ok s'"
proof -
  have rec: "recorded s' = recorded s" by (simp add: recorded_def assms(3))
  have "r < es_uuid s'" if "r < es_uuid s" for r using that assms(4) by simp
  then show ?thesis using assms(1) unfolding engine_ok_def rec assms(2,3) by blast
qed

lemma engine_ok_jset:
  assumes "engine_ok s" and "claim_ok j'"
    and "aj_run_id j' = None \<or> (\<exists>j. jget (es_jobs s) k = Some j \<and> aj_run_id j' = aj_run_id j)"
  shows "engine_ok (s\<lparr>es_jobs := jset k j' (es_jobs s)\<rparr>)"
  by (rule engine_ok_row [OF assms(1) _ _ _ assms(2), of _ k]) (use assms(3) in auto)

lemma engine_ok_rowD: "engine_ok s \<Longrightarrow> jget (es_jobs s) k = Some j \<Longrightarrow> claim_ok j"
  by (simp add: engine_ok_def)

lemma db_update_cases:
  obtains (none) "db_update k p f t = (0, t)"
  | (one) j where "jget t k = Some j" "p j" "row_check (f j)" "db_update k p f t = (1, jset k (f j) t)"
proof (cases "jget t k")
  case None
  then show ?thesis by (intro none) (simp add: db_update_def)
next
  case (Some j)
  show ?thesis
  proof (cases "p j \<and> row_check (f j)")
    case True
    then show ?thesis using Some by (intro one [of j]) (simp_all add: db_update_def)
  next
    case False
    then show ?thesis using Some by (intro none) (auto simp: db_update_def)
  qed
qed

lemma claim_ok_claimed: "claim_ok j \<Longrightarrow> claim_ok (claimed now r srv e j)"
  by (simp add: claim_ok_def row_check_def schema_check_def claimed_def)

lemma claim_ok_released: "claim_ok j \<Longrightarrow> claim_ok (released j)"
  by (simp add: claim_ok_def row_check_def schema_check_def released_def)

lemma engine_ok_release:
  assumes "engine_ok s"
  shows "engine_ok (s\<lparr>es_jobs := snd (db_update k p released (es_jobs s))\<rparr>)"
proof (cases rule: db_update_cases [of k p released "es_jobs s"])
  case none
  then show ?thesis using assms by (auto intro: engine_ok_same)
next
  case (one j)
  then show ?thesis using assms
    by (auto intro!: engine_ok_row [of s _ k "released j"] claim_ok_released dest: engine_ok_rowD
        simp: released_def [of j, THEN arg_cong, of aj_run_id, simplified])
qed

lemma engine_ok_claim: "engine_ok s \<Longrightarrow> engine_ok (claimJobBegin now srv lease k job s)"
proof -
  assume ok: "engine_ok s"
  let ?e = "now + (case lease of None \<Rightarrow> timeout_of job + LEASE_BUFFER_SECONDS | Some n \<Rightarrow> n) * 1000"
  show ?thesis
  proof (cases rule: db_update_cases [of k "\<lambda>j. aj_running_at j = None" "claimed now (es_uuid s) srv ?e" "es_jobs s"])
    case none
    then show ?thesis using ok by (auto simp: claimJobBegin_def Let_def intro: engine_ok_same)
  next
    case (one j)
    have "claim_ok (claimed now (es_uuid s) srv ?e j)"
      using engine_ok_rowD [OF ok one(1)] by (rule claim_ok_claimed)
    then show ?thesis using ok one
      by (auto simp: claimJobBegin_def Let_def claimed_def [of _ "es_uuid s"]
          intro!: engine_ok_row [of s _ k "claimed now (es_uuid s) srv ?e j"])
  qed
qed

lemma engine_ok_claimDueRow: "engine_ok s \<Longrightarrow> engine_ok (claimDueRow now srv k s)"
proof (cases "jget (es_jobs s) k")
  case (Some j)
  assume ok: "engine_ok s"
  let ?j = "claimed now (es_uuid s) srv (now + (timeout_of j + 120) * 1000) j"
  have "claim_ok ?j" using engine_ok_rowD [OF ok Some] by (rule claim_ok_claimed)
  then show ?thesis using ok Some
    by (auto simp: claimDueRow_def Let_def intro!: engine_ok_row [of s _ k ?j]) (simp add: claimed_def)
qed (simp add: claimDueRow_def)

lemma engine_ok_claimDue: "engine_ok s \<Longrightarrow> engine_ok (claim_due_jobs sites now srv limit s)"
proof -
  have "engine_ok s \<Longrightarrow> engine_ok (fold (claimDueRow now srv) ks s)" for ks
    by (induction ks arbitrary: s) (simp_all add: engine_ok_claimDueRow)
  then show "engine_ok s \<Longrightarrow> ?thesis" by (simp add: claim_due_jobs_def)
qed

lemma engine_ok_claimEnd: "engine_ok s \<Longrightarrow> engine_ok (claimJobEnd sites c s)"
proof -
  assume ok: "engine_ok s"
  have ok0: "engine_ok (s\<lparr>es_claims := remove1 c (es_claims s)\<rparr>)"
    by (rule engine_ok_same [OF ok]) simp_all
  have "engine_ok (s\<lparr>es_claims := cs, es_contexts := xs\<rparr>)" for cs xs
    by (rule engine_ok_same [OF ok]) simp_all
  then show ?thesis using ok engine_ok_release [OF ok0]
    by (auto simp: claimJobEnd_def Let_def split: option.splits)
qed

lemma engine_ok_heartbeat: "engine_ok s \<Longrightarrow> engine_ok (snd (extendLease now c s))"
proof -
  assume ok: "engine_ok s"
  let ?f = "\<lambda>j. j\<lparr>aj_lease_expires_at := Some (now + (rc_timeoutSeconds c + LEASE_BUFFER_SECONDS) * 1000)\<rparr>"
  show ?thesis
  proof (cases rule: db_update_cases [of "rc_jobId c" "\<lambda>j. aj_run_id j = Some (rc_runId c)" ?f "es_jobs s"])
    case none
    then show ?thesis using ok by (auto simp: extendLease_def Let_def intro: engine_ok_same)
  next
    case (one j)
    have "claim_ok (?f j)" using engine_ok_rowD [OF ok one(1)] one(2) by (auto simp: claim_ok_def row_check_def schema_check_def)
    then show ?thesis using ok one
      by (auto simp: extendLease_def Let_def intro!: engine_ok_row [of s _ "rc_jobId c" "?f j"])
  qed
qed

lemma engine_ok_runD:
  "engine_ok s \<Longrightarrow> jget (es_jobs s) k = Some j \<Longrightarrow> aj_run_id j = Some r \<Longrightarrow> r < es_uuid s \<and> r \<notin> recorded s"
  unfolding engine_ok_def by meson

lemma engine_ok_uniqD:
  "engine_ok s \<Longrightarrow> jget (es_jobs s) k = Some j \<Longrightarrow> aj_run_id j = Some r \<Longrightarrow>
   jget (es_jobs s) k' = Some j' \<Longrightarrow> aj_run_id j' = Some r \<Longrightarrow> k' = k"
  unfolding engine_ok_def by meson

lemma engine_ok_record:
  assumes ok: "engine_ok s" and r: "r < es_uuid s" "r \<notin> recorded s"
    and none: "\<And>k j. jget (es_jobs s) k = Some j \<Longrightarrow> aj_run_id j \<noteq> Some r"
  shows "engine_ok (s\<lparr>es_runs := es_runs s @ [(r, k, st)]\<rparr>)"
proof -
  have rec: "recorded (s\<lparr>es_runs := es_runs s @ [(r, k, st)]\<rparr>) = insert r (recorded s)" by (simp add: recorded_def)
  note ok' = ok [unfolded engine_ok_def]
  have 1: "\<forall>k j r'. jget (es_jobs s) k = Some j \<longrightarrow> aj_run_id j = Some r' \<longrightarrow> r' < es_uuid s \<and> r' \<notin> insert r (recorded s)"
    using ok' none by fastforce
  have 2: "\<forall>r'\<in>insert r (recorded s). r' < es_uuid s" using ok' r(1) by blast
  have 3: "distinct (map fst (es_runs s @ [(r, k, st)]))" using ok' r(2) by (simp add: recorded_def)
  show ?thesis unfolding engine_ok_def rec engine_state.simps using ok' 1 2 3 by (intro conjI) simp_all
qed

lemma decideFinish_status: "fd_jobStatus (decideFinish cron now random j r) \<in> {Idle, Disabled}"
  by (simp add: decideFinish_def Let_def split: run_status.split option.split)

lemma claim_ok_finished:
  "claim_ok j \<Longrightarrow> fd_jobStatus d \<noteq> Running \<Longrightarrow> claim_ok (finished c r d j)"
  by (auto simp: claim_ok_def row_check_def schema_check_def finished_def)

lemma finishJob_cases:
  obtains (stale) "finishJob cron now random c r s = (False, s)"
  | (recorded) j where "jget (es_jobs s) (rc_jobId c) = Some j" "aj_run_id j = Some (rc_runId c)"
      "finishJob cron now random c r s =
        (True, s\<lparr>es_jobs := jset (rc_jobId c) (finished c r (decideFinish cron now random (rc_job c) r) j) (es_jobs s),
                es_runs := es_runs s @ [(rc_runId c, rc_jobId c, fo_status r)]\<rparr>)"
proof (cases rule: db_update_cases [of "rc_jobId c" "\<lambda>j. aj_run_id j = Some (rc_runId c)"
      "finished c r (decideFinish cron now random (rc_job c) r)" "es_jobs s"])
  case none
  then show ?thesis by (intro stale) (simp add: finishJob_def Let_def)
next
  case (one j)
  then show ?thesis by (intro recorded [of j]) (simp_all add: finishJob_def Let_def)
qed

lemma engine_ok_finish:
  assumes ok: "engine_ok s"
  shows "engine_ok (snd (finishJob cron now random c r s))"
proof (cases rule: finishJob_cases [of cron now random c r s])
  case stale
  then show ?thesis using ok by simp
next
  case (recorded j)
  let ?j = "finished c r (decideFinish cron now random (rc_job c) r) j"
  let ?s = "s\<lparr>es_jobs := jset (rc_jobId c) ?j (es_jobs s)\<rparr>"
  have none: "aj_run_id ?j = None" by (simp add: finished_def)
  have "claim_ok ?j"
    using claim_ok_finished [OF engine_ok_rowD [OF ok recorded(1)], of "decideFinish cron now random (rc_job c) r"]
      decideFinish_status [of cron now random "rc_job c" r] by fastforce
  then have s: "engine_ok ?s" using ok none by (intro engine_ok_jset) simp_all
  have "rc_runId c < es_uuid s" "rc_runId c \<notin> recorded s" using engine_ok_runD [OF ok recorded(1,2)] by simp_all
  moreover have "aj_run_id j' \<noteq> Some (rc_runId c)" if "jget (es_jobs ?s) k = Some j'" for k j'
    using that engine_ok_uniqD [OF ok recorded(1,2), of k j'] none by (auto split: if_splits)
  ultimately show ?thesis using engine_ok_record [OF s, of "rc_runId c" "rc_jobId c" "fo_status r"]
    by (simp add: recorded(3) recorded_def)
qed

lemma engine_ok_reap: "engine_ok s \<Longrightarrow> engine_ok (reapOne x s)"
  by (cases x; cases "snd x") (simp_all add: reapOne_def engine_ok_release)

lemma claim_ok_patch:
  assumes "claim_ok j" and "row_check (applyUpdates L u j)"
  shows "claim_ok (applyUpdates L u j)"
proof -
  define j' where "j' = applyUpdates L u j"
  have same: "aj_running_at j' = aj_running_at j" "aj_run_id j' = aj_run_id j"
    "aj_claimed_by j' = aj_claimed_by j" "aj_lease_expires_at j' = aj_lease_expires_at j"
    by (simp_all add: j'_def applyUpdates_def)
  have "aj_status i = Running \<longleftrightarrow> aj_running_at i \<noteq> None" if "row_check i" for i
    using that by (auto simp: row_check_def)
  then have "aj_status j' = Running \<longleftrightarrow> aj_status j = Running"
    using assms same(1) by (simp add: claim_ok_def j'_def)
  then show ?thesis using assms same unfolding claim_ok_def by (simp add: j'_def)
qed

lemma engine_ok_patch:
  assumes ok: "engine_ok s"
  shows "engine_ok (snd (patchJob L now user k existing b s))"
proof (cases "planPatch L now user existing b")
  case (Inl e)
  then show ?thesis using ok by (simp add: patchJob_def)
next
  case (Inr u)
  show ?thesis
  proof (cases rule: db_update_cases [of k "\<lambda>j. True" "applyUpdates L u" "es_jobs s"])
    case none
    then show ?thesis using ok Inr by (simp add: patchJob_def)
  next
    case (one j)
    have "claim_ok (applyUpdates L u j)"
      using engine_ok_rowD [OF ok one(1)] one(3) by (rule claim_ok_patch)
    then have "engine_ok (s\<lparr>es_jobs := jset k (applyUpdates L u j) (es_jobs s)\<rparr>)"
      using ok one(1) by (intro engine_ok_jset) (simp_all add: applyUpdates_def)
    then show ?thesis using Inr one by (simp add: patchJob_def)
  qed
qed

lemma planCreate_unclaimed:
  assumes "planCreate L now user su site b = Inr j"
  shows "aj_status j = Idle \<and> aj_run_id j = None \<and> aj_claimed_by j = None \<and> aj_lease_expires_at j = None"
proof -
  have new: "aj_status (newJob L user b c z n) = Idle \<and> aj_run_id (newJob L user b c z n) = None \<and>
      aj_claimed_by (newJob L user b c z n) = None \<and> aj_lease_expires_at (newJob L user b c z n) = None" for c z n
    by (simp add: newJob_def)
  have "\<exists>c z n. j = newJob L user b c z n"
    using assms unfolding planCreate_def by (simp split: if_split_asm option.split_asm cron_check.split_asm prod.split_asm) blast+
  then show ?thesis using new by auto
qed

lemma engine_ok_create:
  assumes ok: "engine_ok s"
  shows "engine_ok (snd (createJob L now user su site b newId s))"
proof (cases "planCreate L now user su site b")
  case (Inl e)
  then show ?thesis using ok by (simp add: createJob_def)
next
  case (Inr j)
  have "engine_ok (s\<lparr>es_jobs := jset newId j (es_jobs s)\<rparr>)" if "row_check j"
    using that ok planCreate_unclaimed [OF Inr]
    by (intro engine_ok_jset) (simp_all add: claim_ok_def)
  then show ?thesis using Inr ok by (simp add: createJob_def)
qed

lemma engine_ok_fewer_rows:
  assumes ok: "engine_ok s" and sub: "\<And>k j. jget (es_jobs s') k = Some j \<Longrightarrow> jget (es_jobs s) k = Some j"
    and eq: "es_runs s' = es_runs s" "es_uuid s' = es_uuid s"
  shows "engine_ok s'"
proof -
  have rec: "recorded s' = recorded s" by (simp add: recorded_def eq)
  show ?thesis unfolding engine_ok_def rec eq
  proof (intro conjI allI impI)
    show "claim_ok j" if "jget (es_jobs s') k = Some j" for k j
      using engine_ok_rowD [OF ok sub [OF that]] .
    show "r < es_uuid s" "r \<notin> recorded s" if "jget (es_jobs s') k = Some j" "aj_run_id j = Some r" for k j r
      using engine_ok_runD [OF ok sub [OF that(1)] that(2)] by simp_all
    show "k' = k" if "jget (es_jobs s') k = Some j" "aj_run_id j = Some r"
        "jget (es_jobs s') k' = Some j'" "aj_run_id j' = Some r" for k j k' j' r
      using engine_ok_uniqD [OF ok sub [OF that(1)] that(2) sub [OF that(3)] that(4)] .
    show "\<forall>r\<in>recorded s. r < es_uuid s" "distinct (map fst (es_runs s))"
      using ok unfolding engine_ok_def by blast+
  qed
qed

lemma engine_ok_delete:
  assumes ok: "engine_ok s"
  shows "engine_ok (snd (deleteJob user k existing s))"
proof -
  have "engine_ok (s\<lparr>es_jobs := jdel k (es_jobs s)\<rparr>)"
    by (rule engine_ok_fewer_rows [OF ok]) (simp_all split: if_splits)
  then show ?thesis using ok by (simp add: deleteJob_def split: option.split)
qed

lemma engine_ok_step: "engine_step s s' \<Longrightarrow> engine_ok s \<Longrightarrow> engine_ok s'"
  by (induction rule: engine_step.induct)
    (simp_all add: engine_ok_claim engine_ok_claimDue engine_ok_claimEnd engine_ok_heartbeat engine_ok_finish
      engine_ok_reap engine_ok_patch engine_ok_create engine_ok_delete)

lemma engine_ok_reachable: "engine_reachable s \<Longrightarrow> engine_ok s"
proof (induction rule: engine_reachable.induct)
  case start
  show ?case by (simp add: engine_init_def engine_ok_def recorded_def)
next
  case (step s s')
  then show ?case using engine_ok_step by blast
qed

subsection \<open>A run that lost its claim never finishes\<close>

text \<open>The run id \<open>r\<close> has been issued, and no row outside \<open>K\<close> carries it.\<close>

definition gone :: "string set \<Rightarrow> nat \<Rightarrow> engine_state \<Rightarrow> bool" where
  "gone K r s \<longleftrightarrow> r < es_uuid s \<and> (\<forall>k j. k \<notin> K \<longrightarrow> jget (es_jobs s) k = Some j \<longrightarrow> aj_run_id j \<noteq> Some r)"

lemma goneD: "gone K r s \<Longrightarrow> k \<notin> K \<Longrightarrow> jget (es_jobs s) k = Some j \<Longrightarrow> aj_run_id j \<noteq> Some r"
  by (simp add: gone_def)

lemma gone_row:
  assumes "gone K r s" and "es_jobs s' = jset k j' (es_jobs s) \<or> es_jobs s' = es_jobs s"
    and "es_uuid s \<le> es_uuid s'" and "(k \<in> K \<or> aj_run_id j' \<noteq> Some r)"
  shows "gone K r s'"
proof -
  have "aj_run_id j \<noteq> Some r" if "x \<notin> K" "jget (es_jobs s') x = Some j" for x j
    using that assms(2,4) goneD [OF assms(1), of x j] by (auto split: if_splits)
  then show ?thesis using assms(1,3) by (simp add: gone_def)
qed

lemma gone_update:
  assumes "gone K r s" and "\<And>j. p j \<Longrightarrow> aj_run_id j \<noteq> Some r \<Longrightarrow> aj_run_id (f j) \<noteq> Some r"
    and "es_jobs s' = snd (db_update k p f (es_jobs s))" and "es_uuid s \<le> es_uuid s'"
  shows "gone K r s'"
proof (cases rule: db_update_cases [of k p f "es_jobs s"])
  case none
  then show ?thesis using assms by (simp add: gone_def)
next
  case (one j)
  then have "k \<in> K \<or> aj_run_id (f j) \<noteq> Some r" using assms(2) goneD [OF assms(1)] by blast
  then show ?thesis using one assms(3,4) gone_row [OF assms(1), of s' k "f j"] by simp
qed

lemma gone_claimDueRow: "gone K r s \<Longrightarrow> gone K r (claimDueRow now srv k s)"
  by (auto simp: claimDueRow_def Let_def gone_def claimed_def split: option.splits)

lemma gone_claimDue: "gone K r s \<Longrightarrow> gone K r (claim_due_jobs sites now srv limit s)"
proof -
  have "gone K r s \<Longrightarrow> gone K r (fold (claimDueRow now srv) ks s)" for ks
    by (induction ks arbitrary: s) (simp_all add: gone_claimDueRow)
  then show "gone K r s \<Longrightarrow> ?thesis" by (simp add: claim_due_jobs_def)
qed

lemma gone_claim:
  assumes g: "gone K r s"
  shows "gone K r (claimJobBegin now srv lease k job s)"
proof -
  let ?e = "now + (case lease of None \<Rightarrow> timeout_of job + LEASE_BUFFER_SECONDS | Some n \<Rightarrow> n) * 1000"
  let ?u = "db_update k (\<lambda>j. aj_running_at j = None) (claimed now (es_uuid s) srv ?e) (es_jobs s)"
  have ne: "r \<noteq> es_uuid s" using g by (simp add: gone_def)
  let ?s = "claimJobBegin now srv lease k job s"
  have "es_jobs ?s = snd ?u" "es_uuid s \<le> es_uuid ?s"
    by (cases rule: db_update_cases [of k "\<lambda>j. aj_running_at j = None" "claimed now (es_uuid s) srv ?e" "es_jobs s"];
        simp add: claimJobBegin_def Let_def)+
  then show ?thesis by (intro gone_update [OF g, of "\<lambda>j. aj_running_at j = None" "claimed now (es_uuid s) srv ?e" _ k])
      (use ne in \<open>simp_all add: claimed_def\<close>)
qed

lemma gone_release:
  "gone K r s \<Longrightarrow> gone K r (s\<lparr>es_jobs := snd (db_update k p released (es_jobs s))\<rparr>)"
proof -
  assume "gone K r s"
  then show ?thesis
    by (rule gone_update [of K r s p released _ k]) (simp_all add: released_def)
qed

lemma gone_step: "engine_step s s' \<Longrightarrow> gone K r s \<Longrightarrow> gone K r s'"
proof (induction rule: engine_step.induct)
  case (Claim s now serverId lease k job)
  then show ?case by (rule gone_claim)
next
  case (ClaimDue s sites now serverId limit)
  then show ?case by (rule gone_claimDue)
next
  case (ClaimEnd s sites c)
  have "gone K r (s\<lparr>es_claims := cs\<rparr>)" "gone K r (s\<lparr>es_claims := cs, es_contexts := xs\<rparr>)" for cs xs
    using ClaimEnd by (simp_all add: gone_def)
  then show ?case using ClaimEnd gone_release [of K r "s\<lparr>es_claims := remove1 c (es_claims s)\<rparr>"]
    by (simp add: claimJobEnd_def Let_def split: option.split prod.split)
next
  case (Heartbeat c s now)
  show ?case
    by (rule gone_update [OF Heartbeat(2), of "\<lambda>j. aj_run_id j = Some (rc_runId c)"
        "\<lambda>j. j\<lparr>aj_lease_expires_at := Some (now + (rc_timeoutSeconds c + LEASE_BUFFER_SECONDS) * 1000)\<rparr>" _ "rc_jobId c"])
      (simp_all add: extendLease_def Let_def split: prod.split)
next
  case (Finish c s cron now random res)
  show ?case
  proof (cases rule: finishJob_cases [of cron now random c res s])
    case stale
    then show ?thesis using Finish by simp
  next
    case (recorded j)
    show ?thesis by (rule gone_row [OF Finish(2), of _ "rc_jobId c"
          "finished c res (decideFinish cron now random (rc_job c) res) j"])
        (simp_all add: recorded(3), simp add: finished_def)
  qed
next
  case (Reap s x)
  then show ?case by (cases x; cases "snd x") (simp_all add: reapOne_def gone_release)
next
  case (Patch s L now user k existing b)
  show ?case
  proof (cases "planPatch L now user existing b")
    case (Inr u)
    show ?thesis by (rule gone_update [OF Patch, of "\<lambda>j. True" "applyUpdates L u" _ k])
        (simp_all add: patchJob_def Inr applyUpdates_def db_update_def split: prod.split option.split)
  qed (simp add: patchJob_def Patch)
next
  case (Create s L now user isSuperadmin site b newId)
  then show ?case using planCreate_unclaimed
    by (auto simp: createJob_def gone_def split: sum.split)
next
  case (Delete s user k existing)
  then show ?case by (simp add: deleteJob_def gone_def split: option.split)
qed

lemma gone_steps: "engine_step\<^sup>*\<^sup>* s s' \<Longrightarrow> gone K r s \<Longrightarrow> gone K r s'"
  by (induction rule: rtranclp_induct) (simp_all add: gone_step)

text \<open>The run of a context is on the row of its job, if it is anywhere.\<close>

definition ids_ok :: "engine_state \<Rightarrow> bool" where
  "ids_ok s \<longleftrightarrow> (\<forall>c\<in>set (es_claims s) \<union> set (es_contexts s). gone {rc_jobId c} (rc_runId c) s)"

lemma ids_ok_new:
  assumes "engine_ok s" and "ids_ok s" and "\<And>K r. gone K r s \<Longrightarrow> gone K r s'"
    and "es_claims s' = es_claims s @ [c]" and "es_contexts s' = es_contexts s"
    and "es_jobs s' = jset (rc_jobId c) j (es_jobs s)" and "rc_runId c = es_uuid s" and "es_uuid s' = Suc (es_uuid s)"
  shows "ids_ok s'"
proof -
  have "aj_run_id j' \<noteq> Some (es_uuid s)" if "k \<noteq> rc_jobId c" "jget (es_jobs s') k = Some j'" for k j'
    using that engine_ok_runD [OF assms(1), of k j' "es_uuid s"] by (auto simp: assms(6))
  then have "gone {rc_jobId c} (rc_runId c) s'" by (simp add: gone_def assms(7,8))
  then show ?thesis using assms(2-5) by (auto simp: ids_ok_def)
qed

lemma ids_ok_mono:
  assumes "ids_ok s" and "\<And>K r. gone K r s \<Longrightarrow> gone K r s'"
    and "rc_keys ` (set (es_claims s') \<union> set (es_contexts s')) \<subseteq> rc_keys ` (set (es_claims s) \<union> set (es_contexts s))"
    and "rc_keys = (\<lambda>c. (rc_jobId c, rc_runId c))"
  shows "ids_ok s'"
proof -
  have "\<exists>c'\<in>set (es_claims s) \<union> set (es_contexts s). rc_keys c' = rc_keys c"
    if "c \<in> set (es_claims s') \<union> set (es_contexts s')" for c
    using assms(3) that by (metis (no_types, lifting) image_iff subsetD)
  then show ?thesis using assms(1,2) unfolding ids_ok_def assms(4) by (metis prod.inject)
qed

lemma ids_ok_claim:
  assumes "engine_ok s" and "ids_ok s"
  shows "ids_ok (claimJobBegin now srv lease k job s)"
proof -
  let ?e = "now + (case lease of None \<Rightarrow> timeout_of job + LEASE_BUFFER_SECONDS | Some n \<Rightarrow> n) * 1000"
  note mono = gone_claim [of _ _ s now srv lease k job]
  show ?thesis
  proof (cases rule: db_update_cases [of k "\<lambda>j. aj_running_at j = None" "claimed now (es_uuid s) srv ?e" "es_jobs s"])
    case none
    then show ?thesis
      by (intro ids_ok_mono [OF assms(2) mono _ refl]) (simp_all add: claimJobBegin_def Let_def)
  next
    case (one j)
    show ?thesis by (rule ids_ok_new [OF assms mono, of "\<lparr>rc_jobId = k, rc_job = job, rc_hostname = [],
        rc_runId = es_uuid s, rc_claimedAt = now, rc_serverId = srv, rc_timeoutSeconds = timeout_of job\<rparr>"
        "claimed now (es_uuid s) srv ?e j"])
      (simp_all add: claimJobBegin_def Let_def one)
  qed
qed

lemma ids_ok_claimDueRow:
  assumes "engine_ok s" and "ids_ok s"
  shows "ids_ok (claimDueRow now srv k s)"
proof (cases "jget (es_jobs s) k")
  case (Some j)
  let ?j = "claimed now (es_uuid s) srv (now + (timeout_of j + 120) * 1000) j"
  note mono = gone_claimDueRow [of _ _ s now srv k]
  show ?thesis by (rule ids_ok_new [OF assms mono, of "\<lparr>rc_jobId = k, rc_job = ?j, rc_hostname = [],
      rc_runId = es_uuid s, rc_claimedAt = now, rc_serverId = srv, rc_timeoutSeconds = timeout_of j\<rparr>" ?j])
    (simp_all add: claimDueRow_def Let_def Some)
qed (simp add: claimDueRow_def assms)

lemma ids_ok_claimDue: "engine_ok s \<Longrightarrow> ids_ok s \<Longrightarrow> ids_ok (claim_due_jobs sites now srv limit s)"
proof -
  have "engine_ok s \<Longrightarrow> ids_ok s \<Longrightarrow> ids_ok (fold (claimDueRow now srv) ks s)" for ks
    by (induction ks arbitrary: s) (simp_all add: ids_ok_claimDueRow engine_ok_claimDueRow)
  then show "engine_ok s \<Longrightarrow> ids_ok s \<Longrightarrow> ?thesis" by (simp add: claim_due_jobs_def)
qed

lemma ids_ok_step: 
  assumes "engine_step s s'" and "engine_ok s" and "ids_ok s"
  shows "ids_ok s'"
proof -
  have mono: "gone K r s'" if "gone K r s" for K r using gone_step [OF assms(1) that] .
  have same: "ids_ok s'" if "es_claims s' = es_claims s" "es_contexts s' = es_contexts s"
    using that mono assms(3) by (simp add: ids_ok_def)
  show ?thesis using assms(1)
  proof cases
    case Claim
    then show ?thesis using ids_ok_claim assms by simp
  next
    case ClaimDue
    then show ?thesis using ids_ok_claimDue assms by simp
  next
    case (ClaimEnd sites c)
    have "set (remove1 c (es_claims s)) \<subseteq> set (es_claims s)" by (simp add: set_remove1_subset)
    then show ?thesis
      by (intro ids_ok_mono [OF assms(3) mono _ refl])
        (auto simp: ClaimEnd claimJobEnd_def Let_def split: option.split)
  next
    case (Reap x)
    then show ?thesis by (intro same; cases x; cases "snd x") (simp_all add: reapOne_def)
  qed (rule same; simp add: extendLease_def finishJob_def patchJob_def createJob_def deleteJob_def Let_def
      split: prod.split sum.split option.split)+
qed

lemma ids_ok_reachable: "engine_reachable s \<Longrightarrow> ids_ok s"
proof (induction rule: engine_reachable.induct)
  case start
  show ?case by (simp add: engine_init_def ids_ok_def)
next
  case (step s s')
  then show ?case using ids_ok_step engine_ok_reachable by blast
qed

subsection \<open>Properties\<close>

lemma finish_gone:
  assumes s: "engine_reachable s" "c \<in> set (es_contexts s)" and f: "finishJob cron now random c r s = (won, s')"
  shows "gone {} (rc_runId c) s'"
proof -
  have ok: "engine_ok s" by (rule engine_ok_reachable [OF s(1)])
  have key: "gone {rc_jobId c} (rc_runId c) s" using ids_ok_reachable [OF s(1)] s(2) by (simp add: ids_ok_def)
  show ?thesis
  proof (cases won)
    case False
    have "aj_run_id j \<noteq> Some (rc_runId c)" if j: "jget (es_jobs s) (rc_jobId c) = Some j" for j
    proof
      assume r: "aj_run_id j = Some (rc_runId c)"
      have "row_check (finished c r (decideFinish cron now random (rc_job c) r) j)"
        using claim_ok_finished [OF engine_ok_rowD [OF ok j], of "decideFinish cron now random (rc_job c) r" c r]
          decideFinish_status [of cron now random "rc_job c" r] by (auto simp: claim_ok_def)
      then show False using f False j r by (simp add: finishJob_def db_update_def)
    qed
    then have "aj_run_id j \<noteq> Some (rc_runId c)" if "jget (es_jobs s) k = Some j" for k j
      using that goneD [OF key, of k j] by blast
    then have "gone {} (rc_runId c) s" using key by (simp add: gone_def)
    then show ?thesis using f False by (cases rule: finishJob_cases [of cron now random c r s]) simp_all
  next
    case True
    show ?thesis
    proof (cases rule: finishJob_cases [of cron now random c r s])
      case stale
      then show ?thesis using f True by simp
    next
      case (recorded j)
      let ?j = "finished c r (decideFinish cron now random (rc_job c) r) j"
      have n: "aj_run_id ?j = None" by (simp add: finished_def)
      have s': "es_jobs s' = jset (rc_jobId c) ?j (es_jobs s)" "es_uuid s' = es_uuid s" using recorded(3) f by auto
      have "aj_run_id j' \<noteq> Some (rc_runId c)" if "jget (es_jobs s') k = Some j'" for k j'
        using that n goneD [OF key, of k j'] by (auto simp: s' simp del: not_None_eq split: if_splits)
      then show ?thesis using key by (simp add: gone_def s')
    qed
  qed
qed

lemma gone_no_finish: "gone {} (rc_runId c) s \<Longrightarrow> \<not> fst (finishJob cron now random c r s) \<and> \<not> fst (extendLease now' c s)"
  by (auto simp: gone_def finishJob_def extendLease_def db_update_def Let_def split: option.split)

lemma engine_reachable_steps: "engine_step\<^sup>*\<^sup>* s s' \<Longrightarrow> engine_reachable s \<Longrightarrow> engine_reachable s'"
  by (induction rule: rtranclp_induct) (auto intro: engine_reachable.step)

text \<open>
  A concrete run: one hourly job is created, claimed by server \<open>A\<close>, and its site resolves.
\<close>

definition demo_libs :: patch_libs where
  "demo_libs = \<lparr>pl_valid_expr = (\<lambda>e tz. True), pl_cron = (\<lambda>e tz t. Some (if e = ''h'' then t + 3600000 else t + 86400000)),
     pl_known_tz = (\<lambda>z. True), pl_valid_model = (\<lambda>m. True), pl_resolve = (\<lambda>txt tz. None), pl_date_parse = (\<lambda>d. None)\<rparr>"

definition demo_body :: create_body where
  "demo_body = \<lparr>cb_site_id = ''s'', cb_trigger_type = TCron, cb_cron_schedule = Some ''h'', cb_cron_timezone = None,
     cb_schedule_text = None, cb_run_at = None, cb_action_type = ''sync'', cb_action_prompt = None, cb_is_active = True\<rparr>"

definition demo_created :: engine_state where
  "demo_created = snd (createJob demo_libs 1000 ''u'' False (Some ''x.nl'') demo_body ''j'' engine_init)"

definition demo_claimed :: engine_state where
  "demo_claimed = claimJobBegin 2000 ''A'' None ''j'' (the (jget (es_jobs demo_created) ''j'')) demo_created"

definition demo_sites :: site_table where
  "demo_sites sid = (if sid = ''s'' then Some (''x.nl'', ''A'') else None)"

definition demo_running :: engine_state where
  "demo_running = claimJobEnd demo_sites (hd (es_claims demo_claimed)) demo_claimed"

definition demo_context :: run_context where
  "demo_context = hd (es_contexts demo_running)"

definition demo_success :: finish_options where
  "demo_success = \<lparr>fo_status = RunSuccess, fo_durationMs = 5, fo_error = None, fo_maxRetries = None, fo_retryBaseDelayMs = None\<rparr>"

definition demo_failure :: finish_options where
  "demo_failure = \<lparr>fo_status = RunFailure, fo_durationMs = 5, fo_error = None, fo_maxRetries = None, fo_retryBaseDelayMs = None\<rparr>"

lemma demo_reachable: "engine_reachable demo_running"
proof -
  have "engine_reachable demo_created" unfolding demo_created_def
    by (rule engine_reachable.step [OF engine_reachable.start engine_step.Create])
  then have "engine_reachable demo_claimed" unfolding demo_claimed_def
    by (rule engine_reachable.step [OF _ engine_step.Claim])
  then show ?thesis unfolding demo_running_def
    by (rule engine_reachable.step [OF _ engine_step.ClaimEnd])
qed

lemma demo_context_mem: "demo_context \<in> set (es_contexts demo_running)"
  unfolding demo_context_def by (rule hd_in_set) code_simp

text \<open>
  C13. Run ids fence runs off. Whatever happens between (claims of other processes, the reaper,
  edits, deletions), a run records at most one finish; a finish that finds its claim gone
  changes nothing; after any finish, won or lost, no later finish or heartbeat of that run
  succeeds; and no run id is recorded twice.
\<close>

theorem lease_fencing:
  assumes "engine_reachable s" and "c \<in> set (es_contexts s)"
    and "finishJob cron now random c r s = (won, s')" and "engine_step\<^sup>*\<^sup>* s' s''"
  shows "(won \<longrightarrow> rc_runId c \<notin> fst ` set (es_runs s) \<and> rc_runId c \<in> fst ` set (es_runs s')) \<and>
         (\<not> won \<longrightarrow> s' = s) \<and>
         \<not> fst (finishJob cron' now' random' c r' s'') \<and> \<not> fst (extendLease now'' c s'') \<and>
         distinct (map fst (es_runs s''))"
proof -
  have ok: "engine_ok s" by (rule engine_ok_reachable [OF assms(1)])
  have "engine_step s s'" using engine_step.Finish [OF assms(2)] assms(3) by (metis snd_conv)
  then have "engine_reachable s''"
    using engine_reachable_steps [OF assms(4)] engine_reachable.step [OF assms(1)] by blast
  then have "distinct (map fst (es_runs s''))" using engine_ok_reachable by (auto simp: engine_ok_def)
  moreover have "gone {} (rc_runId c) s''" by (rule gone_steps [OF assms(4) finish_gone [OF assms(1-3)]])
  ultimately show ?thesis
    using gone_no_finish [of c s''] assms(3) engine_ok_runD [OF ok]
    by (cases rule: finishJob_cases [of cron now random c r s]) (auto simp: recorded_def)
qed

theorem lease_fencing_witness:
  "\<not> fst (finishJob (pl_cron demo_libs) 9000 0 demo_context demo_failure
       (snd (finishJob (pl_cron demo_libs) 3000 0 demo_context demo_success demo_running))) \<and>
   0 \<in> fst ` set (es_runs (snd (finishJob (pl_cron demo_libs) 3000 0 demo_context demo_success demo_running)))"
proof -
  have w: "finishJob (pl_cron demo_libs) 3000 0 demo_context demo_success demo_running
      = (True, snd (finishJob (pl_cron demo_libs) 3000 0 demo_context demo_success demo_running))"
    by (rule prod_eqI, code_simp, simp)
  have "rc_runId demo_context = 0" by code_simp
  then show ?thesis
    using lease_fencing [OF demo_reachable demo_context_mem w rtranclp.rtrancl_refl, of "pl_cron demo_libs" 9000 0 demo_failure]
    by simp
qed

text \<open>
  C27. The shape of a row. In every reachable state a job is \<open>running\<close> exactly when it has a
  start time, a run id, a claimant and a lease, a schedule exactly when it is a cron job, a
  timeout between ten seconds and an hour, and no other row carries its run id.
\<close>

theorem job_row_type:
  assumes "engine_reachable s" and "jget (es_jobs s) k = Some j"
  shows "(aj_status j = Running \<longleftrightarrow> aj_running_at j \<noteq> None) \<and> (aj_status j = Running \<longleftrightarrow> aj_run_id j \<noteq> None) \<and>
         (aj_status j = Running \<longleftrightarrow> aj_claimed_by j \<noteq> None) \<and>
         (aj_status j = Running \<longleftrightarrow> aj_lease_expires_at j \<noteq> None) \<and>
         (aj_trigger_type j = TCron \<longleftrightarrow> aj_cron_schedule j \<noteq> None) \<and> 10 \<le> timeout_of j \<and> timeout_of j \<le> 3600 \<and>
         (\<forall>k' j' r. jget (es_jobs s) k' = Some j' \<and> aj_run_id j = Some r \<and> aj_run_id j' = Some r \<longrightarrow> k' = k)"
proof -
  have ok: "engine_ok s" by (rule engine_ok_reachable [OF assms(1)])
  have c: "claim_ok j" by (rule engine_ok_rowD [OF ok assms(2)])
  have "10 \<le> timeout_of j \<and> timeout_of j \<le> 3600"
    using c by (auto simp: claim_ok_def row_check_def timeout_of_def split: option.splits)
  moreover have "\<forall>k' j' r. jget (es_jobs s) k' = Some j' \<and> aj_run_id j = Some r \<and> aj_run_id j' = Some r \<longrightarrow> k' = k"
    using engine_ok_uniqD [OF ok assms(2)] by blast
  moreover have "(aj_status j = Running \<longleftrightarrow> aj_running_at j \<noteq> None) \<and> (aj_trigger_type j = TCron \<longleftrightarrow> aj_cron_schedule j \<noteq> None)"
    using c unfolding claim_ok_def row_check_def by auto
  moreover have "(aj_status j = Running \<longleftrightarrow> aj_run_id j \<noteq> None) \<and> (aj_status j = Running \<longleftrightarrow> aj_claimed_by j \<noteq> None) \<and>
      (aj_status j = Running \<longleftrightarrow> aj_lease_expires_at j \<noteq> None)"
    using c unfolding claim_ok_def by blast
  ultimately show ?thesis by blast
qed

theorem job_row_type_witness:
  "aj_run_id (the (jget (es_jobs demo_running) ''j'')) = Some 0 \<and>
   aj_lease_expires_at (the (jget (es_jobs demo_running) ''j'')) \<noteq> None"
proof -
  have j: "jget (es_jobs demo_running) ''j'' = Some (the (jget (es_jobs demo_running) ''j''))" by code_simp
  have r: "aj_run_id (the (jget (es_jobs demo_running) ''j'')) = Some 0" by code_simp
  show ?thesis using job_row_type [OF demo_reachable j] r by (metis option.distinct(1))
qed

subsection \<open>Reaping\<close>

lemma jobs_map_update: "jmap_ok t \<Longrightarrow> jmap_ok (snd (db_update k p f t))"
  by (cases rule: db_update_cases [of k p f t]) simp_all

lemma jobs_map_claimDue: "jmap_ok (es_jobs s) \<Longrightarrow> jmap_ok (es_jobs (claim_due_jobs sites now srv limit s))"
proof -
  have row: "jmap_ok (es_jobs s) \<Longrightarrow> jmap_ok (es_jobs (claimDueRow now srv k s))" for k s
    by (simp add: claimDueRow_def Let_def split: option.split)
  have "jmap_ok (es_jobs s) \<Longrightarrow> jmap_ok (es_jobs (fold (claimDueRow now srv) ks s))" for ks
    by (induction ks arbitrary: s) (simp_all add: row)
  then show "jmap_ok (es_jobs s) \<Longrightarrow> ?thesis" by (simp add: claim_due_jobs_def)
qed

lemma jobs_map_step: "engine_step s s' \<Longrightarrow> jmap_ok (es_jobs s) \<Longrightarrow> jmap_ok (es_jobs s')"
proof (induction rule: engine_step.induct)
  case (Claim s now serverId lease k job)
  then show ?case
    using jobs_map_update [of "es_jobs s"] by (simp add: claimJobBegin_def Let_def split: prod.split) (metis snd_conv)
next
  case (ClaimDue s sites now serverId limit)
  then show ?case by (rule jobs_map_claimDue)
next
  case (ClaimEnd s sites c)
  then show ?case by (simp add: claimJobEnd_def Let_def jobs_map_update split: option.split prod.split)
next
  case (Heartbeat c s now)
  then show ?case
    using jobs_map_update [of "es_jobs s"] by (simp add: extendLease_def Let_def split: prod.split) (metis snd_conv)
next
  case (Finish c s cron now random res)
  then show ?case by (cases rule: finishJob_cases [of cron now random c res s]) simp_all
next
  case (Reap s x)
  then show ?case by (cases x; cases "snd x") (simp_all add: reapOne_def jobs_map_update)
next
  case (Patch s L now user k existing b)
  then show ?case
    using jobs_map_update [of "es_jobs s"] by (simp add: patchJob_def split: sum.split prod.split) (metis snd_conv)
next
  case (Create s L now user isSuperadmin site b newId)
  then show ?case by (simp add: createJob_def split: sum.split)
next
  case (Delete s user k existing)
  then show ?case by (simp add: deleteJob_def split: option.split)
qed

lemma jobs_map_reachable: "engine_reachable s \<Longrightarrow> jmap_ok (es_jobs s)"
proof (induction rule: engine_reachable.induct)
  case start
  show ?case by (simp add: engine_init_def)
next
  case (step s s')
  then show ?case using jobs_map_step by blast
qed

lemma reap_fold:
  assumes "distinct (map fst xs)"
    and "\<And>k r. (k, r) \<in> set xs \<Longrightarrow> \<exists>j. jget (es_jobs s) k = Some j \<and> aj_run_id j = r \<and> r \<noteq> None \<and> claim_ok j"
  shows "jget (es_jobs (fold reapOne xs s)) k =
         map_option (\<lambda>j. if k \<in> fst ` set xs then released j else j) (jget (es_jobs s) k)"
  using assms
proof (induction xs arbitrary: s)
  case Nil
  show ?case by (simp add: option.map_ident)
next
  case (Cons x xs)
  obtain k0 r0 where x: "x = (k0, r0)" by fastforce
  obtain j r where j: "jget (es_jobs s) k0 = Some j" "aj_run_id j = Some r" "r0 = Some r" "claim_ok j"
    using Cons.prems(2) [of k0 r0] x by auto
  have rc: "row_check (released j)" using claim_ok_released [OF j(4)] by (simp add: claim_ok_def)
  have s1: "es_jobs (reapOne x s) = jset k0 (released j) (es_jobs s)"
    using j rc by (simp add: x reapOne_def db_update_def)
  have notin: "k0 \<notin> fst ` set xs" using Cons.prems(1) x by simp
  have "\<exists>i. jget (es_jobs (reapOne x s)) k' = Some i \<and> aj_run_id i = r' \<and> r' \<noteq> None \<and> claim_ok i"
    if "(k', r') \<in> set xs" for k' r'
  proof -
    have "k' \<noteq> k0" using that notin by (metis fst_conv image_eqI)
    then show ?thesis using Cons.prems(2) [of k' r'] that by (simp add: s1)
  qed
  then have "jget (es_jobs (fold reapOne xs (reapOne x s))) k =
      map_option (\<lambda>j. if k \<in> fst ` set xs then released j else j) (jget (es_jobs (reapOne x s)) k)"
    using Cons.IH [of "reapOne x s"] Cons.prems(1) by simp
  then have f: "jget (es_jobs (fold reapOne (x # xs) s)) k =
      map_option (\<lambda>j. if k \<in> fst ` set xs then released j else j) (jget (jset k0 (released j) (es_jobs s)) k)"
    by (simp add: s1)
  show ?case
  proof (cases "k = k0")
    case True
    then show ?thesis using notin j(1) unfolding f by (simp add: x)
  next
    case False
    then show ?thesis unfolding f by (simp add: x)
  qed
qed

text \<open>
  Reaping is exact. In every reachable state, one pass of \<open>reapStaleJobs\<close> releases the
  claim of every active running job of this server whose lease has expired, and changes no
  other row; the fallback for rows without a lease never applies.
\<close>

theorem reap_frees_expired:
  assumes "engine_reachable s"
  shows "jget (es_jobs (reapStaleJobs sites now srv s)) k =
         map_option (\<lambda>j. if is_stale sites now srv j then released j else j) (jget (es_jobs s) k)"
proof -
  have ok: "engine_ok s" by (rule engine_ok_reachable [OF assms])
  have m: "jmap_ok (es_jobs s)" by (rule jobs_map_reachable [OF assms])
  let ?stale = "filter (\<lambda>(k, j). is_stale sites now srv j) (es_jobs s)"
  have row: "claim_ok j" if "(k, j) \<in> set (es_jobs s)" for k j
    using engine_ok_rowD [OF ok] that jget_mem [OF m] by blast
  have "\<not> is_legacy_stale sites now srv j" if "(k, j) \<in> set (es_jobs s)" for k j
    using row [OF that] by (auto simp: claim_ok_def row_check_def is_legacy_stale_def)
  then have legacy: "filter (\<lambda>(k, j). is_legacy_stale sites now srv j) (es_jobs s) = []"
    by (auto simp: filter_empty_conv)
  have sel: "selectStale sites now srv (es_jobs s) = map (\<lambda>(k, j). (k, aj_run_id j)) ?stale"
    by (cases ?stale) (simp_all add: selectStale_def legacy)
  have d: "distinct (map fst (map (\<lambda>(k, j). (k, aj_run_id j)) ?stale))"
  proof -
    have "map fst (map (\<lambda>(k, j). (k, aj_run_id j)) ?stale) = map fst ?stale" by (simp add: case_prod_unfold)
    then show ?thesis using distinct_map_filter [OF m] by metis
  qed
  have "\<exists>j. jget (es_jobs s) k' = Some j \<and> aj_run_id j = r \<and> r \<noteq> None \<and> claim_ok j"
    if m0: "(k', r) \<in> set (map (\<lambda>(k, j). (k, aj_run_id j)) ?stale)" for k' r
  proof -
    obtain j where j: "(k', j) \<in> set (es_jobs s)" "is_stale sites now srv j" "r = aj_run_id j" using m0 by auto
    then have "aj_run_id j \<noteq> None" using row [OF j(1)] unfolding claim_ok_def is_stale_def by blast
    then show ?thesis using j row [OF j(1)] jget_mem [OF m] by auto
  qed
  note f = reap_fold [OF d this, of k]
  have "k \<in> fst ` set (map (\<lambda>(k, j). (k, aj_run_id j)) ?stale) \<longleftrightarrow> is_stale sites now srv j"
    if "jget (es_jobs s) k = Some j" for j
  proof -
    have "k \<in> fst ` set (map (\<lambda>(k, j). (k, aj_run_id j)) ?stale) \<longleftrightarrow> (\<exists>i. (k, i) \<in> set (es_jobs s) \<and> is_stale sites now srv i)"
      by force
    then show ?thesis using that jget_mem [OF m] by (metis option.inject)
  qed
  then show ?thesis using f by (cases "jget (es_jobs s) k") (simp_all add: reapStaleJobs_def sel)
qed

theorem reap_frees_expired_witness:
  "jget (es_jobs (reapStaleJobs demo_sites 10000000 ''A'' demo_running)) ''j'' =
   map_option released (jget (es_jobs demo_running) ''j'')"
proof -
  have "is_stale demo_sites 10000000 ''A'' (the (jget (es_jobs demo_running) ''j''))" by code_simp
  moreover have "jget (es_jobs demo_running) ''j'' \<noteq> None" by code_simp
  ultimately show ?thesis
    using reap_frees_expired [OF demo_reachable, of demo_sites 10000000 "''A''" "''j''"] by auto
qed

subsection \<open>Rescheduling\<close>








text \<open>
  A schedule edited during a run loses its next run. The edit writes the new expression and
  the next run computed from it; the run then finishes with the job as it was read at claim
  time, so \<open>next_run_at\<close> is computed from the old expression and stored beside the new one.
\<close>

theorem finish_overwrites_schedule_change:
  assumes "patchJob L now1 user (rc_jobId c) existing b s = (Inr row, s1)"
    and "aj_run_id row = Some (rc_runId c)"
    and "finishJob cron now2 random c r s1 = (won, s2)" and "fo_status r = RunSuccess"
    and "engine_reachable s" and "has_cron (rc_job c)"
  shows "\<exists>j. jget (es_jobs s2) (rc_jobId c) = Some j \<and> aj_cron_schedule j = aj_cron_schedule row \<and>
             aj_next_run_at j = next_cron_run cron (rc_job c) now2"
proof -
  have ok: "engine_ok s1"
    using engine_ok_step [OF engine_step.Patch engine_ok_reachable [OF assms(5)], of L now1 user "rc_jobId c" existing b] assms(1)
    by simp
  obtain u where u: "planPatch L now1 user existing b = Inr u"
    using assms(1) by (cases "planPatch L now1 user existing b") (simp_all add: patchJob_def)
  have row: "jget (es_jobs s1) (rc_jobId c) = Some row"
    using assms(1) u
    by (cases rule: db_update_cases [of "rc_jobId c" "\<lambda>j. True" "applyUpdates L u" "es_jobs s"])
      (auto simp: patchJob_def)
  have "row_check (finished c r (decideFinish cron now2 random (rc_job c) r) row)"
    using claim_ok_finished [OF engine_ok_rowD [OF ok row], of "decideFinish cron now2 random (rc_job c) r" c r]
      decideFinish_status [of cron now2 random "rc_job c" r] by (auto simp: claim_ok_def)
  then have "jget (es_jobs s2) (rc_jobId c) = Some (finished c r (decideFinish cron now2 random (rc_job c) r) row)"
    using assms(3) row assms(2) by (auto simp: finishJob_def db_update_def Let_def)
  moreover have "aj_trigger_type (rc_job c) = TCron" using assms(6) by (simp add: has_cron_def)
  ultimately show ?thesis using assms(4,6) by (simp add: finished_def decideFinish_def Let_def)
qed

definition demo_edit :: patch_body where
  "demo_edit = \<lparr>pb_cron_schedule = Some (Some ''d''), pb_cron_timezone = None, pb_schedule_text = None, pb_run_at = None,
     pb_action_prompt = None, pb_action_model = None, pb_action_timeout_seconds = None, pb_is_active = None, pb_other_columns = False\<rparr>"

definition demo_edited :: "(patch_error + automation_job) \<times> engine_state" where
  "demo_edited = patchJob demo_libs 2500 ''u'' ''j'' (jget (es_jobs demo_running) ''j'') demo_edit demo_running"

theorem finish_overwrites_schedule_change_witness:
  "\<exists>j. jget (es_jobs (snd (finishJob (pl_cron demo_libs) 3000 0 demo_context demo_success (snd demo_edited)))) ''j'' = Some j \<and>
     aj_cron_schedule j = Some ''d'' \<and> aj_next_run_at j = Some 3603000 \<and>
     map_option aj_next_run_at (jget (es_jobs (snd demo_edited)) ''j'') = Some (Some 86402500)"
proof -
  have k: "rc_jobId demo_context = ''j''" by code_simp
  have p: "patchJob demo_libs 2500 ''u'' (rc_jobId demo_context) (jget (es_jobs demo_running) ''j'') demo_edit demo_running
      = (Inr (projr (fst demo_edited)), snd demo_edited)"
    unfolding k demo_edited_def [symmetric] by (rule prod_eqI, code_simp, simp)
  have r: "aj_run_id (projr (fst demo_edited)) = Some (rc_runId demo_context)" by code_simp
  have sc: "aj_cron_schedule (projr (fst demo_edited)) = Some ''d''" by code_simp
  have n: "next_cron_run (pl_cron demo_libs) (rc_job demo_context) 3000 = Some 3603000" by code_simp
  have h: "has_cron (rc_job demo_context)" by code_simp
  have st: "fo_status demo_success = RunSuccess" by code_simp
  have e: "map_option aj_next_run_at (jget (es_jobs (snd demo_edited)) ''j'') = Some (Some 86402500)" by code_simp
  show ?thesis
    using finish_overwrites_schedule_change [OF p r surjective_pairing st demo_reachable h, of "pl_cron demo_libs" 3000 0] sc n e k
    by auto
qed

end
