(* ===== verification/EnvIsolation.thy ===== *)
theory EnvIsolation
  imports Prelude
begin

section \<open>Environment isolation\<close>

text \<open>
  The environments of workers and workspace processes:
  \<open>packages/worker-pool/src/env-isolation.ts\<close> (what a worker is spawned with, and what each
  request does to \<open>process.env\<close>) and \<open>apps/web/lib/workspace-execution/sandbox-env.ts\<close>.
  An environment is a map from names to strings; \<open>undefined\<close> is absence.
\<close>

type_synonym env = "(string, string) jsmap"

subsection \<open>Spawning\<close>

definition E2B_INFRASTRUCTURE_ENV_KEYS :: "string list" where
  "E2B_INFRASTRUCTURE_ENV_KEYS =
     [''E2B_API_KEY'', ''E2B_DOMAIN'', ''SUPABASE_URL'', ''NEXT_PUBLIC_SUPABASE_URL'', ''SUPABASE_SERVICE_ROLE_KEY'']"

definition WORKER_SPAWN_ALLOWED_ENV_KEYS :: "string list" where
  "WORKER_SPAWN_ALLOWED_ENV_KEYS =
     [''PATH'', ''HOME'', ''LANG'', ''LC_ALL'', ''NODE_ENV'', ''TMPDIR'', ''TMP'', ''TEMP'', ''BUN_INSTALL'',
      ''NODE_PATH'', ''CLAUDE_CONFIG_DIR'', ''CLAUDECODE'', ''PORT'', ''BRIDGE_API_PORT'', ''INTERNAL_TOOLS_SECRET'',
      ''WORKSPACE_BASE'', ''ALIVE_ENV'', ''SERVER_CONFIG_PATH''] @ E2B_INFRASTRUCTURE_ENV_KEYS"

fun copy_allowed :: "string list \<Rightarrow> env \<Rightarrow> env \<Rightarrow> env" where
  "copy_allowed [] parent acc = acc"
| "copy_allowed (k # ks) parent acc =
     copy_allowed ks parent (case jget parent k of None \<Rightarrow> acc | Some v \<Rightarrow> jset k v acc)"

text \<open>\<open>env.k ??= v\<close>.\<close>

definition set_default :: "string \<Rightarrow> string \<Rightarrow> env \<Rightarrow> env" where
  "set_default k v m = (case jget m k of None \<Rightarrow> jset k v m | Some w \<Rightarrow> m)"

text \<open>\<open>Object.assign\<close>.\<close>

definition assign :: "env \<Rightarrow> env \<Rightarrow> env" where
  "assign m extras = fold (\<lambda>(k, v). jset k v) extras m"

definition createWorkerSpawnEnv :: "env \<Rightarrow> env \<Rightarrow> env" where
  "createWorkerSpawnEnv parent extras =
     (let e0 = copy_allowed WORKER_SPAWN_ALLOWED_ENV_KEYS parent [];
          e1 = set_default ''TEMP'' ''/tmp'' (set_default ''TMP'' ''/tmp'' (set_default ''TMPDIR'' ''/tmp'' e0));
          e2 = (if jget parent ''VITEST'' = Some ''true''
                then (case jget parent ''TEST_WORKER_MODE'' of None \<Rightarrow> e1 | Some v \<Rightarrow> jset ''TEST_WORKER_MODE'' v e1)
                else e1)
      in assign e2 extras)"

definition ALLOWED_ENV_KEYS :: "string list" where
  "ALLOWED_ENV_KEYS =
     [''PATH'', ''LANG'', ''LC_ALL'', ''NODE_ENV'', ''TMPDIR'', ''TMP'', ''TEMP'', ''BUN_INSTALL'',
      ''PORT'', ''BRIDGE_API_PORT'', ''INTERNAL_TOOLS_SECRET'']"

definition createSandboxEnv :: "env \<Rightarrow> env" where
  "createSandboxEnv parent =
     jset ''TEMP'' ''/tmp'' (jset ''TMP'' ''/tmp'' (jset ''TMPDIR'' ''/tmp'' (copy_allowed ALLOWED_ENV_KEYS parent [])))"

subsection \<open>Requests\<close>

record env_payload =
  ep_sessionCookie :: "string option"
  ep_oauthAccessToken :: string
  ep_userEnvKeys :: "env option"

definition RESERVED_USER_ENV_KEYS :: "string list" where
  "RESERVED_USER_ENV_KEYS =
     [''ANTHROPIC_API_KEY'', ''ANTH_API_SECRET'', ''ASK_LARS_KEY'', ''JWT_SECRET'', ''LOCKBOX_MASTER_KEY'']"

text \<open>The pattern \<open>[A-Z][A-Z0-9_]*\<close> over a whole name.\<close>

definition valid_user_env_key :: "string \<Rightarrow> bool" where
  "valid_user_env_key k =
     (case k of [] \<Rightarrow> False
      | c # cs \<Rightarrow> is_upper_ascii c \<and> list_all (\<lambda>d. is_upper_ascii d \<or> is_digit_ascii d \<or> d = CHR ''_'') cs)"

definition clear_user_keys :: "env \<Rightarrow> env" where
  "clear_user_keys m = fold (\<lambda>k m. if starts_with ''USER_'' k then jdel k m else m) (jkeys m) m"

fun apply_user_keys :: "env \<Rightarrow> nat \<Rightarrow> env \<Rightarrow> nat \<times> env" where
  "apply_user_keys [] appliedCount m = (appliedCount, m)"
| "apply_user_keys ((k, v) # ks) appliedCount m =
     (if \<not> valid_user_env_key k then apply_user_keys ks appliedCount m
      else if k \<in> set RESERVED_USER_ENV_KEYS then apply_user_keys ks appliedCount m
      else apply_user_keys ks (Suc appliedCount) (jset (''USER_'' @ k) v m))"

datatype env_failure = TokenRequired

text \<open>The result and the environment afterwards; the variables set before the throw stay set.\<close>

definition prepareRequestEnv :: "env_payload \<Rightarrow> env \<Rightarrow> (env_failure + nat) \<times> env" where
  "prepareRequestEnv p m0 =
     (let m1 = jset ''ALIVE_SESSION_COOKIE'' (case ep_sessionCookie p of None \<Rightarrow> [] | Some c \<Rightarrow> c) m0;
          m2 = jset ''ANTHROPIC_AUTH_TOKEN'' [] m1;
          m3 = jset ''CLAUDE_CODE_API_KEY_FILE_DESCRIPTOR'' [] m2;
          m4 = jset ''CLAUDE_CODE_OAUTH_TOKEN_FILE_DESCRIPTOR'' [] m3;
          m5 = jset ''ANTHROPIC_API_KEY'' [] m4
      in if ep_oauthAccessToken p = [] then (Inl TokenRequired, m5)
         else let m6 = jset ''CLAUDE_CODE_OAUTH_TOKEN'' (ep_oauthAccessToken p) m5;
                  m7 = clear_user_keys m6;
                  (n, m8) = apply_user_keys (case ep_userEnvKeys p of None \<Rightarrow> [] | Some ks \<Rightarrow> ks) 0 m7
              in (Inr n, m8))"

subsection \<open>Lookups\<close>

lemma copy_allowed_get:
  "jget (copy_allowed ks parent acc) k =
     (if k \<in> set ks \<and> jget parent k \<noteq> None then jget parent k else jget acc k)"
  by (induction ks arbitrary: acc) (auto split: option.split)

lemma set_default_get: "jget (set_default k v m) k' = (if k' = k \<and> jget m k = None then Some v else jget m k')"
  by (simp add: set_default_def split: option.split)

lemma assign_absent: "k \<notin> fst ` set xs \<Longrightarrow> jget (fold (\<lambda>(k, v). jset k v) xs m) k = jget m k"
  by (induction xs arbitrary: m) auto

lemma assign_get:
  "distinct (jkeys extras) \<Longrightarrow> jget (assign m extras) k = (case jget extras k of None \<Rightarrow> jget m k | Some v \<Rightarrow> Some v)"
  unfolding assign_def
proof (induction extras arbitrary: m)
  case (Cons e es)
  obtain k0 v0 where e: "e = (k0, v0)" by fastforce
  show ?case
  proof (cases "k = k0")
    case True
    then have "jget es k = None" using Cons.prems by (simp add: e map_of_eq_None_iff)
    then show ?thesis using Cons True by (simp add: e)
  next
    case False
    then show ?thesis using Cons by (simp add: e split: option.split)
  qed
qed simp

lemma clear_fold_get:
  "jget (fold (\<lambda>k m. if starts_with ''USER_'' k then jdel k m else m) ks m) k =
     (if k \<in> set ks \<and> starts_with ''USER_'' k then None else jget m k)"
  by (induction ks arbitrary: m) auto

lemma clear_user_keys_get [simp]: "jget (clear_user_keys m) k = (if starts_with ''USER_'' k then None else jget m k)"
proof (cases "k \<in> set (jkeys m)")
  case False
  then have "jget m k = None" by (simp add: map_of_eq_None_iff)
  then show ?thesis by (simp add: clear_user_keys_def clear_fold_get)
qed (simp add: clear_user_keys_def clear_fold_get)

definition injected :: "env \<Rightarrow> string \<Rightarrow> string option" where
  "injected ks k =
     (if starts_with ''USER_'' k \<and> valid_user_env_key (drop 5 k) \<and> drop 5 k \<notin> set RESERVED_USER_ENV_KEYS
      then jget ks (drop 5 k) else None)"

lemma apply_user_keys_get:
  assumes "distinct (jkeys ks)"
  shows "jget (snd (apply_user_keys ks n m)) k = (case injected ks k of None \<Rightarrow> jget m k | Some v \<Rightarrow> Some v)"
  using assms
proof (induction ks arbitrary: n m)
  case (Cons e ks)
  obtain k0 v0 where e: "e = (k0, v0)" by fastforce
  have ks: "distinct (jkeys ks)" "jget ks k0 = None" using Cons.prems by (simp_all add: e map_of_eq_None_iff)
  have u: "k = ''USER_'' @ k0 \<longleftrightarrow> starts_with ''USER_'' k \<and> drop 5 k = k0"
    by (auto simp: starts_with_iff)
  show ?case
    using Cons.IH [OF ks(1)] ks(2) u by (auto simp: e injected_def split: option.split)
qed (simp add: injected_def)

text \<open>What a successful request leaves in the environment.\<close>

definition request_view :: "env_payload \<Rightarrow> env \<Rightarrow> string \<Rightarrow> string option" where
  "request_view p m k =
     (if k = ''ALIVE_SESSION_COOKIE'' then Some (case ep_sessionCookie p of None \<Rightarrow> [] | Some c \<Rightarrow> c)
      else if k \<in> {''ANTHROPIC_AUTH_TOKEN'', ''CLAUDE_CODE_API_KEY_FILE_DESCRIPTOR'',
                   ''CLAUDE_CODE_OAUTH_TOKEN_FILE_DESCRIPTOR'', ''ANTHROPIC_API_KEY''} then Some []
      else if k = ''CLAUDE_CODE_OAUTH_TOKEN'' then Some (ep_oauthAccessToken p)
      else if starts_with ''USER_'' k then injected (case ep_userEnvKeys p of None \<Rightarrow> [] | Some ks \<Rightarrow> ks) k
      else jget m k)"

lemma prepareRequestEnv_get:
  assumes "ep_oauthAccessToken p \<noteq> []" and "\<forall>ks\<in>set_option (ep_userEnvKeys p). distinct (jkeys ks)"
  shows "jget (snd (prepareRequestEnv p m)) k = request_view p m k"
proof -
  define ks where "ks = (case ep_userEnvKeys p of None \<Rightarrow> [] | Some ks \<Rightarrow> ks)"
  have d: "distinct (jkeys ks)" using assms(2) by (auto simp: ks_def split: option.split)
  have u: "\<not> starts_with ''USER_'' ''ALIVE_SESSION_COOKIE''" "\<not> starts_with ''USER_'' ''ANTHROPIC_AUTH_TOKEN''"
    "\<not> starts_with ''USER_'' ''CLAUDE_CODE_API_KEY_FILE_DESCRIPTOR''"
    "\<not> starts_with ''USER_'' ''CLAUDE_CODE_OAUTH_TOKEN_FILE_DESCRIPTOR''"
    "\<not> starts_with ''USER_'' ''ANTHROPIC_API_KEY''" "\<not> starts_with ''USER_'' ''CLAUDE_CODE_OAUTH_TOKEN''"
    by code_simp+
  have i: "\<not> starts_with ''USER_'' k \<Longrightarrow> injected ks k = None" by (simp add: injected_def)
  have step: "jget (snd (prepareRequestEnv p m)) k = (case injected ks k of None \<Rightarrow> (if starts_with ''USER_'' k then None else
      if k = ''CLAUDE_CODE_OAUTH_TOKEN'' then Some (ep_oauthAccessToken p)
      else if k = ''ANTHROPIC_API_KEY'' then Some []
      else if k = ''CLAUDE_CODE_OAUTH_TOKEN_FILE_DESCRIPTOR'' then Some []
      else if k = ''CLAUDE_CODE_API_KEY_FILE_DESCRIPTOR'' then Some []
      else if k = ''ANTHROPIC_AUTH_TOKEN'' then Some []
      else if k = ''ALIVE_SESSION_COOKIE'' then Some (case ep_sessionCookie p of None \<Rightarrow> [] | Some c \<Rightarrow> c)
      else jget m k) | Some v \<Rightarrow> Some v)"
    using assms(1)
    by (simp only: prepareRequestEnv_def Let_def if_False ks_def [symmetric] split_beta snd_conv
        apply_user_keys_get [OF d] clear_user_keys_get jget_jset)
  show ?thesis
  proof (cases "starts_with ''USER_'' k")
    case True
    then have "k \<noteq> ''ALIVE_SESSION_COOKIE''" "k \<notin> {''ANTHROPIC_AUTH_TOKEN'', ''CLAUDE_CODE_API_KEY_FILE_DESCRIPTOR'',
        ''CLAUDE_CODE_OAUTH_TOKEN_FILE_DESCRIPTOR'', ''ANTHROPIC_API_KEY''}" "k \<noteq> ''CLAUDE_CODE_OAUTH_TOKEN''"
      using u by auto
    then show ?thesis unfolding step request_view_def ks_def [symmetric] using True by (simp split: option.split)
  next
    case False
    show ?thesis unfolding step request_view_def ks_def [symmetric] using False i [OF False]
      by (cases "k = ''CLAUDE_CODE_OAUTH_TOKEN''"; cases "k = ''ALIVE_SESSION_COOKIE''") simp_all
  qed
qed

subsection \<open>The Claude subprocess\<close>

text \<open>
  \<open>sdkEnv\<close> of \<open>worker-entry.mjs\<close>: the request's environment without the infrastructure keys;
  \<open>probeOk\<close> says whether the logging proxy answered its health check.
\<close>

definition sdkEnv :: "bool \<Rightarrow> env \<Rightarrow> env" where
  "sdkEnv probeOk m =
     (let e0 = filter (\<lambda>(k, v). k \<notin> set E2B_INFRASTRUCTURE_ENV_KEYS) m;
          e1 = jset ''CLAUDE_CODE_DISABLE_NONESSENTIAL_TRAFFIC'' ''1'' e0
      in case jget m ''SDK_LOG_PROXY_URL'' of
           None \<Rightarrow> e1
         | Some url \<Rightarrow> if jget m ''ENABLE_SDK_LOG_PROXY'' = Some ''1'' \<and> url \<noteq> [] \<and> probeOk
                        then jset ''ANTHROPIC_BASE_URL'' url e1 else e1)"

definition sdk_view :: "bool \<Rightarrow> (string \<Rightarrow> string option) \<Rightarrow> string \<Rightarrow> string option" where
  "sdk_view probeOk f k =
     (if k = ''ANTHROPIC_BASE_URL'' \<and> f ''ENABLE_SDK_LOG_PROXY'' = Some ''1'' \<and> probeOk \<and>
         f ''SDK_LOG_PROXY_URL'' \<notin> {None, Some []} then f ''SDK_LOG_PROXY_URL''
      else if k = ''CLAUDE_CODE_DISABLE_NONESSENTIAL_TRAFFIC'' then Some ''1''
      else if k \<in> set E2B_INFRASTRUCTURE_ENV_KEYS then None else f k)"

lemma filter_key_get: "jget (filter (\<lambda>(k, v). P k) m) k = (if P k then jget m k else None)"
  by (induction m) auto

lemma sdkEnv_get: "jget (sdkEnv probeOk m) k = sdk_view probeOk (jget m) k"
proof -
  have f: "jget (filter (\<lambda>(k, v). k \<notin> set E2B_INFRASTRUCTURE_ENV_KEYS) m) k =
      (if k \<notin> set E2B_INFRASTRUCTURE_ENV_KEYS then jget m k else None)"
    by (rule filter_key_get)
  define A B where "A = ''ANTHROPIC_BASE_URL''" and "B = ''CLAUDE_CODE_DISABLE_NONESSENTIAL_TRAFFIC''"
  show ?thesis
    unfolding sdkEnv_def sdk_view_def Let_def A_def [symmetric] B_def [symmetric]
    by (cases "jget m ''SDK_LOG_PROXY_URL''") (simp_all add: f)
qed

lemma apply_user_keys_other: "\<not> starts_with ''USER_'' k \<Longrightarrow> jget (snd (apply_user_keys ks n m)) k = jget m k"
  by (induction ks n m rule: apply_user_keys.induct) (auto simp: starts_with_iff)

definition REQUEST_KEYS :: "string list" where
  "REQUEST_KEYS = [''ALIVE_SESSION_COOKIE'', ''ANTHROPIC_AUTH_TOKEN'', ''CLAUDE_CODE_API_KEY_FILE_DESCRIPTOR'',
     ''CLAUDE_CODE_OAUTH_TOKEN_FILE_DESCRIPTOR'', ''ANTHROPIC_API_KEY'', ''CLAUDE_CODE_OAUTH_TOKEN'']"

lemma prepareRequestEnv_other:
  assumes "k \<notin> set REQUEST_KEYS" and "\<not> starts_with ''USER_'' k"
  shows "jget (snd (prepareRequestEnv q m)) k = jget m k"
proof -
  have ne: "k \<noteq> ''ALIVE_SESSION_COOKIE''" "k \<noteq> ''ANTHROPIC_AUTH_TOKEN''" "k \<noteq> ''CLAUDE_CODE_API_KEY_FILE_DESCRIPTOR''"
    "k \<noteq> ''CLAUDE_CODE_OAUTH_TOKEN_FILE_DESCRIPTOR''" "k \<noteq> ''ANTHROPIC_API_KEY''" "k \<noteq> ''CLAUDE_CODE_OAUTH_TOKEN''"
    using assms(1) unfolding REQUEST_KEYS_def by simp_all
  show ?thesis
    by (cases "ep_oauthAccessToken q = []")
      (simp_all add: prepareRequestEnv_def Let_def split_beta apply_user_keys_other [OF assms(2)] assms(2) ne)
qed

lemma earlier_requests_other:
  assumes "k \<notin> set REQUEST_KEYS" and "\<not> starts_with ''USER_'' k"
  shows "jget (fold (\<lambda>q m. snd (prepareRequestEnv q m)) earlier m) k = jget m k"
  using prepareRequestEnv_other [OF assms] by (induction earlier arbitrary: m) simp_all

lemma request_view_same:
  assumes "k \<in> set REQUEST_KEYS \<or> starts_with ''USER_'' k"
  shows "request_view p m k = request_view p m' k"
proof -
  have "request_view p m k = request_view p m' k" if "k \<in> set REQUEST_KEYS"
    using that by (simp add: REQUEST_KEYS_def) (elim disjE; simp add: request_view_def)
  moreover have "request_view p m k = request_view p m' k" if "starts_with ''USER_'' k"
    unfolding request_view_def by (simp only: that if_True)
  ultimately show ?thesis using assms by blast
qed

text \<open>
  C22. Requests of different users do not see each other. Whatever requests a worker has served
  before, failed ones included, the subprocess of the next request gets the very environment it
  would get in a fresh worker: session cookie, token and user variables come from its own
  payload alone, the other credential variables are empty, and the infrastructure secrets of
  the worker are absent.
\<close>

theorem request_env_isolated:
  fixes m :: env and earlier :: "env_payload list"
  assumes "ep_oauthAccessToken p \<noteq> []" and "\<forall>ks\<in>set_option (ep_userEnvKeys p). distinct (jkeys ks)"
  defines "used \<equiv> snd (prepareRequestEnv p (fold (\<lambda>q m. snd (prepareRequestEnv q m)) earlier m))"
  shows "jget (sdkEnv probeOk used) k = jget (sdkEnv probeOk (snd (prepareRequestEnv p m))) k \<and>
         jget (sdkEnv probeOk used) k = sdk_view probeOk (request_view p m) k \<and>
         (k \<in> set E2B_INFRASTRUCTURE_ENV_KEYS \<longrightarrow> jget (sdkEnv probeOk used) k = None)"
proof -
  have view: "request_view p (fold (\<lambda>q m. snd (prepareRequestEnv q m)) earlier m) = request_view p m"
  proof
    fix x
    show "request_view p (fold (\<lambda>q m. snd (prepareRequestEnv q m)) earlier m) x = request_view p m x"
    proof (cases "x \<notin> set REQUEST_KEYS \<and> \<not> starts_with ''USER_'' x")
      case True
      then show ?thesis by (simp add: request_view_def earlier_requests_other)
    next
      case False
      then show ?thesis by (intro request_view_same) blast
    qed
  qed
  have "jget used = request_view p m"
    unfolding used_def using prepareRequestEnv_get [OF assms(1,2)] view by presburger
  moreover have "jget (snd (prepareRequestEnv p m)) = request_view p m"
    using prepareRequestEnv_get [OF assms(1,2)] by presburger
  moreover have "k \<in> set E2B_INFRASTRUCTURE_ENV_KEYS \<Longrightarrow>
      k \<noteq> ''ANTHROPIC_BASE_URL'' \<and> k \<noteq> ''CLAUDE_CODE_DISABLE_NONESSENTIAL_TRAFFIC''"
    by (simp add: E2B_INFRASTRUCTURE_ENV_KEYS_def) (elim disjE; simp)
  ultimately show ?thesis by (simp add: sdkEnv_get sdk_view_def)
qed

theorem request_env_isolated_witness:
  "jget (sdkEnv False (snd (prepareRequestEnv \<lparr>ep_sessionCookie = None, ep_oauthAccessToken = ''t2'', ep_userEnvKeys = None\<rparr>
      (fold (\<lambda>q m. snd (prepareRequestEnv q m))
        [\<lparr>ep_sessionCookie = Some ''c1'', ep_oauthAccessToken = ''t1'', ep_userEnvKeys = Some [(''STRIPE'', ''s1'')]\<rparr>]
        [(''PATH'', ''/bin'')])))) ''USER_STRIPE'' = None"
proof -
  have "jget (sdkEnv False (snd (prepareRequestEnv \<lparr>ep_sessionCookie = None, ep_oauthAccessToken = ''t2'', ep_userEnvKeys = None\<rparr>
      [(''PATH'', ''/bin'')]))) ''USER_STRIPE'' = None" by code_simp
  then show ?thesis
    using request_env_isolated [of "\<lparr>ep_sessionCookie = None, ep_oauthAccessToken = ''t2'', ep_userEnvKeys = None\<rparr>"
        False "[\<lparr>ep_sessionCookie = Some ''c1'', ep_oauthAccessToken = ''t1'', ep_userEnvKeys = Some [(''STRIPE'', ''s1'')]\<rparr>]"
        "[(''PATH'', ''/bin'')]" "''USER_STRIPE''"] by simp
qed

text \<open>
  What a worker is spawned with: exactly the allowed variables of the parent, the defaults
  for the temporary directories, the test flag under the test runner, and the caller's extras
  on top. In particular the Supabase service key passes whenever the parent has it.
\<close>

theorem spawn_env_exact:
  assumes "distinct (jkeys extras)"
  shows "jget (createWorkerSpawnEnv parent extras) k =
    (case jget extras k of Some v \<Rightarrow> Some v
     | None \<Rightarrow>
         if k = ''TEST_WORKER_MODE'' \<and> jget parent ''VITEST'' = Some ''true'' then jget parent k
         else if k \<in> set WORKER_SPAWN_ALLOWED_ENV_KEYS \<and> jget parent k \<noteq> None then jget parent k
         else if k \<in> {''TMPDIR'', ''TMP'', ''TEMP''} then Some ''/tmp'' else None)"
proof -
  have t: "''TEST_WORKER_MODE'' \<notin> set WORKER_SPAWN_ALLOWED_ENV_KEYS" by code_simp
  have tmp: "''TMPDIR'' \<in> set WORKER_SPAWN_ALLOWED_ENV_KEYS" "''TMP'' \<in> set WORKER_SPAWN_ALLOWED_ENV_KEYS"
    "''TEMP'' \<in> set WORKER_SPAWN_ALLOWED_ENV_KEYS" by code_simp+
  show ?thesis
    unfolding createWorkerSpawnEnv_def Let_def assign_get [OF assms]
    using t tmp
    by (cases "jget extras k"; cases "k = ''TEST_WORKER_MODE''"; cases "jget parent ''TEST_WORKER_MODE''")
      (simp_all add: set_default_get copy_allowed_get)
qed

theorem spawn_env_exact_witness:
  "jget (createWorkerSpawnEnv [(''SUPABASE_SERVICE_ROLE_KEY'', ''x''), (''DATABASE_URL'', ''y'')] []) ''SUPABASE_SERVICE_ROLE_KEY'' = Some ''x'' \<and>
   jget (createWorkerSpawnEnv [(''SUPABASE_SERVICE_ROLE_KEY'', ''x''), (''DATABASE_URL'', ''y'')] []) ''DATABASE_URL'' = None"
proof -
  have "''SUPABASE_SERVICE_ROLE_KEY'' \<in> set WORKER_SPAWN_ALLOWED_ENV_KEYS" "''DATABASE_URL'' \<notin> set WORKER_SPAWN_ALLOWED_ENV_KEYS"
    by code_simp+
  then show ?thesis
    using spawn_env_exact [of "[]" "[(''SUPABASE_SERVICE_ROLE_KEY'', ''x''), (''DATABASE_URL'', ''y'')]" "''SUPABASE_SERVICE_ROLE_KEY''"]
      spawn_env_exact [of "[]" "[(''SUPABASE_SERVICE_ROLE_KEY'', ''x''), (''DATABASE_URL'', ''y'')]" "''DATABASE_URL''"]
    by simp
qed

end
