(* ===== verification/CircuitBreaker.thy ===== *)
theory CircuitBreaker
  imports Prelude
begin

section \<open>The Redis circuit breaker\<close>

text \<open>
  The circuit breaker and the shared client of \<open>packages/redis/src/index.ts\<close>. Every operation
  takes the clock; clients are numbered as they are created.
\<close>

subsection \<open>The breaker\<close>

datatype circuit_state = Closed | Open | HalfOpen

record breaker =
  cb_state :: circuit_state
  cb_failures :: "int list"
  cb_openedAt :: "int option"

definition new_breaker :: breaker where
  "new_breaker = \<lparr>cb_state = Closed, cb_failures = [], cb_openedAt = None\<rparr>"

definition FAILURE_THRESHOLD :: nat where
  "FAILURE_THRESHOLD = 5"

definition FAILURE_WINDOW_MS :: int where
  "FAILURE_WINDOW_MS = 30000"

definition OPEN_DURATION_MS :: int where
  "OPEN_DURATION_MS = 10000"

definition maybeTransitionToHalfOpen :: "int \<Rightarrow> breaker \<Rightarrow> breaker" where
  "maybeTransitionToHalfOpen now b =
     (if cb_state b = Open
      then (case cb_openedAt b of
              None \<Rightarrow> b
            | Some t \<Rightarrow> if now - t \<ge> OPEN_DURATION_MS then b\<lparr>cb_state := HalfOpen\<rparr> else b)
      else b)"

definition isOpen :: "int \<Rightarrow> breaker \<Rightarrow> bool \<times> breaker" where
  "isOpen now b = (let b' = maybeTransitionToHalfOpen now b in (cb_state b' = Open, b'))"

definition getStatus :: "int \<Rightarrow> breaker \<Rightarrow> (circuit_state \<times> nat \<times> int option \<times> int option) \<times> breaker" where
  "getStatus now b =
     (let b' = maybeTransitionToHalfOpen now b;
          n = length (cb_failures b')
      in ((cb_state b', n, (if n > 0 then Some (cb_failures b' ! (n - 1)) else None), cb_openedAt b'), b'))"

definition recordSuccess :: "breaker \<Rightarrow> breaker" where
  "recordSuccess b =
     (if cb_state b = HalfOpen \<or> cb_state b = Closed
      then b\<lparr>cb_state := Closed, cb_failures := [], cb_openedAt := None\<rparr> else b)"

definition recordFailure :: "int \<Rightarrow> breaker \<Rightarrow> breaker" where
  "recordFailure now b =
     (if cb_state b = HalfOpen then b\<lparr>cb_state := Open, cb_openedAt := Some now\<rparr>
      else let cutoff = now - FAILURE_WINDOW_MS;
               fs = filter (\<lambda>t. t > cutoff) (cb_failures b) @ [now]
           in if length fs \<ge> FAILURE_THRESHOLD
              then b\<lparr>cb_failures := fs, cb_state := Open, cb_openedAt := Some now\<rparr>
              else b\<lparr>cb_failures := fs\<rparr>)"

subsection \<open>The shared client\<close>

record redis_shared =
  sh_client :: "nat option"
  sh_url :: "string option"
  sh_breaker :: breaker
  sh_next :: nat
  sh_disconnected :: "nat list"
  sh_authErrors :: "nat \<Rightarrow> nat"

definition MAX_AUTH_ERRORS :: nat where
  "MAX_AUTH_ERRORS = 3"

definition getSharedClient :: "int \<Rightarrow> string option \<Rightarrow> redis_shared \<Rightarrow> nat option \<times> redis_shared" where
  "getSharedClient now redisUrl s =
     (case redisUrl of
        None \<Rightarrow> (None, s)
      | Some url \<Rightarrow>
          (let (closed_off, b) = isOpen now (sh_breaker s);
               s0 = s\<lparr>sh_breaker := b\<rparr>
           in if closed_off then (None, s0)
              else if sh_client s0 \<noteq> None \<and> sh_url s0 = Some url then (sh_client s0, s0)
              else let s1 = (case sh_client s0 of None \<Rightarrow> s0
                             | Some c \<Rightarrow> s0\<lparr>sh_disconnected := sh_disconnected s0 @ [c]\<rparr>);
                       c = sh_next s1
                   in (Some c, s1\<lparr>sh_client := Some c, sh_url := Some url, sh_next := c + 1,
                                  sh_authErrors := (sh_authErrors s1)(c := 0)\<rparr>)))"

text \<open>The error and ready events of a client, and its retry delay (\<open>None\<close>: stop retrying).\<close>

definition is_auth_error :: "string \<Rightarrow> bool" where
  "is_auth_error msg \<longleftrightarrow> list_ex (\<lambda>code. str_includes code msg) [''WRONGPASS'', ''NOAUTH'', ''ERR invalid password'']"

definition clientError :: "nat \<Rightarrow> string \<Rightarrow> redis_shared \<Rightarrow> redis_shared" where
  "clientError c msg s =
     (if is_auth_error msg
      then let n = sh_authErrors s c + 1;
               s1 = s\<lparr>sh_authErrors := (sh_authErrors s)(c := n)\<rparr>
           in if n \<ge> MAX_AUTH_ERRORS then s1\<lparr>sh_disconnected := sh_disconnected s1 @ [c]\<rparr> else s1
      else s)"

definition clientReady :: "nat \<Rightarrow> redis_shared \<Rightarrow> redis_shared" where
  "clientReady c s = s\<lparr>sh_authErrors := (sh_authErrors s)(c := 0)\<rparr>"

definition retryStrategy :: "nat \<Rightarrow> redis_shared \<Rightarrow> nat \<Rightarrow> nat option" where
  "retryStrategy c s attempt = (if sh_authErrors s c \<ge> MAX_AUTH_ERRORS then None else Some (min (attempt * 50) 2000))"

definition resetSharedClient :: "redis_shared \<Rightarrow> redis_shared" where
  "resetSharedClient s =
     s\<lparr>sh_disconnected := sh_disconnected s @ (case sh_client s of None \<Rightarrow> [] | Some c \<Rightarrow> [c]),
       sh_client := None, sh_url := None, sh_breaker := new_breaker\<rparr>"

subsection \<open>When the breaker opens\<close>

text \<open>What happens to a breaker: failures and successes of calls, and questions whether it is open.\<close>

datatype breaker_event = Failed int | Succeeded | Asked int

fun breaker_step :: "breaker_event \<Rightarrow> breaker \<Rightarrow> breaker" where
  "breaker_step (Failed t) b = recordFailure t b"
| "breaker_step Succeeded b = recordSuccess b"
| "breaker_step (Asked t) b = snd (isOpen t b)"

definition breaker_after :: "breaker_event list \<Rightarrow> breaker" where
  "breaker_after es = fold breaker_step es new_breaker"

fun event_clock :: "breaker_event \<Rightarrow> int list" where
  "event_clock (Failed t) = [t]"
| "event_clock Succeeded = []"
| "event_clock (Asked t) = [t]"

definition clocks :: "breaker_event list \<Rightarrow> int list" where
  "clocks es = concat (map event_clock es)"

text \<open>The failures after the last success.\<close>

fun note_failure :: "breaker_event \<Rightarrow> int list \<Rightarrow> int list" where
  "note_failure (Failed t) ts = ts @ [t]"
| "note_failure Succeeded ts = []"
| "note_failure (Asked t) ts = ts"

definition since_success :: "breaker_event list \<Rightarrow> int list" where
  "since_success es = fold note_failure es []"

text \<open>Five failures inside a window of 30 seconds.\<close>

definition burst :: "int list \<Rightarrow> bool" where
  "burst ts \<longleftrightarrow> (\<exists>i. i + 4 < length ts \<and> ts ! (i + 4) - ts ! i < FAILURE_WINDOW_MS)"

lemma filter_recent_drop:
  "sorted ts \<Longrightarrow> filter (\<lambda>x. x > c) ts = drop (length (filter (\<lambda>x. x \<le> c) ts)) (ts :: int list)"
proof (induction ts)
  case (Cons t ts)
  show ?case
  proof (cases "t \<le> c")
    case True
    then show ?thesis using Cons by simp
  next
    case False
    then have "\<forall>x\<in>set ts. \<not> x \<le> c" using Cons.prems by auto
    then have "filter (\<lambda>x. x \<le> c) ts = []" "filter (\<lambda>x. x > c) ts = ts" by (auto simp: filter_empty_conv filter_id_conv)
    then show ?thesis using False by simp
  qed
qed simp

lemma recent_burst:
  assumes "sorted (hist @ [t])" and "\<not> burst hist"
  shows "burst (hist @ [t]) \<longleftrightarrow> 5 \<le> length (filter (\<lambda>x. x > t - FAILURE_WINDOW_MS) hist @ [t])"
proof -
  define w where "w = filter (\<lambda>x. x > t - FAILURE_WINDOW_MS) hist"
  have s: "sorted hist" using assms(1) by (simp add: sorted_append)
  define n where "n = length (filter (\<lambda>x. x \<le> t - FAILURE_WINDOW_MS) hist)"
  have w: "w = drop n hist" unfolding w_def n_def by (rule filter_recent_drop [OF s])
  have lw: "length w = length hist - n" by (simp add: w)
  have out: "hist ! i \<le> t - FAILURE_WINDOW_MS" if "i < n" "i < length hist" for i
  proof (rule ccontr)
    assume a: "\<not> hist ! i \<le> t - FAILURE_WINDOW_MS"
    have "\<forall>x\<in>set (drop i hist). x > t - FAILURE_WINDOW_MS"
    proof
      fix x assume "x \<in> set (drop i hist)"
      then obtain k where k: "k < length hist - i" "x = hist ! (i + k)" by (auto simp: in_set_conv_nth)
      then have "i + k < length hist" by simp
      then have "hist ! i \<le> hist ! (i + k)" using sorted_nth_mono [OF s, of i "i + k"] by simp
      then show "x > t - FAILURE_WINDOW_MS" using a k(2) by simp
    qed
    then have "length (filter (\<lambda>x. x \<le> t - FAILURE_WINDOW_MS) (drop i hist)) = 0" by (auto simp: filter_empty_conv)
    moreover have "filter (\<lambda>x. x \<le> t - FAILURE_WINDOW_MS) hist
        = filter (\<lambda>x. x \<le> t - FAILURE_WINDOW_MS) (take i hist) @ filter (\<lambda>x. x \<le> t - FAILURE_WINDOW_MS) (drop i hist)"
      by (metis append_take_drop_id filter_append)
    ultimately have "n \<le> length (take i hist)" unfolding n_def by (metis add_0_right length_append length_filter_le)
    then show False using that by simp
  qed
  have recent: "hist ! i > t - FAILURE_WINDOW_MS" if "n \<le> i" "i < length hist" for i
  proof -
    have "hist ! i = w ! (i - n)" "i - n < length w" using that by (simp_all add: w)
    then have "hist ! i \<in> set w" by (metis nth_mem)
    then show ?thesis by (simp add: w_def)
  qed
  show ?thesis
  proof
    assume "burst (hist @ [t])"
    then obtain i where i: "i + 4 < length (hist @ [t])" "(hist @ [t]) ! (i + 4) - (hist @ [t]) ! i < FAILURE_WINDOW_MS"
      by (auto simp: burst_def)
    have "i + 4 = length hist"
    proof (rule ccontr)
      assume "i + 4 \<noteq> length hist"
      then have "i + 4 < length hist" using i(1) by simp
      then show False using i assms(2) by (auto simp: burst_def nth_append)
    qed
    then have "hist ! i > t - FAILURE_WINDOW_MS" using i by (simp add: nth_append)
    moreover have "i < length hist" using \<open>i + 4 = length hist\<close> by simp
    ultimately have "n \<le> i" using out [of i] by (cases "i < n") simp_all
    then show "5 \<le> length (filter (\<lambda>x. x > t - FAILURE_WINDOW_MS) hist @ [t])"
      using lw \<open>i + 4 = length hist\<close> by (simp add: w_def)
  next
    assume "5 \<le> length (filter (\<lambda>x. x > t - FAILURE_WINDOW_MS) hist @ [t])"
    then have "4 \<le> length hist - n" using lw by (simp add: w_def)
    then have l: "4 \<le> length hist" "n \<le> length hist - 4" by simp_all
    then have "hist ! (length hist - 4) > t - FAILURE_WINDOW_MS" by (intro recent) simp_all
    then show "burst (hist @ [t])" unfolding burst_def using l
      by (intro exI [of _ "length hist - 4"]) (simp add: nth_append FAILURE_WINDOW_MS_def)
  qed
qed

text \<open>A closed breaker that has seen the failures \<open>hist\<close> and remembers the recent ones.\<close>

definition remembers :: "int list \<Rightarrow> breaker \<Rightarrow> bool" where
  "remembers hist b \<longleftrightarrow> cb_state b = Closed \<and> \<not> burst hist \<and>
     (\<forall>t. sorted (hist @ [t]) \<longrightarrow>
        filter (\<lambda>x. x > t - FAILURE_WINDOW_MS) (cb_failures b) = filter (\<lambda>x. x > t - FAILURE_WINDOW_MS) hist)"

lemma burst_append: "burst xs \<Longrightarrow> burst (xs @ ys)"
  unfolding burst_def by (elim exE conjE, rule_tac x = i in exI) (simp add: nth_append)

lemma remembers_failure:
  assumes "remembers hist b" and "sorted (hist @ [t])"
  shows "cb_state (recordFailure t b) = Open \<longleftrightarrow> burst (hist @ [t])"
    and "burst (hist @ [t]) \<Longrightarrow> cb_openedAt (recordFailure t b) = Some t"
    and "\<not> burst (hist @ [t]) \<Longrightarrow> remembers (hist @ [t]) (recordFailure t b)"
proof -
  let ?w = "filter (\<lambda>x. x > t - FAILURE_WINDOW_MS) hist @ [t]"
  have b: "cb_state b = Closed" "\<not> burst hist" using assms(1) by (simp_all add: remembers_def)
  have f: "filter (\<lambda>x. x > t - FAILURE_WINDOW_MS) (cb_failures b) = filter (\<lambda>x. x > t - FAILURE_WINDOW_MS) hist"
    using assms by (simp add: remembers_def)
  have r: "recordFailure t b = (if 5 \<le> length ?w
      then b\<lparr>cb_failures := ?w, cb_state := Open, cb_openedAt := Some t\<rparr> else b\<lparr>cb_failures := ?w\<rparr>)"
    by (simp add: recordFailure_def Let_def f b(1) FAILURE_THRESHOLD_def)
  have e: "burst (hist @ [t]) \<longleftrightarrow> 5 \<le> length ?w" by (rule recent_burst [OF assms(2) b(2)])
  show "cb_state (recordFailure t b) = Open \<longleftrightarrow> burst (hist @ [t])" unfolding r e using b(1) by simp
  show "burst (hist @ [t]) \<Longrightarrow> cb_openedAt (recordFailure t b) = Some t" unfolding r e by simp
  assume n: "\<not> burst (hist @ [t])"
  have "filter (\<lambda>x. x > u - FAILURE_WINDOW_MS) ?w = filter (\<lambda>x. x > u - FAILURE_WINDOW_MS) (hist @ [t])"
    if "sorted ((hist @ [t]) @ [u])" for u
  proof -
    have "t \<le> u" using that by (simp add: sorted_append)
    then show ?thesis by (simp add: conj_absorb) (metis (no_types, lifting) diff_right_mono filter_cong order_le_less_trans)
  qed
  then show "remembers (hist @ [t]) (recordFailure t b)"
    using n b(1) e unfolding remembers_def r by simp
qed

lemma new_remembers: "remembers [] new_breaker"
  by (simp add: remembers_def new_breaker_def burst_def)

text \<open>The order of the clock carries over to the failures since the last success.\<close>

lemma clocks_snoc: "clocks (es @ [e]) = clocks es @ event_clock e"
  by (simp add: clocks_def)

lemma since_success_snoc: "since_success (es @ [e]) = note_failure e (since_success es)"
  by (simp add: since_success_def)

lemma breaker_after_snoc: "breaker_after (es @ [e]) = breaker_step e (breaker_after es)"
  by (simp add: breaker_after_def)

lemma since_success_sorted: "sorted (clocks es @ [t]) \<Longrightarrow> sorted (since_success es @ [t])"
proof (induction es arbitrary: t rule: rev_induct)
  case (snoc e es)
  then show ?case
    by (cases e) (auto simp: clocks_snoc since_success_snoc sorted_append)
qed (simp add: since_success_def)

definition breaker_inv :: "breaker_event list \<Rightarrow> breaker \<Rightarrow> bool" where
  "breaker_inv es b \<longleftrightarrow>
     (case cb_state b of
        Closed \<Rightarrow> remembers (since_success es) b
      | Open \<Rightarrow> (\<exists>t0. cb_openedAt b = Some t0)
      | HalfOpen \<Rightarrow> True)"

lemma remembers_closed: "remembers h b \<Longrightarrow> cb_state b = Closed"
  by (simp add: remembers_def)

lemma recordSuccess_closes: "cb_state b \<noteq> Open \<Longrightarrow> recordSuccess b = new_breaker"
  by (cases "cb_state b") (simp_all add: recordSuccess_def new_breaker_def)

lemma breaker_inv_after: "sorted (clocks es) \<Longrightarrow> breaker_inv es (breaker_after es)"
proof (induction es rule: rev_induct)
  case Nil
  have "cb_state new_breaker = Closed" by (simp add: new_breaker_def)
  then show ?case using new_remembers by (simp add: breaker_inv_def breaker_after_def since_success_def)
next
  case (snoc e es)
  let ?b = "breaker_after es" and ?h = "since_success es"
  have inv: "breaker_inv es ?b" using snoc by (simp add: clocks_snoc sorted_append)
  show ?case
  proof (cases e)
    case (Failed t)
    have srt: "sorted (?h @ [t])" using snoc.prems Failed by (intro since_success_sorted) (simp add: clocks_snoc)
    show ?thesis
    proof (cases "cb_state ?b")
      case Closed
      then have r: "remembers ?h ?b" using inv by (simp add: breaker_inv_def)
      note f = remembers_failure [OF r srt]
      show ?thesis
      proof (cases "burst (?h @ [t])")
        case True
        then show ?thesis using f(1,2) by (simp add: breaker_inv_def breaker_after_snoc Failed)
      next
        case False
        from remembers_closed [OF f(3) [OF this]] f(3) [OF this] show ?thesis
          by (simp add: breaker_inv_def breaker_after_snoc since_success_snoc Failed)
      qed
    next
      case Open
      then obtain t0 where "cb_openedAt ?b = Some t0" using inv by (auto simp: breaker_inv_def)
      then show ?thesis using Open
        by (simp add: breaker_inv_def breaker_after_snoc Failed recordFailure_def Let_def)
    next
      case HalfOpen
      then show ?thesis by (simp add: breaker_inv_def breaker_after_snoc Failed recordFailure_def)
    qed
  next
    case Succeeded
    show ?thesis
    proof (cases "cb_state ?b = Open")
      case True
      then show ?thesis using inv by (simp add: breaker_inv_def breaker_after_snoc Succeeded recordSuccess_def)
    next
      case False
      have "cb_state new_breaker = Closed" by (simp add: new_breaker_def)
      then show ?thesis using recordSuccess_closes [OF False] new_remembers
        by (simp add: breaker_inv_def breaker_after_snoc since_success_snoc Succeeded)
    qed
  next
    case (Asked t)
    then show ?thesis using inv
      by (cases "cb_state ?b") (auto simp: breaker_inv_def breaker_after_snoc since_success_snoc isOpen_def
          maybeTransitionToHalfOpen_def Let_def)
  qed
qed

text \<open>
  C26. When the circuit opens and closes, after any failures, successes and questions in the order of
  the clock. A closed breaker opens with a failure exactly when five of the failures since the last
  success, this one included, fall within thirty seconds; a half-open one opens with any failure. An
  open one refuses calls exactly until ten seconds after the failure that is recorded as opening it,
  ignores successes, and stays open at further failures; a success closes a half-open breaker and makes
  a closed one forget its failures.
\<close>

theorem breaker_opens_exactly:
  assumes "sorted (clocks es @ [t])"
  defines "b \<equiv> breaker_after es"
  shows "case cb_state b of
      Closed \<Rightarrow> recordSuccess b = new_breaker \<and> \<not> fst (isOpen t b) \<and>
        (if burst (since_success es @ [t]) then cb_state (recordFailure t b) = Open \<and> cb_openedAt (recordFailure t b) = Some t
         else cb_state (recordFailure t b) = Closed)
    | HalfOpen \<Rightarrow> recordSuccess b = new_breaker \<and> \<not> fst (isOpen t b) \<and>
        cb_state (recordFailure t b) = Open \<and> cb_openedAt (recordFailure t b) = Some t
    | Open \<Rightarrow> recordSuccess b = b \<and> cb_state (recordFailure t b) = Open \<and>
        (\<exists>t0. cb_openedAt b = Some t0 \<and> (\<forall>now. fst (isOpen now b) \<longleftrightarrow> now < t0 + 10000) \<and>
          (\<forall>now\<ge>t0 + 10000. cb_state (snd (isOpen now b)) = HalfOpen))"
proof -
  have inv: "breaker_inv es b" unfolding b_def by (rule breaker_inv_after) (use assms(1) in \<open>simp add: sorted_append\<close>)
  have srt: "sorted (since_success es @ [t])" by (rule since_success_sorted [OF assms(1)])
  show ?thesis
  proof (cases "cb_state b")
    case Closed
    then have r: "remembers (since_success es) b" using inv by (simp add: breaker_inv_def)
    note f = remembers_failure [OF r srt]
    have "\<not> fst (isOpen t b)" using Closed by (simp add: isOpen_def maybeTransitionToHalfOpen_def)
    then show ?thesis using Closed f remembers_closed [OF f(3)] recordSuccess_closes [of b] by simp
  next
    case HalfOpen
    then show ?thesis using recordSuccess_closes [of b]
      by (simp add: isOpen_def maybeTransitionToHalfOpen_def recordFailure_def)
  next
    case Open
    then obtain t0 where "cb_openedAt b = Some t0" using inv by (auto simp: breaker_inv_def)
    then show ?thesis using Open
      by (auto simp: recordSuccess_def recordFailure_def Let_def isOpen_def maybeTransitionToHalfOpen_def OPEN_DURATION_MS_def)
  qed
qed

text \<open>Four failures, a success and four more failures leave it closed; the fifth after the success opens it.\<close>

theorem breaker_opens_exactly_witness:
  "cb_state (breaker_after (map Failed [0, 1, 2, 3] @ [Succeeded] @ map Failed [4, 5, 6, 7])) = Closed \<and>
   cb_state (recordFailure 8 (breaker_after (map Failed [0, 1, 2, 3] @ [Succeeded] @ map Failed [4, 5, 6, 7]))) = Open"
proof -
  let ?es = "map Failed [0, 1, 2, 3] @ [Succeeded] @ map Failed [4, 5, 6, 7]"
  have c: "cb_state (breaker_after ?es) = Closed" by code_simp
  have s: "sorted (clocks ?es @ [8])" by code_simp
  have "since_success ?es @ [8] = [4, 5, 6, 7, 8]" by code_simp
  moreover have "burst [4, 5, 6, 7, 8]" unfolding burst_def by (intro exI [of _ 0]) (simp add: FAILURE_WINDOW_MS_def)
  ultimately show ?thesis using breaker_opens_exactly [OF s] c by simp
qed

text \<open>
  After three authentication errors the shared client is disconnected, yet as long as the URL
  stays the same it is the only client \<open>getSharedClient\<close> ever hands out.
\<close>

lemma auth_failure_is_final:
  assumes "getSharedClient now (Some url) s = (Some c, s')" and "sh_client s = Some c" and "sh_url s = Some url"
    and "is_auth_error msg"
  defines "dead \<equiv> clientError c msg (clientError c msg (clientError c msg s'))"
  shows "c \<in> set (sh_disconnected dead) \<and> retryStrategy c dead n = None \<and>
         fst (getSharedClient later (Some url) dead) \<in> {None, Some c}"
proof -
  have s': "sh_client s' = Some c" "sh_url s' = Some url"
    using assms(1-3) by (auto simp: getSharedClient_def Let_def split: prod.splits if_splits)
  have step: "clientError c msg t = (let n = sh_authErrors t c + 1; t1 = t\<lparr>sh_authErrors := (sh_authErrors t)(c := n)\<rparr>
      in if n \<ge> 3 then t1\<lparr>sh_disconnected := sh_disconnected t1 @ [c]\<rparr> else t1)" for t
    using assms(4) by (simp add: clientError_def MAX_AUTH_ERRORS_def)
  have count: "sh_authErrors (clientError c msg t) c = sh_authErrors t c + 1"
    and keeps: "sh_client (clientError c msg t) = sh_client t" "sh_url (clientError c msg t) = sh_url t" for t
    by (simp_all add: step Let_def)
  have "sh_authErrors dead c \<ge> 3" by (simp add: dead_def count)
  moreover have "c \<in> set (sh_disconnected dead)"
    unfolding dead_def by (subst step) (simp add: count Let_def)
  moreover have "fst (getSharedClient later (Some url) dead) \<in> {None, Some c}"
    using s' by (simp add: getSharedClient_def Let_def keeps dead_def split: prod.split)
  ultimately show ?thesis by (simp add: retryStrategy_def MAX_AUTH_ERRORS_def)
qed

end
