(* ===== verification/RefreshLock.thy ===== *)
theory RefreshLock
  imports Prelude
begin

section \<open>Locks for token refreshes\<close>

text \<open>
  \<open>packages/oauth-core/src/refresh-lock.ts\<close>: the in-memory manager and the Redis manager. A
  refresh is an asynchronous call whose end is a separate step; refreshes and lock values are
  numbered in the order of their creation (the code draws random values). Every stretch between
  two awaits, and every Redis command, is one step.
\<close>

subsection \<open>The in-memory manager\<close>

definition LOCK_TTL_MS :: int where
  "LOCK_TTL_MS = 30000"

record memory_lock =
  refreshPromise :: nat
  lockedAt :: int

text \<open>\<open>ml_running\<close> are the refreshes under way, with their keys and start times.\<close>

record memory_manager =
  ml_refreshLocks :: "(string, memory_lock) jsmap"
  ml_running :: "(nat, string \<times> int) jsmap"
  ml_next :: nat

definition new_memory_manager :: memory_manager where
  "new_memory_manager = \<lparr>ml_refreshLocks = [], ml_running = [], ml_next = 0\<rparr>"

definition cleanupStaleLocks :: "int \<Rightarrow> memory_manager \<Rightarrow> memory_manager" where
  "cleanupStaleLocks now m =
     m\<lparr>ml_refreshLocks := filter (\<lambda>(k, l). \<not> now - lockedAt l > LOCK_TTL_MS) (ml_refreshLocks m)\<rparr>"

text \<open>The refresh a caller waits for; a new one is started when there is no fresh lock.\<close>

definition mem_start :: "int \<Rightarrow> string \<Rightarrow> memory_manager \<Rightarrow> nat \<times> memory_manager" where
  "mem_start now key m =
     (let p = ml_next m
      in (p, m\<lparr>ml_refreshLocks := jset key \<lparr>refreshPromise = p, lockedAt = now\<rparr> (ml_refreshLocks m),
               ml_running := jset p (key, now) (ml_running m), ml_next := p + 1\<rparr>))"

definition mem_withLock :: "int \<Rightarrow> string \<Rightarrow> memory_manager \<Rightarrow> nat \<times> memory_manager" where
  "mem_withLock now key m0 =
     (let m = cleanupStaleLocks now m0 in
      case jget (ml_refreshLocks m) key of
        None \<Rightarrow> mem_start now key m
      | Some l \<Rightarrow>
          if now - lockedAt l > LOCK_TTL_MS
          then mem_start now key (m\<lparr>ml_refreshLocks := jdel key (ml_refreshLocks m)\<rparr>)
          else (refreshPromise l, m))"

text \<open>A refresh ends, with a token or an error: the lock of its key is deleted.\<close>

definition mem_settled :: "nat \<Rightarrow> memory_manager \<Rightarrow> memory_manager" where
  "mem_settled p m =
     (case jget (ml_running m) p of
        None \<Rightarrow> m
      | Some (key, _) \<Rightarrow> m\<lparr>ml_refreshLocks := jdel key (ml_refreshLocks m), ml_running := jdel p (ml_running m)\<rparr>)"

definition mem_clearAll :: "memory_manager \<Rightarrow> memory_manager" where
  "mem_clearAll m = m\<lparr>ml_refreshLocks := []\<rparr>"

definition mem_getActiveLockCount :: "int \<Rightarrow> memory_manager \<Rightarrow> nat \<times> memory_manager" where
  "mem_getActiveLockCount now m = (let m' = cleanupStaleLocks now m in (length (ml_refreshLocks m'), m'))"

text \<open>Use of one manager: \<open>prompt now\<close> says that no refresh outlives the lock's time to live.\<close>

definition mem_prompt :: "int \<Rightarrow> memory_manager \<Rightarrow> bool" where
  "mem_prompt now m \<longleftrightarrow> (\<forall>(p, key, t)\<in>set (ml_running m). now - t \<le> LOCK_TTL_MS)"

inductive mem_run :: "memory_manager \<Rightarrow> bool" where
  Start: "mem_run new_memory_manager"
| Call: "mem_run m \<Longrightarrow> mem_prompt now m \<Longrightarrow> mem_run (snd (mem_withLock now key m))"
| Settle: "mem_run m \<Longrightarrow> mem_run (mem_settled p m)"
| Count: "mem_run m \<Longrightarrow> mem_prompt now m \<Longrightarrow> mem_run (snd (mem_getActiveLockCount now m))"

definition mem_ok :: "memory_manager \<Rightarrow> bool" where
  "mem_ok m \<longleftrightarrow> jmap_ok (ml_running m) \<and> jmap_ok (ml_refreshLocks m) \<and> (\<forall>p\<in>fst ` set (ml_running m). p < ml_next m) \<and>
     (\<forall>p key t. jget (ml_running m) p = Some (key, t) \<longleftrightarrow>
        jget (ml_refreshLocks m) key = Some \<lparr>refreshPromise = p, lockedAt = t\<rparr>)"

lemma jget_filter_val: "jmap_ok m \<Longrightarrow> jget (filter (\<lambda>(k, v). P v) m) k = (case jget m k of Some v \<Rightarrow> if P v then Some v else None | None \<Rightarrow> None)"
proof (induction m)
  case (Cons x m)
  obtain a b where x: "x = (a, b)" by fastforce
  have a: "jget m a = None" using Cons.prems by (simp add: x map_of_eq_None_iff)
  show ?case using Cons a by (cases "k = a") (auto simp: x)
qed simp

lemma cleanup_ok:
  assumes "mem_ok m" and "mem_prompt now m"
  shows "mem_ok (cleanupStaleLocks now m) \<and> ml_refreshLocks (cleanupStaleLocks now m) = ml_refreshLocks m"
proof -
  have "\<not> now - lockedAt l > LOCK_TTL_MS" if "(k, l) \<in> set (ml_refreshLocks m)" for k l
  proof -
    have "jget (ml_refreshLocks m) k = Some \<lparr>refreshPromise = refreshPromise l, lockedAt = lockedAt l\<rparr>"
      using that assms(1) jget_mem by (simp add: mem_ok_def)
    then have "jget (ml_running m) (refreshPromise l) = Some (k, lockedAt l)" using assms(1) by (simp add: mem_ok_def)
    then show ?thesis using assms(2) by (auto simp: mem_prompt_def dest!: map_of_SomeD)
  qed
  then have "filter (\<lambda>(k, l). \<not> now - lockedAt l > LOCK_TTL_MS) (ml_refreshLocks m) = ml_refreshLocks m"
    by (auto intro!: filter_True)
  then show ?thesis using assms(1) by (simp add: cleanupStaleLocks_def)
qed

lemma mem_start_ok:
  assumes "mem_ok m" and "jget (ml_refreshLocks m) key = None"
  shows "mem_ok (snd (mem_start now key m))"
proof -
  have new: "jget (ml_running m) (ml_next m) = None"
    using assms(1) by (force simp: mem_ok_def map_of_eq_None_iff)
  have old: "jget (ml_running m) p \<noteq> Some (key, t)" for p t using assms by (simp add: mem_ok_def)
  have fresh: "jget (ml_refreshLocks m) k \<noteq> Some \<lparr>refreshPromise = ml_next m, lockedAt = t\<rparr>" for k t
    using assms(1) new unfolding mem_ok_def by (metis option.distinct(1))
  have iff: "jget (ml_running m) p = Some (k, t) \<longleftrightarrow> jget (ml_refreshLocks m) k = Some \<lparr>refreshPromise = p, lockedAt = t\<rparr>" for p k t
    using assms(1) unfolding mem_ok_def by blast
  let ?m = "snd (mem_start now key m)"
  have "jget (ml_running ?m) p = Some (k, t) \<longleftrightarrow> jget (ml_refreshLocks ?m) k = Some \<lparr>refreshPromise = p, lockedAt = t\<rparr>" for p k t
    using fresh old iff by (auto simp: mem_start_def Let_def)
  moreover have "jmap_ok (ml_running ?m)" "jmap_ok (ml_refreshLocks ?m)" "\<forall>p\<in>fst ` set (ml_running ?m). p < ml_next ?m"
    using assms(1) by (auto simp: mem_ok_def mem_start_def Let_def less_SucI)
  ultimately show ?thesis unfolding mem_ok_def by blast
qed

lemma mem_withLock_ok:
  assumes "mem_ok m" and "mem_prompt now m"
  shows "mem_ok (snd (mem_withLock now key m))"
proof -
  note c = cleanup_ok [OF assms]
  show ?thesis
  proof (cases "jget (ml_refreshLocks m) key")
    case None
    then show ?thesis using c mem_start_ok [of "cleanupStaleLocks now m" key now] by (simp add: mem_withLock_def Let_def)
  next
    case (Some l)
    have "jget (ml_running m) (refreshPromise l) = Some (key, lockedAt l)" using assms(1) Some by (simp add: mem_ok_def)
    then have "\<not> now - lockedAt l > LOCK_TTL_MS" using assms(2) by (auto simp: mem_prompt_def dest!: map_of_SomeD)
    then show ?thesis using c Some by (simp add: mem_withLock_def Let_def)
  qed
qed

lemma mem_settled_ok:
  assumes "mem_ok m"
  shows "mem_ok (mem_settled p m)"
proof (cases "jget (ml_running m) p")
  case None
  then show ?thesis using assms by (simp add: mem_settled_def)
next
  case (Some e)
  obtain key t where e: "e = (key, t)" by fastforce
  have iff: "jget (ml_running m) q = Some (k, u) \<longleftrightarrow> jget (ml_refreshLocks m) k = Some \<lparr>refreshPromise = q, lockedAt = u\<rparr>" for q k u
    using assms unfolding mem_ok_def by blast
  let ?m = "mem_settled p m"
  have m: "ml_running ?m = jdel p (ml_running m)" "ml_refreshLocks ?m = jdel key (ml_refreshLocks m)" "ml_next ?m = ml_next m"
    by (simp_all add: mem_settled_def Some e)
  have "jget (ml_running ?m) q = Some (k, u) \<longleftrightarrow> jget (ml_refreshLocks ?m) k = Some \<lparr>refreshPromise = q, lockedAt = u\<rparr>" for q k u
    using iff [of q k u] iff [of p key t] iff [of q key u] Some unfolding m jget_jdel e by auto
  moreover have "jmap_ok (ml_running ?m)" "jmap_ok (ml_refreshLocks ?m)" "\<forall>p\<in>fst ` set (ml_running ?m). p < ml_next ?m"
    using assms by (auto simp: mem_ok_def m)
  ultimately show ?thesis unfolding mem_ok_def by blast
qed

lemma mem_run_ok: "mem_run m \<Longrightarrow> mem_ok m"
proof (induction rule: mem_run.induct)
  case (Count m now)
  then show ?case using cleanup_ok by (simp add: mem_getActiveLockCount_def Let_def)
qed (simp_all add: mem_withLock_ok mem_settled_ok, simp add: mem_ok_def new_memory_manager_def)

text \<open>
  As long as every refresh ends within the lock's time to live, at most one refresh per key is
  under way, and a caller joins it.
\<close>

theorem memory_single_flight:
  assumes "mem_run m" and "jget (ml_running m) p = Some (key, t)" and "mem_prompt now m"
  shows "fst (mem_withLock now key m) = p \<and> (\<forall>q u. jget (ml_running m) q = Some (key, u) \<longrightarrow> q = p)"
proof -
  have ok: "mem_ok m" by (rule mem_run_ok [OF assms(1)])
  have l: "jget (ml_refreshLocks m) key = Some \<lparr>refreshPromise = p, lockedAt = t\<rparr>"
    using ok assms(2) unfolding mem_ok_def by blast
  have "\<not> now - t > LOCK_TTL_MS" using assms(2,3) by (auto simp: mem_prompt_def dest!: map_of_SomeD)
  then have "fst (mem_withLock now key m) = p" using l cleanup_ok [OF ok assms(3)] by (simp add: mem_withLock_def Let_def)
  moreover have "q = p" if "jget (ml_running m) q = Some (key, u)" for q u
    using ok that l unfolding mem_ok_def by (metis memory_lock.ext_inject option.inject)
  ultimately show ?thesis by blast
qed

text \<open>
  A refresh that outlives the lock deletes its successor's lock when it ends: three callers of one
  key each start a refresh of their own, and the last two run at the same time.
\<close>

theorem memory_lock_stolen:
  "let (p0, m0) = mem_withLock 0 ''k'' new_memory_manager;
       (p1, m1) = mem_withLock 30001 ''k'' m0;
       (p2, m2) = mem_withLock 30003 ''k'' (mem_settled p0 m1)
   in jget (ml_running m2) p1 = Some (''k'', 30001) \<and> jget (ml_running m2) p2 = Some (''k'', 30003) \<and> p1 \<noteq> p2"
  by code_simp

subsection \<open>The Redis manager\<close>

text \<open>
  Many processes share the Redis locks; each has its own map of pending refreshes. A caller goes
  through phases: the \<open>SET NX\<close> in flight (also on a retry after waiting), at the head of the
  waiting loop or asleep in it, refreshing, releasing, waiting for a refresh of its own process,
  and the ends.
\<close>

definition LOCK_TTL_SECONDS :: int where
  "LOCK_TTL_SECONDS = 30"

definition MAX_WAIT_MS :: int where
  "MAX_WAIT_MS = 35000"

datatype caller_phase = Acquiring | Waiting int | Asleep int | Retrying int | Refreshing nat int | Releasing nat
  | Sharing nat | Finished | TimedOut

record lock_caller =
  lc_process :: nat
  lc_key :: string
  lc_phase :: caller_phase

record redis_manager =
  rl_locks :: "(string, nat \<times> int) jsmap"
  rl_localPending :: "(nat \<times> string, nat) jsmap"
  rl_callers :: "(nat, lock_caller) jsmap"
  rl_next :: nat

definition new_redis_manager :: redis_manager where
  "new_redis_manager = \<lparr>rl_locks = [], rl_localPending = [], rl_callers = [], rl_next = 0\<rparr>"

text \<open>A Redis key is there until its expiry.\<close>

definition lock_held :: "int \<Rightarrow> string \<Rightarrow> redis_manager \<Rightarrow> bool" where
  "lock_held now key s = (case jget (rl_locks s) key of None \<Rightarrow> False | Some (v, e) \<Rightarrow> now < e)"

definition set_phase :: "nat \<Rightarrow> caller_phase \<Rightarrow> redis_manager \<Rightarrow> redis_manager" where
  "set_phase c ph s =
     (case jget (rl_callers s) c of
        None \<Rightarrow> s
      | Some x \<Rightarrow> s\<lparr>rl_callers := jset c (x\<lparr>lc_phase := ph\<rparr>) (rl_callers s)\<rparr>)"

text \<open>\<open>withLock\<close> up to its first await.\<close>

definition redis_withLock :: "nat \<Rightarrow> string \<Rightarrow> redis_manager \<Rightarrow> redis_manager" where
  "redis_withLock proc key s =
     (let ph = (case jget (rl_localPending s) (proc, key) of Some v \<Rightarrow> Sharing v | None \<Rightarrow> Acquiring)
      in s\<lparr>rl_callers := jset (rl_next s) \<lparr>lc_process = proc, lc_key = key, lc_phase = ph\<rparr> (rl_callers s),
           rl_next := rl_next s + 1\<rparr>)"

text \<open>
  \<open>tryAcquireLock\<close> and what follows: the holder starts its refresh and makes it known in its
  process, any other caller goes (back) to the waiting loop.
\<close>

definition tryAcquireLock :: "int \<Rightarrow> nat \<Rightarrow> redis_manager \<Rightarrow> redis_manager" where
  "tryAcquireLock now c s =
     (case jget (rl_callers s) c of
        None \<Rightarrow> s
      | Some x \<Rightarrow>
          (let attempt = (\<lambda>start.
             if lock_held now (lc_key x) s then set_phase c (Waiting start) s
             else let v = rl_next s
                  in set_phase c (Refreshing v now)
                       (s\<lparr>rl_locks := jset (lc_key x) (v, now + LOCK_TTL_SECONDS * 1000) (rl_locks s),
                          rl_localPending := jset (lc_process x, lc_key x) v (rl_localPending s),
                          rl_next := v + 1\<rparr>))
           in case lc_phase x of Acquiring \<Rightarrow> attempt now | Retrying start \<Rightarrow> attempt start | _ \<Rightarrow> s))"

text \<open>The head of the waiting loop, and its body after the sleep.\<close>

definition waitLoop :: "int \<Rightarrow> nat \<Rightarrow> redis_manager \<Rightarrow> redis_manager" where
  "waitLoop now c s =
     (case map_option lc_phase (jget (rl_callers s) c) of
        Some (Waiting start) \<Rightarrow> set_phase c (if now - start < MAX_WAIT_MS then Asleep start else TimedOut) s
      | Some (Asleep start) \<Rightarrow>
          (case jget (rl_callers s) c of
             None \<Rightarrow> s
           | Some x \<Rightarrow> set_phase c (if lock_held now (lc_key x) s then Waiting start else Retrying start) s)
      | _ \<Rightarrow> s)"

definition refreshEnds :: "nat \<Rightarrow> redis_manager \<Rightarrow> redis_manager" where
  "refreshEnds c s =
     (case map_option lc_phase (jget (rl_callers s) c) of
        Some (Refreshing v t) \<Rightarrow> set_phase c (Releasing v) s
      | _ \<Rightarrow> s)"

text \<open>\<open>releaseLockIfOwned\<close>, then the caller's own \<open>finally\<close>.\<close>

definition releaseLockIfOwned :: "int \<Rightarrow> nat \<Rightarrow> redis_manager \<Rightarrow> redis_manager" where
  "releaseLockIfOwned now c s =
     (case jget (rl_callers s) c of
        None \<Rightarrow> s
      | Some x \<Rightarrow>
          (case lc_phase x of
             Releasing v \<Rightarrow>
               (let s1 = (if lock_held now (lc_key x) s \<and> map_option fst (jget (rl_locks s) (lc_key x)) = Some v
                          then s\<lparr>rl_locks := jdel (lc_key x) (rl_locks s)\<rparr> else s)
                in set_phase c Finished (s1\<lparr>rl_localPending := jdel (lc_process x, lc_key x) (rl_localPending s1)\<rparr>))
           | _ \<Rightarrow> s))"

definition redis_clearAll :: "nat \<Rightarrow> redis_manager \<Rightarrow> redis_manager" where
  "redis_clearAll proc s = s\<lparr>rl_localPending := filter (\<lambda>((p, k), v). p \<noteq> proc) (rl_localPending s)\<rparr>"

definition redis_prompt :: "int \<Rightarrow> redis_manager \<Rightarrow> bool" where
  "redis_prompt now s \<longleftrightarrow>
     (\<forall>c x v t. jget (rl_callers s) c = Some x \<longrightarrow> lc_phase x = Refreshing v t \<longrightarrow> now < t + LOCK_TTL_SECONDS * 1000)"

inductive redis_run :: "redis_manager \<Rightarrow> bool" where
  RStart: "redis_run new_redis_manager"
| RCall: "redis_run s \<Longrightarrow> redis_run (redis_withLock proc key s)"
| RAcquire: "redis_run s \<Longrightarrow> redis_prompt now s \<Longrightarrow> redis_run (tryAcquireLock now c s)"
| RWait: "redis_run s \<Longrightarrow> redis_run (waitLoop now c s)"
| REnd: "redis_run s \<Longrightarrow> redis_run (refreshEnds c s)"
| RRelease: "redis_run s \<Longrightarrow> redis_run (releaseLockIfOwned now c s)"
| RClear: "redis_run s \<Longrightarrow> redis_run (redis_clearAll proc s)"

text \<open>A refreshing caller holds the lock of its key; lock values are never used twice.\<close>

definition phase_value :: "caller_phase \<Rightarrow> nat option" where
  "phase_value ph = (case ph of Refreshing v t \<Rightarrow> Some v | Releasing v \<Rightarrow> Some v | _ \<Rightarrow> None)"

definition redis_ok :: "redis_manager \<Rightarrow> bool" where
  "redis_ok s \<longleftrightarrow>
     (\<forall>c x v t. jget (rl_callers s) c = Some x \<longrightarrow> lc_phase x = Refreshing v t \<longrightarrow>
        jget (rl_locks s) (lc_key x) = Some (v, t + LOCK_TTL_SECONDS * 1000)) \<and>
     (\<forall>c x v. jget (rl_callers s) c = Some x \<longrightarrow> phase_value (lc_phase x) = Some v \<longrightarrow> v < rl_next s) \<and>
     (\<forall>c x c' x' v. jget (rl_callers s) c = Some x \<longrightarrow> phase_value (lc_phase x) = Some v \<longrightarrow>
        jget (rl_callers s) c' = Some x' \<longrightarrow> phase_value (lc_phase x') = Some v \<longrightarrow> c' = c)"

lemma redis_okD:
  assumes "redis_ok s" and "jget (rl_callers s) c = Some x"
  shows "lc_phase x = Refreshing v t \<Longrightarrow> jget (rl_locks s) (lc_key x) = Some (v, t + LOCK_TTL_SECONDS * 1000)"
    and "phase_value (lc_phase x) = Some v \<Longrightarrow> v < rl_next s"
    and "phase_value (lc_phase x) = Some v \<Longrightarrow> jget (rl_callers s) c' = Some x' \<Longrightarrow> phase_value (lc_phase x') = Some v \<Longrightarrow> c' = c"
  using assms unfolding redis_ok_def by meson+

text \<open>One caller moves to a phase whose value is its old one or none, and no lock of a refresher changes.\<close>

lemma redis_ok_phase:
  assumes ok: "redis_ok s" and x: "jget (rl_callers s) c = Some x \<or> (jget (rl_callers s) c = None \<and> phase_value (lc_phase x') = None)"
    and callers: "rl_callers s' = jset c x' (rl_callers s)"
    and same: "phase_value (lc_phase x') = None \<or> phase_value (lc_phase x') = phase_value (lc_phase x)"
    and notref: "\<And>v t. lc_phase x' \<noteq> Refreshing v t"
    and nxt: "rl_next s \<le> rl_next s'"
    and locks: "\<And>d y v t. d \<noteq> c \<Longrightarrow> jget (rl_callers s) d = Some y \<Longrightarrow> lc_phase y = Refreshing v t \<Longrightarrow>
      jget (rl_locks s') (lc_key y) = jget (rl_locks s) (lc_key y)"
  shows "redis_ok s'"
proof -
  have old: "phase_value (lc_phase x') = Some v \<Longrightarrow> jget (rl_callers s) c = Some x \<and> phase_value (lc_phase x) = Some v" for v
    using x same by auto
  show ?thesis unfolding redis_ok_def
  proof (intro conjI allI impI)
    show "jget (rl_locks s') (lc_key y) = Some (v, t + LOCK_TTL_SECONDS * 1000)"
      if "jget (rl_callers s') d = Some y" "lc_phase y = Refreshing v t" for d y v t
    proof -
      have d: "d \<noteq> c" "jget (rl_callers s) d = Some y" using that notref by (auto simp: callers split: if_splits)
      then show ?thesis using locks [OF d that(2)] redis_okD(1) [OF ok d(2) that(2)] by simp
    qed
    show "v < rl_next s'" if "jget (rl_callers s') d = Some y" "phase_value (lc_phase y) = Some v" for d y v
    proof (cases "d = c")
      case True
      then have "phase_value (lc_phase x') = Some v" using that by (simp add: callers)
      then show ?thesis using old redis_okD(2) [OF ok, of c x v] nxt by fastforce
    next
      case False
      then show ?thesis using that redis_okD(2) [OF ok, of d y v] nxt by (simp add: callers)
    qed
    show "d' = d" if "jget (rl_callers s') d = Some y" "phase_value (lc_phase y) = Some v"
        "jget (rl_callers s') d' = Some y'" "phase_value (lc_phase y') = Some v" for d y d' y' v
    proof -
      have lift: "\<exists>z. jget (rl_callers s) e = Some z \<and> phase_value (lc_phase z) = Some v"
        if "jget (rl_callers s') e = Some w" "phase_value (lc_phase w) = Some v" for e w
        using that old [of v] by (cases "e = c") (auto simp: callers)
      show ?thesis using lift [OF that(1,2)] lift [OF that(3,4)] redis_okD(3) [OF ok] by blast
    qed
  qed
qed

lemma set_phase_ok:
  assumes "redis_ok s" and "phase_value ph = None" and "\<And>v t. ph \<noteq> Refreshing v t"
  shows "redis_ok (set_phase c ph s)"
proof (cases "jget (rl_callers s) c")
  case None
  then show ?thesis using assms(1) by (simp add: set_phase_def)
next
  case (Some x)
  show ?thesis
    by (rule redis_ok_phase [OF assms(1), of c x "x\<lparr>lc_phase := ph\<rparr>"]) (use assms(2,3) Some in \<open>simp_all add: set_phase_def\<close>)
qed

lemma redis_withLock_ok:
  assumes "redis_ok s"
  shows "redis_ok (redis_withLock proc key s)"
proof -
  let ?ph = "case jget (rl_localPending s) (proc, key) of Some v \<Rightarrow> Sharing v | None \<Rightarrow> Acquiring"
  let ?x = "\<lparr>lc_process = proc, lc_key = key, lc_phase = ?ph\<rparr>"
  have ph: "phase_value ?ph = None" "\<And>v t. ?ph \<noteq> Refreshing v t" by (auto simp: phase_value_def split: option.split)
  show ?thesis
  proof (cases "jget (rl_callers s) (rl_next s)")
    case None
    show ?thesis by (rule redis_ok_phase [OF assms, of "rl_next s" ?x ?x])
        (use None ph in \<open>simp_all add: redis_withLock_def Let_def\<close>)
  next
    case (Some y)
    show ?thesis by (rule redis_ok_phase [OF assms, of "rl_next s" y ?x])
        (use Some ph in \<open>simp_all add: redis_withLock_def Let_def\<close>)
  qed
qed

lemma waitLoop_ok:
  assumes "redis_ok s"
  shows "redis_ok (waitLoop now c s)"
  using assms set_phase_ok [OF assms, of _ c]
  by (simp add: waitLoop_def phase_value_def split: option.split caller_phase.split)

lemma refreshEnds_ok:
  assumes "redis_ok s"
  shows "redis_ok (refreshEnds c s)"
proof (cases "\<exists>x v t. jget (rl_callers s) c = Some x \<and> lc_phase x = Refreshing v t")
  case True
  then obtain x v t where x: "jget (rl_callers s) c = Some x" "lc_phase x = Refreshing v t" by blast
  show ?thesis
    by (rule redis_ok_phase [OF assms, of c x "x\<lparr>lc_phase := Releasing v\<rparr>"])
      (simp_all add: x refreshEnds_def set_phase_def phase_value_def)
next
  case False
  then have "refreshEnds c s = s" by (auto simp: refreshEnds_def split: option.split caller_phase.split)
  then show ?thesis using assms by simp
qed

lemma releaseLockIfOwned_ok:
  assumes ok: "redis_ok s"
  shows "redis_ok (releaseLockIfOwned now c s)"
proof (cases "\<exists>x v. jget (rl_callers s) c = Some x \<and> lc_phase x = Releasing v")
  case True
  then obtain x v where x: "jget (rl_callers s) c = Some x" "lc_phase x = Releasing v" by blast
  have other: "v' \<noteq> v" if "d \<noteq> c" "jget (rl_callers s) d = Some y" "lc_phase y = Refreshing v' t" for d y v' t
    using redis_okD(3) [OF ok x(1), of v d y] that x(2) by (auto simp: phase_value_def)
  show ?thesis
  proof (rule redis_ok_phase [OF ok, of c x "x\<lparr>lc_phase := Finished\<rparr>"])
    fix d y v' t assume d: "d \<noteq> c" "jget (rl_callers s) d = Some y" "lc_phase y = Refreshing v' t"
    then have "jget (rl_locks s) (lc_key y) = Some (v', t + LOCK_TTL_SECONDS * 1000)" using redis_okD(1) [OF ok] by blast
    then show "jget (rl_locks (releaseLockIfOwned now c s)) (lc_key y) = jget (rl_locks s) (lc_key y)"
      using other [OF d] x by (auto simp: releaseLockIfOwned_def Let_def set_phase_def)
  qed (simp_all add: x releaseLockIfOwned_def Let_def set_phase_def phase_value_def)
next
  case False
  then have "releaseLockIfOwned now c s = s" by (auto simp: releaseLockIfOwned_def split: option.split caller_phase.split)
  then show ?thesis using ok by simp
qed

lemma acquired_ok:
  assumes ok: "redis_ok s" and pr: "redis_prompt now s" and x: "jget (rl_callers s) c = Some x"
    and free: "\<not> lock_held now (lc_key x) s"
    and callers: "rl_callers s' = jset c (x\<lparr>lc_phase := Refreshing (rl_next s) now\<rparr>) (rl_callers s)"
    and locks: "rl_locks s' = jset (lc_key x) (rl_next s, now + LOCK_TTL_SECONDS * 1000) (rl_locks s)"
    and nxt: "rl_next s' = rl_next s + 1"
  shows "redis_ok s'"
  unfolding redis_ok_def
proof (intro conjI allI impI)
  show "jget (rl_locks s') (lc_key y) = Some (v, t + LOCK_TTL_SECONDS * 1000)"
    if "jget (rl_callers s') d = Some y" "lc_phase y = Refreshing v t" for d y v t
  proof (cases "d = c")
    case True
    then show ?thesis using that by (auto simp: callers locks)
  next
    case False
    then have d: "jget (rl_callers s) d = Some y" using that by (simp add: callers)
    have l: "jget (rl_locks s) (lc_key y) = Some (v, t + LOCK_TTL_SECONDS * 1000)" using redis_okD(1) [OF ok d that(2)] .
    have "now < t + LOCK_TTL_SECONDS * 1000" using pr d that(2) by (simp add: redis_prompt_def)
    then have "lock_held now (lc_key y) s" using l by (simp add: lock_held_def)
    then have "lc_key y \<noteq> lc_key x" using free by metis
    then show ?thesis using l by (simp add: locks)
  qed
  have small: "v < rl_next s" if "d \<noteq> c" "jget (rl_callers s') d = Some y" "phase_value (lc_phase y) = Some v" for d y v
    using that redis_okD(2) [OF ok, of d y v] by (simp add: callers)
  have mine: "v = rl_next s" if "jget (rl_callers s') c = Some y" "phase_value (lc_phase y) = Some v" for y v
    using that by (auto simp: callers phase_value_def)
  show "v < rl_next s'" if "jget (rl_callers s') d = Some y" "phase_value (lc_phase y) = Some v" for d y v
    using small [of d y v] mine [of y v] that nxt by (cases "d = c") auto
  show "d' = d" if "jget (rl_callers s') d = Some y" "phase_value (lc_phase y) = Some v"
      "jget (rl_callers s') d' = Some y'" "phase_value (lc_phase y') = Some v" for d y d' y' v
  proof (cases "d = c \<or> d' = c")
    case True
    then have "v = rl_next s" using mine that by blast
    then show ?thesis using small [OF _ that(1,2)] small [OF _ that(3,4)] by (cases "d = c"; cases "d' = c") auto
  next
    case False
    then show ?thesis using that redis_okD(3) [OF ok, of d y v d' y'] by (simp add: callers)
  qed
qed

lemma tryAcquireLock_ok:
  assumes ok: "redis_ok s" and pr: "redis_prompt now s"
  shows "redis_ok (tryAcquireLock now c s)"
proof (cases "\<exists>x. jget (rl_callers s) c = Some x \<and> (lc_phase x = Acquiring \<or> (\<exists>st. lc_phase x = Retrying st))")
  case True
  then obtain x where x: "jget (rl_callers s) c = Some x" "lc_phase x = Acquiring \<or> (\<exists>st. lc_phase x = Retrying st)" by blast
  show ?thesis
  proof (cases "lock_held now (lc_key x) s")
    case True
    then show ?thesis using x set_phase_ok [OF ok, of _ c] by (auto simp: tryAcquireLock_def Let_def phase_value_def)
  next
    case False
    show ?thesis by (rule acquired_ok [OF ok pr x(1) False]) (use x False in \<open>auto simp: tryAcquireLock_def Let_def set_phase_def\<close>)
  qed
next
  case False
  then have "tryAcquireLock now c s = s"
    by (auto simp: tryAcquireLock_def Let_def split: option.split caller_phase.split)
  then show ?thesis using ok by simp
qed

lemma redis_run_ok: "redis_run s \<Longrightarrow> redis_ok s"
proof (induction rule: redis_run.induct)
  case RStart
  show ?case by (simp add: redis_ok_def new_redis_manager_def)
next
  case (RClear s proc)
  have "rl_callers (redis_clearAll proc s) = rl_callers s" "rl_locks (redis_clearAll proc s) = rl_locks s"
    "rl_next (redis_clearAll proc s) = rl_next s" by (simp_all add: redis_clearAll_def)
  then show ?case using RClear unfolding redis_ok_def by (simp only:)
qed (simp_all add: redis_withLock_ok tryAcquireLock_ok waitLoop_ok refreshEnds_ok releaseLockIfOwned_ok)

text \<open>
  C23. Mutual exclusion across processes. However the callers of any number of processes
  interleave, as long as no lock is requested while some refresh has outlived its time to live,
  at most one refresh per key is under way, and it owns the lock in Redis. The life of a lock and that of
  its refresh are both counted from the command that set it, whose reply is taken in the same step.
\<close>

theorem redis_lock_mutex:
  assumes "redis_run s" and "jget (rl_callers s) c = Some x" and "lc_phase x = Refreshing v t"
  shows "jget (rl_locks s) (lc_key x) = Some (v, t + 30000) \<and>
         (\<forall>c' x' v' t'. jget (rl_callers s) c' = Some x' \<and> lc_phase x' = Refreshing v' t' \<and> lc_key x' = lc_key x \<longrightarrow> c' = c)"
proof -
  have ok: "redis_ok s" by (rule redis_run_ok [OF assms(1)])
  have l: "jget (rl_locks s) (lc_key x) = Some (v, t + LOCK_TTL_SECONDS * 1000)" by (rule redis_okD(1) [OF ok assms(2,3)])
  have "c' = c" if "jget (rl_callers s) c' = Some x'" "lc_phase x' = Refreshing v' t'" "lc_key x' = lc_key x" for c' x' v' t'
  proof -
    have "v' = v" using redis_okD(1) [OF ok that(1,2)] l that(3) by simp
    then show ?thesis using redis_okD(3) [OF ok assms(2), of v c' x'] that assms(3) by (simp add: phase_value_def)
  qed
  then show ?thesis using l by (auto simp: LOCK_TTL_SECONDS_def)
qed

definition demo_lock :: redis_manager where
  "demo_lock = tryAcquireLock 5 1 (tryAcquireLock 0 0 (redis_withLock 2 ''k'' (redis_withLock 1 ''k'' new_redis_manager)))"

theorem redis_lock_mutex_witness:
  "map_option lc_phase (jget (rl_callers demo_lock) 0) = Some (Refreshing 2 0) \<and>
   {c'. \<exists>x' v' t'. jget (rl_callers demo_lock) c' = Some x' \<and> lc_phase x' = Refreshing v' t' \<and> lc_key x' = ''k''} = {0}"
proof -
  define s0 where "s0 = redis_withLock 2 ''k'' (redis_withLock 1 ''k'' new_redis_manager)"
  define s1 where "s1 = tryAcquireLock 0 0 s0"
  have r0: "redis_run s0" unfolding s0_def by (intro RCall RStart)
  have p0: "redis_prompt 0 s0"
    by (auto simp: redis_prompt_def s0_def redis_withLock_def new_redis_manager_def Let_def split: if_splits)
  have r1: "redis_run s1" unfolding s1_def by (rule RAcquire [OF r0 p0])
  have c1: "rl_callers s1 = [(0, \<lparr>lc_process = 1, lc_key = ''k'', lc_phase = Refreshing 2 0\<rparr>), (1, \<lparr>lc_process = 2, lc_key = ''k'', lc_phase = Acquiring\<rparr>)]"
    unfolding s1_def s0_def by code_simp
  have p1: "redis_prompt 5 s1" by (auto simp: redis_prompt_def c1 LOCK_TTL_SECONDS_def split: if_splits)
  have r: "redis_run demo_lock" unfolding demo_lock_def s0_def [symmetric] s1_def [symmetric] by (rule RAcquire [OF r1 p1])
  have x: "jget (rl_callers demo_lock) 0 = Some \<lparr>lc_process = 1, lc_key = ''k'', lc_phase = Refreshing 2 0\<rparr>" by code_simp
  have "{c'. \<exists>x' v' t'. jget (rl_callers demo_lock) c' = Some x' \<and> lc_phase x' = Refreshing v' t' \<and> lc_key x' = ''k''} \<subseteq> {0}"
    using redis_lock_mutex [OF r x, of 2 0] by auto
  then show ?thesis using x by fastforce
qed

text \<open>
  The lock serialises refreshes but does not share their result: a process that waited for
  another one's successful refresh refreshes again.
\<close>

definition waited :: redis_manager where
  "waited =
     (let s0 = redis_withLock 2 ''k'' (redis_withLock 1 ''k'' new_redis_manager);
          s1 = waitLoop 5 1 (tryAcquireLock 5 1 (tryAcquireLock 0 0 s0));
          s2 = releaseLockIfOwned 20 0 (refreshEnds 0 s1);
          s3 = waitLoop 55 1 s2
      in tryAcquireLock 56 1 s3)"

theorem waiter_refreshes_again:
  "map_option lc_phase (jget (rl_callers waited) 0) = Some Finished \<and>
   map_option lc_phase (jget (rl_callers waited) 1) = Some (Refreshing 3 56)"
  by code_simp

end
