(* ===== verification/SessionKeys.thy ===== *)
theory SessionKeys
  imports Prelude
begin

section \<open>Session keys and conversation locks\<close>

text \<open>
  The composite keys of \<open>apps/web/features/auth/lib/sessionStore.ts\<close> with its domain cache and
  stores, the worktree slugs of \<open>apps/web/features/workspace/lib/worktree-utils.ts\<close>, and the
  conversation locks of \<open>apps/web/features/auth/types/session.ts\<close>.
\<close>

subsection \<open>Keys\<close>

text \<open>\<open>s.split("::")\<close>.\<close>

fun split_dcolon :: "string \<Rightarrow> string list" where
  "split_dcolon [] = [[]]"
| "split_dcolon [c] = [[c]]"
| "split_dcolon (c # d # s) =
     (if c = CHR '':'' \<and> d = CHR '':'' then [] # split_dcolon s
      else case split_dcolon (d # s) of [] \<Rightarrow> [[c]] | w # ws \<Rightarrow> (c # w) # ws)"

record tab_ref =
  tr_userId :: string
  tr_workspace :: "string option"
  tr_worktree :: "string option"
  tr_tabGroupId :: string
  tr_tabId :: string

definition dcolon :: string where
  "dcolon = ''::''"

definition tabKey :: "tab_ref \<Rightarrow> string" where
  "tabKey r =
     (let workspacePart = (case tr_workspace r of None \<Rightarrow> ''default'' | Some w \<Rightarrow> w);
          worktreePart = (case tr_worktree r of None \<Rightarrow> [] | Some w \<Rightarrow> if w = [] then [] else dcolon @ ''wt/'' @ w)
      in tr_userId r @ dcolon @ workspacePart @ worktreePart @ dcolon @ tr_tabGroupId r @ dcolon @ tr_tabId r)"

datatype key_error = InvalidSessionKey nat

record parsed_key =
  pk_userId :: string
  pk_workspaceDomain :: string
  pk_tabGroupId :: string
  pk_tabId :: string
  pk_worktree :: "string option"

definition parseKey :: "string \<Rightarrow> key_error + parsed_key" where
  "parseKey key =
     (case split_dcolon key of
        [userId, workspaceDomain, tabGroupId, tabId] \<Rightarrow>
          Inr \<lparr>pk_userId = userId, pk_workspaceDomain = (if workspaceDomain = [] then ''default'' else workspaceDomain),
               pk_tabGroupId = tabGroupId, pk_tabId = tabId, pk_worktree = None\<rparr>
      | [userId, workspaceDomain, worktreePart, tabGroupId, tabId] \<Rightarrow>
          Inr \<lparr>pk_userId = userId, pk_workspaceDomain = (if workspaceDomain = [] then ''default'' else workspaceDomain),
               pk_tabGroupId = tabGroupId, pk_tabId = tabId,
               pk_worktree = Some (if starts_with ''wt/'' worktreePart then drop 3 worktreePart else worktreePart)\<rparr>
      | parts \<Rightarrow> Inl (InvalidSessionKey (length parts)))"

subsection \<open>Worktree slugs\<close>

definition lower_char :: "char \<Rightarrow> char" where
  "lower_char c = (let n = of_char c :: nat in
     if (65 \<le> n \<and> n \<le> 90) \<or> (192 \<le> n \<and> n \<le> 222 \<and> n \<noteq> 215) then char_of (n + 32) else c)"

definition normalizeWorktreeSlug :: "string \<Rightarrow> string" where
  "normalizeWorktreeSlug s = map lower_char (trim s)"

definition slug_char :: "char \<Rightarrow> bool" where
  "slug_char c \<longleftrightarrow> (let n = of_char c :: nat in (97 \<le> n \<and> n \<le> 122) \<or> (48 \<le> n \<and> n \<le> 57))"

text \<open>The pattern \<open>[a-z0-9][a-z0-9-]{0,48}\<close> over the whole slug.\<close>

definition WORKTREE_SLUG_REGEX :: "string \<Rightarrow> bool" where
  "WORKTREE_SLUG_REGEX s =
     (case s of [] \<Rightarrow> False
      | c # cs \<Rightarrow> slug_char c \<and> length cs \<le> 48 \<and> list_all (\<lambda>d. slug_char d \<or> d = CHR ''-'') cs)"

definition RESERVED_WORKTREE_SLUGS :: "string list" where
  "RESERVED_WORKTREE_SLUGS = [''user'', ''worktrees'', ''.'', ''..'']"

datatype slug_error = SlugEmpty | SlugPattern | SlugReserved

definition validateWorktreeSlug :: "string \<Rightarrow> slug_error + string" where
  "validateWorktreeSlug input =
     (let slug = normalizeWorktreeSlug input in
      if slug = [] then Inl SlugEmpty
      else if \<not> WORKTREE_SLUG_REGEX slug then Inl SlugPattern
      else if slug \<in> set RESERVED_WORKTREE_SLUGS then Inl SlugReserved
      else Inr slug)"

definition buildWorkspaceKey :: "string option \<Rightarrow> string option \<Rightarrow> string option" where
  "buildWorkspaceKey workspace worktree =
     (case workspace of
        None \<Rightarrow> None
      | Some w \<Rightarrow>
          if w = [] then None
          else let normalized = (case worktree of None \<Rightarrow> [] | Some t \<Rightarrow> if t = [] then [] else normalizeWorktreeSlug t)
               in Some (if normalized = [] then w else w @ dcolon @ ''wt/'' @ normalized))"

text \<open>\<open>key.split("::wt/")\<close>.\<close>

fun split_wt :: "string \<Rightarrow> string list" where
  "split_wt [] = [[]]"
| "split_wt (c # cs) =
     (if starts_with (dcolon @ ''wt/'') (c # cs) then [] # split_wt (drop 4 cs)
      else case split_wt cs of [] \<Rightarrow> [[c]] | p # ps \<Rightarrow> (c # p) # ps)"

definition parseWorkspaceKey :: "string \<Rightarrow> string \<times> string option" where
  "parseWorkspaceKey key =
     (case split_wt key of
        workspace # worktreePart # _ \<Rightarrow> if worktreePart = [] then (key, None) else (workspace, Some worktreePart)
      | _ \<Rightarrow> (key, None))"

lemma split_wt_plain: "list_all (\<lambda>c. c \<noteq> CHR '':'') s \<Longrightarrow> split_wt s = [s]"
  by (induction s) (auto simp: starts_with_iff dcolon_def)

lemma split_wt_join:
  "list_all (\<lambda>c. c \<noteq> CHR '':'') w \<Longrightarrow> split_wt (w @ dcolon @ ''wt/'' @ t) = w # split_wt t"
  by (induction w) (auto simp: starts_with_iff dcolon_def)

lemma slug_all_no_colon: "WORKTREE_SLUG_REGEX s \<Longrightarrow> s \<noteq> [] \<and> list_all (\<lambda>c. c \<noteq> CHR '':'') s"
  by (auto simp: WORKTREE_SLUG_REGEX_def slug_char_def Let_def list_all_iff split: list.splits)

text \<open>A workspace key parses back to its hostname and slug.\<close>

lemma buildWorkspaceKey_parses:
  assumes "list_all (\<lambda>c. c \<noteq> CHR '':'') w" and "w \<noteq> []" and "validateWorktreeSlug t = Inr s"
  shows "map_option parseWorkspaceKey (buildWorkspaceKey (Some w) (Some t)) = Some (w, Some s) \<and>
         map_option parseWorkspaceKey (buildWorkspaceKey (Some w) None) = Some (w, None)"
proof -
  have s: "s = normalizeWorktreeSlug t" "WORKTREE_SLUG_REGEX s"
    using assms(3) by (auto simp: validateWorktreeSlug_def Let_def split: if_splits)
  have "t \<noteq> []" using s by (auto simp: normalizeWorktreeSlug_def WORKTREE_SLUG_REGEX_def trim_def trim_start_def trim_end_def)
  then show ?thesis
    using assms(1,2) slug_all_no_colon [OF s(2)] split_wt_join [of w s] split_wt_plain [of s] split_wt_plain [of w]
    by (simp add: buildWorkspaceKey_def parseWorkspaceKey_def s(1) [symmetric])
qed

subsection \<open>The domain cache and the stores\<close>

definition CACHE_TTL_MS :: int where
  "CACHE_TTL_MS = 5 * 60 * 1000"

type_synonym domain_cache = "(string, string \<times> int) jsmap"

text \<open>The database answers with a domain id, no row, or an error.\<close>

datatype domain_reply = DomainRow string | NoDomainRow | DomainFailure string

definition getDomainId :: "int \<Rightarrow> (string \<Rightarrow> domain_reply) \<Rightarrow> string \<Rightarrow> domain_cache \<Rightarrow> (string + string option) \<times> domain_cache" where
  "getDomainId now db hostname cache =
     (case jget cache hostname of
        Some (d, t) \<Rightarrow> if now - t < CACHE_TTL_MS then (Inr (Some d), cache)
                       else (case db hostname of
                               DomainRow d' \<Rightarrow> (Inr (Some d'), jset hostname (d', now) cache)
                             | NoDomainRow \<Rightarrow> (Inr None, jdel hostname cache)
                             | DomainFailure m \<Rightarrow> (Inl m, cache))
      | None \<Rightarrow> (case db hostname of
                   DomainRow d' \<Rightarrow> (Inr (Some d'), jset hostname (d', now) cache)
                 | NoDomainRow \<Rightarrow> (Inr None, jdel hostname cache)
                 | DomainFailure m \<Rightarrow> (Inl m, cache)))"

definition invalidateSessionDomainCache :: "string \<Rightarrow> domain_cache \<Rightarrow> domain_cache" where
  "invalidateSessionDomainCache hostname cache = jdel hostname cache"

definition cleanupDomainCache :: "int \<Rightarrow> domain_cache \<Rightarrow> domain_cache" where
  "cleanupDomainCache now cache = filter (\<lambda>(h, d, t). \<not> now - t > CACHE_TTL_MS) cache"

text \<open>The sessions of the database are keyed by user, domain and tab; the group is ignored.\<close>

type_synonym session_table = "(string \<times> string \<times> string, string) jsmap"

datatype session_error = BadKey key_error | LookupFailed string | DomainNotFound string

definition session_set ::
  "int \<Rightarrow> (string \<Rightarrow> domain_reply) \<Rightarrow> string \<Rightarrow> string \<Rightarrow> session_table \<times> domain_cache \<Rightarrow>
     (session_error + unit) \<times> session_table \<times> domain_cache" where
  "session_set now db key v w =
     (case w of (tab, cache) \<Rightarrow>
        (case parseKey key of
           Inl e \<Rightarrow> (Inl (BadKey e), tab, cache)
         | Inr p \<Rightarrow>
             (case getDomainId now db (pk_workspaceDomain p) cache of
                (Inl m, c) \<Rightarrow> (Inl (LookupFailed m), tab, c)
              | (Inr None, c) \<Rightarrow> (Inl (DomainNotFound (pk_workspaceDomain p)), tab, c)
              | (Inr (Some d), c) \<Rightarrow> (Inr (), jset (pk_userId p, d, pk_tabId p) v tab, c))))"

definition session_get ::
  "int \<Rightarrow> (string \<Rightarrow> domain_reply) \<Rightarrow> string \<Rightarrow> session_table \<times> domain_cache \<Rightarrow>
     (session_error + string option) \<times> session_table \<times> domain_cache" where
  "session_get now db key w =
     (case w of (tab, cache) \<Rightarrow>
        (case parseKey key of
           Inl e \<Rightarrow> (Inl (BadKey e), tab, cache)
         | Inr p \<Rightarrow>
             (case getDomainId now db (pk_workspaceDomain p) cache of
                (Inl m, c) \<Rightarrow> (Inl (LookupFailed m), tab, c)
              | (Inr None, c) \<Rightarrow> (Inr None, tab, c)
              | (Inr (Some d), c) \<Rightarrow>
                  (Inr (case jget tab (pk_userId p, d, pk_tabId p) of None \<Rightarrow> None
                        | Some v \<Rightarrow> if v = [] then None else Some v), tab, c))))"

definition session_delete ::
  "int \<Rightarrow> (string \<Rightarrow> domain_reply) \<Rightarrow> string \<Rightarrow> session_table \<times> domain_cache \<Rightarrow>
     (session_error + unit) \<times> session_table \<times> domain_cache" where
  "session_delete now db key w =
     (case w of (tab, cache) \<Rightarrow>
        (case parseKey key of
           Inl e \<Rightarrow> (Inl (BadKey e), tab, cache)
         | Inr p \<Rightarrow>
             (case getDomainId now db (pk_workspaceDomain p) cache of
                (Inl m, c) \<Rightarrow> (Inl (LookupFailed m), tab, c)
              | (Inr None, c) \<Rightarrow> (Inr (), tab, c)
              | (Inr (Some d), c) \<Rightarrow> (Inr (), jdel (pk_userId p, d, pk_tabId p) tab, c))))"

subsection \<open>Conversation locks\<close>

record conv_locks =
  activeConversations :: "string list"
  lockTimestamps :: "(string, int) jsmap"

definition LOCK_TIMEOUT_MS :: int where
  "LOCK_TIMEOUT_MS = 5 * 60 * 1000"

definition unlockConversation :: "string \<Rightarrow> conv_locks \<Rightarrow> conv_locks" where
  "unlockConversation key l =
     l\<lparr>activeConversations := filter (\<lambda>k. k \<noteq> key) (activeConversations l), lockTimestamps := jdel key (lockTimestamps l)\<rparr>"

definition acquireConversation :: "int \<Rightarrow> string \<Rightarrow> conv_locks \<Rightarrow> conv_locks" where
  "acquireConversation now key l =
     l\<lparr>lockTimestamps := jset key now (lockTimestamps l),
       activeConversations := (if key \<in> set (activeConversations l) then activeConversations l else activeConversations l @ [key])\<rparr>"

definition tryLockConversation :: "int \<Rightarrow> string \<Rightarrow> conv_locks \<Rightarrow> bool \<times> conv_locks" where
  "tryLockConversation now key l =
     (case jget (lockTimestamps l) key of
        None \<Rightarrow> (True, acquireConversation now key l)
      | Some t \<Rightarrow> if now - t > LOCK_TIMEOUT_MS then (True, acquireConversation now key (unlockConversation key l))
                  else (False, l))"

definition isConversationLocked :: "string \<Rightarrow> conv_locks \<Rightarrow> bool" where
  "isConversationLocked key l \<longleftrightarrow> key \<in> set (activeConversations l)"

definition cleanupStaleConversations :: "int \<Rightarrow> conv_locks \<Rightarrow> conv_locks" where
  "cleanupStaleConversations now l =
     fold (\<lambda>(key, t) l. if now - t > LOCK_TIMEOUT_MS then unlockConversation key l else l) (lockTimestamps l) l"

definition getLockedConversations :: "int \<Rightarrow> conv_locks \<Rightarrow> (string \<times> int) list" where
  "getLockedConversations now l = map (\<lambda>(key, t). (key, now - t)) (lockTimestamps l)"

subsection \<open>Round trip of keys\<close>

text \<open>A part survives \<open>split\<close> when it holds no separator and does not end with a colon.\<close>

definition key_part :: "string \<Rightarrow> bool" where
  "key_part s \<longleftrightarrow> split_dcolon s = [s] \<and> (s = [] \<or> last s \<noteq> CHR '':'')"

lemma split_dcolon_nonempty [simp]: "split_dcolon s \<noteq> []"
  by (induction s rule: split_dcolon.induct) (auto split: list.splits)

lemma split_dcolon_part:
  "key_part s \<Longrightarrow> split_dcolon (s @ dcolon @ t) = s # split_dcolon t"
proof (induction s rule: split_dcolon.induct)
  case 1
  show ?case by (cases t) (simp_all add: dcolon_def)
next
  case (2 c)
  then have "c \<noteq> CHR '':''" by (simp add: key_part_def)
  then show ?case by (simp add: dcolon_def)
next
  case (3 c d s)
  have n: "\<not> (c = CHR '':'' \<and> d = CHR '':'')" using 3(3) by (auto simp: key_part_def)
  have "key_part (d # s)"
    using 3(3) n by (auto simp: key_part_def split: list.splits if_splits)
  then have "split_dcolon ((d # s) @ dcolon @ t) = (d # s) # split_dcolon t" using 3(2) n by blast
  then show ?case using n by simp
qed

text \<open>
  Session keys parse back to what they were built from: whenever no part of the reference
  contains the separator or, unless it is the last, ends with a colon, the user, the workspace
  (\<open>default\<close> when missing or empty), the worktree, the group and the tab come back unchanged. So
  no two such references share a lock.
\<close>

theorem tabKey_roundtrip:
  assumes "key_part (tr_userId r)" and "\<forall>w\<in>set_option (tr_workspace r). key_part w"
    and "\<forall>w\<in>set_option (tr_worktree r). w \<noteq> [] \<longrightarrow> key_part (''wt/'' @ w)"
    and "key_part (tr_tabGroupId r)" and "split_dcolon (tr_tabId r) = [tr_tabId r]"
  shows "parseKey (tabKey r) = Inr \<lparr>pk_userId = tr_userId r,
      pk_workspaceDomain = (case tr_workspace r of None \<Rightarrow> ''default'' | Some w \<Rightarrow> if w = [] then ''default'' else w),
      pk_tabGroupId = tr_tabGroupId r, pk_tabId = tr_tabId r,
      pk_worktree = (case tr_worktree r of None \<Rightarrow> None | Some w \<Rightarrow> if w = [] then None else Some w)\<rparr>"
proof -
  define w where "w = (case tr_workspace r of None \<Rightarrow> ''default'' | Some w \<Rightarrow> w)"
  have "key_part ''default''" by code_simp
  then have pw: "key_part w" using assms(2) by (simp add: w_def split: option.split)
  have d: "(if w = [] then ''default'' else w) =
      (case tr_workspace r of None \<Rightarrow> ''default'' | Some w \<Rightarrow> if w = [] then ''default'' else w)"
    by (simp add: w_def split: option.split)
  show ?thesis
  proof (cases "tr_worktree r = None \<or> tr_worktree r = Some []")
    case True
    then have "tabKey r = tr_userId r @ dcolon @ w @ dcolon @ tr_tabGroupId r @ dcolon @ tr_tabId r"
      by (auto simp: tabKey_def w_def)
    then have "split_dcolon (tabKey r) = [tr_userId r, w, tr_tabGroupId r, tr_tabId r]"
      by (simp only: split_dcolon_part assms(1,4,5) pw)
    then show ?thesis using True d by (auto simp: parseKey_def)
  next
    case False
    then obtain t where t: "tr_worktree r = Some t" "t \<noteq> []" by auto
    then have "tabKey r = tr_userId r @ dcolon @ w @ dcolon @ (''wt/'' @ t) @ dcolon @ tr_tabGroupId r @ dcolon @ tr_tabId r"
      by (simp add: tabKey_def w_def Let_def)
    moreover have "key_part (''wt/'' @ t)" using assms(3) t by simp
    ultimately have "split_dcolon (tabKey r) = [tr_userId r, w, ''wt/'' @ t, tr_tabGroupId r, tr_tabId r]"
      by (simp only: split_dcolon_part assms(1,4,5) pw)
    then show ?thesis using t d by (simp add: parseKey_def starts_with_def)
  qed
qed

theorem tabKey_roundtrip_witness:
  "parseKey ''u1::site.nl::wt/fix::g1::t1'' = Inr \<lparr>pk_userId = ''u1'', pk_workspaceDomain = ''site.nl'',
     pk_tabGroupId = ''g1'', pk_tabId = ''t1'', pk_worktree = Some ''fix''\<rparr>"
proof -
  let ?r = "\<lparr>tr_userId = ''u1'', tr_workspace = Some ''site.nl'', tr_worktree = Some ''fix'', tr_tabGroupId = ''g1'', tr_tabId = ''t1''\<rparr>"
  have k: "tabKey ?r = ''u1::site.nl::wt/fix::g1::t1''" by code_simp
  have p: "key_part ''u1''" "key_part ''site.nl''" "key_part ''wt/fix''" "key_part ''g1''" "split_dcolon ''t1'' = [''t1'']"
    by code_simp+
  show ?thesis using tabKey_roundtrip [of ?r] p by (simp add: k)
qed

text \<open>An accepted worktree slug is safe in a key, and validating it again changes nothing.\<close>

lemma split_dcolon_no_colon: "CHR '':'' \<notin> set s \<Longrightarrow> split_dcolon s = [s]"
  by (induction s rule: split_dcolon.induct) auto

lemma slug_no_colon:
  assumes "WORKTREE_SLUG_REGEX s"
  shows "CHR '':'' \<notin> set s" and "s \<noteq> []"
proof -
  have c: "\<not> slug_char (CHR '':'')" by code_simp
  show "CHR '':'' \<notin> set s"
    using assms c by (cases s) (auto simp: WORKTREE_SLUG_REGEX_def list_all_iff)
  show "s \<noteq> []" using assms by (auto simp: WORKTREE_SLUG_REGEX_def)
qed

lemma validateWorktreeSlug_key_part:
  assumes "validateWorktreeSlug input = Inr slug"
  shows "key_part (''wt/'' @ slug)"
proof -
  have "WORKTREE_SLUG_REGEX slug" using assms by (auto simp: validateWorktreeSlug_def Let_def split: if_splits)
  then have s: "CHR '':'' \<notin> set slug" "slug \<noteq> []" by (rule slug_no_colon)+
  then have "CHR '':'' \<notin> set (''wt/'' @ slug)" by simp
  then have "split_dcolon (''wt/'' @ slug) = [''wt/'' @ slug]" by (rule split_dcolon_no_colon)
  moreover have "last (''wt/'' @ slug) \<noteq> CHR '':''" using s by (metis last_appendR last_in_set)
  ultimately show ?thesis by (simp add: key_part_def)
qed

subsection \<open>Properties of the locks\<close>

lemma locks_agree_acquire:
  "set (activeConversations l) = fst ` set (lockTimestamps l) \<Longrightarrow>
   set (activeConversations (acquireConversation now key l)) = fst ` set (lockTimestamps (acquireConversation now key l))"
  by (auto simp: acquireConversation_def)

text \<open>
  Streams of one conversation: who believes to hold the lock since when. A stream that got the
  lock releases it by key when it completes; the lock does not know its holder.
\<close>

record lock_run =
  lr_locks :: conv_locks
  lr_holders :: "(nat \<times> string \<times> int) list"

definition lock_request :: "int \<Rightarrow> nat \<Rightarrow> string \<Rightarrow> lock_run \<Rightarrow> lock_run" where
  "lock_request now stream key r =
     (let (got, l) = tryLockConversation now key (lr_locks r)
      in r\<lparr>lr_locks := l, lr_holders := (if got then lr_holders r @ [(stream, key, now)] else lr_holders r)\<rparr>)"

definition lock_release :: "nat \<Rightarrow> string \<Rightarrow> lock_run \<Rightarrow> lock_run" where
  "lock_release stream key r =
     r\<lparr>lr_locks := unlockConversation key (lr_locks r), lr_holders := filter (\<lambda>(s, k, t). \<not> (s = stream \<and> k = key)) (lr_holders r)\<rparr>"

text \<open>No running stream is older than the lock timeout.\<close>

definition holders_prompt :: "int \<Rightarrow> lock_run \<Rightarrow> bool" where
  "holders_prompt now r \<longleftrightarrow> (\<forall>(s, k, t)\<in>set (lr_holders r). now - t \<le> LOCK_TIMEOUT_MS)"

inductive lock_history :: "lock_run \<Rightarrow> bool" where
  lock_start: "lock_history \<lparr>lr_locks = \<lparr>activeConversations = [], lockTimestamps = []\<rparr>, lr_holders = []\<rparr>"
| lock_request: "lock_history r \<Longrightarrow> holders_prompt now r \<Longrightarrow> lock_history (lock_request now stream key r)"
| lock_sweep: "lock_history r \<Longrightarrow> holders_prompt now r \<Longrightarrow>
    lock_history (r\<lparr>lr_locks := cleanupStaleConversations now (lr_locks r)\<rparr>)"
| lock_release: "lock_history r \<Longrightarrow> (stream, key, t) \<in> set (lr_holders r) \<Longrightarrow> lock_history (lock_release stream key r)"

definition lock_run_ok :: "lock_run \<Rightarrow> bool" where
  "lock_run_ok r \<longleftrightarrow> (\<forall>s k t. (s, k, t) \<in> set (lr_holders r) \<longrightarrow> jget (lockTimestamps (lr_locks r)) k = Some t) \<and>
     distinct (map (\<lambda>(s, k, t). k) (lr_holders r)) \<and>
     (\<forall>k t. jget (lockTimestamps (lr_locks r)) k = Some t \<longrightarrow> (\<exists>s. (s, k, t) \<in> set (lr_holders r))) \<and>
     jmap_ok (lockTimestamps (lr_locks r))"

lemma cleanup_prompt:
  assumes "\<forall>(k, t)\<in>set (lockTimestamps l). now - t \<le> LOCK_TIMEOUT_MS"
  shows "cleanupStaleConversations now l = l"
proof -
  have "fold (\<lambda>(key, t) l. if now - t > LOCK_TIMEOUT_MS then unlockConversation key l else l) xs l = l"
    if "\<forall>(k, t)\<in>set xs. now - t \<le> LOCK_TIMEOUT_MS" for xs
    using that by (induction xs) auto
  then show ?thesis using assms by (simp add: cleanupStaleConversations_def)
qed

lemma lock_history_ok: "lock_history r \<Longrightarrow> lock_run_ok r"
proof (induction rule: lock_history.induct)
  case lock_start
  show ?case by (simp add: lock_run_ok_def)
next
  case (lock_request r now stream key)
  show ?case
  proof (cases "jget (lockTimestamps (lr_locks r)) key")
    case None
    have "key \<notin> (\<lambda>(s, k, t). k) ` set (lr_holders r)"
      using lock_request.IH None by (fastforce simp: lock_run_ok_def)
    moreover have "lock_request now stream key r =
        r\<lparr>lr_locks := acquireConversation now key (lr_locks r), lr_holders := lr_holders r @ [(stream, key, now)]\<rparr>"
      by (simp add: lock_request_def tryLockConversation_def None)
    ultimately show ?thesis using lock_request.IH None
      unfolding lock_run_ok_def by (simp add: acquireConversation_def) (metis (no_types, lifting) option.distinct(1))
  next
    case (Some t)
    then obtain s where "(s, key, t) \<in> set (lr_holders r)" using lock_request.IH unfolding lock_run_ok_def by blast
    then have "\<not> now - t > LOCK_TIMEOUT_MS" using lock_request.hyps(2) by (auto simp: holders_prompt_def)
    then have "lock_request now stream key r = r" by (simp add: lock_request_def tryLockConversation_def Some)
    then show ?thesis using lock_request.IH by simp
  qed
next
  case (lock_sweep r now)
  have "now - t \<le> LOCK_TIMEOUT_MS" if "(k, t) \<in> set (lockTimestamps (lr_locks r))" for k t
  proof -
    have "jget (lockTimestamps (lr_locks r)) k = Some t" using that lock_sweep.IH unfolding lock_run_ok_def by simp
    then show ?thesis using lock_sweep.IH lock_sweep.hyps(2) unfolding lock_run_ok_def holders_prompt_def by fast
  qed
  then have "cleanupStaleConversations now (lr_locks r) = lr_locks r" by (intro cleanup_prompt) auto
  then show ?case using lock_sweep.IH by simp
next
  case (lock_release r stream key t)
  have d: "distinct (map (\<lambda>(s, k, t). k) (lr_holders r))" using lock_release.IH by (simp add: lock_run_ok_def)
  have only: "s = stream \<and> u = t" if "(s, key, u) \<in> set (lr_holders r)" for s u
    using d lock_release.hyps(2) that inj_onD [of "\<lambda>(s, k, t). k" "set (lr_holders r)" "(s, key, u)" "(stream, key, t)"]
    by (auto simp: distinct_map)
  have 1: "jget (lockTimestamps (lr_locks r)) k = Some u" if "(s, k, u) \<in> set (lr_holders r)" for s k u
    using lock_release.IH that unfolding lock_run_ok_def by fast
  have 2: "\<exists>s. (s, k, u) \<in> set (lr_holders r)" if "jget (lockTimestamps (lr_locks r)) k = Some u" for k u
    using lock_release.IH that unfolding lock_run_ok_def by fast
  have 3: "jmap_ok (lockTimestamps (lr_locks r))" using lock_release.IH unfolding lock_run_ok_def by fast
  let ?r = "lock_release stream key r"
  have l: "jget (lockTimestamps (lr_locks ?r)) k = (if k = key then None else jget (lockTimestamps (lr_locks r)) k)" for k
    by (simp add: lock_release_def unlockConversation_def)
  have h: "(s, k, u) \<in> set (lr_holders ?r) \<longleftrightarrow> (s, k, u) \<in> set (lr_holders r) \<and> k \<noteq> key" for s k u
    using only by (auto simp: lock_release_def)
  have "jmap_ok (lockTimestamps (lr_locks ?r))" using 3 by (simp add: lock_release_def unlockConversation_def del: jget_mem)
  moreover have "distinct (map (\<lambda>(s, k, t). k) (lr_holders ?r))"
    using d by (simp add: lock_release_def distinct_map_filter)
  ultimately show ?case
    unfolding lock_run_ok_def using 1 2 by (simp only: l h) force
qed

text \<open>
  One stream per conversation, as long as streams are short: if no stream outlives the lock
  timeout when a lock is requested, no two streams of one conversation run at the same time.
\<close>

theorem conversation_lock_exclusive:
  assumes "lock_history r" and "(s, key, t) \<in> set (lr_holders r)" and "(s', key, t') \<in> set (lr_holders r)"
  shows "s' = s \<and> t' = t"
proof -
  have "distinct (map (\<lambda>(s, k, t). k) (lr_holders r))" using lock_history_ok [OF assms(1)] by (simp add: lock_run_ok_def)
  then show ?thesis
    using assms(2,3) inj_onD [of "\<lambda>(s, k, t). k" "set (lr_holders r)" "(s, key, t)" "(s', key, t')"]
    by (auto simp: distinct_map)
qed

theorem conversation_lock_exclusive_witness:
  "let r = lock_request 7 2 ''k'' (lock_request 0 1 ''k'' \<lparr>lr_locks = \<lparr>activeConversations = [], lockTimestamps = []\<rparr>, lr_holders = []\<rparr>)
   in {(s, t). (s, ''k'', t) \<in> set (lr_holders r)} = {(1, 0)}"
proof -
  define r1 where "r1 = lock_request 0 1 ''k'' \<lparr>lr_locks = \<lparr>activeConversations = [], lockTimestamps = []\<rparr>, lr_holders = []\<rparr>"
  have p: "holders_prompt 0 \<lparr>lr_locks = \<lparr>activeConversations = [], lockTimestamps = []\<rparr>, lr_holders = []\<rparr>" "holders_prompt 7 r1"
    unfolding r1_def by code_simp+
  have h: "lock_history (lock_request 7 2 ''k'' r1)"
    unfolding r1_def by (intro lock_history.lock_request lock_history.lock_start p(1) p(2) [unfolded r1_def])
  have m: "(1, ''k'', 0) \<in> set (lr_holders (lock_request 7 2 ''k'' r1))" unfolding r1_def by code_simp
  have "s = 1 \<and> t = 0" if "(s, ''k'', t) \<in> set (lr_holders (lock_request 7 2 ''k'' r1))" for s t
    by (rule conversation_lock_exclusive [OF h m that])
  then show ?thesis using m unfolding r1_def Let_def by blast
qed

text \<open>
  A stream longer than five minutes loses its conversation: a second stream starts beside it, and
  when the first one completes it releases the second one's lock, so a third one starts as well.
\<close>

theorem conversation_lock_stolen:
  "let r0 = \<lparr>lr_locks = \<lparr>activeConversations = [], lockTimestamps = []\<rparr>, lr_holders = []\<rparr>;
       r1 = lock_request 300001 2 ''k'' (lock_request 0 1 ''k'' r0);
       r2 = lock_request 300003 3 ''k'' (lock_release 1 ''k'' r1)
   in lr_holders r1 = [(1, ''k'', 0), (2, ''k'', 300001)] \<and> lr_holders r2 = [(2, ''k'', 300001), (3, ''k'', 300003)]"
  by code_simp

end
