(* ===== verification/CancelFlow.thy ===== *)
theory CancelFlow
  imports SessionKeys StreamBuffer
begin

section \<open>Starting, cancelling and completing a stream\<close>

text \<open>
  The cancellation registry and the intent registry of \<open>apps/web/lib/stream\<close>
  (\<open>cancellation-registry.ts\<close>, \<open>cancel-intent-registry.ts\<close>), the cancel endpoint
  \<open>apps/web/app/api/claude/stream/cancel/route.ts\<close>, and the parts of the stream route
  \<open>apps/web/app/api/claude/stream/route.ts\<close> that lock, register, consume intents and clean up.
  \<open>up\<close> says whether Redis answers; a failing operation takes the fallback like a missing client.
  The world is one process with its memory and the shared Redis.
\<close>

subsection \<open>State\<close>

record cancel_entry =
  ce_userId :: string
  ce_conversationKey :: string
  ce_createdAt :: int

record cancel_intent =
  ci_userId :: string
  ci_createdAt :: int

record stream_world =
  sw_locks :: conv_locks
  sw_registry :: "(string, cancel_entry) jsmap"
  sw_memoryIntents :: "(string, cancel_intent) jsmap"
  sw_redisIntents :: "cancel_intent redis_map"
  sw_buffers :: buffer_store
  sw_cancelCalls :: "string list"

text \<open>What the cancel callback of a stream does before the timeout.\<close>

datatype callback = Completes | Hangs | Throws

datatype cancel_status = StCancelled | StTimedOut | StNotFound

datatype cancel_failure = UnauthorizedCancel | CallbackFailed

subsection \<open>Intents\<close>

definition INTENT_TTL_MS :: int where
  "INTENT_TTL_MS = 15000"

definition INTENT_TTL_SECONDS :: int where
  "INTENT_TTL_SECONDS = 15"

datatype intent_scope = Conversation | Request

definition buildScopeKey :: "intent_scope \<Rightarrow> string \<Rightarrow> string" where
  "buildScopeKey scope id0 = (case scope of Conversation \<Rightarrow> ''conversation'' | Request \<Rightarrow> ''request'') @ '':'' @ id0"

definition pruneExpiredMemoryIntents :: "int \<Rightarrow> stream_world \<Rightarrow> stream_world" where
  "pruneExpiredMemoryIntents now w =
     w\<lparr>sw_memoryIntents := filter (\<lambda>(k, i). \<not> now - ci_createdAt i > INTENT_TTL_MS) (sw_memoryIntents w)\<rparr>"

definition registerIntent :: "bool \<Rightarrow> int \<Rightarrow> intent_scope \<Rightarrow> string \<Rightarrow> string \<Rightarrow> stream_world \<Rightarrow> stream_world" where
  "registerIntent up now scope id0 userId w =
     (let i = \<lparr>ci_userId = userId, ci_createdAt = now\<rparr>; k = buildScopeKey scope id0
      in if up then w\<lparr>sw_redisIntents := redis_setex now k INTENT_TTL_SECONDS i (sw_redisIntents w)\<rparr>
         else let w1 = pruneExpiredMemoryIntents now w
              in w1\<lparr>sw_memoryIntents := jset k i (sw_memoryIntents w1)\<rparr>)"

definition CONSUME_INTENT_SCRIPT :: "int \<Rightarrow> string \<Rightarrow> string \<Rightarrow> cancel_intent redis_map \<Rightarrow> int \<times> cancel_intent redis_map" where
  "CONSUME_INTENT_SCRIPT now k userId m =
     (case redis_get now k m of
        None \<Rightarrow> (0, m)
      | Some i \<Rightarrow> if ci_userId i \<noteq> userId then (-1, m) else (1, redis_del k m))"

definition consumeIntent :: "bool \<Rightarrow> int \<Rightarrow> intent_scope \<Rightarrow> string \<Rightarrow> string \<Rightarrow> stream_world \<Rightarrow> bool \<times> stream_world" where
  "consumeIntent up now scope id0 userId w =
     (let k = buildScopeKey scope id0
      in if up then let (r, m) = CONSUME_INTENT_SCRIPT now k userId (sw_redisIntents w)
                    in (r = 1, w\<lparr>sw_redisIntents := m\<rparr>)
         else let w1 = pruneExpiredMemoryIntents now w
              in case jget (sw_memoryIntents w1) k of
                   None \<Rightarrow> (False, w1)
                 | Some i \<Rightarrow> if ci_userId i \<noteq> userId then (False, w1)
                             else (True, w1\<lparr>sw_memoryIntents := jdel k (sw_memoryIntents w1)\<rparr>))"

definition hasIntent :: "bool \<Rightarrow> int \<Rightarrow> intent_scope \<Rightarrow> string \<Rightarrow> string \<Rightarrow> stream_world \<Rightarrow> bool \<times> stream_world" where
  "hasIntent up now scope id0 userId w =
     (let k = buildScopeKey scope id0
      in if up then (case redis_get now k (sw_redisIntents w) of None \<Rightarrow> False | Some i \<Rightarrow> ci_userId i = userId, w)
         else let w1 = pruneExpiredMemoryIntents now w
              in (case jget (sw_memoryIntents w1) k of None \<Rightarrow> False | Some i \<Rightarrow> ci_userId i = userId, w1))"

definition clearIntent :: "bool \<Rightarrow> intent_scope \<Rightarrow> string \<Rightarrow> stream_world \<Rightarrow> stream_world" where
  "clearIntent up scope id0 w =
     (let k = buildScopeKey scope id0
      in if up then w\<lparr>sw_redisIntents := redis_del k (sw_redisIntents w)\<rparr>
         else w\<lparr>sw_memoryIntents := jdel k (sw_memoryIntents w)\<rparr>)"

subsection \<open>The registry\<close>

definition registerCancellation :: "int \<Rightarrow> string \<Rightarrow> string \<Rightarrow> string \<Rightarrow> stream_world \<Rightarrow> stream_world" where
  "registerCancellation now requestId userId conversationKey w =
     w\<lparr>sw_registry := jset requestId \<lparr>ce_userId = userId, ce_conversationKey = conversationKey, ce_createdAt = now\<rparr> (sw_registry w)\<rparr>"

definition unregisterCancellation :: "string \<Rightarrow> stream_world \<Rightarrow> stream_world" where
  "unregisterCancellation requestId w = w\<lparr>sw_registry := jdel requestId (sw_registry w)\<rparr>"

text \<open>The cleanup a stream runs when it ends, cancelled or not; it resolves a pending cancel callback.\<close>

definition onStreamComplete :: "bool \<Rightarrow> int \<Rightarrow> string \<Rightarrow> string \<Rightarrow> stream_world \<Rightarrow> stream_world" where
  "onStreamComplete up now requestId key w =
     (let w1 = unregisterCancellation requestId w
      in w1\<lparr>sw_locks := unlockConversation key (sw_locks w1),
            sw_buffers := completeStreamBuffer up now requestId (sw_buffers w1)\<rparr>)"

text \<open>
  The callback aborts the stream and waits for its cleanup; it hangs past the timeout, throws, or
  completes with the cleanup done. \<open>now\<close> is the time at which the wait ends.
\<close>

definition runCancelWithTimeout ::
  "bool \<Rightarrow> int \<Rightarrow> callback \<Rightarrow> string \<Rightarrow> cancel_entry \<Rightarrow> stream_world \<Rightarrow> (cancel_failure + cancel_status) \<times> stream_world" where
  "runCancelWithTimeout up now cb requestId e w =
     (let w1 = w\<lparr>sw_cancelCalls := sw_cancelCalls w @ [requestId]\<rparr>
      in case cb of
           Throws \<Rightarrow> (Inl CallbackFailed, w1)
         | Hangs \<Rightarrow> (Inr StTimedOut, w1\<lparr>sw_locks := unlockConversation (ce_conversationKey e) (sw_locks w1),
                                      sw_buffers := completeStreamBuffer up now requestId (sw_buffers w1)\<rparr>)
         | Completes \<Rightarrow> (Inr StCancelled, onStreamComplete up now requestId (ce_conversationKey e) w1))"

definition cancelStreamWithStatus ::
  "bool \<Rightarrow> int \<Rightarrow> callback \<Rightarrow> string \<Rightarrow> string \<Rightarrow> stream_world \<Rightarrow> (cancel_failure + cancel_status) \<times> stream_world" where
  "cancelStreamWithStatus up now cb requestId userId w =
     (case jget (sw_registry w) requestId of
        None \<Rightarrow> (Inr StNotFound, w)
      | Some e \<Rightarrow>
          if ce_userId e \<noteq> userId then (Inl UnauthorizedCancel, w)
          else let (r, w1) = runCancelWithTimeout up now cb requestId e w in (r, unregisterCancellation requestId w1))"

definition cancelStreamByConversationKeyWithStatus ::
  "bool \<Rightarrow> int \<Rightarrow> callback \<Rightarrow> string \<Rightarrow> string \<Rightarrow> stream_world \<Rightarrow> (cancel_failure + cancel_status) \<times> stream_world" where
  "cancelStreamByConversationKeyWithStatus up now cb key userId w =
     (case filter (\<lambda>(r, e). ce_conversationKey e = key) (sw_registry w) of
        [] \<Rightarrow> (Inr StNotFound, w)
      | (requestId, e) # _ \<Rightarrow>
          if ce_userId e \<noteq> userId then (Inl UnauthorizedCancel, w)
          else let (r, w1) = runCancelWithTimeout up now cb requestId e w in (r, unregisterCancellation requestId w1))"

definition cancelStream :: "bool \<Rightarrow> int \<Rightarrow> callback \<Rightarrow> string \<Rightarrow> string \<Rightarrow> stream_world \<Rightarrow> (cancel_failure + bool) \<times> stream_world" where
  "cancelStream up now cb requestId userId w =
     (case cancelStreamWithStatus up now cb requestId userId w of
        (Inl e, w1) \<Rightarrow> (Inl e, w1) | (Inr st, w1) \<Rightarrow> (Inr (st \<noteq> StNotFound), w1))"

definition TTL_MS :: int where
  "TTL_MS = 90 * 60 * 1000"

definition ttlCleanup :: "bool \<Rightarrow> int \<Rightarrow> stream_world \<Rightarrow> stream_world" where
  "ttlCleanup up now w =
     fold (\<lambda>(requestId, e) w. if now - ce_createdAt e > TTL_MS
        then (unregisterCancellation requestId w)\<lparr>sw_cancelCalls := sw_cancelCalls w @ [requestId],
               sw_buffers := completeStreamBuffer up now requestId (sw_buffers w)\<rparr>
        else w) (sw_registry w) w"

definition getRegistryState :: "int \<Rightarrow> stream_world \<Rightarrow> (string \<times> string \<times> string \<times> int) list" where
  "getRegistryState now w =
     map (\<lambda>(r, e). (r, ce_userId e, ce_conversationKey e, now - ce_createdAt e)) (sw_registry w)"

subsection \<open>The cancel endpoint\<close>

record cancel_request =
  cr_requestId :: "string option"
  cr_tabId :: "string option"
  cr_tabGroupId :: "string option"
  cr_workspace :: "string option"
  cr_worktree :: "string option"
  cr_clientStack :: "string option"

datatype cancel_reply = Cancelled | CancelTimedOut | CancelQueued | AlreadyComplete | IgnoredUnloadBeacon
  | BadRequest string | Forbidden403 | WorkspaceDenied | CancelServerError

definition PAGE_UNLOAD_BEACON_MARKER :: string where
  "PAGE_UNLOAD_BEACON_MARKER = ''PAGE_UNLOAD_BEACON:''"

definition given :: "string option \<Rightarrow> bool" where
  "given x \<longleftrightarrow> (\<exists>s\<in>set_option x. s \<noteq> [])"

text \<open>The worktree after validation: \<open>Inl\<close> when it is refused.\<close>

definition cancelWorktree :: "cancel_request \<Rightarrow> unit + string option" where
  "cancelWorktree q =
     (if \<not> given (cr_worktree q) then Inr (cr_worktree q)
      else let t = normalizeWorktreeSlug (the (cr_worktree q))
           in if \<not> WORKTREE_SLUG_REGEX t \<or> t \<in> set RESERVED_WORKTREE_SLUGS then Inl () else Inr (Some t))"

definition cancelByRequestId ::
  "bool \<Rightarrow> int \<Rightarrow> callback \<Rightarrow> string \<Rightarrow> string \<Rightarrow> stream_world \<Rightarrow> cancel_reply \<times> stream_world" where
  "cancelByRequestId up now cb userId requestId w =
     (case cancelStreamWithStatus up now cb requestId userId w of
        (Inl UnauthorizedCancel, w1) \<Rightarrow> (Forbidden403, w1)
      | (Inl CallbackFailed, w1) \<Rightarrow> (CancelServerError, w1)
      | (Inr StCancelled, w1) \<Rightarrow> (Cancelled, w1)
      | (Inr StTimedOut, w1) \<Rightarrow> (CancelTimedOut, w1)
      | (Inr StNotFound, w1) \<Rightarrow>
          (case getStreamBuffer up now requestId (sw_buffers w1) of
             None \<Rightarrow> (AlreadyComplete, w1)
           | Some b \<Rightarrow>
               if sb_userId b = userId \<and> sb_state b = SbStreaming
               then (CancelQueued, registerIntent up now Conversation (sb_tabKey b) userId
                                     (registerIntent up now Request requestId userId w1))
               else (AlreadyComplete, w1)))"

definition cancelByTab ::
  "bool \<Rightarrow> int \<Rightarrow> callback \<Rightarrow> string \<Rightarrow> string \<Rightarrow> stream_world \<Rightarrow> cancel_reply \<times> stream_world" where
  "cancelByTab up now cb userId key w =
     (case cancelStreamByConversationKeyWithStatus up now cb key userId w of
        (Inl UnauthorizedCancel, w1) \<Rightarrow> (Forbidden403, w1)
      | (Inl CallbackFailed, w1) \<Rightarrow> (CancelServerError, w1)
      | (Inr StCancelled, w1) \<Rightarrow> (Cancelled, w1)
      | (Inr StTimedOut, w1) \<Rightarrow> (CancelTimedOut, w1)
      | (Inr StNotFound, w1) \<Rightarrow> (CancelQueued, registerIntent up now Conversation key userId w1))"

text \<open>\<open>verified\<close> is the workspace the session may use, if any.\<close>

definition cancelRoute ::
  "bool \<Rightarrow> int \<Rightarrow> callback \<Rightarrow> string \<Rightarrow> string option \<Rightarrow> cancel_request \<Rightarrow> stream_world \<Rightarrow> cancel_reply \<times> stream_world" where
  "cancelRoute up now cb userId verified q w =
     (case cancelWorktree q of
        Inl _ \<Rightarrow> (BadRequest ''worktree'', w)
      | Inr worktree \<Rightarrow>
          if (case cr_clientStack q of None \<Rightarrow> False | Some s \<Rightarrow> str_includes PAGE_UNLOAD_BEACON_MARKER s) \<and>
             (given (cr_requestId q) \<or> given (cr_tabId q) \<and> given (cr_tabGroupId q) \<and> given (cr_workspace q))
          then (IgnoredUnloadBeacon, w)
          else if given (cr_requestId q) then cancelByRequestId up now cb userId (the (cr_requestId q)) w
          else if given (cr_tabId q)
          then if \<not> given (cr_tabGroupId q) then (BadRequest ''tabGroupId'', w)
               else if \<not> given verified then (WorkspaceDenied, w)
               else cancelByTab up now cb userId
                      (tabKey \<lparr>tr_userId = userId, tr_workspace = verified, tr_worktree = worktree,
                               tr_tabGroupId = the (cr_tabGroupId q), tr_tabId = the (cr_tabId q)\<rparr>) w
          else (BadRequest ''requestId'', w))"

subsection \<open>The stream route\<close>

text \<open>Lock and registration are one stretch; the intents are consumed after it.\<close>

definition streamLock :: "int \<Rightarrow> string \<Rightarrow> string \<Rightarrow> string \<Rightarrow> stream_world \<Rightarrow> bool \<times> stream_world" where
  "streamLock now requestId userId key w =
     (let (got, l) = tryLockConversation now key (sw_locks w); w1 = w\<lparr>sw_locks := l\<rparr>
      in if got then (True, registerCancellation now requestId userId key w1) else (False, w1))"

definition consumeBoth :: "bool \<Rightarrow> int \<Rightarrow> string \<Rightarrow> string \<Rightarrow> string \<Rightarrow> stream_world \<Rightarrow> bool \<times> stream_world" where
  "consumeBoth up now requestId userId key w =
     (let (a, w1) = consumeIntent up now Conversation key userId w;
          (b, w2) = consumeIntent up now Request requestId userId w1
      in (a \<or> b, w2))"

datatype start_reply = Busy | Interrupted | Streaming

definition streamIntents ::
  "bool \<Rightarrow> int \<Rightarrow> string \<Rightarrow> string \<Rightarrow> string \<Rightarrow> string option \<Rightarrow> stream_world \<Rightarrow> start_reply \<times> stream_world" where
  "streamIntents up now requestId userId key tabId w =
     (let (cancelled, w1) = consumeBoth up now requestId userId key w;
          w2 = w1\<lparr>sw_buffers := createStreamBuffer up now requestId key userId tabId (sw_buffers w1)\<rparr>
      in if cancelled
         then let w3 = unregisterCancellation requestId w2
              in (Interrupted, w3\<lparr>sw_locks := unlockConversation key (sw_locks w3)\<rparr>)
         else (Streaming, w2))"

definition streamStart ::
  "bool \<Rightarrow> int \<Rightarrow> string \<Rightarrow> string \<Rightarrow> string \<Rightarrow> string option \<Rightarrow> stream_world \<Rightarrow> start_reply \<times> stream_world" where
  "streamStart up now requestId userId key tabId w =
     (let (got, w1) = streamLock now requestId userId key w
      in if got then streamIntents up now requestId userId key tabId w1 else (Busy, w1))"

definition cleanupLockedStreamAfterError :: "bool \<Rightarrow> int \<Rightarrow> string \<Rightarrow> string \<Rightarrow> string \<Rightarrow> stream_world \<Rightarrow> stream_world" where
  "cleanupLockedStreamAfterError up now requestId key problem w =
     (let w1 = unregisterCancellation requestId w
      in w1\<lparr>sw_locks := unlockConversation key (sw_locks w1),
            sw_buffers := errorStreamBuffer up now requestId problem (sw_buffers w1)\<rparr>)"

subsection \<open>Properties\<close>

lemma consume_registered:
  assumes "t0 \<le> t1" and "t1 < t0 + 15000"
  shows "fst (consumeIntent up t1 scope x u (registerIntent up t0 scope x u w))"
proof (cases up)
  case True
  then show ?thesis using assms
    by (simp add: consumeIntent_def registerIntent_def CONSUME_INTENT_SCRIPT_def Let_def INTENT_TTL_SECONDS_def)
next
  case False
  define k i where "k = buildScopeKey scope x" and "i = \<lparr>ci_userId = u, ci_createdAt = t0\<rparr>"
  have "jget (filter (\<lambda>(k, i). \<not> t1 - ci_createdAt i > INTENT_TTL_MS) (jset k i m)) k = Some i" for m
  proof (induction m)
    case Nil
    show ?case using assms by (simp add: i_def INTENT_TTL_MS_def)
  next
    case (Cons e m)
    then show ?case using assms by (cases e) (simp add: i_def INTENT_TTL_MS_def)
  qed
  then show ?thesis
    using False by (simp add: consumeIntent_def registerIntent_def pruneExpiredMemoryIntents_def Let_def
        k_def [symmetric] i_def [symmetric]) (simp add: i_def)
qed

lemma consumeIntent_other [simp]:
  "sw_locks (snd (consumeIntent up now scope x u w)) = sw_locks w"
  "sw_registry (snd (consumeIntent up now scope x u w)) = sw_registry w"
  "sw_buffers (snd (consumeIntent up now scope x u w)) = sw_buffers w"
  "sw_cancelCalls (snd (consumeIntent up now scope x u w)) = sw_cancelCalls w"
  by (simp_all add: consumeIntent_def pruneExpiredMemoryIntents_def Let_def split: option.split prod.split)

lemma registerIntent_other [simp]:
  "sw_locks (registerIntent up now scope x u w) = sw_locks w"
  "sw_registry (registerIntent up now scope x u w) = sw_registry w"
  "sw_buffers (registerIntent up now scope x u w) = sw_buffers w"
  "sw_cancelCalls (registerIntent up now scope x u w) = sw_cancelCalls w"
  by (simp_all add: registerIntent_def pruneExpiredMemoryIntents_def Let_def)

lemma consumeBoth_other:
  "sw_locks (snd (consumeBoth up now rid u key w)) = sw_locks w"
  "sw_registry (snd (consumeBoth up now rid u key w)) = sw_registry w"
  "sw_buffers (snd (consumeBoth up now rid u key w)) = sw_buffers w"
  by (simp_all add: consumeBoth_def split_beta)

lemma registry_intent_swap:
  "(registerIntent up t scope x u w)\<lparr>sw_locks := l, sw_registry := r\<rparr> = registerIntent up t scope x u (w\<lparr>sw_locks := l, sw_registry := r\<rparr>)"
  by (simp add: registerIntent_def pruneExpiredMemoryIntents_def Let_def)

lemma streamStart_interrupted:
  assumes "t0 \<le> t1" and "t1 < t0 + 15000" and "jget (lockTimestamps (sw_locks w)) key = None"
    and "w1 = registerIntent up t0 Conversation key u w"
  shows "fst (streamStart up t1 rid u key tabId w1) = Interrupted \<and>
         jget (lockTimestamps (sw_locks (snd (streamStart up t1 rid u key tabId w1)))) key = None \<and>
         jget (sw_registry (snd (streamStart up t1 rid u key tabId w1))) rid = None \<and>
         sw_buffers (snd (streamStart up t1 rid u key tabId w1)) = createStreamBuffer up t1 rid key u tabId (sw_buffers w)"
proof -
  define l where "l = acquireConversation t1 key (sw_locks w)"
  define w2 where "w2 = registerIntent up t0 Conversation key u
      (w\<lparr>sw_locks := l, sw_registry := jset rid \<lparr>ce_userId = u, ce_conversationKey = key, ce_createdAt = t1\<rparr> (sw_registry w)\<rparr>)"
  have "streamLock t1 rid u key w1 = (True, w2)"
    using assms(3) registry_intent_swap [where up = up and t = t0 and scope = Conversation and x = key and u = u and w = w]
    by (simp add: streamLock_def tryLockConversation_def assms(4) registerCancellation_def w2_def l_def)
  moreover have "fst (consumeBoth up t1 rid u key w2)"
    using consume_registered [OF assms(1,2)] by (simp add: consumeBoth_def split_beta w2_def)
  moreover have "sw_buffers w2 = sw_buffers w" by (simp add: w2_def)
  ultimately show ?thesis
    using consumeBoth_other [of up t1 rid u key w2]
    by (simp add: streamStart_def streamIntents_def split_beta Let_def unregisterCancellation_def unlockConversation_def)
qed

lemma cancelByTab_queues:
  assumes "\<forall>(r, e)\<in>set (sw_registry w). ce_conversationKey e \<noteq> key"
  shows "cancelByTab up now cb u key w = (CancelQueued, registerIntent up now Conversation key u w)"
proof -
  have "filter (\<lambda>(r, e). ce_conversationKey e = key) (sw_registry w) = []" using assms by (auto simp: filter_empty_conv)
  then show ?thesis by (simp add: cancelByTab_def cancelStreamByConversationKeyWithStatus_def)
qed

text \<open>
  C24. An early stop is not lost. A user who stops a tab before its stream is registered gets
  \<open>cancel_queued\<close>; if the stream then starts within fifteen seconds, with Redis as available as
  before, it is interrupted at once, its conversation is unlocked and nothing stays registered.
\<close>

theorem early_stop_interrupts:
  assumes "\<forall>(r, e)\<in>set (sw_registry w). ce_conversationKey e \<noteq> key"
    and "jget (lockTimestamps (sw_locks w)) key = None" and "t0 \<le> t1" and "t1 < t0 + 15000"
    and "cancelByTab up t0 cb u key w = (reply, w1)" and "streamStart up t1 rid u key tabId w1 = (started, w2)"
  shows "reply = CancelQueued \<and> started = Interrupted \<and> jget (lockTimestamps (sw_locks w2)) key = None \<and>
         jget (sw_registry w2) rid = None"
proof -
  have "reply = CancelQueued" "w1 = registerIntent up t0 Conversation key u w"
    using cancelByTab_queues [OF assms(1)] assms(5) by simp_all
  then show ?thesis using streamStart_interrupted [OF assms(3,4,2), of w1 up u rid tabId] assms(6) by simp
qed

definition idle_world :: stream_world where
  "idle_world = \<lparr>sw_locks = \<lparr>activeConversations = [], lockTimestamps = []\<rparr>, sw_registry = [], sw_memoryIntents = [],
     sw_redisIntents = [], sw_buffers = \<lparr>bs_entries = [], bs_tabs = []\<rparr>, sw_cancelCalls = []\<rparr>"

theorem early_stop_interrupts_witness:
  "fst (streamStart True 2000 ''r'' ''u'' ''k'' None (snd (cancelByTab True 1000 Completes ''u'' ''k'' idle_world))) = Interrupted"
  using early_stop_interrupts [of idle_world "''k''" 1000 2000 True Completes "''u''" _ _ "''r''" None,
      OF _ _ _ _ surjective_pairing surjective_pairing]
  by (simp add: idle_world_def)

text \<open>
  A late stop kills the next message. A stop by tab that arrives after its stream completed
  finds nothing registered and queues an intent all the same; the next message of that tab within
  fifteen seconds is interrupted before it starts, and in Redis its buffer is left in the state
  \<open>streaming\<close>: reconnecting clients are told of a running stream for five more minutes.
\<close>

theorem late_stop_kills_next_message:
  assumes "\<forall>(r, e)\<in>set (sw_registry w). r = rid \<or> ce_conversationKey e \<noteq> key"
    and "jmap_ok (sw_registry w)" and "key \<noteq> []" and "rid' \<noteq> []"
    and "onStreamComplete True t rid key w = w0" and "cancelByTab True t0 cb u key w0 = (reply, w1)"
    and "0 < t1" and "t0 \<le> t1" and "t1 < t0 + 15000" and "streamStart True t1 rid' u key tabId w1 = (started, w2)"
    and "t1 \<le> t2" and "t2 \<le> t1 + STALE_STREAM_THRESHOLD_MS"
  shows "reply = CancelQueued \<and> started = Interrupted \<and>
         fst (hasActiveStream True t2 key (sw_buffers w2)) = Some (SbStreaming, rid')"
proof -
  have reg: "\<forall>(r, e)\<in>set (sw_registry w0). ce_conversationKey e \<noteq> key"
    using assms(1,2) delete_notin_dom [of rid "sw_registry w"]
    by (auto simp: assms(5) [symmetric] onStreamComplete_def Let_def unregisterCancellation_def AList.delete_eq)
  have lock: "jget (lockTimestamps (sw_locks w0)) key = None"
    by (simp add: assms(5) [symmetric] onStreamComplete_def Let_def unlockConversation_def)
  have q: "reply = CancelQueued" "w1 = registerIntent True t0 Conversation key u w0"
    using cancelByTab_queues [OF reg] assms(6) by simp_all
  have s: "started = Interrupted" "sw_buffers w2 = createStreamBuffer True t1 rid' key u tabId (sw_buffers w0)"
    using streamStart_interrupted [OF assms(8,9) lock q(2), of rid' tabId] assms(10) by simp_all
  have "fst (hasActiveStream True t2 key (createStreamBuffer True t1 rid' key u tabId (sw_buffers w0))) = Some (SbStreaming, rid')"
    using assms(4,7,11,12)
    by (simp add: hasActiveStream_def findStreamBufferByTab_def getStreamBuffer_def createStreamBuffer_def Let_def
        BUFFER_TTL_SECONDS_def STALE_STREAM_THRESHOLD_MS_def)
  then show ?thesis using q(1) s by simp
qed

theorem late_stop_kills_next_message_witness:
  "fst (hasActiveStream True 2500 ''k'' (sw_buffers (snd (streamStart True 2000 ''r2'' ''u'' ''k'' None
     (snd (cancelByTab True 1000 Completes ''u'' ''k'' (onStreamComplete True 900 ''r1'' ''k'' idle_world))))))) = Some (SbStreaming, ''r2'')"
  using late_stop_kills_next_message [where w = idle_world and rid = "''r1''" and key = "''k''" and rid' = "''r2''" and t = 900
      and ?t0.0 = 1000 and cb = Completes and u = "''u''" and ?t1.0 = 2000 and tabId = None and ?t2.0 = 2500,
      OF _ _ _ _ refl surjective_pairing _ _ _ surjective_pairing]
  by (simp add: idle_world_def STALE_STREAM_THRESHOLD_MS_def)

subsection \<open>Ownership\<close>

text \<open>What a cancellation by user \<open>u\<close> may change: it calls and removes entries of \<open>u\<close> only.\<close>

definition owned_change :: "string \<Rightarrow> stream_world \<Rightarrow> stream_world \<Rightarrow> bool" where
  "owned_change u w w1 \<longleftrightarrow>
     (\<exists>new. sw_cancelCalls w1 = sw_cancelCalls w @ new \<and> (\<forall>r\<in>set new. \<exists>e. jget (sw_registry w) r = Some e \<and> ce_userId e = u)) \<and>
     (\<forall>r e. jget (sw_registry w) r = Some e \<longrightarrow> ce_userId e \<noteq> u \<longrightarrow> jget (sw_registry w1) r = Some e)"

lemma owned_change_refl [simp]: "owned_change u w w"
  by (simp add: owned_change_def)

lemma owned_change_register [simp]: "owned_change u w (registerIntent up now scope x u' w1) = owned_change u w w1"
  by (simp add: owned_change_def)

lemma owned_change_run:
  assumes "jget (sw_registry w) r = Some e" and "ce_userId e = u"
    and "runCancelWithTimeout up now cb r e w = (res, w1)"
  shows "owned_change u w (unregisterCancellation r w1)"
  using assms by (cases cb) (auto simp: owned_change_def runCancelWithTimeout_def onStreamComplete_def unregisterCancellation_def Let_def)

lemma owned_change_by_id:
  assumes "cancelStreamWithStatus up now cb r u w = (res, w1)"
  shows "owned_change u w w1 \<and> (res = Inl UnauthorizedCancel \<longrightarrow> w1 = w)"
proof (cases "jget (sw_registry w) r")
  case None
  then show ?thesis using assms by (simp add: cancelStreamWithStatus_def)
next
  case (Some e)
  show ?thesis
  proof (cases "ce_userId e = u")
    case True
    obtain res' w2 where run: "runCancelWithTimeout up now cb r e w = (res', w2)" by fastforce
    then have "res' \<noteq> Inl UnauthorizedCancel" by (cases cb) (auto simp: runCancelWithTimeout_def Let_def)
    then show ?thesis using Some True run owned_change_run [OF Some True run] assms
      by (simp add: cancelStreamWithStatus_def)
  qed (use Some assms in \<open>simp add: cancelStreamWithStatus_def\<close>)
qed

lemma owned_change_by_key:
  assumes "jmap_ok (sw_registry w)" and "cancelStreamByConversationKeyWithStatus up now cb k u w = (res, w1)"
  shows "owned_change u w w1 \<and> (res = Inl UnauthorizedCancel \<longrightarrow> w1 = w)"
proof (cases "filter (\<lambda>(r, e). ce_conversationKey e = k) (sw_registry w)")
  case Nil
  then show ?thesis using assms(2) by (simp add: cancelStreamByConversationKeyWithStatus_def)
next
  case (Cons x xs)
  obtain r e where x: "x = (r, e)" by fastforce
  have "(r, e) \<in> set (sw_registry w)" using Cons x filter_is_subset [of "\<lambda>(r, e). ce_conversationKey e = k" "sw_registry w"] by (metis list.set_intros(1) subsetD)
  then have Some: "jget (sw_registry w) r = Some e" using assms(1) by simp
  show ?thesis
  proof (cases "ce_userId e = u")
    case True
    obtain res' w2 where run: "runCancelWithTimeout up now cb r e w = (res', w2)" by fastforce
    then have "res' \<noteq> Inl UnauthorizedCancel" by (cases cb) (auto simp: runCancelWithTimeout_def Let_def)
    then show ?thesis using Cons x True run owned_change_run [OF Some True run] assms(2)
      by (simp add: cancelStreamByConversationKeyWithStatus_def)
  qed (use Cons x assms(2) in \<open>simp add: cancelStreamByConversationKeyWithStatus_def\<close>)
qed

text \<open>
  C25. Only the owner stops a stream. Whatever a cancel request of user \<open>u\<close> says, the callbacks it
  invokes are those of streams registered by \<open>u\<close>, the registrations of other users stay as they
  are, and a request answered with 403 changes nothing.
\<close>

theorem cancel_owner_only:
  assumes "jmap_ok (sw_registry w)" and "cancelRoute up now cb u verified q w = (reply, w1)"
  shows "owned_change u w w1 \<and> (reply = Forbidden403 \<longrightarrow> w1 = w)"
proof -
  have 1: "owned_change u w w2 \<and> (reply2 = Forbidden403 \<longrightarrow> w2 = w)"
    if "cancelByRequestId up now cb u r w = (reply2, w2)" for r reply2 w2
    using that owned_change_by_id [of up now cb r u w]
    by (auto simp: cancelByRequestId_def split: prod.splits sum.splits cancel_failure.splits cancel_status.splits
        option.splits if_splits)
  have 2: "owned_change u w w2 \<and> (reply2 = Forbidden403 \<longrightarrow> w2 = w)"
    if "cancelByTab up now cb u k w = (reply2, w2)" for k reply2 w2
    using that owned_change_by_key [OF assms(1), of up now cb k u]
    by (auto simp: cancelByTab_def split: prod.splits sum.splits cancel_failure.splits cancel_status.splits)
  show ?thesis
    using assms(2) 1 2 by (auto simp: cancelRoute_def Let_def split: sum.splits if_splits)
qed

definition other_world :: stream_world where
  "other_world = idle_world\<lparr>sw_registry := [(''r'', \<lparr>ce_userId = ''v'', ce_conversationKey = ''k'', ce_createdAt = 0\<rparr>)]\<rparr>"

theorem cancel_owner_only_witness:
  "fst (cancelRoute True 0 Completes ''u'' None \<lparr>cr_requestId = Some ''r'', cr_tabId = None, cr_tabGroupId = None,
       cr_workspace = None, cr_worktree = None, cr_clientStack = None\<rparr>
     other_world) = Forbidden403 \<and>
   owned_change ''u'' other_world (snd (cancelRoute True 0 Completes ''u'' None \<lparr>cr_requestId = Some ''r'', cr_tabId = None, cr_tabGroupId = None,
       cr_workspace = None, cr_worktree = None, cr_clientStack = None\<rparr> other_world))"
proof
  show "fst (cancelRoute True 0 Completes ''u'' None \<lparr>cr_requestId = Some ''r'', cr_tabId = None, cr_tabGroupId = None,
       cr_workspace = None, cr_worktree = None, cr_clientStack = None\<rparr>
     other_world) = Forbidden403"
    by (simp add: cancelRoute_def cancelWorktree_def given_def cancelByRequestId_def cancelStreamWithStatus_def other_world_def)
qed (rule cancel_owner_only [OF _ surjective_pairing, THEN conjunct1], simp add: other_world_def)

end
