(* ===== verification/Credits.thy ===== *)
theory Credits
  imports Prelude Complex_Main
begin

section \<open>Model prices and workspace credits\<close>

text \<open>
  \<open>apps/web/lib/models/model-pricing.ts\<close>, \<open>apps/web/lib/credits/supabase-credits.ts\<close>, the database
  functions \<open>deduct_credits\<close> and \<open>add_credits\<close>, and the billing decision of the stream route.
  Prices, tokens and credits are rationals: the rounding of the code is kept, the error of its
  floating-point products (which the subtracted \<open>1e-9\<close> is there to cancel) is not.
\<close>

subsection \<open>Prices\<close>

datatype claude_model = OPUS_4_6 | SONNET_4_6 | HAIKU_4_5 | OtherModel string

record model_pricing =
  inputPerMTok :: rat
  outputPerMTok :: rat
  tierThreshold :: "rat option"
  inputPerMTokOverThreshold :: "rat option"
  outputPerMTokOverThreshold :: "rat option"

definition MODEL_PRICING :: "claude_model \<Rightarrow> model_pricing option" where
  "MODEL_PRICING m =
     (case m of
        OPUS_4_6 \<Rightarrow> Some \<lparr>inputPerMTok = 5, outputPerMTok = 25, tierThreshold = None,
                       inputPerMTokOverThreshold = None, outputPerMTokOverThreshold = None\<rparr>
      | SONNET_4_6 \<Rightarrow> Some \<lparr>inputPerMTok = 3, outputPerMTok = 15, tierThreshold = Some 200000,
                         inputPerMTokOverThreshold = Some 6, outputPerMTokOverThreshold = Some (45 / 2)\<rparr>
      | HAIKU_4_5 \<Rightarrow> Some \<lparr>inputPerMTok = 1, outputPerMTok = 5, tierThreshold = None,
                        inputPerMTokOverThreshold = None, outputPerMTokOverThreshold = None\<rparr>
      | OtherModel _ \<Rightarrow> None)"

definition DEFAULT_PRICING :: model_pricing where
  "DEFAULT_PRICING = the (MODEL_PRICING HAIKU_4_5)"

definition calculateUSDCostWithPricing :: "model_pricing \<Rightarrow> rat \<Rightarrow> rat \<Rightarrow> rat option \<Rightarrow> rat" where
  "calculateUSDCostWithPricing p inputTokens outputTokens totalPromptTokens =
     (let isOverThreshold = (case (tierThreshold p, totalPromptTokens) of (Some th, Some t) \<Rightarrow> t > th | _ \<Rightarrow> False);
          inPrice = (if isOverThreshold then (case inputPerMTokOverThreshold p of Some x \<Rightarrow> x | None \<Rightarrow> inputPerMTok p) else inputPerMTok p);
          outPrice = (if isOverThreshold then (case outputPerMTokOverThreshold p of Some x \<Rightarrow> x | None \<Rightarrow> outputPerMTok p) else outputPerMTok p)
      in inputTokens * (inPrice / 1000000) + outputTokens * (outPrice / 1000000))"

definition calculateUSDCost :: "claude_model \<Rightarrow> rat \<Rightarrow> rat \<Rightarrow> rat option \<Rightarrow> rat" where
  "calculateUSDCost m inputTokens outputTokens totalPromptTokens =
     (case MODEL_PRICING m of
        None \<Rightarrow> calculateUSDCostWithPricing DEFAULT_PRICING inputTokens outputTokens None
      | Some p \<Rightarrow> calculateUSDCostWithPricing p inputTokens outputTokens totalPromptTokens)"

definition CREDITS_PER_USD :: rat where
  "CREDITS_PER_USD = 10"

definition usdToCredits :: "rat \<Rightarrow> rat" where
  "usdToCredits usd =
     (if usd \<le> 0 then 0 else of_int \<lceil>usd * CREDITS_PER_USD * 100 - 1 / 1000000000\<rceil> / 100)"

definition creditsToUSD :: "rat \<Rightarrow> rat" where
  "creditsToUSD credits = credits / CREDITS_PER_USD"

definition calculateCreditsToCharge :: "claude_model \<Rightarrow> rat \<Rightarrow> rat \<Rightarrow> rat option \<Rightarrow> rat" where
  "calculateCreditsToCharge m inputTokens outputTokens totalPromptTokens =
     usdToCredits (calculateUSDCost m inputTokens outputTokens totalPromptTokens)"

subsection \<open>Balances\<close>

text \<open>
  The domains and organisations of the database and the process's cache of domain owners. The
  two schemas are separate clients; \<open>appUp\<close> and \<open>iamUp\<close> say whether their queries succeed.
\<close>

record org_cache_entry =
  oc_orgId :: string
  oc_expiresAt :: int

record credit_world =
  cw_domains :: "(string, string option) jsmap"
  cw_orgs :: "(string, rat option) jsmap"
  cw_domainOrgCache :: "(string, org_cache_entry) jsmap"

definition ORG_CACHE_TTL_MS :: int where
  "ORG_CACHE_TTL_MS = 5 * 60 * 1000"

definition invalidateDomainOrgCache :: "string \<Rightarrow> credit_world \<Rightarrow> credit_world" where
  "invalidateDomainOrgCache domain w = w\<lparr>cw_domainOrgCache := jdel domain (cw_domainOrgCache w)\<rparr>"

definition lookupDomainOrg :: "bool \<Rightarrow> int \<Rightarrow> string \<Rightarrow> credit_world \<Rightarrow> string option \<times> credit_world" where
  "lookupDomainOrg appUp now domain w =
     (case (if appUp then jget (cw_domains w) domain else None) of
        Some (Some orgId) \<Rightarrow>
          if orgId = [] then (None, invalidateDomainOrgCache domain w)
          else (Some orgId, w\<lparr>cw_domainOrgCache :=
                 jset domain \<lparr>oc_orgId = orgId, oc_expiresAt = now + ORG_CACHE_TTL_MS\<rparr> (cw_domainOrgCache w)\<rparr>)
      | _ \<Rightarrow> (None, invalidateDomainOrgCache domain w))"

definition getOrgIdForDomain :: "bool \<Rightarrow> int \<Rightarrow> string \<Rightarrow> credit_world \<Rightarrow> string option \<times> credit_world" where
  "getOrgIdForDomain appUp now domain w =
     (case jget (cw_domainOrgCache w) domain of
        Some c \<Rightarrow> if oc_expiresAt c > now then (Some (oc_orgId c), w) else lookupDomainOrg appUp now domain w
      | None \<Rightarrow> lookupDomainOrg appUp now domain w)"

definition getOrgCreditsByOrgId :: "bool \<Rightarrow> string \<Rightarrow> credit_world \<Rightarrow> rat option" where
  "getOrgCreditsByOrgId iamUp orgId w =
     (case (if iamUp then jget (cw_orgs w) orgId else None) of
        None \<Rightarrow> None | Some None \<Rightarrow> Some 0 | Some (Some b) \<Rightarrow> Some b)"

definition getOrgCredits :: "bool \<Rightarrow> bool \<Rightarrow> int \<Rightarrow> string \<Rightarrow> credit_world \<Rightarrow> rat option \<times> credit_world" where
  "getOrgCredits appUp iamUp now domain w =
     (case getOrgIdForDomain appUp now domain w of
        (None, w1) \<Rightarrow> (None, w1)
      | (Some orgId, w1) \<Rightarrow> (if orgId = [] then None else getOrgCreditsByOrgId iamUp orgId w1, w1))"

definition hasEnoughCredits :: "bool \<Rightarrow> bool \<Rightarrow> int \<Rightarrow> string \<Rightarrow> rat \<Rightarrow> credit_world \<Rightarrow> bool \<times> credit_world" where
  "hasEnoughCredits appUp iamUp now domain required w =
     (case getOrgCredits appUp iamUp now domain w of
        (None, w1) \<Rightarrow> (False, w1) | (Some current, w1) \<Rightarrow> (current \<ge> required, w1))"

text \<open>The database functions: one conditional update; the new balance, or \<open>None\<close> when no row matched.\<close>

definition deduct_credits :: "string \<Rightarrow> rat \<Rightarrow> credit_world \<Rightarrow> rat option \<times> credit_world" where
  "deduct_credits orgId amount w =
     (case jget (cw_orgs w) orgId of
        Some (Some b) \<Rightarrow> if b \<ge> amount then (Some (b - amount), w\<lparr>cw_orgs := jset orgId (Some (b - amount)) (cw_orgs w)\<rparr>)
                         else (None, w)
      | _ \<Rightarrow> (None, w))"

definition add_credits :: "string \<Rightarrow> rat \<Rightarrow> credit_world \<Rightarrow> rat option \<times> credit_world" where
  "add_credits orgId amount w =
     (case jget (cw_orgs w) orgId of
        Some (Some b) \<Rightarrow> (Some (b + amount), w\<lparr>cw_orgs := jset orgId (Some (b + amount)) (cw_orgs w)\<rparr>)
      | _ \<Rightarrow> (None, w))"

definition chargeCreditsDirectly :: "bool \<Rightarrow> bool \<Rightarrow> int \<Rightarrow> string \<Rightarrow> rat \<Rightarrow> credit_world \<Rightarrow> rat option \<times> credit_world" where
  "chargeCreditsDirectly appUp iamUp now domain creditsToCharge w =
     (if creditsToCharge < 0 then (None, w)
      else if creditsToCharge = 0 then getOrgCredits appUp iamUp now domain w
      else case getOrgIdForDomain appUp now domain w of
             (None, w1) \<Rightarrow> (None, w1)
           | (Some orgId, w1) \<Rightarrow> if orgId = [] \<or> \<not> iamUp then (None, w1) else deduct_credits orgId creditsToCharge w1)"

datatype credit_error = DomainNotFoundError | InsufficientCredits rat

definition ensureSufficientCredits :: "bool \<Rightarrow> bool \<Rightarrow> int \<Rightarrow> string \<Rightarrow> credit_world \<Rightarrow> (credit_error + unit) \<times> credit_world" where
  "ensureSufficientCredits appUp iamUp now domain w =
     (case getOrgCredits appUp iamUp now domain w of
        (None, w1) \<Rightarrow> (Inl DomainNotFoundError, w1)
      | (Some b, w1) \<Rightarrow> (if b \<le> 0 then Inl (InsufficientCredits b) else Inr (), w1))"

definition updateCreditsInDatabase :: "bool \<Rightarrow> string \<Rightarrow> rat \<Rightarrow> credit_world \<Rightarrow> bool \<times> credit_world" where
  "updateCreditsInDatabase iamUp orgId newCredits w =
     (if \<not> iamUp then (False, w)
      else (True, case jget (cw_orgs w) orgId of
                    None \<Rightarrow> w | Some _ \<Rightarrow> w\<lparr>cw_orgs := jset orgId (Some newCredits) (cw_orgs w)\<rparr>))"

definition updateOrgCredits :: "bool \<Rightarrow> bool \<Rightarrow> int \<Rightarrow> string \<Rightarrow> rat \<Rightarrow> credit_world \<Rightarrow> bool \<times> credit_world" where
  "updateOrgCredits appUp iamUp now domain newCredits w =
     (case getOrgIdForDomain appUp now domain w of
        (None, w1) \<Rightarrow> (False, w1)
      | (Some orgId, w1) \<Rightarrow> if orgId = [] then (False, w1) else updateCreditsInDatabase iamUp orgId newCredits w1)"

definition getAllOrganizationCredits :: "bool \<Rightarrow> bool \<Rightarrow> credit_world \<Rightarrow> (string, rat) jsmap" where
  "getAllOrganizationCredits appUp iamUp w =
     (if \<not> appUp \<or> \<not> iamUp then []
      else fold (\<lambda>(hostname, org) m.
             case org of
               None \<Rightarrow> m
             | Some orgId \<Rightarrow> if orgId = [] then m
                 else jset hostname (case jget (cw_orgs w) orgId of Some (Some b) \<Rightarrow> b | _ \<Rightarrow> 0) m) (cw_domains w) [])"

subsection \<open>Who pays for a request\<close>

datatype billing_token_source = Workspace | UserProvided

definition COST_ESTIMATE :: rat where
  "COST_ESTIMATE = 1"

definition billingSource :: "bool \<Rightarrow> string option \<Rightarrow> credit_world \<Rightarrow> billing_token_source" where
  "billingSource iamUp orgId w =
     (case orgId of
        None \<Rightarrow> UserProvided
      | Some org \<Rightarrow> if org = [] then UserProvided
          else case getOrgCreditsByOrgId iamUp org w of
                 None \<Rightarrow> UserProvided
               | Some b \<Rightarrow> if b \<ge> COST_ESTIMATE then Workspace else UserProvided)"

subsection \<open>Rounding\<close>

lemma usdToCredits_ceiling:
  assumes "0 < usd"
  shows "\<exists>n :: int. usdToCredits usd = of_int n / 100 \<and> of_int n \<ge> usd * 1000 - 1 / 1000000000 \<and>
           of_int n < usd * 1000 - 1 / 1000000000 + 1"
proof -
  define x where "x = usd * CREDITS_PER_USD * 100 - 1 / 1000000000"
  have x: "x = usd * 1000 - 1 / 1000000000" by (simp add: x_def CREDITS_PER_USD_def)
  have "of_int \<lceil>x\<rceil> \<ge> x" and "of_int \<lceil>x\<rceil> < x + 1" by linarith+
  then show ?thesis
    using assms by (intro exI [of _ "\<lceil>x\<rceil>"]) (simp add: usdToCredits_def x_def [symmetric] x [symmetric])
qed

text \<open>
  Charges are rounded up to cents of a credit and never by more than one cent: ten credits
  per dollar, less the tolerance, is at most the charge, which is below that amount plus a cent.
  A charge is never negative.
\<close>

theorem credits_round_up:
  assumes "0 < calculateUSDCost m i out p"
  defines "c \<equiv> calculateCreditsToCharge m i out p"
  shows "(\<exists>n :: int. c = of_int n / 100) \<and> 10 * calculateUSDCost m i out p - 1 / 100000000000 \<le> c \<and>
         c < 10 * calculateUSDCost m i out p + 1 / 100 \<and> 0 \<le> c"
proof -
  define u where "u = calculateUSDCost m i out p"
  obtain n :: int where n: "usdToCredits u = of_int n / 100" "of_int n \<ge> u * 1000 - 1 / 1000000000"
    "of_int n < u * 1000 - 1 / 1000000000 + 1"
    using usdToCredits_ceiling [of u] assms(1) by (auto simp: u_def)
  have "of_int (- 1) < (of_int n :: rat)" using n(2) assms(1) by (simp add: u_def [symmetric])
  then have "0 \<le> n" by (simp only: of_int_less_iff)
  then show ?thesis
    using n unfolding c_def calculateCreditsToCharge_def u_def [symmetric] by auto
qed

theorem credits_round_up_witness:
  "calculateCreditsToCharge SONNET_4_6 1000 200 None = 6 / 100 \<and> 0 \<le> calculateCreditsToCharge SONNET_4_6 1000 200 None"
proof -
  have e: "calculateCreditsToCharge SONNET_4_6 1000 200 None = 6 / 100" and "0 < calculateUSDCost SONNET_4_6 1000 200 None" by code_simp+
  show ?thesis using e credits_round_up [of SONNET_4_6 1000 200 None, OF \<open>0 < _\<close>] by blast
qed

text \<open>
  The stream handler charges without a prompt total, so the higher tier of Sonnet is never applied,
  however long the prompt is.
\<close>

lemma sonnet_tier_never_applied:
  "calculateUSDCost SONNET_4_6 500000 0 None = 3 / 2 \<and> calculateUSDCost SONNET_4_6 500000 0 (Some 500000) = 3"
  by code_simp

subsection \<open>Balances\<close>

lemma lookupDomainOrg_orgs [simp]:
  "cw_orgs (snd (lookupDomainOrg up now d w)) = cw_orgs w" "cw_domains (snd (lookupDomainOrg up now d w)) = cw_domains w"
  by (simp_all add: lookupDomainOrg_def invalidateDomainOrgCache_def split: option.split)

lemma getOrgIdForDomain_orgs [simp]:
  "cw_orgs (snd (getOrgIdForDomain up now d w)) = cw_orgs w" "cw_domains (snd (getOrgIdForDomain up now d w)) = cw_domains w"
  by (simp_all add: getOrgIdForDomain_def split: option.split)

lemma getOrgCredits_orgs [simp]: "cw_orgs (snd (getOrgCredits a i now d w)) = cw_orgs w"
proof (cases "getOrgIdForDomain a now d w")
  case (Pair o' w')
  then show ?thesis using getOrgIdForDomain_orgs(1) [of a now d w] by (simp add: getOrgCredits_def split: option.split)
qed

text \<open>
  C16. A charge is all or nothing. Either the organisation of the domain had the amount and its
  balance is reduced by exactly that, staying non-negative, or no balance changes; balances of
  other organisations never change.
\<close>

theorem charge_all_or_nothing:
  assumes "0 < amount" and "chargeCreditsDirectly a i now d amount w = (r, w1)"
  shows "case r of
           None \<Rightarrow> cw_orgs w1 = cw_orgs w
         | Some b \<Rightarrow> \<exists>org. fst (getOrgIdForDomain a now d w) = Some org \<and> 0 \<le> b \<and>
                      jget (cw_orgs w) org = Some (Some (b + amount)) \<and>
                      (\<forall>x. jget (cw_orgs w1) x = (if x = org then Some (Some b) else jget (cw_orgs w) x))"
proof -
  obtain o' w' where g: "getOrgIdForDomain a now d w = (o', w')" by fastforce
  then have w': "cw_orgs w' = cw_orgs w" using getOrgIdForDomain_orgs(1) [of a now d w] by simp
  show ?thesis
  proof (cases "o' = None \<or> o' = Some [] \<or> \<not> i")
    case True
    then show ?thesis using assms g w' by (auto simp: chargeCreditsDirectly_def split: option.splits if_splits)
  next
    case False
    then obtain org where org: "o' = Some org" "org \<noteq> []" and i by auto
    then have e: "deduct_credits org amount w' = (r, w1)" using assms g by (simp add: chargeCreditsDirectly_def)
    show ?thesis
    proof (cases "\<exists>b. jget (cw_orgs w) org = Some (Some b) \<and> b \<ge> amount")
      case True
      then obtain b where b: "jget (cw_orgs w) org = Some (Some b)" "b \<ge> amount" by auto
      then have "r = Some (b - amount)" "w1 = w'\<lparr>cw_orgs := jset org (Some (b - amount)) (cw_orgs w')\<rparr>"
        using e by (auto simp add: deduct_credits_def w')
      then show ?thesis using b by (simp add: g org w')
    next
      case False
      then have "r = None \<and> w1 = w'" using e by (auto simp: deduct_credits_def w' split: option.splits if_splits)
      then show ?thesis by (simp add: w')
    qed
  qed
qed

definition credit_demo :: "rat \<Rightarrow> credit_world" where
  "credit_demo b = \<lparr>cw_domains = [(''site.nl'', Some ''org'')], cw_orgs = [(''org'', Some b), (''other'', Some 7)], cw_domainOrgCache = []\<rparr>"

theorem charge_all_or_nothing_witness:
  "chargeCreditsDirectly True True 0 ''site.nl'' 2 (credit_demo 5) =
     (Some 3, snd (chargeCreditsDirectly True True 0 ''site.nl'' 2 (credit_demo 5))) \<and>
   jget (cw_orgs (snd (chargeCreditsDirectly True True 0 ''site.nl'' 2 (credit_demo 5)))) ''other'' = Some (Some 7)"
proof -
  define r where "r = chargeCreditsDirectly True True 0 ''site.nl'' 2 (credit_demo 5)"
  have f: "fst r = Some 3" and g: "fst (getOrgIdForDomain True 0 ''site.nl'' (credit_demo 5)) = Some ''org''"
    unfolding r_def by code_simp+
  have o: "jget (cw_orgs (credit_demo 5)) ''other'' = Some (Some 7)" by code_simp
  have "jget (cw_orgs (snd r)) ''other'' = Some (Some 7)"
    using charge_all_or_nothing [of 2 True True 0 "''site.nl''" "credit_demo 5" "fst r" "snd r"] f g o
    by (auto simp: r_def)
  then show ?thesis using f by (simp add: r_def [symmetric] prod_eq_iff)
qed

text \<open>
  A request that costs more than the balance is free, and so is every one after it. An
  organisation with at least one credit is billed from its credits; when each request costs more
  than it has, the charges are refused, the balance stays, and the next request is billed the
  same way, without end.
\<close>

theorem overdrawn_requests_are_free:
  fixes w :: credit_world and now :: int and d :: string and cost :: rat
  assumes "jget (cw_orgs w) org = Some (Some b)" and "1 \<le> b" and "b < cost" and "org \<noteq> []"
    and "jget (cw_domains w) d = Some (Some org)" and "\<forall>c\<in>set_option (jget (cw_domainOrgCache w) d). oc_orgId c = org"
  defines "after \<equiv> \<lambda>n. ((\<lambda>w. snd (chargeCreditsDirectly True True now d cost w)) ^^ n) w"
  shows "cw_orgs (after n) = cw_orgs w \<and> billingSource True (Some org) (after n) = Workspace"
proof -
  have pos: "0 < cost" using assms(2,3) by linarith
  define good where "good v \<longleftrightarrow> cw_orgs v = cw_orgs w \<and> jget (cw_domains v) d = Some (Some org) \<and>
      (\<forall>c\<in>set_option (jget (cw_domainOrgCache v) d). oc_orgId c = org)" for v :: credit_world
  have step: "good (snd (chargeCreditsDirectly True True now d cost v))" if "good v" for v
  proof -
    have "fst (getOrgIdForDomain True now d v) = Some org \<and> good (snd (getOrgIdForDomain True now d v))"
      using that assms(4) by (auto simp: good_def getOrgIdForDomain_def lookupDomainOrg_def split: option.split)
    moreover have "deduct_credits org cost u = (None, u)" if "cw_orgs u = cw_orgs w" for u
      using that assms(1,3) by (simp add: deduct_credits_def)
    ultimately show ?thesis
      using pos assms(4) by (cases "getOrgIdForDomain True now d v") (auto simp: chargeCreditsDirectly_def good_def)
  qed
  have "good (after n)"
  proof (induction n)
    case 0
    show ?case using assms(5,6) by (simp add: good_def after_def)
  next
    case (Suc n)
    then show ?case using step [of "after n"] by (simp add: after_def)
  qed
  then show ?thesis
    using assms(1,2,4) by (simp add: good_def billingSource_def getOrgCreditsByOrgId_def COST_ESTIMATE_def)
qed

theorem overdrawn_requests_are_free_witness:
  "cw_orgs (((\<lambda>w. snd (chargeCreditsDirectly True True 0 ''site.nl'' 5 w)) ^^ 100) (credit_demo 4)) = [(''org'', Some 4), (''other'', Some 7)]"
  using overdrawn_requests_are_free [where w = "credit_demo 4" and org = "''org''" and b = 4 and cost = 5 and d = "''site.nl''" and n = 100 and now = 0] by (simp add: credit_demo_def)

end
