(* ===== verification/StreamHandler.thy ===== *)
theory StreamHandler
  imports Credits Ndjson Json
begin

section \<open>From child output to client stream\<close>

text \<open>
  \<open>apps/web/lib/stream/ndjson-stream-handler.ts\<close>: the lines a worker writes become typed,
  numbered messages for the client and for the stream buffer; session ids are stored, token use
  is added up and charged once, and the conversation is released exactly once. \<open>JSON.parse\<close> is a
  parameter, as in \<open>Ndjson\<close>. Heartbeat pings, which carry no number and go to the open response only,
  time stamps and error reporting are left out.
\<close>

subsection \<open>Events of the child\<close>

datatype child_event =
    EvSession string
  | EvMessage rat string "json option"
  | EvComplete rat "json option"
  | EvStart string string string rat "bool option"
  | EvError json
  | EvPing
  | EvDone
  | EvInterrupt "json option"
  | EvUnknown string json

definition parseTyped :: "string \<Rightarrow> json \<Rightarrow> child_event" where
  "parseTyped ty raw =
     (if ty = ''stream_session''
      then (case getStringProperty raw ''sessionId'' of
              Some sid \<Rightarrow> if sid = [] then EvUnknown ''stream_session_missing_session_id'' raw else EvSession sid
            | None \<Rightarrow> EvUnknown ''stream_session_missing_session_id'' raw)
      else if ty = ''stream_message''
      then EvMessage (or_else (getNumberProperty raw ''messageCount'') 0)
             (or_else (getStringProperty raw ''messageType'') ''unknown'') (getObjectProperty raw ''content'')
      else if ty = ''stream_complete''
      then EvComplete (or_else (getNumberProperty raw ''totalMessages'') 0) (getObjectProperty raw ''result'')
      else if ty = ''stream_start''
      then let message = or_else (getStringProperty raw ''message'') []
           in EvStart (or_else (getStringProperty raw ''host'') []) (or_else (getStringProperty raw ''cwd'') []) message
                (or_else (getNumberProperty raw ''messageLength'') (of_nat (length message)))
                (case getObjectProperty raw ''isResume'' of Some (JBool b) \<Rightarrow> Some b | _ \<Rightarrow> None)
      else if ty = ''error'' then EvError raw
      else if ty = ''stream_ping'' then EvPing
      else if ty = ''stream_done'' then EvDone
      else if ty = ''rate_limit_event'' then EvPing
      else if ty = ''stream_interrupt''
      then EvInterrupt (case getObjectProperty raw ''source'' of
                          Some v \<Rightarrow> if v = JNull then getObjectProperty raw ''content'' else Some v
                        | None \<Rightarrow> getObjectProperty raw ''content'')
      else EvUnknown ty raw)"

definition parseChildEvent :: "json \<Rightarrow> child_event" where
  "parseChildEvent raw =
     (case raw of
        JObj _ \<Rightarrow> (case getStringProperty raw ''type'' of
                    Some ty \<Rightarrow> if ty = [] then EvUnknown ''missing-type'' raw else parseTyped ty raw
                  | None \<Rightarrow> EvUnknown ''missing-type'' raw)
      | _ \<Rightarrow> EvUnknown ''non-object'' raw)"

subsection \<open>System reminders\<close>

definition OPEN_TAG :: string where
  "OPEN_TAG = ''<system-reminder>''"

definition CLOSE_TAG :: string where
  "CLOSE_TAG = ''</system-reminder>''"

text \<open>The text up to the first closing tag, and what follows it.\<close>

fun find_close :: "string \<Rightarrow> (string \<times> string) option" where
  "find_close [] = None"
| "find_close (c # cs) =
     (if starts_with CLOSE_TAG (c # cs) then Some ([], drop (length CLOSE_TAG) (c # cs))
      else map_option (\<lambda>(inner, rest). (c # inner, rest)) (find_close cs))"

lemma find_close_length: "find_close s = Some (inner, rest) \<Longrightarrow> length rest \<le> length s"
  by (induction s arbitrary: inner) (auto split: if_splits)

text \<open>The global replacement: a tag with a line break becomes a line break, any other nothing.\<close>

function replace_tags :: "string \<Rightarrow> string" where
  "replace_tags [] = []"
| "replace_tags (c # cs) =
     (if starts_with OPEN_TAG (c # cs)
      then (case find_close (drop (length OPEN_TAG) (c # cs)) of
              None \<Rightarrow> c # replace_tags cs
            | Some (inner, rest) \<Rightarrow> (if newline \<in> set inner then [newline] else []) @ replace_tags rest)
      else c # replace_tags cs)"
  by pat_completeness auto
termination
proof (relation "measure length", goal_cases)
  case (3 c cs x inner rest)
  then have "length rest \<le> length (drop (length OPEN_TAG) (c # cs))" using find_close_length by metis
  then show ?case by (simp add: OPEN_TAG_def)
qed auto

definition strip_string :: "string \<Rightarrow> string" where
  "strip_string s = trim (collapse_newlines (collapse_spaces (replace_tags s)))"

fun stripSystemReminders :: "json \<Rightarrow> json" where
  "stripSystemReminders (JStr s) = JStr (strip_string s)"
| "stripSystemReminders (JArr vs) = JArr (map stripSystemReminders vs)"
| "stripSystemReminders (JObj m) = JObj (map (\<lambda>(k, v). (k, stripSystemReminders v)) m)"
| "stripSystemReminders v = v"

subsection \<open>Messages for the client\<close>

datatype bridge_data =
    DStart string string string rat "bool option"
  | DSession string
  | DMessage rat string "json option"
  | DComplete rat "json option"
  | DError "string option"
  | DPing
  | DDone
  | DInterrupt string
  | DWarning string string

text \<open>Injected warnings carry no sequence number; the error of a failed stream has no tab.\<close>

record bridge_message =
  bm_requestId :: string
  bm_messageId :: string
  bm_streamSeq :: "nat option"
  bm_tabId :: "string option"
  bm_data :: bridge_data

definition buildMessageId :: "string \<Rightarrow> nat \<Rightarrow> string" where
  "buildMessageId requestId streamSeq = requestId @ ''-'' @ digits streamSeq"

definition HTTP_ABORT :: string where
  "HTTP_ABORT = ''stream_http_abort''"

definition CLIENT_CANCEL :: string where
  "CLIENT_CANCEL = ''stream_client_cancel''"

definition isSdkResultMessage :: "json option \<Rightarrow> bool" where
  "isSdkResultMessage r = (case r of None \<Rightarrow> False | Some v \<Rightarrow> getStringProperty v ''type'' = Some ''result'')"

text \<open>The payload of \<open>buildStreamMessage\<close>; \<open>String\<close> of any child error object is the same text.\<close>

definition buildData :: "child_event \<Rightarrow> bridge_data" where
  "buildData ev =
     (case ev of
        EvError d \<Rightarrow> DError (Some ''[object Object]'')
      | EvStart host cwd message len resume \<Rightarrow> DStart host cwd message len resume
      | EvSession sid \<Rightarrow> DSession sid
      | EvMessage n ty content \<Rightarrow> DMessage n ty (map_option stripSystemReminders content)
      | EvComplete n result \<Rightarrow>
          (let sanitized = map_option stripSystemReminders result
           in DComplete n (if isSdkResultMessage sanitized then sanitized else None))
      | EvPing \<Rightarrow> DPing
      | EvDone \<Rightarrow> DDone
      | EvInterrupt src \<Rightarrow> DInterrupt (if src = Some (JStr HTTP_ABORT) \<or> src = Some (JStr CLIENT_CANCEL)
                                      then (case src of Some (JStr s) \<Rightarrow> s | _ \<Rightarrow> CLIENT_CANCEL) else CLIENT_CANCEL)
      | EvUnknown ty raw \<Rightarrow> DPing)"

text \<open>The tokens of an assistant message; \<open>typeof v === "object"\<close> holds of arrays too.\<close>

definition is_object :: "json \<Rightarrow> bool" where
  "is_object v = (case v of JObj _ \<Rightarrow> True | JArr _ \<Rightarrow> True | _ \<Rightarrow> False)"

definition message_usage :: "bridge_data \<Rightarrow> (rat \<times> rat) option" where
  "message_usage d =
     (case d of
        DMessage n ty (Some content) \<Rightarrow>
          if ty \<noteq> ''assistant'' then None
          else (case getObjectProperty content ''message'' of
                  None \<Rightarrow> None
                | Some msg \<Rightarrow>
                    if \<not> is_object msg then None
                    else (case getObjectProperty msg ''usage'' of
                            None \<Rightarrow> None
                          | Some usage \<Rightarrow>
                              (case (getNumberProperty usage ''input_tokens'', getNumberProperty usage ''output_tokens'') of
                                 (Some i, Some out) \<Rightarrow> Some (i, out)
                               | _ \<Rightarrow> None)))
      | _ \<Rightarrow> None)"

subsection \<open>State of a stream\<close>

text \<open>
  \<open>he_cancelAt\<close> is the await after which a cancellation has been requested, by any channel
  (\<open>None\<close>: never); \<open>he_clientAbort\<close> says that it was the client that went away, which closes
  the response. The token source, the model and the workspace belong to the request.
\<close>

record handler_env =
  he_requestId :: string
  he_tabId :: "string option"
  he_workspace :: string
  he_tokenSource :: billing_token_source
  he_model :: claude_model
  he_warnings :: "(string \<times> string) list"
  he_parse :: "string \<Rightarrow> json option"
  he_cancelAt :: "nat option"
  he_clientAbort :: bool
  he_storeOk :: bool
  he_appUp :: bool
  he_iamUp :: bool
  he_now :: int

record handler_state =
  hs_awaits :: nat
  hs_buffer :: string
  hs_inputTokens :: rat
  hs_outputTokens :: rat
  hs_charged :: bool
  hs_cleanupCalled :: bool
  hs_counter :: "nat option"
  hs_enqueued :: "bridge_message list"
  hs_onMessage :: "bridge_message list"
  hs_sessions :: "string list"
  hs_chargeCalls :: "rat list"
  hs_credits :: credit_world
  hs_completions :: nat

definition start_state :: "credit_world \<Rightarrow> handler_state" where
  "start_state cw = \<lparr>hs_awaits = 0, hs_buffer = [], hs_inputTokens = 0, hs_outputTokens = 0, hs_charged = False,
     hs_cleanupCalled = False, hs_counter = None, hs_enqueued = [], hs_onMessage = [], hs_sessions = [],
     hs_chargeCalls = [], hs_credits = cw, hs_completions = 0\<rparr>"

definition requested :: "handler_env \<Rightarrow> handler_state \<Rightarrow> bool" where
  "requested e s = (case he_cancelAt e of None \<Rightarrow> False | Some k \<Rightarrow> k \<le> hs_awaits s)"

definition await :: "handler_state \<Rightarrow> handler_state" where
  "await s = s\<lparr>hs_awaits := hs_awaits s + 1\<rparr>"

definition nextStreamSeq :: "handler_state \<Rightarrow> nat \<times> handler_state" where
  "nextStreamSeq s = (let n = or_else (hs_counter s) 0 + 1 in (n, s\<lparr>hs_counter := Some n\<rparr>))"

definition cleanupMessageCounter :: "handler_state \<Rightarrow> handler_state" where
  "cleanupMessageCounter s = s\<lparr>hs_counter := None\<rparr>"

definition buildStreamMessage :: "handler_env \<Rightarrow> child_event \<Rightarrow> handler_state \<Rightarrow> bridge_message \<times> handler_state" where
  "buildStreamMessage e ev s =
     (let (n, s1) = nextStreamSeq s
      in (\<lparr>bm_requestId = he_requestId e, bm_messageId = buildMessageId (he_requestId e) n, bm_streamSeq = Some n,
           bm_tabId = he_tabId e, bm_data = buildData ev\<rparr>, s1))"

text \<open>A closed response throws.\<close>

definition enqueue :: "handler_env \<Rightarrow> bridge_message \<Rightarrow> handler_state \<Rightarrow> bool \<times> handler_state" where
  "enqueue e m s =
     (if he_clientAbort e \<and> requested e s then (False, s) else (True, s\<lparr>hs_enqueued := hs_enqueued s @ [m]\<rparr>))"

definition chargeAccumulatedCredits :: "handler_env \<Rightarrow> handler_state \<Rightarrow> handler_state" where
  "chargeAccumulatedCredits e s =
     (if hs_charged s then s
      else let s1 = s\<lparr>hs_charged := True\<rparr>
           in if hs_inputTokens s1 = 0 \<and> hs_outputTokens s1 = 0 then s1
              else let c = calculateCreditsToCharge (he_model e) (hs_inputTokens s1) (hs_outputTokens s1) None
                   in await (s1\<lparr>hs_chargeCalls := hs_chargeCalls s1 @ [c],
                                hs_credits := snd (chargeCreditsDirectly (he_appUp e) (he_iamUp e) (he_now e) (he_workspace e) c (hs_credits s1))\<rparr>))"

definition release :: "handler_state \<Rightarrow> handler_state" where
  "release s = s\<lparr>hs_completions := hs_completions s + 1, hs_cleanupCalled := True\<rparr>"

text \<open>One event; \<open>None\<close> of the first part: it threw. The second is \<open>isComplete\<close>.\<close>

definition addUsage :: "handler_env \<Rightarrow> bridge_data \<Rightarrow> handler_state \<Rightarrow> handler_state" where
  "addUsage e d s =
     (case (he_tokenSource e, message_usage d) of
        (Workspace, Some (i, out)) \<Rightarrow> s\<lparr>hs_inputTokens := hs_inputTokens s + i, hs_outputTokens := hs_outputTokens s + out\<rparr>
      | _ \<Rightarrow> s)"

definition processChildEvent :: "handler_env \<Rightarrow> child_event \<Rightarrow> handler_state \<Rightarrow> bool option \<times> handler_state" where
  "processChildEvent e ev s =
     (case ev of
        EvSession sid \<Rightarrow> (Some False, await (if he_storeOk e then s\<lparr>hs_sessions := hs_sessions s @ [sid]\<rparr> else s))
      | _ \<Rightarrow>
          (let (m, s1) = buildStreamMessage e ev s;
               s2 = addUsage e (bm_data m) s1;
               s3 = s2\<lparr>hs_onMessage := hs_onMessage s2 @ [m]\<rparr>;
               (sent, s4) = enqueue e m s3
           in if sent then (Some (case ev of EvComplete n r \<Rightarrow> True | _ \<Rightarrow> False), await s4) else (None, await s4)))"

text \<open>A line that is not blank, with the early release on completion.\<close>

definition processLine :: "handler_env \<Rightarrow> string \<Rightarrow> handler_state \<Rightarrow> handler_state" where
  "processLine e line s =
     (case he_parse e line of
        None \<Rightarrow> s
      | Some v \<Rightarrow>
          (case processChildEvent e (parseChildEvent v) s of
             (Some True, s1) \<Rightarrow>
               if hs_cleanupCalled s1 then s1
               else release (if he_tokenSource e = Workspace then chargeAccumulatedCredits e s1 else s1)
           | (_, s1) \<Rightarrow> s1))"

fun processLines :: "handler_env \<Rightarrow> string list \<Rightarrow> handler_state \<Rightarrow> handler_state" where
  "processLines e [] s = s"
| "processLines e (l # ls) s =
     (if requested e s then s
      else processLines e ls (if trim l = [] then s else processLine e l s))"

text \<open>What the child's stream gives: decoded text, or a failure; the end of the list is its end.\<close>

datatype child_read = Chunk string | ReadFails

fun readLoop :: "handler_env \<Rightarrow> child_read list \<Rightarrow> handler_state \<Rightarrow> bool \<times> handler_state" where
  "readLoop e [] s = (True, if requested e s then s else await s)"
| "readLoop e (r # rs) s =
     (if requested e s then (True, s)
      else let s1 = await s in
           if requested e s1 then (True, s1)
           else case r of
                  ReadFails \<Rightarrow> (False, s1)
                | Chunk t \<Rightarrow>
                    (let ls = split_on newline (hs_buffer s1 @ t);
                         s2 = processLines e (butlast ls) (s1\<lparr>hs_buffer := last ls\<rparr>)
                     in if requested e s2 then (True, s2) else readLoop e rs s2))"

definition injectWarnings :: "handler_env \<Rightarrow> handler_state \<Rightarrow> handler_state" where
  "injectWarnings e s =
     s\<lparr>hs_enqueued := hs_enqueued s @ map (\<lambda>(provider, message).
         \<lparr>bm_requestId = he_requestId e, bm_messageId = he_requestId e @ ''-warn-'' , bm_streamSeq = None,
          bm_tabId = he_tabId e, bm_data = DWarning provider message\<rparr>) (he_warnings e)\<rparr>"

definition streamError :: "handler_env \<Rightarrow> handler_state \<Rightarrow> handler_state" where
  "streamError e s =
     (let (n, s1) = nextStreamSeq s
      in snd (enqueue e \<lparr>bm_requestId = he_requestId e, bm_messageId = buildMessageId (he_requestId e) n, bm_streamSeq = Some n,
                         bm_tabId = None, bm_data = DError None\<rparr> s1))"

definition finalizeStream :: "handler_env \<Rightarrow> handler_state \<Rightarrow> handler_state" where
  "finalizeStream e s =
     (let s1 = (if he_tokenSource e = Workspace \<and> \<not> hs_charged s \<and> (hs_inputTokens s > 0 \<or> hs_outputTokens s > 0)
                then chargeAccumulatedCredits e s else s);
          s2 = (if hs_cleanupCalled s1 then s1 else release s1)
      in cleanupMessageCounter s2)"

definition createNDJSONStream :: "handler_env \<Rightarrow> child_read list \<Rightarrow> handler_state \<Rightarrow> handler_state" where
  "createNDJSONStream e reads s =
     (let (ok, s1) = readLoop e reads (await (injectWarnings e s));
          s2 = (if ok then (if trim (hs_buffer s1) = [] then s1 else processLine e (hs_buffer s1) s1)
                else streamError e s1)
      in finalizeStream e s2)"

subsection \<open>What a stream has received\<close>

definition is_complete :: "bridge_message \<Rightarrow> bool" where
  "is_complete m = (case bm_data m of DComplete n r \<Rightarrow> True | _ \<Rightarrow> False)"

definition usage_of :: "bridge_message \<Rightarrow> rat \<times> rat" where
  "usage_of m = or_else (message_usage (bm_data m)) (0, 0)"

fun total_usage :: "bridge_message list \<Rightarrow> rat \<times> rat" where
  "total_usage [] = (0, 0)"
| "total_usage (m # ms) = (fst (usage_of m) + fst (total_usage ms), snd (usage_of m) + snd (total_usage ms))"

text \<open>The messages up to the first completion, and the charge for them.\<close>

fun upto_complete :: "bridge_message list \<Rightarrow> bridge_message list" where
  "upto_complete [] = []"
| "upto_complete (m # ms) = (if is_complete m then [m] else m # upto_complete ms)"

definition bill :: "handler_env \<Rightarrow> bridge_message list \<Rightarrow> rat list" where
  "bill e ms = (let (i, out) = total_usage ms
     in if i = 0 \<and> out = 0 then [] else [calculateCreditsToCharge (he_model e) i out None])"

lemma total_usage_append [simp]:
  "total_usage (ms @ ns) = (fst (total_usage ms) + fst (total_usage ns), snd (total_usage ms) + snd (total_usage ns))"
  by (induction ms) auto

lemma upto_complete_append:
  "upto_complete (ms @ ns) = (if \<exists>m\<in>set ms. is_complete m then upto_complete ms else ms @ upto_complete ns)"
  by (induction ms) auto

lemma upto_complete_all [simp]: "\<not> (\<exists>m\<in>set ms. is_complete m) \<Longrightarrow> upto_complete ms = ms"
  by (induction ms) auto

text \<open>The message of an event in a state, and the state once it is noted.\<close>

definition message_for :: "handler_env \<Rightarrow> child_event \<Rightarrow> handler_state \<Rightarrow> bridge_message" where
  "message_for e ev s = fst (buildStreamMessage e ev s)"

definition noted :: "handler_env \<Rightarrow> child_event \<Rightarrow> handler_state \<Rightarrow> handler_state" where
  "noted e ev s =
     (let (m, s1) = buildStreamMessage e ev s; s2 = addUsage e (bm_data m) s1
      in s2\<lparr>hs_onMessage := hs_onMessage s2 @ [m]\<rparr>)"

definition is_session :: "child_event \<Rightarrow> bool" where
  "is_session ev = (case ev of EvSession sid \<Rightarrow> True | _ \<Rightarrow> False)"

lemma processChildEvent_noted:
  assumes "\<not> is_session ev"
  shows "processChildEvent e ev s =
     (let (sent, s4) = enqueue e (message_for e ev s) (noted e ev s)
      in if sent then (Some (is_complete (message_for e ev s)), await s4) else (None, await s4))"
  using assms
  by (cases ev) (simp_all add: is_session_def processChildEvent_def message_for_def noted_def buildStreamMessage_def
      Let_def split_beta is_complete_def buildData_def)

lemma addUsage_fields [simp]:
  "hs_awaits (addUsage e d s) = hs_awaits s" "hs_charged (addUsage e d s) = hs_charged s"
  "hs_cleanupCalled (addUsage e d s) = hs_cleanupCalled s" "hs_counter (addUsage e d s) = hs_counter s"
  "hs_onMessage (addUsage e d s) = hs_onMessage s" "hs_chargeCalls (addUsage e d s) = hs_chargeCalls s"
  "hs_completions (addUsage e d s) = hs_completions s" "hs_buffer (addUsage e d s) = hs_buffer s"
  "hs_enqueued (addUsage e d s) = hs_enqueued s" "hs_sessions (addUsage e d s) = hs_sessions s"
  "hs_credits (addUsage e d s) = hs_credits s"
  by (simp_all add: addUsage_def split: billing_token_source.split option.split prod.split)

lemma addUsage_tokens:
  "hs_inputTokens (addUsage e d s) =
     (if he_tokenSource e = Workspace then hs_inputTokens s + fst (or_else (message_usage d) (0, 0)) else hs_inputTokens s)"
  "hs_outputTokens (addUsage e d s) =
     (if he_tokenSource e = Workspace then hs_outputTokens s + snd (or_else (message_usage d) (0, 0)) else hs_outputTokens s)"
  by (simp_all add: addUsage_def or_else_def split: billing_token_source.split option.split prod.split)

lemma noted_fields [simp]:
  "hs_awaits (noted e ev s) = hs_awaits s" "hs_charged (noted e ev s) = hs_charged s"
  "hs_cleanupCalled (noted e ev s) = hs_cleanupCalled s"
  "hs_onMessage (noted e ev s) = hs_onMessage s @ [message_for e ev s]"
  "hs_chargeCalls (noted e ev s) = hs_chargeCalls s" "hs_completions (noted e ev s) = hs_completions s"
  "hs_counter (noted e ev s) = Some (or_else (hs_counter s) 0 + 1)"
  "hs_buffer (noted e ev s) = hs_buffer s"
  "hs_enqueued (noted e ev s) = hs_enqueued s" "hs_sessions (noted e ev s) = hs_sessions s"
  "hs_credits (noted e ev s) = hs_credits s"
  by (simp_all add: noted_def message_for_def buildStreamMessage_def nextStreamSeq_def Let_def)

lemma noted_tokens:
  "hs_inputTokens (noted e ev s) = (if he_tokenSource e = Workspace then hs_inputTokens s + fst (usage_of (message_for e ev s)) else hs_inputTokens s)"
  "hs_outputTokens (noted e ev s) = (if he_tokenSource e = Workspace then hs_outputTokens s + snd (usage_of (message_for e ev s)) else hs_outputTokens s)"
  by (simp_all add: noted_def message_for_def buildStreamMessage_def nextStreamSeq_def Let_def addUsage_tokens usage_of_def)

lemma message_for_fields [simp]:
  "bm_streamSeq (message_for e ev s) = Some (or_else (hs_counter s) 0 + 1)"
  "bm_messageId (message_for e ev s) = buildMessageId (he_requestId e) (or_else (hs_counter s) 0 + 1)"
  "bm_requestId (message_for e ev s) = he_requestId e" "bm_tabId (message_for e ev s) = he_tabId e"
  by (simp_all add: message_for_def buildStreamMessage_def nextStreamSeq_def Let_def)

subsection \<open>The invariant of the loop\<close>

definition billing_ok :: "handler_env \<Rightarrow> handler_state \<Rightarrow> bool" where
  "billing_ok e s \<longleftrightarrow>
     (if he_tokenSource e = Workspace
      then (hs_inputTokens s, hs_outputTokens s) = total_usage (hs_onMessage s) \<and>
           (if hs_cleanupCalled s then hs_charged s \<and> hs_chargeCalls s = bill e (upto_complete (hs_onMessage s))
            else \<not> hs_charged s \<and> hs_chargeCalls s = [])
      else \<not> hs_charged s \<and> hs_chargeCalls s = [])"

definition numbering_ok :: "handler_env \<Rightarrow> handler_state \<Rightarrow> bool" where
  "numbering_ok e s \<longleftrightarrow>
     or_else (hs_counter s) 0 = length (hs_onMessage s) \<and>
     map bm_streamSeq (hs_onMessage s) = map Some [1..<Suc (length (hs_onMessage s))] \<and>
     map bm_messageId (hs_onMessage s) = map (buildMessageId (he_requestId e)) [1..<Suc (length (hs_onMessage s))]"

definition release_ok :: "handler_state \<Rightarrow> bool" where
  "release_ok s \<longleftrightarrow> hs_completions s = (if hs_cleanupCalled s then 1 else 0)"

definition handler_ok :: "handler_env \<Rightarrow> handler_state \<Rightarrow> bool" where
  "handler_ok e s \<longleftrightarrow> billing_ok e s \<and> numbering_ok e s \<and> release_ok s \<and>
     (hs_cleanupCalled s \<longleftrightarrow> (\<exists>m\<in>set (hs_onMessage s). is_complete m))"

lemma numbering_noted: "numbering_ok e s \<Longrightarrow> numbering_ok e (noted e ev s)"
  by (simp add: numbering_ok_def or_else_def)

lemma charge_fields [simp]:
  "hs_onMessage (chargeAccumulatedCredits e s) = hs_onMessage s"
  "hs_counter (chargeAccumulatedCredits e s) = hs_counter s"
  "hs_completions (chargeAccumulatedCredits e s) = hs_completions s"
  "hs_cleanupCalled (chargeAccumulatedCredits e s) = hs_cleanupCalled s"
  "hs_inputTokens (chargeAccumulatedCredits e s) = hs_inputTokens s"
  "hs_outputTokens (chargeAccumulatedCredits e s) = hs_outputTokens s"
  "hs_buffer (chargeAccumulatedCredits e s) = hs_buffer s"
  "hs_enqueued (chargeAccumulatedCredits e s) = hs_enqueued s"
  "hs_sessions (chargeAccumulatedCredits e s) = hs_sessions s"
  "hs_charged (chargeAccumulatedCredits e s)"
  by (simp_all add: chargeAccumulatedCredits_def Let_def await_def)

lemma charge_calls:
  "\<not> hs_charged s \<Longrightarrow> hs_chargeCalls (chargeAccumulatedCredits e s) = hs_chargeCalls s @
     (if hs_inputTokens s = 0 \<and> hs_outputTokens s = 0 then []
      else [calculateCreditsToCharge (he_model e) (hs_inputTokens s) (hs_outputTokens s) None])"
  by (simp add: chargeAccumulatedCredits_def Let_def await_def)

lemma handler_ok_noted:
  assumes "handler_ok e s" and "\<not> is_complete (message_for e ev s) \<or> hs_cleanupCalled s"
  shows "handler_ok e (noted e ev s)"
proof -
  have "billing_ok e (noted e ev s)"
    using assms by (auto simp: handler_ok_def billing_ok_def noted_tokens upto_complete_append prod_eq_iff)
  then show ?thesis
    using assms numbering_noted [of e s ev] by (auto simp: handler_ok_def release_ok_def)
qed

lemma handler_ok_completed:
  assumes "handler_ok e s" and "is_complete (message_for e ev s)" and "\<not> hs_cleanupCalled s"
    and "v = noted e ev s"
    and "w = release (if he_tokenSource e = Workspace then chargeAccumulatedCredits e v else v)"
  shows "handler_ok e w"
proof -
  have none: "\<not> (\<exists>m\<in>set (hs_onMessage s). is_complete m)" using assms(1,3) by (simp add: handler_ok_def)
  have "billing_ok e w"
  proof (cases "he_tokenSource e = Workspace")
    case True
    have v: "hs_inputTokens v = fst (total_usage (hs_onMessage v))" "hs_outputTokens v = snd (total_usage (hs_onMessage v))"
      "\<not> hs_charged v" "hs_chargeCalls v = []"
      using assms(1,3,4) True by (auto simp: handler_ok_def billing_ok_def noted_tokens prod_eq_iff)
    have u: "upto_complete (hs_onMessage v) = hs_onMessage v"
      using none assms(2,4) by (simp add: upto_complete_append)
    show ?thesis
      using True v u charge_calls [of v e]
      by (simp add: billing_ok_def assms(5) release_def bill_def split_beta prod_eq_iff)
  next
    case False
    then show ?thesis using assms(1) by (simp add: assms(4,5) billing_ok_def release_def handler_ok_def)
  qed
  moreover have "numbering_ok e w"
    using numbering_noted [of e s ev] assms(1) by (simp add: assms(4,5) release_def handler_ok_def numbering_ok_def)
  ultimately show ?thesis
    using assms(1,2,3) by (simp add: assms(4,5) handler_ok_def release_ok_def release_def)
qed

text \<open>Fields the invariant does not look at.\<close>

lemma handler_ok_irrelevant [simp]:
  "handler_ok e (s\<lparr>hs_awaits := a\<rparr>) = handler_ok e s" "handler_ok e (s\<lparr>hs_buffer := b\<rparr>) = handler_ok e s"
  "handler_ok e (s\<lparr>hs_enqueued := q\<rparr>) = handler_ok e s" "handler_ok e (s\<lparr>hs_sessions := ss\<rparr>) = handler_ok e s"
  by (simp_all add: handler_ok_def billing_ok_def numbering_ok_def release_ok_def)

lemma handler_ok_await [simp]: "handler_ok e (await s) = handler_ok e s"
  by (simp add: await_def)

definition closed :: "handler_env \<Rightarrow> handler_state \<Rightarrow> bool" where
  "closed e s \<longleftrightarrow> he_clientAbort e \<and> requested e s"

lemma processLine_session:
  "he_parse e l = Some v \<Longrightarrow> is_session (parseChildEvent v) \<Longrightarrow>
     \<exists>ss. processLine e l s = await (s\<lparr>hs_sessions := ss\<rparr>)"
  by (cases "parseChildEvent v")
    (auto simp: is_session_def processLine_def processChildEvent_def await_def intro: exI [of _ "hs_sessions s"])

lemma processLine_noted:
  assumes "he_parse e l = Some v" and "\<not> is_session (parseChildEvent v)" and "\<not> closed e s"
    and "m = message_for e (parseChildEvent v) s"
    and "n = await ((noted e (parseChildEvent v) s)\<lparr>hs_enqueued := hs_enqueued s @ [m]\<rparr>)"
  shows "processLine e l s =
     (if is_complete m \<and> \<not> hs_cleanupCalled s
      then release (if he_tokenSource e = Workspace then chargeAccumulatedCredits e n else n) else n)"
proof -
  have "enqueue e m (noted e (parseChildEvent v) s) =
      (True, (noted e (parseChildEvent v) s)\<lparr>hs_enqueued := hs_enqueued s @ [m]\<rparr>)"
    using assms(3) by (simp add: enqueue_def closed_def requested_def split: option.splits)
  then show ?thesis
    unfolding processLine_def assms(1) option.case processChildEvent_noted [OF assms(2)] assms(4) [symmetric]
    by (cases "is_complete m") (simp_all add: assms(5) await_def)
qed

lemma handler_ok_processLine:
  assumes "handler_ok e s" and "\<not> closed e s"
  shows "handler_ok e (processLine e l s)"
proof (cases "he_parse e l")
  case None
  then show ?thesis using assms(1) by (simp add: processLine_def)
next
  case (Some v)
  show ?thesis
  proof (cases "is_session (parseChildEvent v)")
    case True
    then show ?thesis using processLine_session [OF Some True, of s] assms(1) by auto
  next
    case False
    define m where "m = message_for e (parseChildEvent v) s"
    define n0 where "n0 = noted e (parseChildEvent v) s"
    define n where "n = await (n0\<lparr>hs_enqueued := hs_enqueued s @ [m]\<rparr>)"
    note p = processLine_noted [OF Some False assms(2) m_def n_def [unfolded n0_def]]
    show ?thesis
    proof (cases "is_complete m \<and> \<not> hs_cleanupCalled s")
      case False
      then show ?thesis
        using p handler_ok_noted [OF assms(1), of "parseChildEvent v"] by (auto simp: m_def n_def n0_def)
    next
      case True
      let ?charged = "\<lambda>v. release (if he_tokenSource e = Workspace then chargeAccumulatedCredits e v else v)"
      have "handler_ok e (?charged n0)"
        using handler_ok_completed [OF assms(1) _ _ n0_def refl] True by (simp add: m_def)
      moreover have "\<exists>a c q. ?charged n = (?charged n0)\<lparr>hs_awaits := a, hs_credits := c, hs_enqueued := q\<rparr>"
        unfolding n_def
        by (intro exI [of _ "hs_awaits (?charged n)"] exI [of _ "hs_credits (?charged n)"] exI [of _ "hs_enqueued (?charged n)"])
          (simp add: n_def release_def chargeAccumulatedCredits_def await_def Let_def)
      moreover have "handler_ok e (x\<lparr>hs_awaits := a, hs_credits := c, hs_enqueued := q\<rparr>) = handler_ok e x" for x a c q
        by (simp add: handler_ok_def billing_ok_def numbering_ok_def release_ok_def)
      ultimately have "handler_ok e (?charged n)" by metis
      then show ?thesis using p True by simp
    qed
  qed
qed

lemma handler_ok_processLines: "handler_ok e s \<Longrightarrow> handler_ok e (processLines e ls s)"
proof (induction ls arbitrary: s)
  case (Cons l ls)
  show ?case
  proof (cases "requested e s")
    case False
    then have "handler_ok e (if trim l = [] then s else processLine e l s)"
      using Cons.prems handler_ok_processLine [of e s l] by (simp add: closed_def)
    then show ?thesis using Cons.IH False by simp
  qed (use Cons.prems in simp)
qed simp

lemma handler_ok_readLoop: "handler_ok e s \<Longrightarrow> handler_ok e (snd (readLoop e rs s))"
proof (induction rs arbitrary: s)
  case (Cons r rs)
  show ?case
  proof (cases r)
    case (Chunk t)
    let ?ls = "split_on newline (hs_buffer (await s) @ t)"
    have "handler_ok e (processLines e (butlast ?ls) ((await s)\<lparr>hs_buffer := last ?ls\<rparr>))"
      using Cons.prems by (intro handler_ok_processLines) simp
    then show ?thesis using Cons Chunk by (simp add: Let_def)
  qed (use Cons.prems in \<open>simp add: Let_def\<close>)
qed simp

lemma handler_ok_start: "handler_ok e (await (injectWarnings e (start_state cw)))"
  unfolding handler_ok_await
  by (simp add: injectWarnings_def handler_ok_def billing_ok_def numbering_ok_def release_ok_def start_state_def or_else_def)

text \<open>The end of a stream, from a state in which the response may be closed.\<close>

lemma nonneg_total:
  assumes "\<forall>m\<in>set ms. 0 \<le> fst (usage_of m) \<and> 0 \<le> snd (usage_of m)"
  shows "0 \<le> fst (total_usage ms) \<and> 0 \<le> snd (total_usage ms)"
  using assms by (induction ms) auto

definition settled :: "handler_env \<Rightarrow> handler_state \<Rightarrow> bool" where
  "settled e s \<longleftrightarrow> hs_completions s = 1 \<and> hs_cleanupCalled s \<and> hs_counter s = None \<and>
     hs_chargeCalls s = (if he_tokenSource e = Workspace then bill e (upto_complete (hs_onMessage s)) else []) \<and>
     map bm_streamSeq (hs_onMessage s) = map Some [1..<Suc (length (hs_onMessage s))] \<and>
     map bm_messageId (hs_onMessage s) = map (buildMessageId (he_requestId e)) [1..<Suc (length (hs_onMessage s))]"

definition closing_ok :: "handler_env \<Rightarrow> handler_state \<Rightarrow> bool" where
  "closing_ok e s \<longleftrightarrow> billing_ok e s \<and> release_ok s \<and>
     map bm_streamSeq (hs_onMessage s) = map Some [1..<Suc (length (hs_onMessage s))] \<and>
     map bm_messageId (hs_onMessage s) = map (buildMessageId (he_requestId e)) [1..<Suc (length (hs_onMessage s))] \<and>
     (\<not> hs_cleanupCalled s \<longrightarrow> upto_complete (hs_onMessage s) = hs_onMessage s)"

lemma handler_ok_closing: "handler_ok e s \<Longrightarrow> closing_ok e s"
  by (simp add: handler_ok_def closing_ok_def numbering_ok_def)

lemma closing_ok_irrelevant [simp]:
  "closing_ok e (s\<lparr>hs_awaits := a\<rparr>) = closing_ok e s" "closing_ok e (s\<lparr>hs_enqueued := q\<rparr>) = closing_ok e s"
  "closing_ok e (s\<lparr>hs_counter := c\<rparr>) = closing_ok e s"
  by (simp_all add: closing_ok_def billing_ok_def release_ok_def)

lemma closing_ok_final_line:
  assumes "handler_ok e s"
  shows "closing_ok e (processLine e l s)"
proof (cases "closed e s \<and> (\<exists>v. he_parse e l = Some v \<and> \<not> is_session (parseChildEvent v))")
  case False
  then show ?thesis
  proof (cases "closed e s")
    case True
    show ?thesis
    proof (cases "he_parse e l")
      case None
      then show ?thesis using handler_ok_closing [OF assms] by (simp add: processLine_def)
    next
      case (Some v)
      then show ?thesis using False True processLine_session [OF Some, of s] handler_ok_closing [of e] assms by auto
    qed
  qed (use handler_ok_closing handler_ok_processLine [OF assms] in blast)
next
  case True
  then obtain v where v: "he_parse e l = Some v" "\<not> is_session (parseChildEvent v)" by auto
  let ?n = "noted e (parseChildEvent v) s"
  have "closed e ?n" using True by (simp add: closed_def requested_def split: option.splits)
  then have "processLine e l s = await ?n"
    by (simp add: processLine_def v(1) processChildEvent_noted [OF v(2)] enqueue_def closed_def)
  moreover have "closing_ok e ?n"
    using assms numbering_noted [of e s "parseChildEvent v"]
    by (auto simp: handler_ok_def closing_ok_def numbering_ok_def release_ok_def billing_ok_def noted_tokens
        upto_complete_append prod_eq_iff)
  ultimately show ?thesis by (simp add: await_def)
qed

lemma closing_ok_streamError: "closing_ok e s \<Longrightarrow> closing_ok e (streamError e s)"
  by (simp add: streamError_def nextStreamSeq_def enqueue_def Let_def)

lemma finalize_settled:
  assumes "closing_ok e s"
    and "\<forall>m\<in>set (hs_onMessage s). 0 \<le> fst (usage_of m) \<and> 0 \<le> snd (usage_of m)"
  shows "settled e (finalizeStream e s) \<and> hs_onMessage (finalizeStream e s) = hs_onMessage s"
proof -
  have calls: "hs_chargeCalls (finalizeStream e s) =
      (if he_tokenSource e = Workspace then bill e (upto_complete (hs_onMessage s)) else [])"
  proof (cases "he_tokenSource e = Workspace \<and> \<not> hs_cleanupCalled s")
    case False
    then show ?thesis
      using assms(1) by (auto simp: finalizeStream_def closing_ok_def billing_ok_def Let_def release_def cleanupMessageCounter_def)
  next
    case True
    then have s: "hs_inputTokens s = fst (total_usage (hs_onMessage s))" "hs_outputTokens s = snd (total_usage (hs_onMessage s))"
      "\<not> hs_charged s" "hs_chargeCalls s = []" "upto_complete (hs_onMessage s) = hs_onMessage s"
      using assms(1) by (auto simp: closing_ok_def billing_ok_def prod_eq_iff)
    show ?thesis
      using True s nonneg_total [OF assms(2)] charge_calls [of s e]
      by (auto simp: finalizeStream_def Let_def release_def cleanupMessageCounter_def bill_def split_beta)
  qed
  have "hs_onMessage (finalizeStream e s) = hs_onMessage s" "hs_cleanupCalled (finalizeStream e s)"
    "hs_counter (finalizeStream e s) = None" "hs_completions (finalizeStream e s) = 1"
    using assms(1) by (auto simp: finalizeStream_def Let_def release_def cleanupMessageCounter_def release_ok_def closing_ok_def)
  then show ?thesis using calls assms(1) by (simp add: settled_def closing_ok_def)
qed

lemma finalize_onMessage [simp]: "hs_onMessage (finalizeStream e s) = hs_onMessage s"
  by (simp add: finalizeStream_def Let_def release_def cleanupMessageCounter_def)

text \<open>
  C8. A stream is released and billed exactly once. Whatever the child writes, in whatever chunks,
  and whenever it is cancelled or fails: when the stream ends, the conversation has been released
  exactly once; the messages given to the buffer are numbered 1, 2, 3 and so on without a gap,
  with matching ids; and a request on workspace credits has been charged at most once, for
  precisely the tokens reported up to the first completion message, no other request at all.
\<close>

theorem stream_settled_once:
  assumes "s = createNDJSONStream e reads (start_state cw)"
    and "\<forall>m\<in>set (hs_onMessage s). 0 \<le> fst (usage_of m) \<and> 0 \<le> snd (usage_of m)"
  shows "settled e s"
proof -
  define s0 where "s0 = await (injectWarnings e (start_state cw))"
  define s1 where "s1 = snd (readLoop e reads s0)"
  define s2 where "s2 = (if fst (readLoop e reads s0) then (if trim (hs_buffer s1) = [] then s1 else processLine e (hs_buffer s1) s1)
      else streamError e s1)"
  have s: "s = finalizeStream e s2"
    by (simp add: assms(1) createNDJSONStream_def split_beta Let_def s0_def s1_def s2_def)
  have "handler_ok e s1" unfolding s1_def s0_def by (intro handler_ok_readLoop handler_ok_start)
  then have "closing_ok e s2"
    using handler_ok_closing closing_ok_final_line closing_ok_streamError unfolding s2_def by auto
  then show ?thesis using finalize_settled [of e s2] assms(2) by (simp add: s)
qed

subsection \<open>Examples\<close>

text \<open>
  A parser for three lines: an assistant message with token use, the completion, and a second
  message with token use.
\<close>

definition demo_usage :: "rat \<Rightarrow> rat \<Rightarrow> json" where
  "demo_usage i out = JObj [(''type'', JStr ''stream_message''), (''messageType'', JStr ''assistant''),
     (''content'', JObj [(''message'', JObj [(''usage'', JObj [(''input_tokens'', JNum i), (''output_tokens'', JNum out)])])])]"

definition demo_parse :: "string \<Rightarrow> json option" where
  "demo_parse l =
     (if l = ''A'' then Some (demo_usage 1000 200)
      else if l = ''B'' then Some (demo_usage 100000 100000)
      else if l = ''C'' then Some (JObj [(''type'', JStr ''stream_complete'')])
      else if l = ''E'' then Some (JObj [(''type'', JStr ''error''), (''error'', JStr ''disk full'')])
      else None)"

definition demo_env :: "nat option \<Rightarrow> handler_env" where
  "demo_env cancelAt = \<lparr>he_requestId = ''r'', he_tabId = None, he_workspace = ''site.nl'', he_tokenSource = Workspace,
     he_model = SONNET_4_6, he_warnings = [], he_parse = demo_parse, he_cancelAt = cancelAt, he_clientAbort = False,
     he_storeOk = True, he_appUp = True, he_iamUp = True, he_now = 0\<rparr>"

definition demo_run :: handler_state where
  "demo_run = createNDJSONStream (demo_env None) [Chunk (''A'' @ [newline] @ ''C''), Chunk ([newline] @ ''B'' @ [newline])]
     (start_state (credit_demo 50))"

theorem stream_settled_once_witness:
  "settled (demo_env None) demo_run \<and> hs_chargeCalls demo_run = [6 / 100] \<and> length (hs_onMessage demo_run) = 3"
proof -
  have nn: "\<forall>m\<in>set (hs_onMessage demo_run). 0 \<le> fst (usage_of m) \<and> 0 \<le> snd (usage_of m)" by code_simp
  have "settled (demo_env None) demo_run" by (rule stream_settled_once [OF demo_run_def nn])
  moreover have "hs_chargeCalls demo_run = [6 / 100]" by code_simp
  moreover have "length (hs_onMessage demo_run) = 3" by code_simp
  ultimately show ?thesis by blast
qed

text \<open>Token use after the completion is never charged: the second message above is free.\<close>

lemma usage_after_completion_is_free:
  "total_usage (hs_onMessage demo_run) = (101000, 100200) \<and>
   jget (cw_orgs (hs_credits demo_run)) ''org'' = Some (Some (50 - 6 / 100))"
  by code_simp

text \<open>
  The error that ends a stream is sent to the open response only: the buffer a reconnecting client
  reads gets no error, and the stream is released as completed.
\<close>

lemma stream_error_not_buffered:
  "let s = createNDJSONStream (demo_env None) [Chunk (''A'' @ [newline]), ReadFails] (start_state (credit_demo 50))
   in map bm_data (hs_enqueued s) = map bm_data (hs_onMessage s) @ [DError None] \<and> length (hs_onMessage s) = 1 \<and>
      hs_completions s = 1"
  by code_simp

text \<open>The text of a child's error never reaches the client.\<close>

lemma child_error_text_is_lost: "buildData (EvError d) = DError (Some ''[object Object]'')"
  by (simp add: buildData_def)

text \<open>Reminders are removed in one pass; a nested one leaves a complete reminder behind.\<close>

lemma nested_reminder_survives:
  "strip_string (''<system-<system-reminder></system-reminder>reminder>hidden'' @ CLOSE_TAG) = OPEN_TAG @ ''hidden'' @ CLOSE_TAG"
  by code_simp

subsection \<open>Chunking\<close>

text \<open>
  Without a cancellation the awaits do not matter, and a line does not look at the buffer. \<open>core\<close>
  forgets the count of awaits.
\<close>

definition core :: "handler_state \<Rightarrow> handler_state" where
  "core s = s\<lparr>hs_awaits := 0\<rparr>"

definition relocate :: "nat \<Rightarrow> string \<Rightarrow> handler_state \<Rightarrow> handler_state" where
  "relocate a b s = s\<lparr>hs_awaits := a, hs_buffer := b\<rparr>"

lemma requested_never [simp]: "he_cancelAt e = None \<Longrightarrow> \<not> requested e s"
  by (simp add: requested_def)

lemma relocate_addUsage: "addUsage e d (relocate a b s) = relocate a b (addUsage e d s)"
  by (cases "he_tokenSource e"; cases "message_usage d") (simp_all add: addUsage_def relocate_def split: prod.split)

lemma relocate_build: "buildStreamMessage e ev (relocate a b s) =
    (fst (buildStreamMessage e ev s), relocate a b (snd (buildStreamMessage e ev s)))"
  by (simp add: buildStreamMessage_def nextStreamSeq_def Let_def relocate_def)

lemma relocate_steps:
  "message_for e ev (relocate a b s) = message_for e ev s"
  "noted e ev (relocate a b s) = relocate a b (noted e ev s)"
proof -
  show "message_for e ev (relocate a b s) = message_for e ev s" by (simp only: message_for_def relocate_build fst_conv)
  have up: "(relocate a b t)\<lparr>hs_onMessage := hs_onMessage (relocate a b t) @ [m]\<rparr> = relocate a b (t\<lparr>hs_onMessage := hs_onMessage t @ [m]\<rparr>)"
    for t m by (simp add: relocate_def)
  show "noted e ev (relocate a b s) = relocate a b (noted e ev s)"
    unfolding noted_def relocate_build by (simp only: split_beta Let_def fst_conv snd_conv relocate_addUsage up)
qed

lemma relocate_fields [simp]:
  "hs_cleanupCalled (relocate a b s) = hs_cleanupCalled s" "hs_charged (relocate a b s) = hs_charged s"
  "hs_enqueued (relocate a b s) = hs_enqueued s" "hs_awaits (relocate a b s) = a" "hs_buffer (relocate a b s) = b"
  by (simp_all add: relocate_def)

lemma relocate_release: "release (relocate a b s) = relocate a b (release s)"
  by (simp add: release_def relocate_def)

lemma relocate_charge:
  "\<exists>a'. chargeAccumulatedCredits e (relocate a b s) = relocate a' b (chargeAccumulatedCredits e s)"
proof -
  let ?c = "calculateCreditsToCharge (he_model e) (hs_inputTokens s) (hs_outputTokens s) None"
  have u: "chargeAccumulatedCredits e t =
      (if hs_charged t then t
       else if hs_inputTokens t = 0 \<and> hs_outputTokens t = 0 then t\<lparr>hs_charged := True\<rparr>
       else t\<lparr>hs_charged := True, hs_chargeCalls := hs_chargeCalls t @ [calculateCreditsToCharge (he_model e) (hs_inputTokens t) (hs_outputTokens t) None],
              hs_credits := snd (chargeCreditsDirectly (he_appUp e) (he_iamUp e) (he_now e) (he_workspace e)
                (calculateCreditsToCharge (he_model e) (hs_inputTokens t) (hs_outputTokens t) None) (hs_credits t)),
              hs_awaits := Suc (hs_awaits t)\<rparr>)" for t
    by (simp add: chargeAccumulatedCredits_def Let_def await_def)
  define k where "k = (if hs_charged s \<or> hs_inputTokens s = 0 \<and> hs_outputTokens s = 0 then a else Suc a)"
  have f: "hs_inputTokens (relocate a b s) = hs_inputTokens s" "hs_outputTokens (relocate a b s) = hs_outputTokens s"
    "hs_chargeCalls (relocate a b s) = hs_chargeCalls s" "hs_credits (relocate a b s) = hs_credits s"
    by (simp_all add: relocate_def)
  have "chargeAccumulatedCredits e (relocate a b s) = relocate k b (chargeAccumulatedCredits e s)"
    unfolding u f relocate_fields by (simp add: relocate_def k_def)
  then show ?thesis by blast
qed

lemma relocate_processLine:
  assumes "he_cancelAt e = None"
  shows "\<exists>a'. processLine e l (relocate a b s) = relocate a' b (processLine e l s)"
proof (cases "he_parse e l")
  case None
  then show ?thesis by (auto simp: processLine_def)
next
  case (Some v)
  show ?thesis
  proof (cases "is_session (parseChildEvent v)")
    case True
    then show ?thesis
      using Some by (cases "parseChildEvent v") (auto simp: is_session_def processLine_def processChildEvent_def await_def relocate_def
          intro: exI [of _ "Suc a"])
  next
    case False
    have nc: "\<not> closed e t" for t using assms by (simp add: closed_def)
    let ?ev = "parseChildEvent v"
    define m where "m = message_for e ?ev s"
    define n where "n = await ((noted e ?ev s)\<lparr>hs_enqueued := hs_enqueued s @ [m]\<rparr>)"
    define n' where "n' = await ((noted e ?ev (relocate a b s))\<lparr>hs_enqueued := hs_enqueued (relocate a b s) @ [m]\<rparr>)"
    have n': "n' = relocate (Suc a) b n"
      unfolding n'_def n_def relocate_steps by (simp add: relocate_def await_def)
    have p: "processLine e l s = (if is_complete m \<and> \<not> hs_cleanupCalled s
        then release (if he_tokenSource e = Workspace then chargeAccumulatedCredits e n else n) else n)"
      by (rule processLine_noted [OF Some False nc m_def n_def])
    have q: "processLine e l (relocate a b s) = (if is_complete m \<and> \<not> hs_cleanupCalled s
        then release (if he_tokenSource e = Workspace then chargeAccumulatedCredits e n' else n') else n')"
      using processLine_noted [OF Some False nc, of m "relocate a b s" n'] by (simp add: m_def relocate_steps n'_def)
    obtain a' where a': "chargeAccumulatedCredits e n' = relocate a' b (chargeAccumulatedCredits e n)"
      using relocate_charge [of e "Suc a" b n] n' by auto
    have r: "\<exists>a'. release n' = relocate a' b (release n)" "\<exists>a'. n' = relocate a' b n"
      "\<exists>a'. release (chargeAccumulatedCredits e n') = relocate a' b (release (chargeAccumulatedCredits e n))"
      by (auto simp only: n' relocate_release) (metis a' n' relocate_release)
    show ?thesis unfolding p q using r by simp
  qed
qed

definition line_step :: "handler_env \<Rightarrow> string \<Rightarrow> handler_state \<Rightarrow> handler_state" where
  "line_step e l s = (if trim l = [] then s else processLine e l s)"

lemma relocate_line_step:
  "he_cancelAt e = None \<Longrightarrow> \<exists>a'. line_step e l (relocate a b s) = relocate a' b (line_step e l s)"
  using relocate_processLine [of e l a b s] by (cases "trim l = []") (auto simp: line_step_def)

lemma relocate_lines:
  assumes "he_cancelAt e = None"
  shows "\<exists>a'. fold (line_step e) ls (relocate a b s) = relocate a' b (fold (line_step e) ls s)"
proof (induction ls arbitrary: a s)
  case (Cons l ls)
  obtain a1 where "line_step e l (relocate a b s) = relocate a1 b (line_step e l s)"
    using relocate_line_step [OF assms] by blast
  then show ?case using Cons.IH [of a1 "line_step e l s"] by simp
qed auto

lemma processLines_fold: "he_cancelAt e = None \<Longrightarrow> processLines e ls s = fold (line_step e) ls s"
  by (induction ls arbitrary: s) (simp_all add: line_step_def)

lemma relocate_twice [simp]: "relocate a b (relocate a' b' s) = relocate a b s"
  by (simp add: relocate_def)

lemma readLoop_lines:
  assumes "he_cancelAt e = None" and "newline \<notin> set b"
  shows "\<exists>a'. readLoop e (map Chunk ts) (relocate a b s) =
     (True, relocate a' (last (split_on newline (b @ concat ts))) (fold (line_step e) (butlast (split_on newline (b @ concat ts))) s))"
  using assms(2)
proof (induction ts arbitrary: a b s)
  case Nil
  have "await (relocate a b s) = relocate (Suc a) b s" by (simp add: await_def relocate_def)
  then show ?case using assms(1) Nil by (auto simp: split_on_no_sep)
next
  case (Cons t ts)
  define ls where "ls = split_on newline (b @ t)"
  have aw: "await (relocate a b s) = relocate (Suc a) b s" by (simp add: await_def relocate_def)
  have up: "(relocate (Suc a) b s)\<lparr>hs_buffer := last ls\<rparr> = relocate (Suc a) (last ls) s" by (simp add: relocate_def)
  obtain a1 where f: "fold (line_step e) (butlast ls) (relocate (Suc a) (last ls) s) =
      relocate a1 (last ls) (fold (line_step e) (butlast ls) s)"
    using relocate_lines [OF assms(1)] by blast
  have nl: "newline \<notin> set (last ls)" unfolding ls_def by (rule last_split_on_no_sep)
  have "readLoop e (map Chunk (t # ts)) (relocate a b s) =
      readLoop e (map Chunk ts) (relocate a1 (last ls) (fold (line_step e) (butlast ls) s))"
    using assms(1) by (simp add: aw Let_def processLines_fold ls_def [symmetric] up f)
  moreover have "split_on newline (b @ concat (t # ts)) = butlast ls @ split_on newline (last ls @ concat ts)"
    unfolding ls_def using split_on_append_last [of newline "b @ t" "concat ts"] by simp
  ultimately show ?case
    using Cons.IH [OF nl, of a1 "fold (line_step e) (butlast ls) s"] by (auto simp: butlast_append)
qed

lemma relocate_finalize: "\<exists>a'. finalizeStream e (relocate a b s) = relocate a' b (finalizeStream e s)"
proof -
  define due where "due \<longleftrightarrow> he_tokenSource e = Workspace \<and> \<not> hs_charged s \<and> (hs_inputTokens s > 0 \<or> hs_outputTokens s > 0)"
  have d: "due \<longleftrightarrow> he_tokenSource e = Workspace \<and> \<not> hs_charged (relocate a b s) \<and>
      (hs_inputTokens (relocate a b s) > 0 \<or> hs_outputTokens (relocate a b s) > 0)"
    by (simp add: due_def relocate_def)
  obtain a1 where a1: "(if due then chargeAccumulatedCredits e (relocate a b s) else relocate a b s) =
      relocate a1 b (if due then chargeAccumulatedCredits e s else s)"
    using relocate_charge [of e a b s] by (cases due) auto
  have c: "cleanupMessageCounter (relocate x y t) = relocate x y (cleanupMessageCounter t)" for x y t
    by (simp add: cleanupMessageCounter_def relocate_def)
  show ?thesis
    unfolding finalizeStream_def Let_def d [symmetric] due_def [symmetric] a1
    by (intro exI [of _ a1]) (simp add: relocate_release c)
qed

lemma core_finalize: "core (finalizeStream e (relocate a b s)) = core (finalizeStream e (relocate a' b s))"
proof -
  obtain x y where "finalizeStream e (relocate a b s) = relocate x b (finalizeStream e s)"
    "finalizeStream e (relocate a' b s) = relocate y b (finalizeStream e s)"
    using relocate_finalize by blast
  then show ?thesis by (simp add: core_def relocate_def)
qed

text \<open>
  C15. How the child's output is cut into chunks does not matter: two runs that read the same text,
  and are not cancelled, send the same messages, store the same sessions, charge the same amount
  and leave the same state.
\<close>

theorem chunking_is_irrelevant:
  assumes "he_cancelAt e = None" and "concat ts = concat us"
  shows "core (createNDJSONStream e (map Chunk ts) (start_state cw)) = core (createNDJSONStream e (map Chunk us) (start_state cw))"
proof -
  define s0 where "s0 = injectWarnings e (start_state cw)"
  have s0: "await s0 = relocate (Suc 0) [] s0" by (simp add: s0_def injectWarnings_def start_state_def await_def relocate_def)
  define ls where "ls = split_on newline (concat us)"
  define s1 where "s1 = fold (line_step e) (butlast ls) s0"
  have "\<exists>a b s'. createNDJSONStream e (map Chunk vs) (start_state cw) = finalizeStream e (relocate a b s') \<and>
      b = last ls \<and> s' = line_step e (last ls) s1" if vs: "concat vs = concat us" for vs
  proof -
    obtain a1 where r: "readLoop e (map Chunk vs) (relocate (Suc 0) [] s0) = (True, relocate a1 (last ls) s1)"
      using readLoop_lines [OF assms(1), of "[]" vs "Suc 0" s0] by (auto simp: vs ls_def s1_def)
    obtain a2 where "line_step e (last ls) (relocate a1 (last ls) s1) = relocate a2 (last ls) (line_step e (last ls) s1)"
      using relocate_line_step [OF assms(1)] by blast
    then have "createNDJSONStream e (map Chunk vs) (start_state cw) =
        finalizeStream e (relocate a2 (last ls) (line_step e (last ls) s1))"
      unfolding createNDJSONStream_def s0_def [symmetric] s0 r
      by (cases "trim (last ls) = []") (simp_all add: line_step_def)
    then show ?thesis by blast
  qed
  then show ?thesis using assms(2) core_finalize by metis
qed

theorem chunking_is_irrelevant_witness:
  "hs_enqueued demo_run = hs_enqueued (createNDJSONStream (demo_env None)
     (map Chunk [''A'', [], [newline] @ ''C'' @ [newline] @ ''B'', [newline]]) (start_state (credit_demo 50)))"
proof -
  have "core demo_run = core (createNDJSONStream (demo_env None)
     (map Chunk [''A'', [], [newline] @ ''C'' @ [newline] @ ''B'', [newline]]) (start_state (credit_demo 50)))"
    using chunking_is_irrelevant [of "demo_env None" "[''A'' @ [newline] @ ''C'', [newline] @ ''B'' @ [newline]]"
      "[''A'', [], [newline] @ ''C'' @ [newline] @ ''B'', [newline]]" "credit_demo 50"]
    by (simp add: demo_run_def demo_env_def)
  then have "hs_enqueued (core demo_run) = hs_enqueued (core (createNDJSONStream (demo_env None)
     (map Chunk [''A'', [], [newline] @ ''C'' @ [newline] @ ''B'', [newline]]) (start_state (credit_demo 50))))"
    by (rule arg_cong)
  then show ?thesis by (simp add: core_def)
qed

end
