(* ===== verification/SandboxedFs.thy ===== *)
theory SandboxedFs
  imports Paths Utf8
begin

section \<open>The sandboxed file tools\<close>

text \<open>
  \<open>packages/tools/src/tools/sandboxed-fs/index.ts\<close>: the Read, Write, Edit and NotebookEdit tools a
  workspace agent gets, and the arguments Glob and Grep hand to ripgrep; the workspace validator
  \<open>packages/tools/src/lib/workspace-validator.ts\<close>. The calls of \<open>node:fs\<close> run on a file system with
  directories, files and symbolic links. A file holds bytes; the texts that are read from it, searched
  in it and written to it are given by their UTF-8 form (\<open>Utf8\<close>). Permissions and other processes are
  left out: between two calls of one tool nothing else changes the files.
\<close>

subsection \<open>A file system with symbolic links\<close>

datatype fs_node = FsDir | FsFile string | FsLink string

type_synonym fs = "string list \<Rightarrow> fs_node option"

datatype errno = ENOENT | ENOTDIR | EISDIR | ELOOP

text \<open>
  Path resolution from the directory \<open>acc\<close>, which is real. With \<open>create\<close> the last component may be
  missing. The kernel follows at most forty links.
\<close>

definition MAX_LINKS :: nat where
  "MAX_LINKS = 40"

function walk :: "bool \<Rightarrow> nat \<Rightarrow> fs \<Rightarrow> string list \<Rightarrow> string list \<Rightarrow> errno + string list" where
  "walk create n fs acc [] = Inr acc"
| "walk create n fs acc (w # ws) =
     (if w = [] \<or> w = ''.'' then walk create n fs acc ws
      else if w = dotdot then walk create n fs (butlast acc) ws
      else case fs (acc @ [w]) of
             None \<Rightarrow> if create \<and> ws = [] then Inr (acc @ [w]) else Inl ENOENT
           | Some FsDir \<Rightarrow> walk create n fs (acc @ [w]) ws
           | Some (FsFile c) \<Rightarrow> if ws = [] then Inr (acc @ [w]) else Inl ENOTDIR
           | Some (FsLink t) \<Rightarrow>
               (case n of
                  0 \<Rightarrow> Inl ELOOP
                | Suc m \<Rightarrow> walk create m fs (if is_absolute t then [] else acc) (split_on slash t @ ws)))"
  by pat_completeness auto
termination by (relation "inv_image (less_than <*lex*> less_than) (\<lambda>(c, n, fs, acc, ws). (n, length ws))") auto

definition fs_realpath :: "fs \<Rightarrow> string \<Rightarrow> errno + string list" where
  "fs_realpath fs p = walk False MAX_LINKS fs [] (split_on slash p)"

definition is_file :: "fs \<Rightarrow> string list \<Rightarrow> bool" where
  "is_file fs d \<longleftrightarrow> (case fs d of Some (FsFile c) \<Rightarrow> True | _ \<Rightarrow> False)"

text \<open>\<open>mkdir\<close> with \<open>recursive\<close>: missing components are made where the path leads.\<close>

function mkdir_walk :: "nat \<Rightarrow> fs \<Rightarrow> string list \<Rightarrow> string list \<Rightarrow> (errno + string list) \<times> fs" where
  "mkdir_walk n fs acc [] = (Inr acc, fs)"
| "mkdir_walk n fs acc (w # ws) =
     (if w = [] \<or> w = ''.'' then mkdir_walk n fs acc ws
      else if w = dotdot then mkdir_walk n fs (butlast acc) ws
      else case fs (acc @ [w]) of
             None \<Rightarrow> mkdir_walk n (fs(acc @ [w] \<mapsto> FsDir)) (acc @ [w]) ws
           | Some FsDir \<Rightarrow> mkdir_walk n fs (acc @ [w]) ws
           | Some (FsFile c) \<Rightarrow> (Inl ENOTDIR, fs)
           | Some (FsLink t) \<Rightarrow>
               (case n of
                  0 \<Rightarrow> (Inl ELOOP, fs)
                | Suc m \<Rightarrow>
                    (case walk False m fs (if is_absolute t then [] else acc) (split_on slash t) of
                       Inl e \<Rightarrow> (Inl e, fs)
                     | Inr d \<Rightarrow> if is_file fs d then (Inl ENOTDIR, fs) else mkdir_walk m fs d ws)))"
  by pat_completeness auto
termination by (relation "inv_image (less_than <*lex*> less_than) (\<lambda>(n, fs, acc, ws). (n, length ws))") auto

definition fs_mkdir :: "fs \<Rightarrow> string \<Rightarrow> (errno + string list) \<times> fs" where
  "fs_mkdir fs p = mkdir_walk MAX_LINKS fs [] (split_on slash p)"

definition fs_readFile :: "fs \<Rightarrow> string \<Rightarrow> errno + string" where
  "fs_readFile fs p =
     (case fs_realpath fs p of
        Inl e \<Rightarrow> Inl e
      | Inr r \<Rightarrow> (case fs r of Some (FsFile c) \<Rightarrow> Inr (utf8_text c) | Some FsDir \<Rightarrow> Inl EISDIR | _ \<Rightarrow> Inl (if r = [] then EISDIR else ENOENT)))"

definition fs_writeFile :: "fs \<Rightarrow> string \<Rightarrow> string \<Rightarrow> (errno + unit) \<times> fs" where
  "fs_writeFile fs p content =
     (case walk True MAX_LINKS fs [] (split_on slash p) of
        Inl e \<Rightarrow> (Inl e, fs)
      | Inr r \<Rightarrow> if r = [] \<or> fs r = Some FsDir then (Inl EISDIR, fs) else (Inr (), fs(r \<mapsto> FsFile content)))"

text \<open>\<open>lstat\<close> does not follow the last component.\<close>

definition path_dirname :: "string \<Rightarrow> string" where
  "path_dirname p = render_path (butlast (filter (\<lambda>w. w \<noteq> []) (split_on slash p)))"

definition fs_lstat :: "fs \<Rightarrow> string \<Rightarrow> errno + fs_node" where
  "fs_lstat fs p =
     (case fs_realpath fs (path_dirname p) of
        Inl e \<Rightarrow> Inl e
      | Inr d \<Rightarrow>
          let ws = filter (\<lambda>w. w \<noteq> []) (split_on slash p)
          in if ws = [] then Inr FsDir
             else (case fs d of
                     Some (FsFile c) \<Rightarrow> Inl ENOTDIR
                   | _ \<Rightarrow> (case fs (d @ [last ws]) of None \<Rightarrow> Inl ENOENT | Some nd \<Rightarrow> Inr nd)))"

subsection \<open>Workspace roots\<close>

definition validateWorkspacePath :: "string list \<Rightarrow> fs \<Rightarrow> string \<Rightarrow> string \<Rightarrow> bool" where
  "validateWorkspacePath bases fs cwd workspaceRoot =
     (let r = path_resolve cwd workspaceRoot
      in (\<exists>b\<in>set bases. r = b \<or> starts_with (b @ ''/'') r) \<and> (case fs_realpath fs r of Inr _ \<Rightarrow> True | Inl _ \<Rightarrow> False))"

datatype domain_error = OutsideBases | IsBase | EmptyDomain

definition extractDomainFromWorkspace :: "string list \<Rightarrow> string \<Rightarrow> string \<Rightarrow> domain_error + string" where
  "extractDomainFromWorkspace bases cwd workspaceRoot =
     (let r = path_resolve cwd workspaceRoot
      in case find (\<lambda>b. r = b \<or> starts_with (b @ ''/'') r) bases of
           None \<Rightarrow> Inl OutsideBases
         | Some b \<Rightarrow>
             (let rel = drop (length b + 1) r
              in if rel = [] then Inl IsBase
                 else let d = hd (split_on slash rel) in if d = [] then Inl EmptyDomain else Inr d))"

subsection \<open>Path checks\<close>

datatype tool_failure = EmptyPath | OutsideWorkspace | SymlinkEscapes | NotAFile | OsFailure errno
  | Identical | OldStringNotFound | Ambiguous int

definition resolveWorkspacePath :: "string \<Rightarrow> string \<Rightarrow> tool_failure + string" where
  "resolveWorkspacePath inputPath workspaceRoot =
     (let trimmed = trim inputPath
      in if trimmed = [] then Inl EmptyPath
         else let resolvedPath = path_resolve workspaceRoot trimmed
              in if \<not> isPathWithinWorkspace resolvedPath workspaceRoot then Inl OutsideWorkspace else Inr resolvedPath)"

definition assertExistingFilePath :: "fs \<Rightarrow> string \<Rightarrow> string \<Rightarrow> tool_failure + string list" where
  "assertExistingFilePath fs inputPath workspaceRoot =
     (case resolveWorkspacePath inputPath workspaceRoot of
        Inl e \<Rightarrow> Inl e
      | Inr p \<Rightarrow>
          (case fs_realpath fs p of
             Inl e \<Rightarrow> Inl (OsFailure e)
           | Inr r \<Rightarrow>
               if \<not> isPathWithinWorkspace (render_path r) workspaceRoot then Inl SymlinkEscapes
               else (case fs r of Some (FsFile c) \<Rightarrow> Inr r | _ \<Rightarrow> Inl NotAFile)))"

definition assertSearchPath :: "fs \<Rightarrow> string option \<Rightarrow> string \<Rightarrow> tool_failure + string list" where
  "assertSearchPath fs inputPath workspaceRoot =
     (let rawPath = (case inputPath of None \<Rightarrow> workspaceRoot | Some q \<Rightarrow> if trim q \<noteq> [] then q else workspaceRoot)
      in case resolveWorkspacePath rawPath workspaceRoot of
           Inl e \<Rightarrow> Inl e
         | Inr p \<Rightarrow>
             (case fs_realpath fs p of
                Inl e \<Rightarrow> Inl (OsFailure e)
              | Inr r \<Rightarrow> if \<not> isPathWithinWorkspace (render_path r) workspaceRoot then Inl SymlinkEscapes else Inr r))"

text \<open>The checks on a target that may exist; a target that does not is fine.\<close>

definition checkTarget :: "fs \<Rightarrow> string \<Rightarrow> string \<Rightarrow> tool_failure option" where
  "checkTarget fs p workspaceRoot =
     (case fs_lstat fs p of
        Inl ENOENT \<Rightarrow> None
      | Inl e \<Rightarrow> Some (OsFailure e)
      | Inr (FsLink t) \<Rightarrow>
          (case fs_realpath fs p of
             Inl e \<Rightarrow> Some SymlinkEscapes
           | Inr r \<Rightarrow> if \<not> isPathWithinWorkspace (render_path r) workspaceRoot then Some SymlinkEscapes else None)
      | Inr _ \<Rightarrow>
          (case fs_realpath fs p of
             Inl ENOENT \<Rightarrow> None
           | Inl e \<Rightarrow> Some (OsFailure e)
           | Inr r \<Rightarrow> if \<not> isPathWithinWorkspace (render_path r) workspaceRoot then Some SymlinkEscapes else None))"

definition ensureWritableFilePath :: "fs \<Rightarrow> string \<Rightarrow> string \<Rightarrow> (tool_failure + string) \<times> fs" where
  "ensureWritableFilePath fs inputPath workspaceRoot =
     (case resolveWorkspacePath inputPath workspaceRoot of
        Inl e \<Rightarrow> (Inl e, fs)
      | Inr p \<Rightarrow>
          (case fs_mkdir fs (path_dirname p) of
             (Inl e, fs1) \<Rightarrow> (Inl (OsFailure e), fs1)
           | (Inr _, fs1) \<Rightarrow>
               (case fs_realpath fs1 (path_dirname p) of
                  Inl e \<Rightarrow> (Inl (OsFailure e), fs1)
                | Inr d \<Rightarrow>
                    if \<not> isPathWithinWorkspace (render_path d) workspaceRoot then (Inl SymlinkEscapes, fs1)
                    else (case checkTarget fs1 p workspaceRoot of
                            Some e \<Rightarrow> (Inl e, fs1)
                          | None \<Rightarrow> (Inr p, fs1)))))"

subsection \<open>Reading, and replacing strings\<close>

definition READ_DEFAULT_LINES :: nat where
  "READ_DEFAULT_LINES = 2000"

definition padStart :: "nat \<Rightarrow> string \<Rightarrow> string" where
  "padStart n s = replicate (n - length s) (CHR '' '') @ s"

definition formatReadOutput :: "string \<Rightarrow> nat option \<Rightarrow> nat option \<Rightarrow> string" where
  "formatReadOutput content offset limit =
     (let lines = split_on newline content;
          startLine = (case offset of Some k \<Rightarrow> if k > 0 then k else 1 | None \<Rightarrow> 1);
          maxLines = (case limit of Some k \<Rightarrow> if k > 0 then k else READ_DEFAULT_LINES | None \<Rightarrow> READ_DEFAULT_LINES);
          startIndex = startLine - 1;
          slice = take maxLines (drop startIndex lines)
      in join_with [newline] (map (\<lambda>(i, line). padStart 6 (digits (startIndex + i + 1)) @ [CHR 0x09] @ line) (enumerate 0 slice)))"

text \<open>
  Where \<open>old\<close> occurs, from left to right and without overlaps; an empty \<open>old\<close> occurs before every
  character (and between the halves of one beyond the basic plane, which is left out) and at the end. The second argument counts the characters still inside a match.
\<close>

fun positions :: "string \<Rightarrow> nat \<Rightarrow> nat \<Rightarrow> string \<Rightarrow> nat list" where
  "positions old 0 pos [] = (if old = [] then [pos] else [])"
| "positions old (Suc k) pos [] = []"
| "positions old 0 pos (c # cs) =
     (if starts_with old (c # cs) \<and> \<not> (old = [] \<and> continues c) then pos # positions old (length old - 1) (Suc pos) cs else positions old 0 (Suc pos) cs)"
| "positions old (Suc k) pos (c # cs) = positions old k (Suc pos) cs"

text \<open>
  The replacement patterns of \<open>String.prototype.replace\<close>, which also apply when the first argument
  is a string: a dollar followed by a dollar, an ampersand, a grave accent or an apostrophe.
\<close>

fun expand :: "string \<Rightarrow> string \<Rightarrow> string \<Rightarrow> string \<Rightarrow> string" where
  "expand before m after (c # d # cs) =
     (if c \<noteq> CHR ''$'' then c # expand before m after (d # cs)
      else if d = CHR ''$'' then CHR ''$'' # expand before m after cs
      else if d = CHR ''&'' then m @ expand before m after cs
      else if d = CHR 0x60 then before @ expand before m after cs
      else if d = CHR 0x27 then after @ expand before m after cs
      else c # expand before m after (d # cs))"
| "expand before m after cs = cs"

fun assemble :: "string \<Rightarrow> string \<Rightarrow> string \<Rightarrow> nat \<Rightarrow> nat list \<Rightarrow> string" where
  "assemble old new whole handled [] = drop handled whole"
| "assemble old new whole handled (p # ps) =
     take (p - handled) (drop handled whole) @ expand (take p whole) old (drop (p + length old) whole) new @
     assemble old new whole (p + length old) ps"

definition js_replaceAll :: "string \<Rightarrow> string \<Rightarrow> string \<Rightarrow> string" where
  "js_replaceAll content old new = assemble old new content 0 (positions old 0 0 content)"

definition js_replace :: "string \<Rightarrow> string \<Rightarrow> string \<Rightarrow> string" where
  "js_replace content old new = assemble old new content 0 (take 1 (positions old 0 0 content))"

text \<open>\<open>content.split(old).length - 1\<close>; splitting at the empty string gives the characters.\<close>

definition occurrenceCount :: "string \<Rightarrow> string \<Rightarrow> int" where
  "occurrenceCount content old =
     (if old = [] then int (js_length content) - 1 else int (length (positions old 0 0 content)))"

subsection \<open>The tools\<close>

datatype tool_result = BadWorkspace | TextResult string | ErrorResult tool_failure

definition getWorkspaceRoot :: "string list \<Rightarrow> fs \<Rightarrow> string \<Rightarrow> string option" where
  "getWorkspaceRoot bases fs cwd =
     (let r = path_resolve cwd cwd in if validateWorkspacePath bases fs cwd r then Some r else None)"

definition readTool :: "string list \<Rightarrow> fs \<Rightarrow> string \<Rightarrow> string \<Rightarrow> nat option \<Rightarrow> nat option \<Rightarrow> tool_result" where
  "readTool bases fs cwd file_path offset limit =
     (case getWorkspaceRoot bases fs cwd of
        None \<Rightarrow> BadWorkspace
      | Some root \<Rightarrow>
          (case assertExistingFilePath fs file_path root of
             Inl e \<Rightarrow> ErrorResult e
           | Inr r \<Rightarrow> (case fs_readFile fs (render_path r) of
                         Inl e \<Rightarrow> ErrorResult (OsFailure e)
                       | Inr c \<Rightarrow> TextResult (formatReadOutput c offset limit))))"

definition writeTool :: "string list \<Rightarrow> fs \<Rightarrow> string \<Rightarrow> string \<Rightarrow> string \<Rightarrow> tool_result \<times> fs" where
  "writeTool bases fs cwd file_path content =
     (case getWorkspaceRoot bases fs cwd of
        None \<Rightarrow> (BadWorkspace, fs)
      | Some root \<Rightarrow>
          (case ensureWritableFilePath fs file_path root of
             (Inl e, fs1) \<Rightarrow> (ErrorResult e, fs1)
           | (Inr p, fs1) \<Rightarrow>
               (case fs_writeFile fs1 p content of
                  (Inl e, fs2) \<Rightarrow> (ErrorResult (OsFailure e), fs2)
                | (Inr _, fs2) \<Rightarrow> (TextResult (''Successfully wrote '' @ file_path), fs2))))"

definition performStringEdit :: "fs \<Rightarrow> string \<Rightarrow> string \<Rightarrow> string \<Rightarrow> bool \<Rightarrow> string \<Rightarrow> tool_result \<times> fs" where
  "performStringEdit fs filePath oldString newString replaceAll root =
     (if oldString = newString then (ErrorResult Identical, fs)
      else case assertExistingFilePath fs filePath root of
             Inl e \<Rightarrow> (ErrorResult e, fs)
           | Inr r \<Rightarrow>
               (case fs_readFile fs (render_path r) of
                  Inl e \<Rightarrow> (ErrorResult (OsFailure e), fs)
                | Inr content \<Rightarrow>
                    if \<not> str_includes oldString content then (ErrorResult OldStringNotFound, fs)
                    else if \<not> replaceAll \<and> occurrenceCount content oldString > 1
                    then (ErrorResult (Ambiguous (occurrenceCount content oldString)), fs)
                    else let updated = (if replaceAll then js_replaceAll content oldString newString
                                        else js_replace content oldString newString)
                         in case fs_writeFile fs (render_path r) updated of
                              (Inl e, fs2) \<Rightarrow> (ErrorResult (OsFailure e), fs2)
                            | (Inr _, fs2) \<Rightarrow> (TextResult (''Successfully edited '' @ filePath), fs2)))"

text \<open>Edit and NotebookEdit.\<close>

definition editTool :: "string list \<Rightarrow> fs \<Rightarrow> string \<Rightarrow> string \<Rightarrow> string \<Rightarrow> string \<Rightarrow> bool option \<Rightarrow> tool_result \<times> fs" where
  "editTool bases fs cwd file_path old_string new_string replace_all =
     (case getWorkspaceRoot bases fs cwd of
        None \<Rightarrow> (BadWorkspace, fs)
      | Some root \<Rightarrow>
          performStringEdit fs file_path old_string new_string (case replace_all of None \<Rightarrow> False | Some b \<Rightarrow> b) root)"

definition GREP_MAX_RESULTS :: nat where
  "GREP_MAX_RESULTS = 200"

definition GREP_DEFAULT_MAX_RESULTS :: nat where
  "GREP_DEFAULT_MAX_RESULTS = 50"

text \<open>The arguments of ripgrep.\<close>

definition globArgs :: "string \<Rightarrow> string \<Rightarrow> string list" where
  "globArgs pattern searchRoot = [''--files'', ''--hidden'', ''-g'', pattern, searchRoot]"

definition grepArgs :: "string \<Rightarrow> string option \<Rightarrow> nat option \<Rightarrow> string \<Rightarrow> string list" where
  "grepArgs pattern include max_results searchRoot =
     (let maxResults = min GREP_MAX_RESULTS (case max_results of None \<Rightarrow> GREP_DEFAULT_MAX_RESULTS | Some k \<Rightarrow> k)
      in [''--line-number'', ''--no-heading'', ''--color'', ''never'', ''--max-count'', digits maxResults] @
         (case include of None \<Rightarrow> [] | Some g \<Rightarrow> if g = [] then [] else [''--glob'', g]) @ [pattern, searchRoot])"

subsection \<open>Resolution leads to real paths\<close>

definition ordinary :: "string \<Rightarrow> bool" where
  "ordinary w \<longleftrightarrow> w \<noteq> [] \<and> w \<noteq> ''.'' \<and> w \<noteq> dotdot"

text \<open>Induction over a successful resolution.\<close>

lemma walk_induct [consumes 1, case_names Done Skip Up Missing Dir File Link]:
  assumes "walk create n fs acc ws = Inr r"
    and Done: "\<And>n acc. P n acc [] acc"
    and Skip: "\<And>n acc w ws r. w = [] \<or> w = ''.'' \<Longrightarrow> P n acc ws r \<Longrightarrow> P n acc (w # ws) r"
    and Up: "\<And>n acc ws r. P n (butlast acc) ws r \<Longrightarrow> P n acc (dotdot # ws) r"
    and Missing: "\<And>n acc w. ordinary w \<Longrightarrow> create \<Longrightarrow> fs (acc @ [w]) = None \<Longrightarrow> P n acc [w] (acc @ [w])"
    and Dir: "\<And>n acc w ws r. ordinary w \<Longrightarrow> fs (acc @ [w]) = Some FsDir \<Longrightarrow> P n (acc @ [w]) ws r \<Longrightarrow> P n acc (w # ws) r"
    and File: "\<And>n acc w c. ordinary w \<Longrightarrow> fs (acc @ [w]) = Some (FsFile c) \<Longrightarrow> P n acc [w] (acc @ [w])"
    and Link: "\<And>n acc w ws t r. ordinary w \<Longrightarrow> fs (acc @ [w]) = Some (FsLink t) \<Longrightarrow>
        P n (if is_absolute t then [] else acc) (split_on slash t @ ws) r \<Longrightarrow> P (Suc n) acc (w # ws) r"
  shows "P n acc ws r"
  using assms(1)
proof (induction n arbitrary: acc ws rule: less_induct)
  case (less n)
  show ?case
    using less.prems
  proof (induction ws arbitrary: acc)
    case Nil
    then show ?case using Done by simp
  next
    case (Cons w ws)
    consider "w = [] \<or> w = ''.''" | "w = dotdot" | "ordinary w" by (auto simp: ordinary_def)
    then show ?case
    proof cases
      case 1
      then show ?thesis using Cons Skip by (simp split: if_splits)
    next
      case 2
      then show ?thesis using Cons Up by simp
    next
      case 3
      then have w: "w \<noteq> []" "w \<noteq> ''.''" "w \<noteq> dotdot" by (simp_all add: ordinary_def)
      show ?thesis
      proof (cases "fs (acc @ [w])")
        case None
        then show ?thesis using Cons.prems w Missing [OF 3 _ None] by (simp split: if_splits)
      next
        case (Some nd)
        show ?thesis
        proof (cases nd)
          case FsDir
          then show ?thesis using Cons w Some Dir [OF 3] by simp
        next
          case (FsFile c)
          then have "ws = []" "r = acc @ [w]" using Cons.prems w Some by (simp_all split: if_splits)
          then show ?thesis using File [OF 3] Some FsFile by blast
        next
          case (FsLink t)
          obtain m where n: "n = Suc m" using Cons.prems w Some FsLink by (cases n) auto
          have "walk create m fs (if is_absolute t then [] else acc) (split_on slash t @ ws) = Inr r"
            using Cons.prems w Some FsLink n by simp
          then show ?thesis unfolding n using less.IH [of m] n Link [OF 3] Some FsLink by blast
        qed
      qed
    qed
  qed
qed

lemma walk_steps [simp]:
  "ordinary w \<Longrightarrow> fs (acc @ [w]) = Some FsDir \<Longrightarrow> walk create n fs acc (w # ws) = walk create n fs (acc @ [w]) ws"
  "ordinary w \<Longrightarrow> fs (acc @ [w]) = Some (FsFile c) \<Longrightarrow> walk create n fs acc (w # ws) = (if ws = [] then Inr (acc @ [w]) else Inl ENOTDIR)"
  "ordinary w \<Longrightarrow> fs (acc @ [w]) = Some (FsLink t) \<Longrightarrow> walk create (Suc n) fs acc (w # ws) =
     walk create n fs (if is_absolute t then [] else acc) (split_on slash t @ ws)"
  by (simp_all add: ordinary_def)

declare walk.simps(2) [simp del]

lemma walk_skip [simp]:
  "walk create n fs acc ([] # ws) = walk create n fs acc ws"
  "walk create n fs acc (''.'' # ws) = walk create n fs acc ws"
  "walk create n fs acc (dotdot # ws) = walk create n fs (butlast acc) ws"
  by (simp_all add: walk.simps)

lemma ordinary_clean: "ordinary w \<Longrightarrow> slash \<notin> set w \<Longrightarrow> clean_seg w"
  by (simp only: ordinary_def clean_seg_def) blast

lemma walk_clean:
  assumes "walk create n fs acc ws = Inr r" and "\<forall>w\<in>set ws. slash \<notin> set w" and "\<forall>w\<in>set acc. clean_seg w"
  shows "\<forall>w\<in>set r. clean_seg w"
  using assms
proof (induction rule: walk_induct)
  case (Up n acc ws r)
  then show ?case by (metis in_set_butlastD list.set_intros(2))
next
  case (Link n acc w ws t r)
  have "\<forall>v\<in>set (split_on slash t @ ws). slash \<notin> set v" using Link.prems(1) by (auto dest: split_on_pieces)
  moreover have "\<forall>v\<in>set (if is_absolute t then [] else acc). clean_seg v" using Link.prems(2) by simp
  ultimately show ?case by (rule Link.IH)
next
  case (Skip n acc w ws r)
  then show ?case by (meson list.set_intros(2))
next
  case (Dir n acc w ws r)
  have "clean_seg w" using Dir by (meson ordinary_clean list.set_intros(1))
  then have "\<forall>v\<in>set (acc @ [w]). clean_seg v" using Dir.prems(2) by simp
  moreover have "\<forall>v\<in>set ws. slash \<notin> set v" using Dir.prems(1) by simp
  ultimately show ?case using Dir.IH by blast
next
  case (Missing n acc w)
  have "clean_seg w" using Missing by (meson ordinary_clean list.set_intros(1))
  then show ?case using Missing.prems(2) by simp
next
  case (File n acc w c)
  have "clean_seg w" using File by (meson ordinary_clean list.set_intros(1))
  then show ?case using File.prems(2) by simp
qed simp

lemma walk_create: "walk False n fs acc ws = Inr r \<Longrightarrow> walk True n fs acc ws = Inr r"
  by (induction rule: walk_induct) auto

lemma walk_snoc:
  "walk False n fs acc xs = Inr d \<Longrightarrow>
     walk c n fs acc (xs @ [w]) = Inl ENOTDIR \<or> (\<exists>m. walk c n fs acc (xs @ [w]) = walk c m fs d [w])"
  by (induction rule: walk_induct) auto

text \<open>A real path: everything strictly above it is a directory.\<close>

definition dirs :: "fs \<Rightarrow> string list \<Rightarrow> bool" where
  "dirs fs acc \<longleftrightarrow> (\<forall>a. a \<noteq> [] \<longrightarrow> prefix a acc \<longrightarrow> fs a = Some FsDir)"

definition dirs_above :: "fs \<Rightarrow> string list \<Rightarrow> bool" where
  "dirs_above fs r \<longleftrightarrow> (\<forall>a. a \<noteq> [] \<longrightarrow> strict_prefix a r \<longrightarrow> fs a = Some FsDir)"

lemma dirs_Nil [simp]: "dirs fs []"
  by (simp add: dirs_def)

lemma dirs_snoc [simp]: "dirs fs (acc @ [w]) \<longleftrightarrow> dirs fs acc \<and> fs (acc @ [w]) = Some FsDir"
  by (auto simp: dirs_def prefix_snoc)

lemma dirs_butlast: "dirs fs acc \<Longrightarrow> dirs fs (butlast acc)"
  by (meson dirs_def prefixeq_butlast prefix_order.trans)

lemma dirs_above_snoc: "dirs fs acc \<Longrightarrow> dirs_above fs (acc @ [w])"
  by (auto simp: dirs_def dirs_above_def strict_prefix_def prefix_snoc)

lemma dirs_aboveI: "dirs fs r \<Longrightarrow> dirs_above fs r"
  by (simp add: dirs_def dirs_above_def)

lemma walk_dirs: "walk False n fs acc ws = Inr r \<Longrightarrow> dirs fs acc \<Longrightarrow> dirs_above fs r"
  by (induction rule: walk_induct) (auto simp: dirs_aboveI dirs_butlast dirs_above_snoc)

lemma walk_found:
  "walk False n fs acc ws = Inr r \<Longrightarrow> dirs fs acc \<Longrightarrow> r = [] \<or> fs r = Some FsDir \<or> (\<exists>c. fs r = Some (FsFile c))"
proof (induction rule: walk_induct)
  case (Done n acc)
  then show ?case by (cases "acc = []") (auto simp: dirs_def)
qed (auto simp: dirs_butlast)

text \<open>Resolving a real path gives it back.\<close>

lemma walk_real:
  assumes "dirs_above fs (acc @ ws)" and "\<forall>w\<in>set ws. clean_seg w"
    and "ws = [] \<or> fs (acc @ ws) = Some FsDir \<or> (\<exists>c. fs (acc @ ws) = Some (FsFile c))"
  shows "walk create n fs acc ws = Inr (acc @ ws)"
  using assms
proof (induction ws arbitrary: acc)
  case (Cons w ws)
  have w: "ordinary w" using Cons.prems(2) by (simp add: clean_seg_def ordinary_def)
  show ?case
  proof (cases "ws = []")
    case True
    then show ?thesis using Cons.prems w by auto
  next
    case False
    then have "strict_prefix (acc @ [w]) (acc @ w # ws)" by (simp add: strict_prefix_def prefix_def)
    then have "fs (acc @ [w]) = Some FsDir" using Cons.prems(1) by (simp add: dirs_above_def)
    then show ?thesis using w Cons.IH [of "acc @ [w]"] Cons.prems by simp
  qed
qed simp

lemma split_render:
  assumes "\<forall>w\<in>set xs. clean_seg w"
  shows "split_on slash (render_path xs) = [] # (if xs = [] then [[]] else xs)"
  using assms split_on_join [of xs] by (auto simp: render_path_def clean_seg_def)

lemma walk_render:
  assumes "\<forall>w\<in>set xs. clean_seg w"
  shows "walk c n fs [] (split_on slash (render_path xs)) = walk c n fs [] xs"
  by (simp add: split_render [OF assms])

lemma dirname_render:
  assumes "\<forall>w\<in>set xs. clean_seg w"
  shows "path_dirname (render_path xs) = render_path (butlast xs)"
proof -
  have "filter (\<lambda>w. w \<noteq> []) xs = xs" using assms by (auto simp: filter_id_conv clean_seg_def)
  then show ?thesis by (simp add: path_dirname_def split_render [OF assms])
qed

lemma realpath_clean: "fs_realpath fs p = Inr r \<Longrightarrow> \<forall>w\<in>set r. clean_seg w"
  unfolding fs_realpath_def by (erule walk_clean) (auto dest: split_on_pieces)

lemma realpath_again:
  assumes "fs_realpath fs p = Inr r" and "fs r = Some (FsFile c)"
  shows "walk create MAX_LINKS fs [] (split_on slash (render_path r)) = Inr r"
proof -
  have "dirs_above fs r" using assms(1) unfolding fs_realpath_def by (rule walk_dirs) simp
  then show ?thesis
    using walk_real [of fs "[]" r create MAX_LINKS] realpath_clean [OF assms(1)] assms(2)
    by (simp add: walk_render)
qed

lemma mkdir_walk_adds:
  assumes "mkdir_walk n fs acc ws = (res, fs')" and "fs' q \<noteq> fs q"
  shows "fs q = None \<and> fs' q = Some FsDir"
  using assms
proof (induction n fs acc ws rule: mkdir_walk.induct)
  case (2 n fs acc w ws)
  note prems = "2.prems"
  show ?case
  proof (cases "w = [] \<or> w = ''.'' \<or> w = dotdot")
    case True
    then show ?thesis using "2.IH"(1,2) prems by (auto split: if_splits)
  next
    case w: False
    show ?thesis
    proof (cases "fs (acc @ [w])")
      case None
      then have r: "mkdir_walk n (fs(acc @ [w] \<mapsto> FsDir)) (acc @ [w]) ws = (res, fs')" using prems w by simp
      show ?thesis
      proof (cases "fs' q = (fs(acc @ [w] \<mapsto> FsDir)) q")
        case True
        then show ?thesis using prems(2) None by (auto split: if_splits)
      next
        case False
        then show ?thesis using "2.IH"(3) [OF _ _ None r] w by (auto split: if_splits)
      qed
    next
      case (Some nd)
      show ?thesis
      proof (cases nd)
        case FsDir
        then show ?thesis using "2.IH"(4) [OF _ _ Some FsDir] prems w Some by simp
      next
        case (FsFile c)
        then show ?thesis using prems w Some by simp
      next
        case (FsLink t)
        show ?thesis
        proof (cases n)
          case 0
          then show ?thesis using prems w Some FsLink by simp
        next
          case (Suc m)
          show ?thesis
          proof (cases "walk False m fs (if is_absolute t then [] else acc) (split_on slash t)")
            case (Inl e)
            then show ?thesis using prems w Some FsLink Suc by simp
          next
            case (Inr d)
            show ?thesis
              using "2.IH"(5) [OF _ _ Some FsLink Suc Inr] prems w Some FsLink Suc Inr by (cases "is_file fs d") simp_all
          qed
        qed
      qed
    qed
  qed
qed simp

lemma mkdir_adds: "fs_mkdir fs p = (res, fs') \<Longrightarrow> fs' q \<noteq> fs q \<Longrightarrow> fs q = None \<and> fs' q = Some FsDir"
  unfolding fs_mkdir_def by (rule mkdir_walk_adds)

subsection \<open>Writes stay inside\<close>

lemma walk_last:
  "ordinary w \<Longrightarrow> walk True n fs d [w] = Inr r \<Longrightarrow> (\<forall>t. fs (d @ [w]) \<noteq> Some (FsLink t)) \<Longrightarrow> r = d @ [w]"
  by (auto simp: walk.simps(2) ordinary_def split: if_splits option.splits fs_node.splits)

text \<open>The path a write is allowed on leads, when it leads anywhere, to a file of the workspace.\<close>

lemma checked_target_inside:
  assumes xs: "\<forall>w\<in>set xs. clean_seg w" and root: "\<forall>w\<in>set root. clean_seg w"
    and d: "fs_realpath fs (path_dirname (render_path xs)) = Inr d" and inside: "prefix root d"
    and ok: "checkTarget fs (render_path xs) (render_path root) = None"
    and r: "walk True MAX_LINKS fs [] (split_on slash (render_path xs)) = Inr r" and ne: "r \<noteq> []"
  shows "prefix root r"
proof (cases xs rule: rev_cases)
  case Nil
  then have "r = []" using r by (simp add: walk_render)
  then show ?thesis using ne by simp
next
  case (snoc ys w)
  have w: "ordinary w" using xs snoc by (simp add: ordinary_def clean_seg_def)
  have ys: "\<forall>w\<in>set ys. clean_seg w" using xs snoc by simp
  have wd: "walk False MAX_LINKS fs [] ys = Inr d"
    using d ys unfolding dirname_render [OF xs] by (simp add: snoc fs_realpath_def walk_render)
  have wr: "walk True MAX_LINKS fs [] (ys @ [w]) = Inr r" using r xs by (simp add: walk_render snoc)
  have ws: "filter (\<lambda>w. w \<noteq> []) (split_on slash (render_path xs)) = ys @ [w]"
  proof -
    have "filter (\<lambda>w. w \<noteq> []) xs = xs" using xs by (auto simp: filter_id_conv clean_seg_def)
    then show ?thesis unfolding split_render [OF xs] using snoc by simp
  qed
  show ?thesis
  proof (cases "\<exists>t. fs (d @ [w]) = Some (FsLink t)")
    case False
    obtain m where "walk True m fs d [w] = Inr r" using walk_snoc [OF wd, of True w] wr by auto
    then have "r = d @ [w]" using walk_last [OF w] False by blast
    then show ?thesis using inside by simp
  next
    case True
    then obtain t where t: "fs (d @ [w]) = Some (FsLink t)" by blast
    have st: "fs_lstat fs (render_path xs) = Inr (FsLink t) \<or> fs_lstat fs (render_path xs) = Inl ENOTDIR"
      using t by (simp add: fs_lstat_def d ws Let_def split: option.splits fs_node.splits)
    then obtain r' where r': "fs_realpath fs (render_path xs) = Inr r'"
        and in': "isPathWithinWorkspace (render_path r') (render_path root)"
      using ok by (auto simp: checkTarget_def split: sum.splits if_splits)
    have "r' = r" using walk_create [OF r' [unfolded fs_realpath_def]] r by simp
    then show ?thesis using in' realpath_clean [OF r'] root by (simp add: within_render)
  qed
qed

lemma getWorkspaceRoot_is: "getWorkspaceRoot bases fs cwd = Some root \<Longrightarrow> root = render_path (resolve_segs cwd cwd)"
  by (simp add: getWorkspaceRoot_def Let_def path_resolve_def split: if_splits)

lemma resolveWorkspacePath_is:
  "resolveWorkspacePath p root = Inr q \<Longrightarrow> q = render_path (resolve_segs root (trim p))"
  by (simp add: resolveWorkspacePath_def Let_def path_resolve_def split: if_splits)

lemma resolve_segs_all_clean [simp]: "\<forall>w\<in>set (resolve_segs cwd p). clean_seg w"
  by (auto dest: resolve_segs_clean)

lemma ensureWritable_adds:
  "ensureWritableFilePath fs p root = (res, fs1) \<Longrightarrow> fs1 q \<noteq> fs q \<Longrightarrow> fs q = None \<and> fs1 q = Some FsDir"
  by (auto simp: ensureWritableFilePath_def split: sum.splits prod.splits if_splits option.splits dest: mkdir_adds)

lemma ensureWritable_target:
  assumes "ensureWritableFilePath fs p (render_path rs) = (Inr q, fs1)" and "\<forall>w\<in>set rs. clean_seg w"
    and "walk True MAX_LINKS fs1 [] (split_on slash q) = Inr r" and "r \<noteq> []"
  shows "prefix rs r"
proof -
  obtain d where q: "resolveWorkspacePath p (render_path rs) = Inr q"
      and d: "fs_realpath fs1 (path_dirname q) = Inr d"
      and inside: "isPathWithinWorkspace (render_path d) (render_path rs)"
      and ok: "checkTarget fs1 q (render_path rs) = None"
    using assms(1) by (auto simp: ensureWritableFilePath_def split: sum.splits prod.splits if_splits option.splits)
  have "prefix rs d" using inside realpath_clean [OF d] assms(2) by (simp add: within_render)
  then show ?thesis
    using checked_target_inside [of "resolve_segs (render_path rs) (trim p)" rs fs1 d r]
      resolveWorkspacePath_is [OF q] d ok assms by simp
qed

text \<open>
  C11. The Write tool keeps file contents inside the workspace: whatever the path and whatever
  symbolic links the workspace holds, the only entries a call changes are missing directories it
  creates and a file at or below the workspace root, which then has the content given.
\<close>

theorem write_stays_inside:
  assumes "writeTool bases fs cwd path content = (res, fs')" and "fs' q \<noteq> fs q"
  shows "(fs q = None \<and> fs' q = Some FsDir) \<or> (prefix (resolve_segs cwd cwd) q \<and> fs' q = Some (FsFile content))"
proof -
  let ?rs = "resolve_segs cwd cwd"
  have root: "getWorkspaceRoot bases fs cwd = Some (render_path ?rs)"
    using assms getWorkspaceRoot_is [of bases fs cwd] by (cases "getWorkspaceRoot bases fs cwd") (auto simp: writeTool_def)
  obtain ep fs1 where ep: "ensureWritableFilePath fs path (render_path ?rs) = (ep, fs1)" by fastforce
  show ?thesis
  proof (cases ep)
    case (Inl e)
    then show ?thesis using assms root ep ensureWritable_adds [OF ep] by (simp add: writeTool_def)
  next
    case (Inr t)
    consider "fs' = fs1" | r where "walk True MAX_LINKS fs1 [] (split_on slash t) = Inr r" "r \<noteq> []" "fs' = fs1(r \<mapsto> FsFile content)"
      using assms(1) root ep Inr by (auto simp: writeTool_def fs_writeFile_def split: sum.splits if_splits)
    then show ?thesis
    proof cases
      case 1
      then show ?thesis using assms(2) ensureWritable_adds [OF ep] by simp
    next
      case 2
      have "prefix ?rs r" using ensureWritable_target ep Inr 2(1,2) by (metis resolve_segs_all_clean)
      then show ?thesis using 2(3) assms(2) ensureWritable_adds [OF ep, of q] by (auto split: if_splits)
    qed
  qed
qed

subsection \<open>Edits are exact\<close>

lemma assertExisting_inside:
  assumes "assertExistingFilePath fs p (render_path rs) = Inr r" and "\<forall>w\<in>set rs. clean_seg w"
  shows "prefix rs r" and "\<exists>c. fs r = Some (FsFile c)"
    and "walk create MAX_LINKS fs [] (split_on slash (render_path r)) = Inr r"
proof -
  obtain q where q: "resolveWorkspacePath p (render_path rs) = Inr q"
    using assms(1) by (cases "resolveWorkspacePath p (render_path rs)") (simp_all add: assertExistingFilePath_def)
  obtain r' where r': "fs_realpath fs q = Inr r'"
    using assms(1) q by (cases "fs_realpath fs q") (simp_all add: assertExistingFilePath_def)
  have in': "isPathWithinWorkspace (render_path r') (render_path rs)"
    using assms(1) q r' by (simp add: assertExistingFilePath_def split: if_splits)
  obtain c where c': "fs r' = Some (FsFile c)" and rr: "r' = r"
    using assms(1) q r' in' by (simp add: assertExistingFilePath_def split: option.splits fs_node.splits)
  note q = r' [unfolded rr] and c = c' [unfolded rr] and in_root = in' [unfolded rr]
  show "prefix rs r" using in_root realpath_clean [OF q] assms(2) by (simp add: within_render)
  show "\<exists>c. fs r = Some (FsFile c)" using c by blast
  show "walk create MAX_LINKS fs [] (split_on slash (render_path r)) = Inr r" using realpath_again [OF q c] .
qed

lemma str_includes_iff: "str_includes p s \<longleftrightarrow> (\<exists>a b. s = a @ p @ b)"
proof (induction s)
  case (Cons c cs)
  have "(\<exists>b. c # cs = p @ b) \<or> (\<exists>a b. cs = a @ p @ b)" if "c # cs = a @ p @ b" for a b
    using that by (cases a) auto
  moreover have "\<exists>a' b'. c # cs = a' @ p @ b'" if "cs = a @ p @ b" for a b
    using that by (intro exI [of _ "c # a"] exI [of _ b]) simp
  moreover have "\<exists>a' b'. c # cs = a' @ p @ b'" if "c # cs = p @ b" for b
    using that by (intro exI [of _ "[]"] exI [of _ b]) simp
  ultimately show ?case unfolding str_includes.simps Cons.IH starts_with_iff by blast
qed simp

lemma positions_Nil_iff: "old \<noteq> [] \<Longrightarrow> positions old 0 pos s = [] \<longleftrightarrow> \<not> str_includes old s"
  by (induction s arbitrary: pos) (auto simp: starts_with_def)

lemma positions_skip: "k \<le> length s \<Longrightarrow> positions old k pos s = positions old 0 (pos + k) (drop k s)"
proof (induction k arbitrary: pos s)
  case (Suc k)
  then show ?case by (cases s) auto
qed simp

text \<open>The first occurrence, and what is left to search after it.\<close>

lemma positions_first:
  assumes "old \<noteq> []" and "positions old 0 pos s = p # ps"
  shows "\<exists>a b. s = a @ old @ b \<and> p = pos + length a \<and> ps = positions old 0 (p + length old) b
    \<and> \<not> str_includes old (a @ butlast old)"
  using assms(2)
proof (induction s arbitrary: pos)
  case Nil
  then show ?case using assms(1) by simp
next
  case (Cons c cs)
  show ?case
  proof (cases "starts_with old (c # cs)")
    case True
    then obtain b where b: "c # cs = old @ b" by (auto simp: starts_with_iff)
    then have l: "length old - 1 \<le> length cs" "drop (length old - 1) cs = b" "Suc (length old - 1) = length old"
      using assms(1) by (cases old; auto)+
    have "p = pos" "ps = positions old (length old - 1) (Suc pos) cs" using Cons.prems True assms(1) by auto
    moreover from this have "ps = positions old 0 (pos + length old) b"
      using positions_skip [OF l(1), of old "Suc pos"] l(2,3) assms(1) by (cases old) auto
    moreover have "\<not> str_includes old (butlast old)"
    proof
      assume "str_includes old (butlast old)"
      then obtain u v where "butlast old = u @ old @ v" by (auto simp: str_includes_iff)
      then have "length (butlast old) = length u + length old + length v" by simp
      moreover have "length old > 0" using assms(1) by simp
      ultimately show False unfolding length_butlast by linarith
    qed
    ultimately show ?thesis using b by (intro exI [of _ "[]"] exI [of _ b]) simp
  next
    case False
    then have "positions old 0 (Suc pos) cs = p # ps" using Cons.prems by simp
    then obtain a b where ab: "cs = a @ old @ b" "p = Suc pos + length a" "ps = positions old 0 (p + length old) b"
        "\<not> str_includes old (a @ butlast old)" using Cons.IH by blast
    have "\<not> starts_with old ((c # a) @ butlast old)"
    proof
      assume "starts_with old ((c # a) @ butlast old)"
      then obtain t where "(c # a) @ butlast old = old @ t" by (auto simp: starts_with_iff)
      then have "starts_with old (((c # a) @ butlast old) @ [last old] @ b)" by (simp add: starts_with_iff)
      moreover have "((c # a) @ butlast old) @ [last old] @ b = c # cs" using ab(1) assms(1) by simp
      ultimately show False using False by simp
    qed
    then show ?thesis using ab by (intro exI [of _ "c # a"] exI [of _ b]) simp
  qed
qed

lemma expand_plain: "CHR ''$'' \<notin> set new \<Longrightarrow> expand b m a new = new"
  by (induction b m a new rule: expand.induct) auto

lemma js_replace_once:
  assumes "old \<noteq> []" and "str_includes old content" and "occurrenceCount content old \<le> 1" and "CHR ''$'' \<notin> set new"
  shows "\<exists>a b. content = a @ old @ b \<and> js_replace content old new = a @ new @ b
    \<and> \<not> str_includes old (a @ butlast old) \<and> \<not> str_includes old b"
proof -
  obtain p ps where pos: "positions old 0 0 content = p # ps"
    using positions_Nil_iff [OF assms(1), of 0 content] assms(2) by (cases "positions old 0 0 content") auto
  then have "ps = []" using assms(1,3) by (simp add: occurrenceCount_def)
  then obtain a b where ab: "content = a @ old @ b" "p = length a" "positions old 0 (p + length old) b = []"
      "\<not> str_includes old (a @ butlast old)"
    using positions_first [OF assms(1) pos] by auto
  have "js_replace content old new = a @ new @ b"
    using pos ab(1,2) by (simp add: js_replace_def expand_plain [OF assms(4)])
  then show ?thesis using ab positions_Nil_iff [OF assms(1)] by blast
qed

lemma readFile_real:
  assumes "walk False MAX_LINKS fs [] (split_on slash (render_path r)) = Inr r" and "fs r = Some (FsFile c)"
  shows "fs_readFile fs (render_path r) = Inr (utf8_text c)"
  using assms by (simp add: fs_readFile_def fs_realpath_def)

text \<open>
  C20. The Edit tool without \<open>replace_all\<close>, with a non-empty old string and a new string free of
  dollars: either it reports an error and changes nothing, or it rewrites one existing file at or below
  the workspace root. It writes the text of the file (its bytes decoded as UTF-8) with the old string
  replaced at its first place; after that place the old string does not occur again, though an
  occurrence that overlaps it may. Symbolic links never lead it outside.
\<close>

theorem edit_exact:
  assumes "editTool bases fs cwd path old new replace_all = (res, fs')"
    and "replace_all \<noteq> Some True" and "old \<noteq> []" and "CHR ''$'' \<notin> set new"
  shows "((\<exists>e. res = BadWorkspace \<or> res = ErrorResult e) \<and> fs' = fs) \<or>
    (\<exists>r c a b. res = TextResult (''Successfully edited '' @ path) \<and> prefix (resolve_segs cwd cwd) r \<and>
       fs r = Some (FsFile c) \<and> utf8_text c = a @ old @ b \<and> fs' = fs(r \<mapsto> FsFile (a @ new @ b)) \<and>
       \<not> str_includes old (a @ butlast old) \<and> \<not> str_includes old b)"
proof (cases "\<exists>e. res = BadWorkspace \<or> res = ErrorResult e")
  case True
  then have "fs' = fs"
    using assms(1) by (auto simp: editTool_def performStringEdit_def fs_writeFile_def Let_def
        split: option.splits sum.splits if_splits)
  then show ?thesis using True by simp
next
  case err: False
  let ?rs = "resolve_segs cwd cwd"
  have root: "getWorkspaceRoot bases fs cwd = Some (render_path ?rs)"
    using assms(1) err getWorkspaceRoot_is [of bases fs cwd]
    by (cases "getWorkspaceRoot bases fs cwd") (auto simp: editTool_def)
  have ra: "(case replace_all of None \<Rightarrow> False | Some b \<Rightarrow> b) = False"
    using assms(2) by (cases replace_all) auto
  have ed: "performStringEdit fs path old new False (render_path ?rs) = (res, fs')"
    using assms(1) unfolding editTool_def root option.case ra .
  obtain r where r: "assertExistingFilePath fs path (render_path ?rs) = Inr r"
    using ed err by (cases "assertExistingFilePath fs path (render_path ?rs)") (auto simp: performStringEdit_def split: if_splits)
  note real = assertExisting_inside [OF r resolve_segs_all_clean]
  obtain c0 where c0: "fs r = Some (FsFile c0)" using real(2) by blast
  define c where "c = utf8_text c0"
  note rd = readFile_real [OF real(3) c0, folded c_def]
  have wr: "fs_writeFile fs (render_path r) s = (Inr (), fs(r \<mapsto> FsFile s)) \<or>
      (\<exists>e. fs_writeFile fs (render_path r) s = (Inl e, fs))" for s
    using real(3) by (simp add: fs_writeFile_def)
  have inc: "str_includes old c" "occurrenceCount c old \<le> 1"
    using ed err r rd by (auto simp: performStringEdit_def split: if_splits)
  have "fs_writeFile fs (render_path r) (js_replace c old new) = (Inr (), fs(r \<mapsto> FsFile (js_replace c old new)))
      \<and> res = TextResult (''Successfully edited '' @ path) \<and> fs' = fs(r \<mapsto> FsFile (js_replace c old new))"
    using ed err r rd inc wr [of "js_replace c old new"]
    by (auto simp: performStringEdit_def Let_def split: if_splits)
  moreover obtain a b where "c = a @ old @ b" "js_replace c old new = a @ new @ b"
      "\<not> str_includes old (a @ butlast old)" "\<not> str_includes old b"
    using js_replace_once [OF assms(3) inc assms(4)] by blast
  ultimately show ?thesis using real(1) c0 by (intro disjI2 exI [of _ r] exI [of _ c0] exI [of _ a] exI [of _ b]) (simp add: c_def)
qed

text \<open>A workspace with a link to a directory outside it.\<close>

definition sample_fs :: fs where
  "sample_fs = [[''srv''] \<mapsto> FsDir, [''srv'', ''s''] \<mapsto> FsDir, [''srv'', ''s'', ''x''] \<mapsto> FsFile ''a=1'',
     [''srv'', ''s'', ''l''] \<mapsto> FsLink ''/etc'', [''etc''] \<mapsto> FsDir]"

theorem edit_exact_witness:
  "\<exists>r c a b. prefix (resolve_segs ''/srv/s'' ''/srv/s'') r \<and> sample_fs r = Some (FsFile c) \<and>
     utf8_text c = a @ ''=1'' @ b \<and> \<not> str_includes ''=1'' b"
proof -
  have "fst (editTool [''/srv''] sample_fs ''/srv/s'' ''x'' ''=1'' ''=2'' None) = TextResult ''Successfully edited x''"
    by code_simp
  then obtain fs' where run: "editTool [''/srv''] sample_fs ''/srv/s'' ''x'' ''=1'' ''=2'' None = (TextResult ''Successfully edited x'', fs')"
    by (metis prod.collapse)
  have "((\<exists>e. TextResult ''Successfully edited x'' = BadWorkspace \<or> TextResult ''Successfully edited x'' = ErrorResult e) \<and> fs' = sample_fs) \<or>
    (\<exists>r c a b. TextResult ''Successfully edited x'' = TextResult (''Successfully edited '' @ ''x'') \<and>
       prefix (resolve_segs ''/srv/s'' ''/srv/s'') r \<and> sample_fs r = Some (FsFile c) \<and> utf8_text c = a @ ''=1'' @ b \<and>
       fs' = sample_fs(r \<mapsto> FsFile (a @ ''=2'' @ b)) \<and> \<not> str_includes ''=1'' (a @ butlast ''=1'') \<and> \<not> str_includes ''=1'' b)"
    by (rule edit_exact [OF run]) simp_all
  then show ?thesis by blast
qed

theorem write_stays_inside_witness:
  "snd (writeTool [''/srv''] sample_fs ''/srv/s'' ''y'' ''c'') [''srv'', ''s'', ''y''] = Some (FsFile ''c'') \<and>
   prefix (resolve_segs ''/srv/s'' ''/srv/s'') [''srv'', ''s'', ''y'']"
proof -
  have run: "writeTool [''/srv''] sample_fs ''/srv/s'' ''y'' ''c'' =
      (fst (writeTool [''/srv''] sample_fs ''/srv/s'' ''y'' ''c''), snd (writeTool [''/srv''] sample_fs ''/srv/s'' ''y'' ''c''))"
    by simp
  have new: "snd (writeTool [''/srv''] sample_fs ''/srv/s'' ''y'' ''c'') [''srv'', ''s'', ''y''] = Some (FsFile ''c'')"
    by code_simp
  have old: "sample_fs [''srv'', ''s'', ''y''] = None" by code_simp
  show ?thesis using write_stays_inside [OF run, of "[''srv'', ''s'', ''y'']"] new old by simp
qed

text \<open>
  A write through a link to a directory outside is refused, but the missing directories of its path
  have been made outside by then: \<open>mkdir\<close> runs before the real path is checked.
\<close>

lemma refused_write_makes_directories:
  "fst (writeTool [''/srv''] sample_fs ''/srv/s'' ''l/evil/x'' ''c'') = ErrorResult SymlinkEscapes \<and>
   sample_fs [''etc'', ''evil''] = None \<and>
   snd (writeTool [''/srv''] sample_fs ''/srv/s'' ''l/evil/x'' ''c'') [''etc'', ''evil''] = Some FsDir"
  by (intro conjI) code_simp+

text \<open>Dollar patterns of the new string are expanded, so a literal replacement is not inserted as given.\<close>

lemma dollar_patterns_expanded:
  "snd (editTool [''/srv''] sample_fs ''/srv/s'' ''x'' ''=1'' ''=$$5'' None) [''srv'', ''s'', ''x''] = Some (FsFile ''a=$5'')"
  by code_simp

text \<open>A pattern that starts with a dash stands where ripgrep reads options.\<close>

lemma grep_pattern_as_option:
  "grepArgs ''--pre=sh'' None None root =
     [''--line-number'', ''--no-heading'', ''--color'', ''never'', ''--max-count'', ''50'', ''--pre=sh'', root]"
proof -
  have "digits 50 = ''50''" by code_simp
  then show ?thesis by (simp add: grepArgs_def GREP_MAX_RESULTS_def GREP_DEFAULT_MAX_RESULTS_def)
qed

text \<open>
  The Read tool shows only files of the workspace: text it returns is the numbered rendering of a
  file at or below the workspace root, and a path that leads elsewhere is an error.
\<close>

theorem read_stays_inside:
  assumes "readTool bases fs cwd path offset limit = TextResult t"
  shows "\<exists>r c. prefix (resolve_segs cwd cwd) r \<and> fs r = Some (FsFile c) \<and> t = formatReadOutput (utf8_text c) offset limit"
proof -
  let ?rs = "resolve_segs cwd cwd"
  have root: "getWorkspaceRoot bases fs cwd = Some (render_path ?rs)"
    using assms getWorkspaceRoot_is [of bases fs cwd] by (cases "getWorkspaceRoot bases fs cwd") (auto simp: readTool_def)
  obtain r where r: "assertExistingFilePath fs path (render_path ?rs) = Inr r"
    using assms root by (cases "assertExistingFilePath fs path (render_path ?rs)") (auto simp: readTool_def)
  note real = assertExisting_inside [OF r resolve_segs_all_clean]
  obtain c where c: "fs r = Some (FsFile c)" using real(2) by blast
  have "t = formatReadOutput (utf8_text c) offset limit"
    using assms root r readFile_real [OF real(3) c] by (simp add: readTool_def)
  then show ?thesis using real(1) c by blast
qed

theorem read_stays_inside_witness:
  "\<exists>r c. prefix (resolve_segs ''/srv/s'' ''/srv/s'') r \<and> sample_fs r = Some (FsFile c) \<and>
     ''     1'' @ [CHR 0x09] @ ''a=1'' = formatReadOutput (utf8_text c) None None"
proof -
  have "readTool [''/srv''] sample_fs ''/srv/s'' ''x'' None None = TextResult (''     1'' @ [CHR 0x09] @ ''a=1'')"
    by code_simp
  then show ?thesis by (rule read_stays_inside)
qed

end
