(* ===== verification/McpProviders.thy ===== *)
theory McpProviders
  imports Prelude
begin

section \<open>The registry of MCP providers\<close>

text \<open>
  \<open>packages/shared/src/mcp-providers.ts\<close>: the OAuth providers with an MCP server, the providers that
  only store tokens, the servers open to all users, and the lookups by key or by tool name. The
  operator \<open>in\<close> of JavaScript also finds the members every object inherits.
\<close>

record oauth_provider =
  mp_friendlyName :: string
  mp_description :: string
  mp_defaultScopes :: string
  mp_envPrefix :: string
  mp_supportsPat :: "bool option"
  mp_supportsOAuth :: "bool option"

record mcp_provider = oauth_provider +
  mp_url :: string
  mp_oauthKey :: string
  mp_knownTools :: "string list"

definition stripe_provider :: mcp_provider where
  "stripe_provider = \<lparr>mp_friendlyName = ''Stripe'', mp_description = ''View customers, invoices, and payments'',
     mp_defaultScopes = ''read_write'',
     mp_envPrefix = ''STRIPE'', mp_supportsPat = None, mp_supportsOAuth = None,
     mp_url = ''https://mcp.stripe.com'', mp_oauthKey = ''stripe'', mp_knownTools = [
     ''mcp__stripe__get_stripe_account_info'', ''mcp__stripe__retrieve_balance'',
     ''mcp__stripe__create_coupon'', ''mcp__stripe__list_coupons'', ''mcp__stripe__create_customer'',
     ''mcp__stripe__list_customers'', ''mcp__stripe__list_disputes'', ''mcp__stripe__update_dispute'',
     ''mcp__stripe__create_invoice'', ''mcp__stripe__create_invoice_item'',
     ''mcp__stripe__finalize_invoice'', ''mcp__stripe__list_invoices'',
     ''mcp__stripe__create_payment_link'', ''mcp__stripe__list_payment_intents'',
     ''mcp__stripe__create_price'', ''mcp__stripe__list_prices'', ''mcp__stripe__create_product'',
     ''mcp__stripe__list_products'', ''mcp__stripe__create_refund'',
     ''mcp__stripe__cancel_subscription'', ''mcp__stripe__list_subscriptions'',
     ''mcp__stripe__update_subscription'', ''mcp__stripe__search_stripe_resources'',
     ''mcp__stripe__fetch_stripe_resources'', ''mcp__stripe__search_stripe_documentation'']\<rparr>"

definition linear_provider :: mcp_provider where
  "linear_provider = \<lparr>mp_friendlyName = ''Linear'', mp_description = ''Create and manage issues from chat'',
     mp_defaultScopes = ''read,write,issues:create'',
     mp_envPrefix = ''LINEAR'', mp_supportsPat = None, mp_supportsOAuth = None,
     mp_url = ''https://mcp.linear.app/mcp'', mp_oauthKey = ''linear'', mp_knownTools = [
     ''mcp__linear__list_comments'', ''mcp__linear__create_comment'', ''mcp__linear__list_cycles'',
     ''mcp__linear__get_document'', ''mcp__linear__list_documents'', ''mcp__linear__get_issue'',
     ''mcp__linear__list_issues'', ''mcp__linear__create_issue'', ''mcp__linear__update_issue'',
     ''mcp__linear__list_issue_statuses'', ''mcp__linear__get_issue_status'',
     ''mcp__linear__list_issue_labels'', ''mcp__linear__create_issue_label'',
     ''mcp__linear__list_projects'', ''mcp__linear__get_project'', ''mcp__linear__create_project'',
     ''mcp__linear__update_project'', ''mcp__linear__list_project_labels'', ''mcp__linear__list_teams'',
     ''mcp__linear__get_team'', ''mcp__linear__list_users'', ''mcp__linear__get_user'',
     ''mcp__linear__search_documentation'']\<rparr>"

definition gmail_provider :: mcp_provider where
  "gmail_provider = \<lparr>mp_friendlyName = ''Gmail'', mp_description = ''Search, read, and compose emails'',
     mp_defaultScopes = join_with '' '' [''https://www.googleapis.com/auth/gmail.modify'',
       ''https://www.googleapis.com/auth/userinfo.profile'',
       ''https://www.googleapis.com/auth/userinfo.email''],
     mp_envPrefix = ''GOOGLE'', mp_supportsPat = None, mp_supportsOAuth = None,
     mp_url = ''http://localhost:8085/mcp'', mp_oauthKey = ''google'', mp_knownTools = [
     ''mcp__gmail__get_profile'', ''mcp__gmail__compose_email'', ''mcp__gmail__search_emails'',
     ''mcp__gmail__get_email'', ''mcp__gmail__list_labels'', ''mcp__gmail__add_label'',
     ''mcp__gmail__remove_label'', ''mcp__gmail__archive_email'', ''mcp__gmail__mark_as_read'',
     ''mcp__gmail__mark_as_unread'', ''mcp__gmail__trash_email'']\<rparr>"

definition google_calendar_provider :: mcp_provider where
  "google_calendar_provider = \<lparr>mp_friendlyName = ''Google Calendar'', mp_description = ''View events and check availability'',
     mp_defaultScopes = join_with '' '' [''https://www.googleapis.com/auth/calendar.events'',
       ''https://www.googleapis.com/auth/calendar.calendarlist.readonly'',
       ''https://www.googleapis.com/auth/userinfo.email''],
     mp_envPrefix = ''GOOGLE'', mp_supportsPat = None, mp_supportsOAuth = None,
     mp_url = ''http://localhost:8087/mcp'', mp_oauthKey = ''google_calendar'', mp_knownTools = [
     ''mcp__google_calendar__list_calendars'', ''mcp__google_calendar__list_events'',
     ''mcp__google_calendar__get_event'', ''mcp__google_calendar__search_events'',
     ''mcp__google_calendar__check_availability'', ''mcp__google_calendar__compose_calendar_event'',
     ''mcp__google_calendar__compose_delete_event'', ''mcp__google_calendar__propose_meeting'']\<rparr>"

definition google_search_console_provider :: mcp_provider where
  "google_search_console_provider = \<lparr>mp_friendlyName = ''Google Search Console'', mp_description = ''Analyze search performance and rankings'',
     mp_defaultScopes = join_with '' '' [''https://www.googleapis.com/auth/webmasters.readonly'',
       ''https://www.googleapis.com/auth/userinfo.email''],
     mp_envPrefix = ''GOOGLE'', mp_supportsPat = None, mp_supportsOAuth = None,
     mp_url = ''http://localhost:8089/mcp'', mp_oauthKey = ''google_search_console'', mp_knownTools = [
     ''mcp__google_search_console__list_sites'', ''mcp__google_search_console__query_search_analytics'',
     ''mcp__google_search_console__inspect_url'']\<rparr>"

definition supabase_provider :: mcp_provider where
  "supabase_provider = \<lparr>mp_friendlyName = ''Supabase'', mp_description = ''Query databases and manage projects'',
     mp_defaultScopes = '''',
     mp_envPrefix = ''SUPABASE'', mp_supportsPat = None, mp_supportsOAuth = Some True,
     mp_url = ''internal'', mp_oauthKey = ''supabase'', mp_knownTools = [
     ''mcp__supabase__run_query'', ''mcp__supabase__list_projects'', ''mcp__supabase__get_project'',
     ''mcp__supabase__list_tables'', ''mcp__supabase__describe_table'']\<rparr>"

definition outlook_provider :: mcp_provider where
  "outlook_provider = \<lparr>mp_friendlyName = ''Outlook'', mp_description = ''Search, read, and compose emails'',
     mp_defaultScopes = join_with '' '' [''https://graph.microsoft.com/Mail.ReadWrite'', ''https://graph.microsoft.com/Mail.Send'', ''https://graph.microsoft.com/User.Read''],
     mp_envPrefix = ''MICROSOFT'', mp_supportsPat = None, mp_supportsOAuth = Some True,
     mp_url = ''http://localhost:8088/mcp'', mp_oauthKey = ''microsoft'', mp_knownTools = [
     ''mcp__outlook__get_profile'', ''mcp__outlook__compose_email'', ''mcp__outlook__search_emails'',
     ''mcp__outlook__get_email'', ''mcp__outlook__list_folders'', ''mcp__outlook__move_to_folder'',
     ''mcp__outlook__archive_email'', ''mcp__outlook__mark_as_read'', ''mcp__outlook__mark_as_unread'',
     ''mcp__outlook__trash_email'']\<rparr>"

definition OAUTH_MCP_PROVIDERS :: "(string, mcp_provider) jsmap" where
  "OAUTH_MCP_PROVIDERS =
     [(''stripe'', stripe_provider), (''linear'', linear_provider), (''gmail'', gmail_provider),
      (''google_calendar'', google_calendar_provider), (''google_search_console'', google_search_console_provider),
      (''supabase'', supabase_provider), (''outlook'', outlook_provider)]"

definition OAUTH_ONLY_PROVIDERS :: "(string, oauth_provider) jsmap" where
  "OAUTH_ONLY_PROVIDERS =
     [(''github'', \<lparr>mp_friendlyName = ''GitHub'', mp_description = ''Access repos, pull requests, and code'',
        mp_defaultScopes = ''repo user'', mp_envPrefix = ''GITHUB'', mp_supportsPat = Some True, mp_supportsOAuth = Some True\<rparr>),
      (''google'', \<lparr>mp_friendlyName = ''Google'', mp_description = ''Google account authentication'',
        mp_defaultScopes = join_with '' '' [''https://www.googleapis.com/auth/gmail.modify'',
          ''https://www.googleapis.com/auth/calendar.events'', ''https://www.googleapis.com/auth/calendar.calendarlist.readonly'',
          ''https://www.googleapis.com/auth/userinfo.profile'', ''https://www.googleapis.com/auth/userinfo.email''],
        mp_envPrefix = ''GOOGLE'', mp_supportsPat = None, mp_supportsOAuth = None\<rparr>),
      (''microsoft'', \<lparr>mp_friendlyName = ''Microsoft'', mp_description = ''Microsoft account authentication'',
        mp_defaultScopes = join_with '' '' [''https://graph.microsoft.com/Mail.ReadWrite'',
          ''https://graph.microsoft.com/Mail.Send'', ''https://graph.microsoft.com/User.Read''],
        mp_envPrefix = ''MICROSOFT'', mp_supportsPat = None, mp_supportsOAuth = None\<rparr>)]"

record global_provider =
  gp_url :: string
  gp_friendlyName :: string
  gp_knownTools :: "string list"

definition GLOBAL_MCP_PROVIDERS :: "(string, global_provider) jsmap" where
  "GLOBAL_MCP_PROVIDERS =
     [(''google-scraper'', \<lparr>gp_url = ''http://localhost:8083/mcp'', gp_friendlyName = ''Google Maps'',
        gp_knownTools = [''mcp__google-scraper__search_google_maps'']\<rparr>)]"

subsection \<open>Lookups\<close>

text \<open>The properties every object inherits from \<open>Object.prototype\<close>.\<close>

definition object_prototype :: "string list" where
  "object_prototype =
     [''constructor'', ''__defineGetter__'', ''__defineSetter__'', ''hasOwnProperty'', ''__lookupGetter__'',
      ''__lookupSetter__'', ''isPrototypeOf'', ''propertyIsEnumerable'', ''toString'', ''valueOf'', ''__proto__'',
      ''toLocaleString'']"

text \<open>\<open>obj[key]\<close> of an object literal.\<close>

datatype 'a member = Own 'a | Inherited | Undefined

definition member_of :: "(string, 'a) jsmap \<Rightarrow> string \<Rightarrow> 'a member" where
  "member_of m k = (case jget m k of Some v \<Rightarrow> Own v | None \<Rightarrow> if k \<in> set object_prototype then Inherited else Undefined)"

text \<open>\<open>key in obj\<close>.\<close>

definition in_object :: "string \<Rightarrow> (string, 'a) jsmap \<Rightarrow> bool" where
  "in_object k m \<longleftrightarrow> k \<in> set (jkeys m) \<or> k \<in> set object_prototype"

definition isValidOAuthMcpProviderKey :: "string \<Rightarrow> bool" where
  "isValidOAuthMcpProviderKey k \<longleftrightarrow> in_object k OAUTH_MCP_PROVIDERS"

definition isValidOAuthOnlyProviderKey :: "string \<Rightarrow> bool" where
  "isValidOAuthOnlyProviderKey k \<longleftrightarrow> in_object k OAUTH_ONLY_PROVIDERS"

definition isValidOAuthProviderKey :: "string \<Rightarrow> bool" where
  "isValidOAuthProviderKey k \<longleftrightarrow> in_object k OAUTH_MCP_PROVIDERS \<or> in_object k OAUTH_ONLY_PROVIDERS"

definition getOAuthMcpProviderKeys :: "string list" where
  "getOAuthMcpProviderKeys = filter isValidOAuthMcpProviderKey (jkeys OAUTH_MCP_PROVIDERS)"

definition getOAuthOnlyProviderKeys :: "string list" where
  "getOAuthOnlyProviderKeys = filter isValidOAuthOnlyProviderKey (jkeys OAUTH_ONLY_PROVIDERS)"

definition getAllOAuthProviderKeys :: "string list" where
  "getAllOAuthProviderKeys = getOAuthMcpProviderKeys @ getOAuthOnlyProviderKeys"

text \<open>An inherited member has none of the fields; its \<open>description\<close> is \<open>undefined\<close>.\<close>

definition providerSupportsPat :: "string \<Rightarrow> bool" where
  "providerSupportsPat k =
     (if isValidOAuthMcpProviderKey k
      then (case member_of OAUTH_MCP_PROVIDERS k of Own c \<Rightarrow> mp_supportsPat c = Some True | _ \<Rightarrow> False)
      else if isValidOAuthOnlyProviderKey k
      then (case member_of OAUTH_ONLY_PROVIDERS k of Own c \<Rightarrow> mp_supportsPat c = Some True | _ \<Rightarrow> False)
      else False)"

definition providerSupportsOAuth :: "string \<Rightarrow> bool" where
  "providerSupportsOAuth k =
     (if isValidOAuthMcpProviderKey k
      then (case member_of OAUTH_MCP_PROVIDERS k of Own c \<Rightarrow> mp_supportsOAuth c = Some True | _ \<Rightarrow> False)
      else if isValidOAuthOnlyProviderKey k
      then (case member_of OAUTH_ONLY_PROVIDERS k of
              Own c \<Rightarrow> (case mp_supportsOAuth c of Some b \<Rightarrow> b | None \<Rightarrow> True)
            | _ \<Rightarrow> True)
      else False)"

definition getOAuthKeyForProvider :: "string \<Rightarrow> string option" where
  "getOAuthKeyForProvider k =
     (if isValidOAuthMcpProviderKey k
      then (case member_of OAUTH_MCP_PROVIDERS k of Own c \<Rightarrow> Some (mp_oauthKey c) | _ \<Rightarrow> None)
      else Some k)"

definition getOAuthMcpProviderConfig :: "string \<Rightarrow> mcp_provider member" where
  "getOAuthMcpProviderConfig k =
     (if isValidOAuthMcpProviderKey k then member_of OAUTH_MCP_PROVIDERS k else Undefined)"

definition mcp_prefix :: "string \<Rightarrow> string" where
  "mcp_prefix k = ''mcp__'' @ k @ ''__''"

definition spaced :: "char \<Rightarrow> string \<Rightarrow> string" where
  "spaced d s = map (\<lambda>c. if c = d then CHR '' '' else c) s"

definition getProviderInfo :: "string \<Rightarrow> (string option \<times> string list) option" where
  "getProviderInfo k =
     (if isValidOAuthMcpProviderKey k
      then (case member_of OAUTH_MCP_PROVIDERS k of
              Own c \<Rightarrow> Some (Some (mp_description c), map (\<lambda>t. spaced CHR ''_'' (drop (length (mcp_prefix k)) t)) (mp_knownTools c))
            | _ \<Rightarrow> Some (None, []))
      else if isValidOAuthOnlyProviderKey k
      then (case member_of OAUTH_ONLY_PROVIDERS k of
              Own c \<Rightarrow> Some (Some (mp_description c), [])
            | _ \<Rightarrow> Some (None, []))
      else None)"

definition isOAuthMcpTool :: "string \<Rightarrow> string list \<Rightarrow> bool" where
  "isOAuthMcpTool toolName connected \<longleftrightarrow>
     list_ex (\<lambda>k. k \<in> set connected \<and> starts_with (mcp_prefix k) toolName) (jkeys OAUTH_MCP_PROVIDERS)"

definition getGlobalMcpProviderKeys :: "string list" where
  "getGlobalMcpProviderKeys = filter (\<lambda>k. in_object k GLOBAL_MCP_PROVIDERS) (jkeys GLOBAL_MCP_PROVIDERS)"

definition getGlobalMcpToolNames :: "string list" where
  "getGlobalMcpToolNames = concat (map (gp_knownTools \<circ> snd) GLOBAL_MCP_PROVIDERS)"

text \<open>\<open>s.split("__")\<close>.\<close>

fun split_dunder :: "string \<Rightarrow> string list" where
  "split_dunder (c # d # cs) =
     (if c = CHR ''_'' \<and> d = CHR ''_'' then [] # split_dunder cs
      else case split_dunder (d # cs) of [] \<Rightarrow> [[c]] | w # ws \<Rightarrow> (c # w) # ws)"
| "split_dunder s = [s]"

definition getMcpToolFriendlyName :: "string \<Rightarrow> (string \<times> string) option" where
  "getMcpToolFriendlyName toolName =
     (if \<not> starts_with ''mcp__'' toolName then None
      else case find (\<lambda>(k, c). starts_with (mcp_prefix k) toolName) OAUTH_MCP_PROVIDERS of
             Some (k, c) \<Rightarrow> Some (mp_friendlyName c, spaced CHR ''_'' (drop (length (mcp_prefix k)) toolName))
           | None \<Rightarrow>
               (case find (\<lambda>(k, c). starts_with (mcp_prefix k) toolName) GLOBAL_MCP_PROVIDERS of
                  Some (k, c) \<Rightarrow> Some (gp_friendlyName c, spaced CHR ''-'' (drop (length (mcp_prefix k)) toolName))
                | None \<Rightarrow>
                    (let parts = split_dunder toolName
                     in if length parts \<ge> 3
                        then Some (to_upper (take 1 (parts ! 1)) @ drop 1 (parts ! 1),
                                   spaced CHR ''_'' (join_with '' '' (drop 2 parts)))
                        else None)))"

subsection \<open>The registry is well formed\<close>

text \<open>Every tool a provider lists carries the provider's own prefix.\<close>

lemma known_tools_prefixed:
  "(k, c) \<in> set OAUTH_MCP_PROVIDERS \<Longrightarrow> t \<in> set (mp_knownTools c) \<Longrightarrow> starts_with (mcp_prefix k) t"
proof -
  have "list_all (\<lambda>(k, c). list_all (starts_with (mcp_prefix k)) (mp_knownTools c)) OAUTH_MCP_PROVIDERS" by code_simp
  then show "(k, c) \<in> set OAUTH_MCP_PROVIDERS \<Longrightarrow> t \<in> set (mp_knownTools c) \<Longrightarrow> starts_with (mcp_prefix k) t"
    by (auto simp: list_all_iff)
qed

text \<open>No OAuth provider has a key of the internal servers, and all its tools are external.\<close>

lemma provider_keys_external: "k \<in> set (jkeys OAUTH_MCP_PROVIDERS) \<Longrightarrow> \<not> starts_with ''alive-'' (k @ ''__'' @ s)"
proof -
  have "list_all (\<lambda>k. k \<noteq> [] \<and> take 5 k \<noteq> ''alive'' \<and> 5 \<le> length k) (jkeys OAUTH_MCP_PROVIDERS)" by code_simp
  then have "k \<in> set (jkeys OAUTH_MCP_PROVIDERS) \<Longrightarrow> take 5 k \<noteq> ''alive'' \<and> 5 \<le> length k" by (auto simp: list_all_iff)
  moreover have "take 5 k = ''alive''" if "starts_with ''alive-'' (k @ ''__'' @ s)" "5 \<le> length k"
  proof -
    from that(1) obtain u where u: "k @ ''__'' @ s = ''alive-'' @ u" by (blast dest: starts_withE)
    have "take 5 (k @ ''__'' @ s) = take 5 k" using that(2) by simp
    moreover have "take 5 (''alive-'' @ u) = ''alive''" by (simp add: numeral_eq_Suc)
    ultimately have "take 5 k = ''alive''" using u by metis
    then show ?thesis .
  qed
  ultimately show "k \<in> set (jkeys OAUTH_MCP_PROVIDERS) \<Longrightarrow> \<not> starts_with ''alive-'' (k @ ''__'' @ s)" by blast
qed

lemma oauth_tool_shape:
  assumes "isOAuthMcpTool t connected"
  shows "starts_with ''mcp__'' t \<and> \<not> starts_with ''mcp__alive-'' t"
proof -
  obtain k s where k: "k \<in> set (jkeys OAUTH_MCP_PROVIDERS)" and t: "t = mcp_prefix k @ s"
    using assms by (auto simp: isOAuthMcpTool_def list_ex_iff starts_with_iff)
  have "\<not> starts_with ''alive-'' (k @ ''__'' @ s)" by (rule provider_keys_external [OF k])
  then show ?thesis unfolding t by (auto simp: mcp_prefix_def starts_with_def)
qed

text \<open>The key check accepts the names every object inherits, and the OAuth key is then undefined.\<close>

lemma inherited_key_is_valid:
  "isValidOAuthProviderKey ''constructor'' \<and> getOAuthKeyForProvider ''constructor'' = None \<and>
   providerSupportsOAuth ''constructor'' = False"
  by code_simp

end
