(* ===== verification/ToolPolicy.thy ===== *)
theory ToolPolicy
  imports McpProviders
begin

section \<open>Which tools a stream may use\<close>

text \<open>
  \<open>packages/shared/src/tools/internal-tool-descriptors.ts\<close> and
  \<open>packages/shared/src/tools/stream-tools.ts\<close>: the tables of tools with their policies, the decision
  for a tool in a context of role, workspace and mode, the lists handed to the agent SDK, and the
  permission callback. The dash in the reasons of the source is a hyphen here.
\<close>

subsection \<open>Descriptors of the internal tools\<close>

datatype tool_role = Member | Admin | Superadmin
datatype workspace_kind = Site | Platform | E2b
datatype tool_visibility = Visible | Silent
datatype tool_tier = Core | Discoverable

record internal_tool_descriptor =
  id_name :: string
  id_mcpServer :: string
  id_enabled :: bool
  id_tier :: tool_tier
  id_reason :: string
  id_workspaceKinds :: "workspace_kind list option"
  id_visibility :: "tool_visibility option"
  id_roles :: "tool_role list option"
  id_requiresService :: "string option"

definition descriptor :: "string \<Rightarrow> string \<Rightarrow> bool \<Rightarrow> tool_tier \<Rightarrow> string \<Rightarrow> internal_tool_descriptor" where
  "descriptor name server enabled tier reason =
     \<lparr>id_name = name, id_mcpServer = server, id_enabled = enabled, id_tier = tier, id_reason = reason,
      id_workspaceKinds = None, id_visibility = None, id_roles = None, id_requiresService = None\<rparr>"

definition alive_tools_descriptors :: "internal_tool_descriptor list" where
  "alive_tools_descriptors =
     [(descriptor ''search_tools'' ''alive-tools'' True Core ''Internal tool discovery is allowed.''),
      (descriptor ''ask_clarification'' ''alive-tools'' True Core ''Clarification tool is allowed.''),
      (descriptor ''list_workflows'' ''alive-tools'' False Discoverable ''Workflow discovery is allowed.''),
      (descriptor ''get_workflow'' ''alive-tools'' False Discoverable ''Workflow reads are allowed.''),
      (descriptor ''debug_workspace'' ''alive-tools'' True Discoverable ''Workspace diagnostics are allowed.''),
      (descriptor ''get_alive_super_template'' ''alive-tools'' False Discoverable ''Template reads are allowed.''),
      (descriptor ''read_server_logs'' ''alive-tools'' True Discoverable ''Server log reads are allowed.''),
      (descriptor ''ask_website_config'' ''alive-tools'' False Discoverable ''Website config collection is allowed.''),
      (descriptor ''ask_automation_config'' ''alive-tools'' True Discoverable ''Automation config collection is allowed.''),
      (descriptor ''list_automations'' ''alive-tools'' True Discoverable ''Listing automations is allowed.''),
      (descriptor ''generate_persona'' ''alive-tools'' False Discoverable ''Persona generation is allowed.'')]"

definition alive_workspace_descriptors :: "internal_tool_descriptor list" where
  "alive_workspace_descriptors =
     [(descriptor ''restart_dev_server'' ''alive-workspace'' True Core ''Dev server restart mutates runtime state and is site-workspace only.'')
        \<lparr>id_workspaceKinds := Some [Site]\<rparr>,
      (descriptor ''install_package'' ''alive-workspace'' True Core ''Package install mutates dependencies and is site-workspace only.'')
        \<lparr>id_workspaceKinds := Some [Site]\<rparr>,
      (descriptor ''delete_file'' ''alive-workspace'' True Core ''File deletion mutates workspace and is site-workspace only.'')
        \<lparr>id_workspaceKinds := Some [Site]\<rparr>,
      (descriptor ''browser'' ''alive-workspace'' True Core ''Browser control is available in site and platform workspaces.'')
        \<lparr>id_workspaceKinds := Some [Site, Platform], id_requiresService := Some ''browser-control''\<rparr>,
      (descriptor ''check_codebase'' ''alive-workspace'' True Discoverable ''Codebase analysis is site-workspace only.'')
        \<lparr>id_workspaceKinds := Some [Site]\<rparr>,
      (descriptor ''switch_serve_mode'' ''alive-workspace'' True Discoverable ''Serve mode changes runtime behavior and is site-workspace only.'')
        \<lparr>id_workspaceKinds := Some [Site]\<rparr>,
      (descriptor ''copy_shared_asset'' ''alive-workspace'' True Discoverable ''Copying assets mutates workspace and is site-workspace only.'')
        \<lparr>id_workspaceKinds := Some [Site]\<rparr>,
      (descriptor ''create_website'' ''alive-workspace'' False Discoverable ''Website creation mutates workspace and is site-workspace only.'')
        \<lparr>id_workspaceKinds := Some [Site]\<rparr>,
      (descriptor ''git_push'' ''alive-workspace'' False Discoverable ''Git push mutates remote repository and is site-workspace only.'')
        \<lparr>id_workspaceKinds := Some [Site]\<rparr>]"

definition sandboxed_fs_descriptors :: "internal_tool_descriptor list" where
  "sandboxed_fs_descriptors =
     [(descriptor ''Read'' ''alive-sandboxed-fs'' True Core ''E2B sandbox file reads go through sandboxed path validation.'')
        \<lparr>id_workspaceKinds := Some [E2b], id_roles := Some [Member, Admin]\<rparr>,
      (descriptor ''Write'' ''alive-sandboxed-fs'' True Core ''E2B sandbox file writes go through sandboxed path validation.'')
        \<lparr>id_workspaceKinds := Some [E2b], id_roles := Some [Member, Admin]\<rparr>,
      (descriptor ''Edit'' ''alive-sandboxed-fs'' True Core ''E2B sandbox file edits go through sandboxed path validation.'')
        \<lparr>id_workspaceKinds := Some [E2b], id_roles := Some [Member, Admin]\<rparr>,
      (descriptor ''Glob'' ''alive-sandboxed-fs'' True Core ''E2B sandbox glob queries go through sandboxed path validation.'')
        \<lparr>id_workspaceKinds := Some [E2b], id_roles := Some [Member, Admin]\<rparr>,
      (descriptor ''Grep'' ''alive-sandboxed-fs'' True Core ''E2B sandbox grep queries go through sandboxed path validation.'')
        \<lparr>id_workspaceKinds := Some [E2b], id_roles := Some [Member, Admin]\<rparr>,
      (descriptor ''Bash'' ''alive-sandboxed-fs'' True Core ''E2B sandbox shell commands go through heavy-command safeguards.'')
        \<lparr>id_workspaceKinds := Some [E2b], id_roles := Some [Member, Admin]\<rparr>,
      (descriptor ''NotebookEdit'' ''alive-sandboxed-fs'' True Core ''E2B sandbox notebook edits go through sandboxed path validation.'')
        \<lparr>id_workspaceKinds := Some [E2b], id_roles := Some [Member, Admin]\<rparr>]"

definition INTERNAL_TOOL_DESCRIPTORS :: "internal_tool_descriptor list" where
  "INTERNAL_TOOL_DESCRIPTORS = alive_tools_descriptors @ alive_workspace_descriptors @ sandboxed_fs_descriptors"

definition qualifiedMcpName :: "internal_tool_descriptor \<Rightarrow> string" where
  "qualifiedMcpName d = ''mcp__'' @ id_mcpServer d @ ''__'' @ id_name d"

definition getInternalMcpToolNames :: "bool option \<Rightarrow> tool_tier option \<Rightarrow> string list" where
  "getInternalMcpToolNames enabled tier =
     (let ds = INTERNAL_TOOL_DESCRIPTORS;
          ds1 = (case enabled of None \<Rightarrow> ds | Some b \<Rightarrow> filter (\<lambda>d. id_enabled d = b) ds);
          ds2 = (case tier of None \<Rightarrow> ds1 | Some t \<Rightarrow> filter (\<lambda>d. id_tier d = t) ds1)
      in map qualifiedMcpName ds2)"

definition isDiscoverableTool :: "string \<Rightarrow> bool" where
  "isDiscoverableTool q \<longleftrightarrow>
     list_ex (\<lambda>d. qualifiedMcpName d = q \<and> id_enabled d \<and> id_tier d = Discoverable) INTERNAL_TOOL_DESCRIPTORS"

definition getDiscoverableToolNames :: "string list" where
  "getDiscoverableToolNames = getInternalMcpToolNames (Some True) (Some Discoverable)"

definition getDescriptorsByServer :: "(string, internal_tool_descriptor list) jsmap" where
  "getDescriptorsByServer =
     fold (\<lambda>d m. jset (id_mcpServer d) (case jget m (id_mcpServer d) of Some ds \<Rightarrow> ds @ [d] | None \<Rightarrow> [d]) m)
       INTERNAL_TOOL_DESCRIPTORS [(''alive-tools'', []), (''alive-workspace'', []), (''alive-sandboxed-fs'', [])]"

subsection \<open>Modes and contexts\<close>

datatype stream_mode = DefaultMode | PlanMode | SuperadminMode

definition STREAM_MODE_KEYS :: "stream_mode list" where
  "STREAM_MODE_KEYS = [DefaultMode, PlanMode, SuperadminMode]"

primrec mode_key :: "stream_mode \<Rightarrow> string" where
  "mode_key DefaultMode = ''default''"
| "mode_key PlanMode = ''plan''"
| "mode_key SuperadminMode = ''superadmin''"

record stream_mode_config =
  mc_label :: string
  mc_description :: string
  mc_requiredRole :: tool_role
  mc_modeTools :: "string list option"
  mc_mcpEnabled :: bool
  mc_permissionMode :: string

definition PLAN_MODE_SANDBOXED_FS_TOOLS :: "string list" where
  "PLAN_MODE_SANDBOXED_FS_TOOLS =
     [''mcp__alive-sandboxed-fs__Read'', ''mcp__alive-sandboxed-fs__Glob'', ''mcp__alive-sandboxed-fs__Grep'']"

primrec STREAM_MODES :: "stream_mode \<Rightarrow> stream_mode_config" where
  "STREAM_MODES DefaultMode =
     \<lparr>mc_label = ''Default'', mc_description = ''Full tool access'', mc_requiredRole = Member, mc_modeTools = None,
      mc_mcpEnabled = True, mc_permissionMode = ''default''\<rparr>"
| "STREAM_MODES PlanMode =
     \<lparr>mc_label = ''Plan'', mc_description = ''Read-only exploration'', mc_requiredRole = Member,
      mc_modeTools = Some (PLAN_MODE_SANDBOXED_FS_TOOLS @
        [''Read'', ''Glob'', ''Grep'', ''BashOutput'', ''TaskOutput'', ''WebFetch'', ''WebSearch'',
         ''AskUserQuestion'', ''TodoWrite'', ''Skill'', ''ExitPlanMode'']),
      mc_mcpEnabled = True, mc_permissionMode = ''plan''\<rparr>"
| "STREAM_MODES SuperadminMode =
     \<lparr>mc_label = ''Terminal'', mc_description = ''Bash only'', mc_requiredRole = Superadmin,
      mc_modeTools = Some [''Bash'', ''BashOutput'', ''AskUserQuestion''],
      mc_mcpEnabled = False, mc_permissionMode = ''bypassPermissions''\<rparr>"

primrec ROLE_HIERARCHY :: "tool_role \<Rightarrow> nat" where
  "ROLE_HIERARCHY Member = 0"
| "ROLE_HIERARCHY Admin = 1"
| "ROLE_HIERARCHY Superadmin = 2"

definition getAccessibleStreamModes :: "tool_role \<Rightarrow> (stream_mode \<times> stream_mode_config) list" where
  "getAccessibleStreamModes role =
     map (\<lambda>k. (k, STREAM_MODES k))
       (filter (\<lambda>k. ROLE_HIERARCHY (mc_requiredRole (STREAM_MODES k)) \<le> ROLE_HIERARCHY role) STREAM_MODE_KEYS)"

definition getStreamToolRole :: "bool \<Rightarrow> bool \<Rightarrow> tool_role" where
  "getStreamToolRole isAdmin isSuperadmin = (if isSuperadmin then Superadmin else if isAdmin then Admin else Member)"

definition isStreamMode :: "string \<Rightarrow> stream_mode option" where
  "isStreamMode s = find (\<lambda>k. mode_key k = s) STREAM_MODE_KEYS"

text \<open>The request may carry anything; \<open>None\<close> is a mode that is no string.\<close>

definition resolveStreamMode :: "string option \<Rightarrow> bool \<Rightarrow> bool \<Rightarrow> stream_mode" where
  "resolveStreamMode requested isAdmin isSuperadmin =
     (let normalized = (case requested of None \<Rightarrow> DefaultMode
                        | Some s \<Rightarrow> (case isStreamMode s of Some k \<Rightarrow> k | None \<Rightarrow> DefaultMode));
          role = getStreamToolRole isAdmin isSuperadmin
      in if ROLE_HIERARCHY role < ROLE_HIERARCHY (mc_requiredRole (STREAM_MODES normalized)) then DefaultMode
         else normalized)"

datatype execution_mode = Systemd | E2bExecution

definition getStreamWorkspaceKind :: "bool \<Rightarrow> execution_mode \<Rightarrow> workspace_kind" where
  "getStreamWorkspaceKind isSuperadminWorkspace m =
     (if isSuperadminWorkspace then Platform else if m = E2bExecution then E2b else Site)"

record tool_context =
  tc_role :: tool_role
  tc_workspaceKind :: workspace_kind
  tc_mode :: stream_mode
  tc_connectedProviders :: "string list"
  tc_enabledServices :: "string list"

text \<open>\<open>Array.from(new Set(xs))\<close> keeps the first of equal elements.\<close>

definition dedupeStrings :: "string list \<Rightarrow> string list" where
  "dedupeStrings xs = rev (remdups (rev xs))"

definition createStreamToolContext ::
    "bool \<Rightarrow> bool \<Rightarrow> bool \<Rightarrow> execution_mode \<Rightarrow> stream_mode option \<Rightarrow> string list \<Rightarrow> string list \<Rightarrow> tool_context" where
  "createStreamToolContext isAdmin isSuperadmin isSuperadminWorkspace m mode providers services =
     \<lparr>tc_role = getStreamToolRole isAdmin isSuperadmin,
      tc_workspaceKind = getStreamWorkspaceKind isSuperadminWorkspace m,
      tc_mode = (case mode of None \<Rightarrow> DefaultMode | Some k \<Rightarrow> k),
      tc_connectedProviders = dedupeStrings (filter (\<lambda>p. p \<noteq> []) providers),
      tc_enabledServices = dedupeStrings (filter (\<lambda>p. p \<noteq> []) services)\<rparr>"

subsection \<open>Policies\<close>

record tool_policy =
  tp_roles :: "tool_role list"
  tp_workspaceKinds :: "workspace_kind list"
  tp_visibility :: tool_visibility
  tp_requiresUserApproval :: bool
  tp_modes :: "stream_mode list option"
  tp_requiresService :: "string option"
  tp_reason :: string

definition ALL_ROLES :: "tool_role list" where "ALL_ROLES = [Member, Admin, Superadmin]"
definition ADMIN_AND_SUPERADMIN :: "tool_role list" where "ADMIN_AND_SUPERADMIN = [Admin, Superadmin]"
definition SUPERADMIN_ONLY :: "tool_role list" where "SUPERADMIN_ONLY = [Superadmin]"
definition MEMBER_ONLY :: "tool_role list" where "MEMBER_ONLY = [Member]"
definition ALL_WORKSPACE_KINDS :: "workspace_kind list" where "ALL_WORKSPACE_KINDS = [Site, Platform, E2b]"
definition NON_E2B_WORKSPACE_KINDS :: "workspace_kind list" where "NON_E2B_WORKSPACE_KINDS = [Site, Platform]"

definition policy :: "string \<Rightarrow> tool_policy" where
  "policy reason =
     \<lparr>tp_roles = ALL_ROLES, tp_workspaceKinds = ALL_WORKSPACE_KINDS, tp_visibility = Visible,
      tp_requiresUserApproval = False, tp_modes = None, tp_requiresService = None, tp_reason = reason\<rparr>"

text \<open>An empty service name is no override.\<close>

definition descriptorToPolicy :: "internal_tool_descriptor \<Rightarrow> tool_policy" where
  "descriptorToPolicy d =
     (let p0 = policy (id_reason d);
          p1 = (case id_workspaceKinds d of None \<Rightarrow> p0 | Some ks \<Rightarrow> p0\<lparr>tp_workspaceKinds := ks\<rparr>);
          p2 = (case id_visibility d of None \<Rightarrow> p1 | Some v \<Rightarrow> p1\<lparr>tp_visibility := v\<rparr>);
          p3 = (case id_roles d of None \<Rightarrow> p2 | Some rs \<Rightarrow> p2\<lparr>tp_roles := rs\<rparr>)
      in case id_requiresService d of None \<Rightarrow> p3 | Some s \<Rightarrow> if s = [] then p3 else p3\<lparr>tp_requiresService := Some s\<rparr>)"

definition generateInternalMcpPolicies :: "(string, tool_policy) jsmap" where
  "generateInternalMcpPolicies =
     fold (\<lambda>d m. if id_enabled d then jset (qualifiedMcpName d) (descriptorToPolicy d) m else m) INTERNAL_TOOL_DESCRIPTORS []"

definition STREAM_SDK_TOOL_NAMES :: "string list" where
  "STREAM_SDK_TOOL_NAMES =
     [''Read'', ''Write'', ''Edit'', ''Glob'', ''Grep'', ''NotebookEdit'', ''Bash'', ''BashOutput'', ''Task'',
      ''TaskOutput'', ''TaskStop'', ''Mcp'', ''ListMcpResources'', ''ReadMcpResource'', ''WebFetch'', ''WebSearch'',
      ''AskUserQuestion'', ''ExitPlanMode'', ''TodoWrite'', ''Skill'']"

definition SDK_TOOL_POLICIES :: "(string, tool_policy) jsmap" where
  "SDK_TOOL_POLICIES =
     [(''Read'', (policy ''File reads - E2B uses sandboxed-fs instead.'')
        \<lparr>tp_workspaceKinds := NON_E2B_WORKSPACE_KINDS\<rparr>),
      (''Write'', (policy ''File writes - E2B uses sandboxed-fs instead.'')
        \<lparr>tp_workspaceKinds := NON_E2B_WORKSPACE_KINDS\<rparr>),
      (''Edit'', (policy ''File edits - E2B uses sandboxed-fs instead.'')
        \<lparr>tp_workspaceKinds := NON_E2B_WORKSPACE_KINDS\<rparr>),
      (''Glob'', (policy ''Glob queries - E2B uses sandboxed-fs instead.'')
        \<lparr>tp_workspaceKinds := NON_E2B_WORKSPACE_KINDS\<rparr>),
      (''Grep'', (policy ''Grep queries - E2B uses sandboxed-fs instead.'')
        \<lparr>tp_workspaceKinds := NON_E2B_WORKSPACE_KINDS\<rparr>),
      (''Bash'', (policy ''Shell commands - E2B uses sandboxed-fs instead.'')
        \<lparr>tp_workspaceKinds := NON_E2B_WORKSPACE_KINDS\<rparr>),
      (''TaskOutput'', (policy ''Task output streaming is allowed.'')),
      (''BashOutput'', (policy ''Legacy bash output alias is allowed.'')),
      (''TodoWrite'', (policy ''Planning scratchpad is allowed but hidden from user UI.'')
        \<lparr>tp_visibility := Silent\<rparr>),
      (''AskUserQuestion'', (policy ''SDK clarification questions only in plan/superadmin mode - use ask_clarification MCP tool elsewhere.'')
        \<lparr>tp_modes := Some [PlanMode, SuperadminMode]\<rparr>),
      (''Mcp'', (policy ''MCP bridge invocation is allowed.'')),
      (''ListMcpResources'', (policy ''MCP resource listing is member-only by product policy.'')
        \<lparr>tp_roles := MEMBER_ONLY\<rparr>),
      (''ReadMcpResource'', (policy ''MCP resource reading is member-only by product policy.'')
        \<lparr>tp_roles := MEMBER_ONLY\<rparr>),
      (''NotebookEdit'', (policy ''Notebook editing - E2B uses sandboxed-fs instead.'')
        \<lparr>tp_workspaceKinds := NON_E2B_WORKSPACE_KINDS\<rparr>),
      (''WebFetch'', (policy ''Single-page fetch is allowed.'')),
      (''Skill'', (policy ''Local skills are allowed.'')),
      (''TaskStop'', (policy ''Stopping tasks is admin/superadmin only.'')
        \<lparr>tp_roles := ADMIN_AND_SUPERADMIN\<rparr>),
      (''Task'', (policy ''Subagent spawning is superadmin-only.'')\<lparr>tp_roles := SUPERADMIN_ONLY\<rparr>),
      (''WebSearch'', (policy ''Web search is superadmin-only.'')\<lparr>tp_roles := SUPERADMIN_ONLY\<rparr>),
      (''ExitPlanMode'', (policy ''Exiting plan mode requires explicit user action in UI.'')
        \<lparr>tp_roles := [], tp_requiresUserApproval := True\<rparr>)]"

definition STREAM_TOOL_POLICY_REGISTRY :: "(string, tool_policy) jsmap" where
  "STREAM_TOOL_POLICY_REGISTRY = fold (\<lambda>(k, p). jset k p) generateInternalMcpPolicies SDK_TOOL_POLICIES"

definition isInternalPolicyTool :: "string \<Rightarrow> bool" where
  "isInternalPolicyTool t \<longleftrightarrow> starts_with ''mcp__alive-'' t"

definition isUserApprovalTool :: "string \<Rightarrow> bool" where
  "isUserApprovalTool t \<longleftrightarrow>
     (case member_of STREAM_TOOL_POLICY_REGISTRY t of Own p \<Rightarrow> tp_requiresUserApproval p | _ \<Rightarrow> False)"

definition OPTIONAL_INTERNAL_PREFIX_POLICIES :: "(string \<times> tool_policy) list" where
  "OPTIONAL_INTERNAL_PREFIX_POLICIES =
     [(''mcp__alive-email__'', policy ''Automation email MCP tools are allowed.'')]"

text \<open>A name that every object inherits finds a member that is no policy.\<close>

definition getPolicyForTool :: "string \<Rightarrow> tool_policy member" where
  "getPolicyForTool t =
     (case member_of STREAM_TOOL_POLICY_REGISTRY t of
        Own p \<Rightarrow> Own p
      | Inherited \<Rightarrow> Inherited
      | Undefined \<Rightarrow>
          (case find (\<lambda>(prefix, p). starts_with prefix t) OPTIONAL_INTERNAL_PREFIX_POLICIES of
             Some (prefix, p) \<Rightarrow> Own p
           | None \<Rightarrow> Undefined))"

definition isExternalMcpTool :: "string \<Rightarrow> bool" where
  "isExternalMcpTool t \<longleftrightarrow> starts_with ''mcp__'' t \<and> \<not> isInternalPolicyTool t"

definition getEffectivePolicyForTool :: "string \<Rightarrow> tool_policy member" where
  "getEffectivePolicyForTool t =
     (case getPolicyForTool t of
        Undefined \<Rightarrow> if isExternalMcpTool t then getPolicyForTool ''Mcp'' else Undefined
      | m \<Rightarrow> m)"

definition isStreamPolicyTool :: "string \<Rightarrow> bool" where
  "isStreamPolicyTool t \<longleftrightarrow> (case getEffectivePolicyForTool t of Undefined \<Rightarrow> False | _ \<Rightarrow> True)"

definition isStreamClientVisibleTool :: "string \<Rightarrow> bool" where
  "isStreamClientVisibleTool t \<longleftrightarrow>
     (case getEffectivePolicyForTool t of
        Own p \<Rightarrow> tp_visibility p = Visible
      | Inherited \<Rightarrow> False
      | Undefined \<Rightarrow> \<not> isInternalPolicyTool t)"

subsection \<open>Decisions\<close>

record tool_decision =
  td_executable :: bool
  td_visibleToClient :: bool
  td_policyFound :: bool
  td_reason :: "string option"

text \<open>\<open>None\<close>: the decision raises, because an inherited member has no list of roles.\<close>

definition getStreamToolDecision :: "string \<Rightarrow> tool_context \<Rightarrow> tool_decision option" where
  "getStreamToolDecision t ctx =
     (case getEffectivePolicyForTool t of
        Undefined \<Rightarrow>
          if isInternalPolicyTool t
          then Some \<lparr>td_executable = False, td_visibleToClient = False, td_policyFound = False,
                 td_reason = Some (''Internal tool \"'' @ t @ ''\" has no policy entry in STREAM_TOOL_POLICY_REGISTRY.'')\<rparr>
          else Some \<lparr>td_executable = True, td_visibleToClient = True, td_policyFound = False, td_reason = None\<rparr>
      | Inherited \<Rightarrow> None
      | Own p \<Rightarrow>
          (let vis = (tp_visibility p = Visible);
               deny = (\<lambda>v r. Some \<lparr>td_executable = False, td_visibleToClient = v, td_policyFound = True, td_reason = Some r\<rparr>)
           in if tp_requiresUserApproval p then deny vis (tp_reason p)
              else if tc_role ctx \<notin> set (tp_roles p) then deny vis (tp_reason p)
              else if tc_workspaceKind ctx \<notin> set (tp_workspaceKinds p) then deny vis (tp_reason p)
              else if (case tp_requiresService p of None \<Rightarrow> False
                       | Some s \<Rightarrow> s \<noteq> [] \<and> s \<notin> set (tc_enabledServices ctx))
              then (case tp_requiresService p of None \<Rightarrow> None
                    | Some s \<Rightarrow> deny False (''Tool requires service \"'' @ s @ ''\" (enable in alive.toml [services.'' @ s @ '']).''))
              else if (case tp_modes p of None \<Rightarrow> False | Some ms \<Rightarrow> tc_mode ctx \<notin> set ms)
              then (case tp_modes p of None \<Rightarrow> None
                    | Some ms \<Rightarrow> deny vis (''Tool \"'' @ t @ ''\" is only available in '' @ join_with '', '' (map mode_key ms) @ '' mode.''))
              else if (case mc_modeTools (STREAM_MODES (tc_mode ctx)) of None \<Rightarrow> False | Some ts \<Rightarrow> t \<notin> set ts)
              then deny vis (''Tool \"'' @ t @ ''\" is not available in '' @ mode_key (tc_mode ctx) @ '' mode.'')
              else Some \<lparr>td_executable = True, td_visibleToClient = vis, td_policyFound = True, td_reason = None\<rparr>))"

text \<open>The tests on decisions below are made on names that never raise (lemma \<open>decision_total\<close>).\<close>

definition executable_for :: "tool_context \<Rightarrow> string \<Rightarrow> bool" where
  "executable_for ctx t \<longleftrightarrow> (case getStreamToolDecision t ctx of Some d \<Rightarrow> td_executable d | None \<Rightarrow> False)"

definition visible_for :: "tool_context \<Rightarrow> string \<Rightarrow> bool" where
  "visible_for ctx t \<longleftrightarrow> (case getStreamToolDecision t ctx of Some d \<Rightarrow> td_visibleToClient d | None \<Rightarrow> False)"

record tool_runtime_config =
  rt_allowedTools :: "string list"
  rt_disallowedTools :: "string list"
  rt_visibleTools :: "string list"

definition getInternalMcpToolsForPolicyEvaluation :: "string list \<Rightarrow> string list" where
  "getInternalMcpToolsForPolicyEvaluation enabled = filter (starts_with ''mcp__alive-'') enabled"

definition buildStreamToolRuntimeConfig :: "string list \<Rightarrow> tool_context \<Rightarrow> tool_runtime_config" where
  "buildStreamToolRuntimeConfig enabled ctx =
     (let sdkTools = STREAM_SDK_TOOL_NAMES;
          internalTools = getInternalMcpToolsForPolicyEvaluation enabled;
          allowedSdk = filter (\<lambda>t. executable_for ctx t \<or> isUserApprovalTool t) sdkTools;
          disallowedSdk = filter (\<lambda>t. \<not> executable_for ctx t \<and> \<not> isUserApprovalTool t) sdkTools;
          allowedInternal0 = filter (executable_for ctx) internalTools;
          allowedInternal = (if tc_role ctx \<noteq> Superadmin then filter (\<lambda>t. \<not> isDiscoverableTool t) allowedInternal0
                             else allowedInternal0);
          allowedGlobal = filter (executable_for ctx) getGlobalMcpToolNames;
          allowed = dedupeStrings (allowedSdk @ allowedInternal @ allowedGlobal)
      in \<lparr>rt_allowedTools = allowed, rt_disallowedTools = disallowedSdk, rt_visibleTools = filter (visible_for ctx) allowed\<rparr>)"

subsection \<open>The permission callback and the lists for the SDK\<close>

datatype tool_permission = AllowTool | DenyTool string

definition createStreamCanUseTool :: "tool_context \<Rightarrow> string list \<Rightarrow> string \<Rightarrow> tool_permission option" where
  "createStreamCanUseTool ctx allowedTools t =
     (case getStreamToolDecision t ctx of
        None \<Rightarrow> None
      | Some d \<Rightarrow>
          if \<not> td_executable d \<and> (td_policyFound d \<or> isInternalPolicyTool t)
          then Some (if t = ''ExitPlanMode''
                     then DenyTool (''You cannot approve your own plan. The user must click \"Approve Plan\" in the UI. '' @
                                    ''Present the plan clearly and wait for user approval.'')
                     else DenyTool (trim (''Tool \"'' @ t @ ''\" is not available in site builder mode. '' @
                                    (case td_reason d of None \<Rightarrow> [] | Some r \<Rightarrow> r))))
          else if t \<in> set allowedTools then Some AllowTool
          else if isOAuthMcpTool t (tc_connectedProviders ctx) then Some AllowTool
          else Some (DenyTool (''Tool \"'' @ t @
                 ''\" is not permitted. Connect the required integration in Settings to use this tool.'')))"

definition isStreamInitVisibleTool :: "string \<Rightarrow> tool_context \<Rightarrow> string list \<Rightarrow> bool option" where
  "isStreamInitVisibleTool t ctx allowedTools =
     (case getStreamToolDecision t ctx of
        None \<Rightarrow> None
      | Some d \<Rightarrow>
          Some (td_visibleToClient d \<and>
            (t \<in> set allowedTools \<or> isOAuthMcpTool t (tc_connectedProviders ctx) \<and> td_executable d)))"

definition getStreamAllowedTools ::
    "string list \<Rightarrow> bool \<Rightarrow> bool \<Rightarrow> bool \<Rightarrow> stream_mode \<Rightarrow> string list \<Rightarrow> execution_mode \<Rightarrow> string list \<Rightarrow> string list" where
  "getStreamAllowedTools enabled isAdmin isSuperadmin isSuperadminWorkspace mode providers m services =
     rt_allowedTools (buildStreamToolRuntimeConfig enabled
       (createStreamToolContext isAdmin isSuperadmin isSuperadminWorkspace m (Some mode) providers services))"

definition getStreamDisallowedTools ::
    "bool \<Rightarrow> bool \<Rightarrow> stream_mode \<Rightarrow> bool \<Rightarrow> execution_mode \<Rightarrow> string list" where
  "getStreamDisallowedTools isAdmin isSuperadmin mode isSuperadminWorkspace m =
     rt_disallowedTools (buildStreamToolRuntimeConfig []
       (createStreamToolContext isAdmin isSuperadmin isSuperadminWorkspace m (Some mode) [] []))"

definition filterToolsForMode :: "string list \<Rightarrow> stream_mode \<Rightarrow> string list" where
  "filterToolsForMode allowedTools mode =
     (case mc_modeTools (STREAM_MODES mode) of None \<Rightarrow> allowedTools | Some ts \<Rightarrow> filter (\<lambda>t. t \<in> set ts) allowedTools)"

subsection \<open>MCP servers\<close>

datatype 'a mcp_server = HttpServer string "string option" | InternalServer 'a

definition buildOAuthMcpServers :: "(string, string) jsmap \<Rightarrow> (string, 'a mcp_server) jsmap" where
  "buildOAuthMcpServers oauthTokens =
     fold (\<lambda>(k, c) m.
         if mp_url c = ''internal'' then m
         else case jget oauthTokens k of
                Some token \<Rightarrow> if token = [] then m else jset k (HttpServer (mp_url c) (Some (''Bearer '' @ token))) m
              | None \<Rightarrow> m)
       OAUTH_MCP_PROVIDERS []"

definition getStreamMcpServers :: "'a \<Rightarrow> 'a \<Rightarrow> 'a \<Rightarrow> (string, string) jsmap \<Rightarrow> (string, 'a mcp_server) jsmap" where
  "getStreamMcpServers workspace tools sandboxedFs oauthTokens =
     fold (\<lambda>(k, c). jset k (HttpServer (gp_url c) None)) GLOBAL_MCP_PROVIDERS
       (fold (\<lambda>(k, s). jset k s) (buildOAuthMcpServers oauthTokens)
          [(''alive-workspace'', InternalServer workspace), (''alive-tools'', InternalServer tools),
           (''alive-sandboxed-fs'', InternalServer sandboxedFs)])"

subsection \<open>Execution through the search tool\<close>

text \<open>
  \<open>packages/tools/src/tools/meta/search-tools.ts\<close>: with \<open>execute\<close> the search tool runs a discoverable
  tool itself. The handlers are parameters.
\<close>

definition DISCOVERABLE_TOOL_NAMES :: "string list" where
  "DISCOVERABLE_TOOL_NAMES = map (\<lambda>q. last (split_dunder q)) getDiscoverableToolNames"

definition HANDLED_TOOLS :: "string list" where
  "HANDLED_TOOLS =
     [''list_workflows'', ''get_workflow'', ''debug_workspace'', ''get_alive_super_template'', ''read_server_logs'',
      ''ask_website_config'', ''ask_automation_config'', ''list_automations'', ''generate_persona'',
      ''check_codebase'', ''switch_serve_mode'', ''copy_shared_asset'', ''create_website'', ''git_push'']"

datatype 'r search_result = NotDiscoverable | NoHandler | Ran 'r

definition executeDiscoverableTool :: "(string \<Rightarrow> 'r) \<Rightarrow> string \<Rightarrow> 'r search_result" where
  "executeDiscoverableTool handler name =
     (if name \<notin> set DISCOVERABLE_TOOL_NAMES then NotDiscoverable
      else if name \<notin> set HANDLED_TOOLS then NoHandler
      else Ran (handler name))"

subsection \<open>What a decision grants\<close>

text \<open>The conditions under which a policy lets a tool run in a context.\<close>

definition permits :: "tool_policy \<Rightarrow> string \<Rightarrow> tool_context \<Rightarrow> bool" where
  "permits p t ctx \<longleftrightarrow>
     \<not> tp_requiresUserApproval p \<and> tc_role ctx \<in> set (tp_roles p) \<and> tc_workspaceKind ctx \<in> set (tp_workspaceKinds p) \<and>
     (case tp_requiresService p of None \<Rightarrow> True | Some s \<Rightarrow> s = [] \<or> s \<in> set (tc_enabledServices ctx)) \<and>
     (case tp_modes p of None \<Rightarrow> True | Some ms \<Rightarrow> tc_mode ctx \<in> set ms) \<and>
     (case mc_modeTools (STREAM_MODES (tc_mode ctx)) of None \<Rightarrow> True | Some ts \<Rightarrow> t \<in> set ts)"

text \<open>
  The registry lists the SDK tools and then the enabled descriptors: no key occurs twice. The
  equation also serves evaluation.
\<close>

lemma fold_jset_fresh:
  "distinct (map fst xs) \<Longrightarrow> fst ` set xs \<inter> fst ` set m = {} \<Longrightarrow> fold (\<lambda>(k, v). jset k v) xs m = m @ xs"
proof (induction xs arbitrary: m)
  case (Cons x xs)
  obtain k v where x: "x = (k, v)" by fastforce
  then have "jset k v m = m @ [(k, v)]" using Cons.prems(2) by (intro jset_absent) auto
  moreover have "fold (\<lambda>(k, v). jset k v) xs (m @ [(k, v)]) = (m @ [(k, v)]) @ xs"
    using Cons.prems x by (intro Cons.IH) auto
  ultimately show ?case using x by simp
qed simp

lemma fold_if: "fold (\<lambda>d m. if P d then jset (f d) (g d) m else m) ds m = fold (\<lambda>(k, v). jset k v) (map (\<lambda>d. (f d, g d)) (filter P ds)) m"
  by (induction ds arbitrary: m) auto

definition internal_policies :: "(string \<times> tool_policy) list" where
  "internal_policies = map (\<lambda>d. (qualifiedMcpName d, descriptorToPolicy d)) (filter id_enabled INTERNAL_TOOL_DESCRIPTORS)"

lemma internal_names: "map fst internal_policies = map qualifiedMcpName (filter id_enabled INTERNAL_TOOL_DESCRIPTORS)"
  by (simp add: internal_policies_def)

lemma internal_names_distinct:
  "distinct (map qualifiedMcpName (filter id_enabled INTERNAL_TOOL_DESCRIPTORS))"
  "list_all (starts_with ''mcp__alive-'') (map qualifiedMcpName (filter id_enabled INTERNAL_TOOL_DESCRIPTORS))"
  "list_all (\<lambda>t. \<not> starts_with ''mcp__'' t) (map fst SDK_TOOL_POLICIES)"
  by code_simp+

lemma registry_list [code]: "STREAM_TOOL_POLICY_REGISTRY = SDK_TOOL_POLICIES @ internal_policies"
proof -
  have "generateInternalMcpPolicies = internal_policies"
    unfolding generateInternalMcpPolicies_def fold_if internal_policies_def [symmetric]
    using fold_jset_fresh [of internal_policies "[]"] internal_names_distinct(1) by (simp add: internal_names)
  moreover have "fst ` set internal_policies \<inter> fst ` set SDK_TOOL_POLICIES = {}"
  proof -
    have "\<not> starts_with ''mcp__'' k" if "k \<in> fst ` set SDK_TOOL_POLICIES" for k
      using that internal_names_distinct(3) by (auto simp: list_all_iff)
    moreover have "starts_with ''mcp__'' k" if "k \<in> fst ` set internal_policies" for k
    proof -
      have "k \<in> set (map fst internal_policies)" using that by simp
      then have "starts_with ''mcp__alive-'' k" using internal_names_distinct(2) unfolding internal_names list_all_iff by blast
      then show ?thesis by (auto simp: starts_with_iff)
    qed
    ultimately show ?thesis by blast
  qed
  ultimately show ?thesis
    unfolding STREAM_TOOL_POLICY_REGISTRY_def
    using fold_jset_fresh [of internal_policies SDK_TOOL_POLICIES] internal_names_distinct(1) by (simp add: internal_names)
qed

text \<open>The SDK tools are looked up in their own table.\<close>

lemma sdk_lookup:
  assumes "jget SDK_TOOL_POLICIES t = Some p"
  shows "member_of STREAM_TOOL_POLICY_REGISTRY t = Own p" and "getPolicyForTool t = Own p"
    and "getEffectivePolicyForTool t = Own p" and "isUserApprovalTool t = tp_requiresUserApproval p"
proof -
  show m: "member_of STREAM_TOOL_POLICY_REGISTRY t = Own p"
    by (simp add: member_of_def registry_list map_add_def assms)
  show g: "getPolicyForTool t = Own p" by (simp add: getPolicyForTool_def m)
  show "getEffectivePolicyForTool t = Own p" by (simp add: getEffectivePolicyForTool_def g)
  show "isUserApprovalTool t = tp_requiresUserApproval p" by (simp add: isUserApprovalTool_def m)
qed

lemma decision_own:
  assumes "getEffectivePolicyForTool t = Own p"
  shows "\<exists>d. getStreamToolDecision t ctx = Some d \<and> td_policyFound d \<and> (td_executable d \<longleftrightarrow> permits p t ctx)"
  unfolding getStreamToolDecision_def assms member.case Let_def permits_def
  by (auto split: option.splits)

lemma registry_names:
  "list_all (\<lambda>t. \<exists>p. getPolicyForTool t = Own p) STREAM_SDK_TOOL_NAMES"
  "list_all (\<lambda>t. \<not> starts_with ''mcp__'' t) object_prototype"
  "list_all (\<lambda>t. starts_with ''mcp__'' t \<and> \<not> starts_with ''mcp__alive-'' t) getGlobalMcpToolNames"
proof -
  have "list_all (\<lambda>t. jget SDK_TOOL_POLICIES t \<noteq> None) STREAM_SDK_TOOL_NAMES" by code_simp
  then show "list_all (\<lambda>t. \<exists>p. getPolicyForTool t = Own p) STREAM_SDK_TOOL_NAMES"
    using sdk_lookup(2) by (auto simp: list_all_iff)
  show "list_all (\<lambda>t. \<not> starts_with ''mcp__'' t) object_prototype" by code_simp
  show "list_all (\<lambda>t. starts_with ''mcp__'' t \<and> \<not> starts_with ''mcp__alive-'' t) getGlobalMcpToolNames" by code_simp
qed

definition mcp_policy :: tool_policy where
  "mcp_policy = policy ''MCP bridge invocation is allowed.''"

lemma mcp_bridge: "getPolicyForTool ''Mcp'' = Own mcp_policy"
  unfolding mcp_policy_def by (rule sdk_lookup) code_simp

lemma not_inherited: "starts_with ''mcp__'' t \<Longrightarrow> getPolicyForTool t \<noteq> Inherited"
  using registry_names(2)
  by (auto simp: getPolicyForTool_def member_of_def list_all_iff split: member.splits option.splits if_splits)

text \<open>External tools always have a policy.\<close>

lemma external_has_policy: "isExternalMcpTool t \<Longrightarrow> \<exists>p. getEffectivePolicyForTool t = Own p"
  using not_inherited [of t]
  by (cases "getPolicyForTool t") (auto simp: getEffectivePolicyForTool_def mcp_bridge isExternalMcpTool_def)

lemma oauth_tool_external: "isOAuthMcpTool t cs \<Longrightarrow> isExternalMcpTool t"
  using oauth_tool_shape by (simp add: isExternalMcpTool_def isInternalPolicyTool_def)

lemma set_dedupe [simp]: "set (dedupeStrings xs) = set xs"
  by (simp add: dedupeStrings_def)

lemma allowed_cases:
  assumes "t \<in> set (rt_allowedTools (buildStreamToolRuntimeConfig enabled ctx))"
  shows "(\<exists>p. getEffectivePolicyForTool t = Own p) \<or> isInternalPolicyTool t"
proof -
  consider "t \<in> set STREAM_SDK_TOOL_NAMES" | "isInternalPolicyTool t" | "t \<in> set getGlobalMcpToolNames"
    using assms by (auto simp: buildStreamToolRuntimeConfig_def Let_def isInternalPolicyTool_def
        getInternalMcpToolsForPolicyEvaluation_def split: if_splits)
  then show ?thesis
  proof cases
    case 1
    then have "\<exists>p. getPolicyForTool t = Own p" using registry_names(1) by (simp add: list_all_iff)
    then show ?thesis by (auto simp: getEffectivePolicyForTool_def)
  next
    case 3
    then have "isExternalMcpTool t"
      using registry_names(3) by (simp add: list_all_iff isExternalMcpTool_def isInternalPolicyTool_def)
    then show ?thesis using external_has_policy by blast
  qed simp
qed

lemma callback_permits:
  assumes "createStreamCanUseTool ctx (rt_allowedTools (buildStreamToolRuntimeConfig enabled ctx)) t = Some AllowTool"
  shows "\<exists>p. getEffectivePolicyForTool t = Own p \<and> permits p t ctx"
proof -
  obtain d where d: "getStreamToolDecision t ctx = Some d"
      and pass: "\<not> (\<not> td_executable d \<and> (td_policyFound d \<or> isInternalPolicyTool t))"
      and src: "t \<in> set (rt_allowedTools (buildStreamToolRuntimeConfig enabled ctx)) \<or>
        isOAuthMcpTool t (tc_connectedProviders ctx)"
    using assms by (auto simp: createStreamCanUseTool_def split: option.splits if_splits)
  have "(\<exists>p. getEffectivePolicyForTool t = Own p) \<or> isInternalPolicyTool t"
    using src allowed_cases oauth_tool_external external_has_policy by blast
  moreover have "\<not> isInternalPolicyTool t \<or> (\<exists>p. getEffectivePolicyForTool t = Own p)"
    using d pass by (cases "getEffectivePolicyForTool t") (auto simp: getStreamToolDecision_def)
  ultimately obtain p where p: "getEffectivePolicyForTool t = Own p" by blast
  then show ?thesis using decision_own [OF p, of ctx] d pass by auto
qed

text \<open>
  C18. The permission callback fails closed: with the list the runtime configuration computes for the
  same context, it allows a tool only when the tool has a policy, and that policy lets the role, the
  kind of workspace, the enabled services and the mode use it; no internal tool without a policy,
  no tool that needs the user's approval and no unknown tool passes.
\<close>

theorem canUseTool_sound:
  assumes "createStreamCanUseTool ctx (rt_allowedTools (buildStreamToolRuntimeConfig enabled ctx)) t = Some AllowTool"
  shows "\<exists>p. getEffectivePolicyForTool t = Own p \<and> permits p t ctx"
  using assms by (rule callback_permits)

definition member_site :: tool_context where
  "member_site = createStreamToolContext False False False Systemd None [''stripe''] []"

theorem canUseTool_sound_witness:
  "createStreamCanUseTool member_site
     (rt_allowedTools (buildStreamToolRuntimeConfig (getInternalMcpToolNames (Some True) None) member_site))
     ''mcp__stripe__list_customers'' = Some AllowTool \<and>
   (\<exists>p. getEffectivePolicyForTool ''mcp__stripe__list_customers'' = Own p \<and>
     permits p ''mcp__stripe__list_customers'' member_site)"
proof -
  have "td_executable (the (getStreamToolDecision ''mcp__stripe__list_customers'' member_site))"
    and "getStreamToolDecision ''mcp__stripe__list_customers'' member_site \<noteq> None"
    and o: "isOAuthMcpTool ''mcp__stripe__list_customers'' (tc_connectedProviders member_site)"
    by code_simp+
  then have a: "createStreamCanUseTool member_site
     (rt_allowedTools (buildStreamToolRuntimeConfig (getInternalMcpToolNames (Some True) None) member_site))
     ''mcp__stripe__list_customers'' = Some AllowTool"
    by (auto simp only: createStreamCanUseTool_def option.case option.sel if_True if_False simp_thms if_cancel)
  then show ?thesis using canUseTool_sound [OF a] by simp
qed

text \<open>Conversely an SDK tool whose policy permits it is allowed.\<close>

lemma sdk_tool_allowed:
  assumes "jget SDK_TOOL_POLICIES t = Some p" and "permits p t ctx" and "t \<in> set STREAM_SDK_TOOL_NAMES"
  shows "createStreamCanUseTool ctx (rt_allowedTools (buildStreamToolRuntimeConfig enabled ctx)) t = Some AllowTool"
proof -
  obtain d where d: "getStreamToolDecision t ctx = Some d" "td_executable d"
    using decision_own [OF sdk_lookup(3) [OF assms(1)], of ctx] assms(2) by auto
  then have "t \<in> set (rt_allowedTools (buildStreamToolRuntimeConfig enabled ctx))"
    using assms(3) by (simp add: buildStreamToolRuntimeConfig_def Let_def executable_for_def)
  then show ?thesis using d by (simp add: createStreamCanUseTool_def)
qed

subsection \<open>Modes, sandboxes and discovery\<close>

text \<open>
  The callback by modes: what it allows in plan mode is one of the reading, searching and planning
  tools of the mode, and a request for the terminal mode is granted to superadmins alone, where it
  allows no other tools than the shell, its output and the question tool. The worker does not ask the
  callback (the list it hands to the SDK is wider, see \<open>plan_mode_widened_by_providers\<close> in \<open>WorkerTools\<close>).
\<close>

theorem mode_restricts_tools:
  assumes "createStreamCanUseTool ctx (rt_allowedTools (buildStreamToolRuntimeConfig enabled ctx)) t = Some AllowTool"
    and "tc_mode ctx = resolveStreamMode requested isAdmin isSuperadmin" and "tc_mode ctx \<noteq> DefaultMode"
  shows "(tc_mode ctx = PlanMode \<and> t \<in> {''mcp__alive-sandboxed-fs__Read'', ''mcp__alive-sandboxed-fs__Glob'',
        ''mcp__alive-sandboxed-fs__Grep'', ''Read'', ''Glob'', ''Grep'', ''BashOutput'', ''TaskOutput'', ''WebFetch'',
        ''WebSearch'', ''AskUserQuestion'', ''TodoWrite'', ''Skill''}) \<or>
    (tc_mode ctx = SuperadminMode \<and> isSuperadmin \<and> t \<in> {''Bash'', ''BashOutput'', ''AskUserQuestion''})"
proof -
  obtain p where p: "getEffectivePolicyForTool t = Own p" "permits p t ctx"
    using callback_permits [OF assms(1)] by blast
  have approval: "t \<noteq> ''ExitPlanMode''"
  proof
    assume "t = ''ExitPlanMode''"
    moreover have "case jget SDK_TOOL_POLICIES ''ExitPlanMode'' of Some p \<Rightarrow> tp_requiresUserApproval p | None \<Rightarrow> False"
      by code_simp
    ultimately show False using p sdk_lookup(3) [of "''ExitPlanMode''"] by (auto simp: permits_def split: option.splits)
  qed
  show ?thesis
  proof (cases "tc_mode ctx")
    case DefaultMode
    then show ?thesis using assms(3) by simp
  next
    case PlanMode
    then have "t \<in> set (PLAN_MODE_SANDBOXED_FS_TOOLS @ [''Read'', ''Glob'', ''Grep'', ''BashOutput'', ''TaskOutput'',
        ''WebFetch'', ''WebSearch'', ''AskUserQuestion'', ''TodoWrite'', ''Skill'', ''ExitPlanMode''])"
      using p(2) unfolding permits_def PlanMode by (simp only: STREAM_MODES.simps stream_mode_config.simps option.case)
    then show ?thesis
      using approval PlanMode
      by (simp only: PLAN_MODE_SANDBOXED_FS_TOOLS_def append.simps list.set insert_iff empty_iff simp_thms)
  next
    case SuperadminMode
    then have "t \<in> set [''Bash'', ''BashOutput'', ''AskUserQuestion'']"
      using p(2) unfolding permits_def SuperadminMode by (simp only: STREAM_MODES.simps stream_mode_config.simps option.case)
    moreover have "isSuperadmin"
      using assms(2) SuperadminMode
      by (auto simp: resolveStreamMode_def Let_def getStreamToolRole_def split: if_splits)
    ultimately show ?thesis using SuperadminMode by (simp only: list.set insert_iff empty_iff simp_thms)
  qed
qed

theorem mode_restricts_tools_witness:
  "resolveStreamMode (Some ''plan'') False False = PlanMode \<and>
   (PlanMode = PlanMode \<and> ''Read'' \<in> {''mcp__alive-sandboxed-fs__Read'', ''mcp__alive-sandboxed-fs__Glob'',
        ''mcp__alive-sandboxed-fs__Grep'', ''Read'', ''Glob'', ''Grep'', ''BashOutput'', ''TaskOutput'', ''WebFetch'',
        ''WebSearch'', ''AskUserQuestion'', ''TodoWrite'', ''Skill''} \<or>
    PlanMode = SuperadminMode \<and> False \<and> ''Read'' \<in> {''Bash'', ''BashOutput'', ''AskUserQuestion''})"
proof -
  let ?ctx = "createStreamToolContext False False False Systemd (Some PlanMode) [] []"
  have "case jget SDK_TOOL_POLICIES ''Read'' of Some p \<Rightarrow> permits p ''Read'' ?ctx | None \<Rightarrow> False"
    and n: "''Read'' \<in> set STREAM_SDK_TOOL_NAMES"
    by code_simp+
  then obtain p where "jget SDK_TOOL_POLICIES ''Read'' = Some p" "permits p ''Read'' ?ctx" by (auto split: option.splits)
  then have a: "createStreamCanUseTool ?ctx (rt_allowedTools (buildStreamToolRuntimeConfig [] ?ctx)) ''Read'' = Some AllowTool"
    using n by (rule sdk_tool_allowed)
  have r: "resolveStreamMode (Some ''plan'') False False = PlanMode" by code_simp
  have m: "tc_mode ?ctx = PlanMode" by (simp add: createStreamToolContext_def)
  show ?thesis using mode_restricts_tools [OF a, unfolded m, OF r [symmetric]] r by blast
qed

lemma e2b_closes_host_tools':
  assumes "tc_workspaceKind ctx = E2b"
    and "t \<in> {''Read'', ''Write'', ''Edit'', ''Glob'', ''Grep'', ''Bash'', ''NotebookEdit''}"
  shows "createStreamCanUseTool ctx allowed t \<noteq> Some AllowTool \<and>
    t \<in> set (rt_disallowedTools (buildStreamToolRuntimeConfig enabled ctx)) \<and>
    t \<notin> set (rt_allowedTools (buildStreamToolRuntimeConfig enabled ctx))"
proof -
  have "list_all (\<lambda>t. t \<in> set STREAM_SDK_TOOL_NAMES \<and> \<not> starts_with ''mcp__'' t \<and>
      (case jget SDK_TOOL_POLICIES t of Some p \<Rightarrow> E2b \<notin> set (tp_workspaceKinds p) \<and> \<not> tp_requiresUserApproval p | None \<Rightarrow> False))
      [''Read'', ''Write'', ''Edit'', ''Glob'', ''Grep'', ''Bash'', ''NotebookEdit'']"
    by code_simp
  moreover have "t \<in> set [''Read'', ''Write'', ''Edit'', ''Glob'', ''Grep'', ''Bash'', ''NotebookEdit'']"
    using assms(2) unfolding list.set .
  ultimately have t0: "t \<in> set STREAM_SDK_TOOL_NAMES" "\<not> starts_with ''mcp__'' t"
      "case jget SDK_TOOL_POLICIES t of Some p \<Rightarrow> E2b \<notin> set (tp_workspaceKinds p) \<and> \<not> tp_requiresUserApproval p | None \<Rightarrow> False"
    unfolding list_all_iff by blast+
  then obtain p where p: "jget SDK_TOOL_POLICIES t = Some p" "E2b \<notin> set (tp_workspaceKinds p)" "\<not> tp_requiresUserApproval p"
    by (auto split: option.splits)
  note look = sdk_lookup(3,4) [OF p(1)]
  note t = t0(1,2)
  have na: "\<not> isUserApprovalTool t" using look(2) p(3) by simp
  obtain d where d: "getStreamToolDecision t ctx = Some d" "td_policyFound d" "\<not> td_executable d"
    using decision_own [OF look(1), of ctx] p(2) assms(1) by (auto simp: permits_def)
  have "createStreamCanUseTool ctx allowed t \<noteq> Some AllowTool" using d by (simp add: createStreamCanUseTool_def)
  moreover have "\<not> executable_for ctx t" using d by (simp add: executable_for_def)
  moreover have "\<not> starts_with ''mcp__alive-'' t" using t(2) by (auto simp: starts_with_iff)
  moreover have "t \<notin> set getGlobalMcpToolNames" using t(2) registry_names(3) by (auto simp: list_all_iff)
  ultimately show ?thesis using t(1) na
    by (auto simp: buildStreamToolRuntimeConfig_def Let_def getInternalMcpToolsForPolicyEvaluation_def)
qed

text \<open>
  In a sandboxed workspace the host's file and shell tools are closed: whatever the role, the mode
  and the other settings, the callback never allows one of them, and they stand in the list of
  disallowed tools handed to the SDK and not in the allowed one.
\<close>

theorem e2b_closes_host_tools:
  assumes "tc_workspaceKind ctx = E2b"
    and "t \<in> {''Read'', ''Write'', ''Edit'', ''Glob'', ''Grep'', ''Bash'', ''NotebookEdit''}"
  shows "createStreamCanUseTool ctx allowed t \<noteq> Some AllowTool \<and>
    t \<in> set (rt_disallowedTools (buildStreamToolRuntimeConfig enabled ctx)) \<and>
    t \<notin> set (rt_allowedTools (buildStreamToolRuntimeConfig enabled ctx))"
  by (rule e2b_closes_host_tools' [OF assms])

definition superadmin_e2b :: tool_context where
  "superadmin_e2b = createStreamToolContext True True False E2bExecution None [] []"

theorem e2b_closes_host_tools_witness:
  "createStreamCanUseTool superadmin_e2b [''Bash''] ''Bash'' \<noteq> Some AllowTool \<and>
   ''Bash'' \<in> set (rt_disallowedTools (buildStreamToolRuntimeConfig [] superadmin_e2b))"
proof -
  have "tc_workspaceKind superadmin_e2b = E2b" by code_simp
  then show ?thesis using e2b_closes_host_tools [of superadmin_e2b "''Bash''" "[''Bash'']" "[]"] by simp
qed

text \<open>
  Execution through the search tool does not consult the policies: in a sandboxed workspace in the
  default mode the callback allows the search tool and denies \<open>switch_serve_mode\<close>, which the
  table restricts to sites, and the search tool runs it all the same. It runs exactly the enabled
  discoverable tools, in any context.
\<close>

theorem search_tool_bypasses_policy:
  "createStreamCanUseTool superadmin_e2b (getInternalMcpToolNames (Some True) None) ''mcp__alive-tools__search_tools''
     = Some AllowTool \<and>
   createStreamCanUseTool superadmin_e2b (getInternalMcpToolNames (Some True) None)
     ''mcp__alive-workspace__switch_serve_mode'' \<noteq> Some AllowTool \<and>
   executeDiscoverableTool handler ''switch_serve_mode'' = Ran (handler ''switch_serve_mode'') \<and>
   (executeDiscoverableTool handler n = Ran r \<longleftrightarrow>
      r = handler n \<and> n \<in> {''debug_workspace'', ''read_server_logs'', ''ask_automation_config'', ''list_automations'',
        ''check_codebase'', ''switch_serve_mode'', ''copy_shared_asset''})"
proof -
  have d: "DISCOVERABLE_TOOL_NAMES = [''debug_workspace'', ''read_server_logs'', ''ask_automation_config'',
      ''list_automations'', ''check_codebase'', ''switch_serve_mode'', ''copy_shared_asset'']"
    by code_simp
  have h: "list_all (\<lambda>n. n \<in> set HANDLED_TOOLS) DISCOVERABLE_TOOL_NAMES" by code_simp
  have e: "executeDiscoverableTool handler n = (if n \<in> set DISCOVERABLE_TOOL_NAMES then Ran (handler n) else NotDiscoverable)" for n
    using h by (auto simp: executeDiscoverableTool_def list_all_iff)
  have s: "''switch_serve_mode'' \<in> set DISCOVERABLE_TOOL_NAMES" unfolding d by (simp only: list.set insert_iff simp_thms)
  have c1: "createStreamCanUseTool superadmin_e2b (getInternalMcpToolNames (Some True) None) ''mcp__alive-tools__search_tools'' = Some AllowTool"
    by code_simp
  have c2: "td_policyFound (the (getStreamToolDecision ''mcp__alive-workspace__switch_serve_mode'' superadmin_e2b))"
    "\<not> td_executable (the (getStreamToolDecision ''mcp__alive-workspace__switch_serve_mode'' superadmin_e2b))"
    by code_simp+
  have "createStreamCanUseTool superadmin_e2b (getInternalMcpToolNames (Some True) None)
     ''mcp__alive-workspace__switch_serve_mode'' \<noteq> Some AllowTool"
    using c2 by (auto simp: createStreamCanUseTool_def split: option.splits)
  moreover have "n \<in> set DISCOVERABLE_TOOL_NAMES \<longleftrightarrow> n \<in> {''debug_workspace'', ''read_server_logs'', ''ask_automation_config'', ''list_automations'',
        ''check_codebase'', ''switch_serve_mode'', ''copy_shared_asset''}"
    unfolding d list.set ..
  ultimately show ?thesis using c1 s unfolding e by auto
qed

text \<open>The policies give a superadmin in a sandboxed workspace no file tool, neither the host's nor the sandboxed.\<close>

lemma superadmin_without_files:
  "list_all (\<lambda>t. \<not> executable_for superadmin_e2b t)
     [''Read'', ''Write'', ''mcp__alive-sandboxed-fs__Read'', ''mcp__alive-sandboxed-fs__Write'']"
  by code_simp

text \<open>The name of an inherited member makes the decision raise.\<close>

lemma inherited_name_raises: "getStreamToolDecision ''constructor'' ctx = None"
proof -
  have "getEffectivePolicyForTool ''constructor'' = Inherited" by code_simp
  then show ?thesis by (simp add: getStreamToolDecision_def)
qed

end
