(* ===== verification/WorkerTools.thy ===== *)
theory WorkerTools
  imports ToolPolicy Json
begin

section \<open>The tools of a worker session\<close>

text \<open>
  The setup of a query in \<open>packages/worker-pool/src/worker-entry.mjs\<close> (\<open>handleQuery\<close>): the validation of
  the payload, and the tools and MCP servers handed to the agent SDK, with
  \<open>packages/shared/src/mcp-runtime.ts\<close> and the tool lists of the stream route. The payload is the
  JSON value that came over the socket; whether an HTTP server answers and whether a sandbox can be
  had are parameters.
\<close>

subsection \<open>Types of JSON values\<close>

fun js_truthy :: "json option \<Rightarrow> bool" where
  "js_truthy None = False"
| "js_truthy (Some JNull) = False"
| "js_truthy (Some (JBool b)) = b"
| "js_truthy (Some (JNum n)) = (n \<noteq> 0)"
| "js_truthy (Some (JStr s)) = (s \<noteq> [])"
| "js_truthy (Some _) = True"

fun is_string :: "json option \<Rightarrow> bool" where
  "is_string (Some (JStr s)) = True"
| "is_string _ = False"

fun is_array :: "json option \<Rightarrow> bool" where
  "is_array (Some (JArr xs)) = True"
| "is_array _ = False"

text \<open>\<open>typeof x === "object"\<close> and not null.\<close>

fun is_object :: "json option \<Rightarrow> bool" where
  "is_object (Some (JArr xs)) = True"
| "is_object (Some (JObj m)) = True"
| "is_object _ = False"

fun all_strings :: "json option \<Rightarrow> bool" where
  "all_strings (Some (JArr xs)) = list_all (\<lambda>x. is_string (Some x)) xs"
| "all_strings _ = True"

text \<open>\<open>Number.isInteger(x) && x \<ge> 1\<close>.\<close>

fun is_positive_int :: "json option \<Rightarrow> bool" where
  "is_positive_int (Some (JNum n)) = (n \<in> \<int> \<and> n \<ge> 1)"
| "is_positive_int _ = False"

lemma is_int_rat [code]: "(n :: rat) \<in> \<int> \<longleftrightarrow> snd (quotient_of n) = 1"
proof
  assume "n \<in> \<int>"
  then obtain k where "n = of_int k" by (auto elim: Ints_cases)
  then show "snd (quotient_of n) = 1" by simp
next
  assume "snd (quotient_of n) = 1"
  then have "quotient_of n = (fst (quotient_of n), 1)" by (metis prod.collapse)
  then have "n = of_int (fst (quotient_of n))" using quotient_of_div by fastforce
  then show "n \<in> \<int>" by (metis Ints_of_int)
qed

text \<open>The strings of an array, and the enumerable properties of an object.\<close>

fun strings_of :: "json option \<Rightarrow> string list" where
  "strings_of (Some (JArr xs)) = concat (map (\<lambda>x. case x of JStr s \<Rightarrow> [s] | _ \<Rightarrow> []) xs)"
| "strings_of _ = []"

fun entries_of :: "json option \<Rightarrow> (string \<times> json) list" where
  "entries_of (Some (JObj m)) = m"
| "entries_of (Some (JArr xs)) = map (\<lambda>(i, x). (digits i, x)) (enumerate 0 xs)"
| "entries_of _ = []"

abbreviation field :: "json option \<Rightarrow> string \<Rightarrow> json option" where
  "field v k \<equiv> Option.bind v (\<lambda>x. getObjectProperty x k)"

subsection \<open>Validation\<close>

definition complain :: "bool \<Rightarrow> string \<Rightarrow> string list" where
  "complain bad msg = (if bad then [msg] else [])"

definition quoted :: "string \<Rightarrow> string" where
  "quoted s = [CHR 0x27] @ s @ [CHR 0x27]"

definition string_list_errors :: "string \<Rightarrow> json option \<Rightarrow> string list" where
  "string_list_errors name v =
     (if \<not> is_array v then [name @ '' must be an array'']
      else complain (\<not> all_strings v) (name @ '' must contain only strings''))"

definition sandboxDomain_errors :: "json option \<Rightarrow> string list" where
  "sandboxDomain_errors d =
     (if \<not> is_object d then [''sandboxDomain is required when executionMode is '' @ quoted ''e2b'']
      else complain (\<not> (is_string (field d ''domain_id'') \<and> js_truthy (field d ''domain_id'')))
             ''sandboxDomain.domain_id must be a non-empty string'' @
           complain (\<not> (is_string (field d ''hostname'') \<and> js_truthy (field d ''hostname'')))
             ''sandboxDomain.hostname must be a non-empty string'' @
           complain (\<not> is_positive_int (field d ''port'')) ''sandboxDomain.port must be a positive integer'' @
           complain (field d ''sandbox_id'' \<noteq> Some JNull \<and> \<not> is_string (field d ''sandbox_id''))
             ''sandboxDomain.sandbox_id must be string|null'' @
           complain (field d ''sandbox_status'' \<notin>
               {Some JNull, Some (JStr ''creating''), Some (JStr ''running''), Some (JStr ''paused''), Some (JStr ''dead'')})
             (''sandboxDomain.sandbox_status must be '' @ join_with ''|'' [quoted ''creating'', quoted ''running'', quoted ''dead'', ''null'']) @
           complain (case field d ''is_test_env'' of None \<Rightarrow> False | Some (JBool b) \<Rightarrow> False | _ \<Rightarrow> True)
             ''sandboxDomain.is_test_env must be boolean|undefined'')"

definition streamTypes_errors :: "json option \<Rightarrow> string list" where
  "streamTypes_errors v =
     (if \<not> is_object v then [''streamTypes must be an object'']
      else concat (map (\<lambda>f. complain (\<not> is_string (field v f)) (''streamTypes.'' @ f @ '' must be a string''))
             [''SESSION'', ''MESSAGE'', ''COMPLETE'', ''ERROR'']))"

definition validationErrors :: "json \<Rightarrow> string list" where
  "validationErrors payload =
     (let p = Some payload; c = field p ''agentConfig'';
          optional_string = (\<lambda>k. complain (field p k \<noteq> None \<and> \<not> is_string (field p k)) (k @ '' must be a string''));
          optional_object = (\<lambda>v k. complain (v \<noteq> None \<and> \<not> is_object v) (k @ '' must be an object''))
      in complain (\<not> is_string (field p ''message'')) ''message must be a string'' @
         string_list_errors ''allowedTools'' (field c ''allowedTools'') @
         string_list_errors ''disallowedTools'' (field c ''disallowedTools'') @
         complain (\<not> is_string (field c ''permissionMode'')) ''permissionMode must be a string'' @
         string_list_errors ''settingSources'' (field c ''settingSources'') @
         streamTypes_errors (field c ''streamTypes'') @
         optional_string ''sessionCookie'' @ optional_string ''model'' @ optional_string ''systemPrompt'' @
         optional_string ''resume'' @
         complain (field p ''apiKey'' \<noteq> None) ''apiKey is not supported; use oauthAccessToken'' @
         complain (\<not> (is_string (field p ''oauthAccessToken'') \<and> js_truthy (field p ''oauthAccessToken'')))
           ''oauthAccessToken is required and must be a non-empty string'' @
         complain (field p ''maxTurns'' \<noteq> None \<and> \<not> is_positive_int (field p ''maxTurns'')) ''maxTurns must be a positive integer'' @
         complain (field p ''executionMode'' \<notin> {None, Some (JStr ''systemd''), Some (JStr ''e2b'')})
           (''executionMode must be '' @ quoted ''systemd'' @ '' or '' @ quoted ''e2b'') @
         (if field p ''executionMode'' = Some (JStr ''e2b'') then sandboxDomain_errors (field p ''sandboxDomain'') else []) @
         optional_object (field c ''oauthMcpServers'') ''oauthMcpServers'' @
         optional_object (field p ''oauthTokens'') ''oauthTokens'' @
         optional_object (field p ''userEnvKeys'') ''userEnvKeys'' @
         (if field c ''extraTools'' \<in> {None, Some JNull} then [] else string_list_errors ''extraTools'' (field c ''extraTools'')))"

subsection \<open>Reachable servers\<close>

text \<open>The server key between the prefix and the next double underscore.\<close>

definition extractMcpServerKey :: "string \<Rightarrow> string option" where
  "extractMcpServerKey t =
     (if \<not> starts_with ''mcp__'' t then None
      else case split_dunder (drop 5 t) of w # v # ws \<Rightarrow> Some w | _ \<Rightarrow> None)"

definition MCP_HTTP_PROBE_CACHE_TTL_MS :: int where
  "MCP_HTTP_PROBE_CACHE_TTL_MS = 10000"

record probe_entry =
  pe_checkedAt :: int
  pe_reachable :: bool

text \<open>One probe; \<open>answers\<close> is what a request to the address does now.\<close>

definition probeGlobalMcpHttpServer ::
    "int \<Rightarrow> (string \<Rightarrow> bool) \<Rightarrow> string \<Rightarrow> (string, probe_entry) jsmap \<Rightarrow> bool \<times> (string, probe_entry) jsmap" where
  "probeGlobalMcpHttpServer now answers url cache =
     (let fresh = (answers url, jset url \<lparr>pe_checkedAt = now, pe_reachable = answers url\<rparr> cache)
      in case jget cache url of
           None \<Rightarrow> fresh
         | Some e \<Rightarrow> if now - pe_checkedAt e < MCP_HTTP_PROBE_CACHE_TTL_MS then (pe_reachable e, cache) else fresh)"

record reachable_servers =
  rs_filteredAllowedTools :: "string list"
  rs_reachableServers :: "(string, string) jsmap"
  rs_skippedServers :: "string list"

text \<open>
  The outcome of the probes is \<open>up\<close>; the key of an inherited member has no address and is not
  reachable. Servers are listed in the order of their first tool.
\<close>

definition server_up :: "(string, global_provider) jsmap \<Rightarrow> (string \<Rightarrow> bool) \<Rightarrow> string \<Rightarrow> bool" where
  "server_up providers up k \<longleftrightarrow> (case member_of providers k of Own c \<Rightarrow> up (gp_url c) | _ \<Rightarrow> False)"

definition resolveReachableGlobalMcpServers ::
    "(string, global_provider) jsmap \<Rightarrow> (string \<Rightarrow> bool) \<Rightarrow> string list \<Rightarrow> reachable_servers" where
  "resolveReachableGlobalMcpServers providers up allowedTools =
     (let refs = dedupeStrings (concat (map (\<lambda>t. case extractMcpServerKey t of
                    Some k \<Rightarrow> if in_object k providers then [k] else [] | None \<Rightarrow> []) allowedTools))
      in if refs = [] then \<lparr>rs_filteredAllowedTools = allowedTools, rs_reachableServers = [], rs_skippedServers = []\<rparr>
         else \<lparr>rs_filteredAllowedTools =
                 filter (\<lambda>t. case extractMcpServerKey t of
                    None \<Rightarrow> True
                  | Some k \<Rightarrow> k = [] \<or> \<not> in_object k providers \<or> server_up providers up k) allowedTools,
               rs_reachableServers =
                 concat (map (\<lambda>k. case member_of providers k of
                    Own c \<Rightarrow> if up (gp_url c) then [(k, gp_url c)] else [] | _ \<Rightarrow> []) refs),
               rs_skippedServers = filter (\<lambda>k. \<not> server_up providers up k) refs\<rparr>)"

subsection \<open>Setup of a query\<close>

definition E2B_DISABLED_SDK_TOOLS :: "string list" where
  "E2B_DISABLED_SDK_TOOLS = [''Read'', ''Write'', ''Edit'', ''Bash'', ''Glob'', ''Grep'', ''NotebookEdit'']"

definition E2B_MCP_TOOLS :: "string list" where
  "E2B_MCP_TOOLS =
     [''mcp__e2b__Read'', ''mcp__e2b__Write'', ''mcp__e2b__Edit'', ''mcp__e2b__Glob'', ''mcp__e2b__Grep'', ''mcp__e2b__Bash'']"

definition connected_providers :: "json option \<Rightarrow> string list" where
  "connected_providers oauthTokens = map fst (filter (\<lambda>(k, v). js_truthy (Some v)) (entries_of oauthTokens))"

text \<open>The tools of the connected providers, added without regard to the mode.\<close>

definition add_provider_tools :: "string list \<Rightarrow> string list \<Rightarrow> string list" where
  "add_provider_tools providers allowed =
     allowed @ concat (map (\<lambda>k. case member_of OAUTH_MCP_PROVIDERS k of Own c \<Rightarrow> mp_knownTools c | _ \<Rightarrow> []) providers)"

definition worker_mode :: "json option \<Rightarrow> stream_mode" where
  "worker_mode c =
     resolveStreamMode
       (case field c ''streamMode'' of
          Some (JStr s) \<Rightarrow> if isStreamMode s = None then Some ''default'' else Some s
        | _ \<Rightarrow> Some ''default'')
       (js_truthy (field c ''isAdmin'')) (js_truthy (field c ''isSuperadmin''))"

text \<open>The server named by \<open>mcp__server__...\<close>, the name without underscores.\<close>

definition optional_server_of :: "string \<Rightarrow> string option" where
  "optional_server_of t =
     (let name = takeWhile (\<lambda>c. c \<noteq> CHR ''_'') (drop 5 t); rest = dropWhile (\<lambda>c. c \<noteq> CHR ''_'') (drop 5 t)
      in if starts_with ''mcp__'' t \<and> name \<noteq> [] \<and> starts_with ''__'' rest then Some name else None)"

definition optional_servers :: "json option \<Rightarrow> string list" where
  "optional_servers extraTools =
     dedupeStrings (concat (map (\<lambda>t. case optional_server_of t of
         Some n \<Rightarrow> if in_object n [(''alive-email'', ())] then [n] else [] | None \<Rightarrow> []) (strings_of extraTools)))"

datatype worker_mcp = LocalMcp | OptionalMcp | GlobalMcp string | OAuthMcp json | E2bMcp

definition session_servers ::
    "bool \<Rightarrow> string list \<Rightarrow> string list \<Rightarrow> (string, string) jsmap \<Rightarrow> json option \<Rightarrow> (string, worker_mcp) jsmap" where
  "session_servers mcpEnabled allowed optional reachable oauth =
     (if \<not> mcpEnabled then []
      else
        (let m0 = [(''alive-workspace'', LocalMcp), (''alive-tools'', LocalMcp)];
             m1 = (if list_ex (starts_with ''mcp__alive-sandboxed-fs__'') allowed then jset ''alive-sandboxed-fs'' LocalMcp m0 else m0);
             m2 = fold (\<lambda>n. jset n OptionalMcp) optional m1;
             m3 = fold (\<lambda>(k, url). jset k (GlobalMcp url)) reachable m2
         in fold (\<lambda>(k, v). jset k (OAuthMcp v)) (entries_of oauth) m3))"

record session_setup =
  ss_allowedTools :: "string list"
  ss_disallowedTools :: "string list"
  ss_servers :: "(string, worker_mcp) jsmap"
  ss_context :: tool_context

datatype setup_result = Refused "string list" | Failed | Ready session_setup

text \<open>\<open>sandbox\<close> says whether a sandbox can be had for the domain of the payload.\<close>

definition setupQuery :: "(string \<Rightarrow> bool) \<Rightarrow> bool \<Rightarrow> json \<Rightarrow> setup_result" where
  "setupQuery up sandbox payload =
     (let p = Some payload; c = field p ''agentConfig''
      in if \<not> js_truthy c then Refused [''Missing agentConfig in payload'']
         else if validationErrors payload \<noteq> [] then Refused (validationErrors payload)
         else
           (let providers = connected_providers (field p ''oauthTokens'');
                allowed0 = add_provider_tools providers (strings_of (field c ''allowedTools''));
                mode = worker_mode c;
                e2b = (field p ''executionMode'' = Some (JStr ''e2b''));
                ctx = createStreamToolContext (js_truthy (field c ''isAdmin'')) (js_truthy (field c ''isSuperadmin''))
                        (js_truthy (field c ''isSuperadminWorkspace'')) (if e2b then E2bExecution else Systemd)
                        (Some mode) providers [];
                mcp = mc_mcpEnabled (STREAM_MODES mode);
                res = (if mcp then resolveReachableGlobalMcpServers GLOBAL_MCP_PROVIDERS up allowed0
                       else \<lparr>rs_filteredAllowedTools = allowed0, rs_reachableServers = [], rs_skippedServers = []\<rparr>);
                allowed = rs_filteredAllowedTools res;
                disallowed = strings_of (field c ''disallowedTools'');
                servers = session_servers mcp allowed (optional_servers (field c ''extraTools''))
                            (rs_reachableServers res) (field c ''oauthMcpServers'')
            in if e2b \<and> js_truthy (field p ''sandboxDomain'')
               then if \<not> mcp \<or> \<not> sandbox then Failed
                    else Ready \<lparr>ss_allowedTools = allowed @ E2B_MCP_TOOLS, ss_disallowedTools = disallowed @ E2B_DISABLED_SDK_TOOLS,
                                ss_servers = filter (\<lambda>(k, s). k = ''e2b'') (jset ''e2b'' E2bMcp servers), ss_context = ctx\<rparr>
               else Ready \<lparr>ss_allowedTools = allowed, ss_disallowedTools = disallowed, ss_servers = servers, ss_context = ctx\<rparr>))"

text \<open>The lists of the stream route (\<open>agent-constants.mjs\<close>): the providers are not known there.\<close>

definition getAllowedTools :: "string list \<Rightarrow> bool \<Rightarrow> bool \<Rightarrow> bool \<Rightarrow> stream_mode \<Rightarrow> execution_mode \<Rightarrow> string list" where
  "getAllowedTools services isAdmin isSuperadmin isSuperadminWorkspace mode m =
     rt_allowedTools (buildStreamToolRuntimeConfig (getInternalMcpToolNames (Some True) None)
       (createStreamToolContext isAdmin isSuperadmin isSuperadminWorkspace m (Some mode) [] services))"

definition getDisallowedTools :: "string list \<Rightarrow> bool \<Rightarrow> bool \<Rightarrow> bool \<Rightarrow> stream_mode \<Rightarrow> execution_mode \<Rightarrow> string list" where
  "getDisallowedTools services isAdmin isSuperadmin isSuperadminWorkspace mode m =
     rt_disallowedTools (buildStreamToolRuntimeConfig (getInternalMcpToolNames (Some True) None)
       (createStreamToolContext isAdmin isSuperadmin isSuperadminWorkspace m (Some mode) [] services))"

subsection \<open>What a session is given\<close>

lemma external_not_in_plan:
  assumes "isExternalMcpTool t" and "tc_mode ctx = PlanMode"
  shows "\<not> executable_for ctx t"
proof
  assume ex: "executable_for ctx t"
  obtain p where p: "getEffectivePolicyForTool t = Own p" using external_has_policy [OF assms(1)] by blast
  have "permits p t ctx" using ex decision_own [OF p, of ctx] by (auto simp: executable_for_def)
  then have "t \<in> set (the (mc_modeTools (STREAM_MODES PlanMode)))"
    using assms(2) by (simp add: permits_def)
  moreover have "list_all (\<lambda>t. \<not> isExternalMcpTool t) (the (mc_modeTools (STREAM_MODES PlanMode)))" by code_simp
  ultimately show False using assms(1) unfolding list_all_iff by blast
qed

lemma known_tools_external:
  assumes "member_of OAUTH_MCP_PROVIDERS k = Own c" and "t \<in> set (mp_knownTools c)"
  shows "isExternalMcpTool t"
proof -
  have kc: "(k, c) \<in> set OAUTH_MCP_PROVIDERS"
    using assms(1) by (auto simp: member_of_def map_of_SomeD split: option.splits if_splits)
  then have "isOAuthMcpTool t [k]"
    using known_tools_prefixed [OF _ assms(2)] by (force simp: isOAuthMcpTool_def list_ex_iff)
  then show ?thesis by (rule oauth_tool_external)
qed

lemma resolve_subset:
  "set (rs_filteredAllowedTools (resolveReachableGlobalMcpServers providers up ts)) \<subseteq> set ts"
  by (auto simp: resolveReachableGlobalMcpServers_def Let_def)

lemma resolve_keeps:
  assumes "t \<in> set ts" and "\<And>k. extractMcpServerKey t = Some k \<Longrightarrow> \<not> in_object k providers"
  shows "t \<in> set (rs_filteredAllowedTools (resolveReachableGlobalMcpServers providers up ts))"
  using assms by (auto simp: resolveReachableGlobalMcpServers_def Let_def split: option.splits)

lemma setup_Ready:
  assumes "setupQuery up sandbox payload = Ready s"
  shows "validationErrors payload = []"
    and "js_truthy (field (Some payload) ''agentConfig'')"
  using assms by (auto simp: setupQuery_def Let_def split: if_splits)

lemma e2b_has_domain:
  assumes "validationErrors payload = []" and "field (Some payload) ''executionMode'' = Some (JStr ''e2b'')"
  shows "js_truthy (field (Some payload) ''sandboxDomain'')"
proof -
  have "sandboxDomain_errors (field (Some payload) ''sandboxDomain'') = []"
    using assms unfolding validationErrors_def Let_def append_is_Nil_conv by (simp only: if_P refl simp_thms)
  then have "is_object (field (Some payload) ''sandboxDomain'')"
    unfolding sandboxDomain_errors_def by (simp only: list.distinct split: if_splits)
  then show ?thesis by (cases "field (Some payload) ''sandboxDomain''" rule: is_object.cases) auto
qed

text \<open>Where the allowed tools of a session come from.\<close>

lemma allowed_sources:
  assumes "setupQuery up sandbox payload = Ready s" and "t \<in> set (ss_allowedTools s)"
  shows "t \<in> set (strings_of (field (field (Some payload) ''agentConfig'') ''allowedTools'')) \<or>
    (\<exists>k c. k \<in> set (connected_providers (field (Some payload) ''oauthTokens'')) \<and>
       member_of OAUTH_MCP_PROVIDERS k = Own c \<and> t \<in> set (mp_knownTools c)) \<or> t \<in> set E2B_MCP_TOOLS"
proof -
  let ?a0 = "add_provider_tools (connected_providers (field (Some payload) ''oauthTokens''))
      (strings_of (field (field (Some payload) ''agentConfig'') ''allowedTools''))"
  have "t \<in> set ?a0 \<union> set E2B_MCP_TOOLS"
    using assms resolve_subset [of GLOBAL_MCP_PROVIDERS up ?a0]
    unfolding setupQuery_def Let_def by (auto split: if_splits)
  then show ?thesis by (auto simp: add_provider_tools_def split: member.splits) (metis member.inject)+
qed

lemma jmap_ok_fold: "jmap_ok m \<Longrightarrow> jmap_ok (fold (\<lambda>x. jset (f x) (g x)) xs m)"
  by (induction xs arbitrary: m) auto

lemma jmap_ok_session: "jmap_ok (session_servers mcp allowed optional reachable oauth)"
proof -
  have split_fun: "(\<lambda>(k, v). jset k (h v)) = (\<lambda>x. jset (fst x) (h (snd x)))" for h :: "'a \<Rightarrow> worker_mcp"
    by auto
  show ?thesis unfolding session_servers_def Let_def split_fun by (auto intro!: jmap_ok_fold)
qed

lemma jset_only:
  "jmap_ok m \<Longrightarrow> filter (\<lambda>(k, s). k = x) (jset x v m) = [(x, v)]"
proof (induction m)
  case (Cons y m)
  then show ?case by (cases y) (force simp: filter_empty_conv)
qed simp

text \<open>
  C9. A sandboxed session cannot reach the host: when a query of a sandboxed workspace is set up, with
  the tool lists of the stream route and whatever providers are connected, the sandbox server is the
  only MCP server, every file and shell tool of the host is disallowed, and none is allowed.
\<close>

theorem e2b_session_isolated:
  assumes "setupQuery up sandbox payload = Ready s"
    and "field (Some payload) ''executionMode'' = Some (JStr ''e2b'')"
    and "strings_of (field (field (Some payload) ''agentConfig'') ''allowedTools'') =
      getAllowedTools services isAdmin isSuperadmin False mode E2bExecution"
  shows "ss_servers s = [(''e2b'', E2bMcp)] \<and> set E2B_DISABLED_SDK_TOOLS \<subseteq> set (ss_disallowedTools s) \<and>
    set E2B_DISABLED_SDK_TOOLS \<inter> set (ss_allowedTools s) = {}"
proof -
  have dom: "js_truthy (field (Some payload) ''sandboxDomain'')"
    using e2b_has_domain setup_Ready(1) assms by blast
  have ready: "ss_servers s = [(''e2b'', E2bMcp)]" "set E2B_DISABLED_SDK_TOOLS \<subseteq> set (ss_disallowedTools s)"
    using assms(1,2) dom jset_only [OF jmap_ok_session] unfolding setupQuery_def Let_def
    by (auto split: if_splits)
  have host: "list_all (\<lambda>t. \<not> starts_with ''mcp__'' t) E2B_DISABLED_SDK_TOOLS" and box: "list_all (starts_with ''mcp__'') E2B_MCP_TOOLS"
    by code_simp+
  have "t \<notin> set (ss_allowedTools s)" if t: "t \<in> set E2B_DISABLED_SDK_TOOLS" for t
  proof
    assume "t \<in> set (ss_allowedTools s)"
    then consider "t \<in> set (getAllowedTools services isAdmin isSuperadmin False mode E2bExecution)"
      | k c where "member_of OAUTH_MCP_PROVIDERS k = Own c" "t \<in> set (mp_knownTools c)" | "t \<in> set E2B_MCP_TOOLS"
      using allowed_sources [OF assms(1)] assms(3) by metis
    then show False
    proof cases
      case 1
      have "t \<in> {''Read'', ''Write'', ''Edit'', ''Glob'', ''Grep'', ''Bash'', ''NotebookEdit''}"
        using t by (simp only: E2B_DISABLED_SDK_TOOLS_def list.set insert_iff empty_iff simp_thms disj_comms)
      then show False
        using e2b_closes_host_tools' 1 by (simp add: getAllowedTools_def createStreamToolContext_def getStreamWorkspaceKind_def)
    next
      case 2
      then have "starts_with ''mcp__'' t" using known_tools_external by (simp add: isExternalMcpTool_def)
      then show False using t host unfolding list_all_iff by blast
    next
      case 3
      then show False using t host box unfolding list_all_iff by blast
    qed
  qed
  then show ?thesis using ready by blast
qed

text \<open>A payload with the given agent configuration.\<close>

definition sample_payload :: "(string \<times> json) list \<Rightarrow> (string \<times> json) list \<Rightarrow> json" where
  "sample_payload extra config =
     JObj ([(''message'', JStr ''hi''), (''oauthAccessToken'', JStr ''t''),
       (''agentConfig'', JObj ([(''permissionMode'', JStr ''default''), (''settingSources'', JArr []),
          (''streamTypes'', JObj [(''SESSION'', JStr ''s''), (''MESSAGE'', JStr ''m''), (''COMPLETE'', JStr ''c''), (''ERROR'', JStr ''e'')])]
          @ config))] @ extra)"

definition e2b_payload :: json where
  "e2b_payload = sample_payload
     [(''executionMode'', JStr ''e2b''), (''sandboxDomain'', JObj [(''domain_id'', JStr ''d''), (''hostname'', JStr ''h''),
        (''port'', JNum 1), (''sandbox_id'', JNull), (''sandbox_status'', JNull)])]
     [(''allowedTools'', JArr (map JStr (getAllowedTools [] False False False DefaultMode E2bExecution))),
      (''disallowedTools'', JArr [])]"

definition plan_payload :: json where
  "plan_payload = sample_payload
     [(''oauthTokens'', JObj [(''stripe'', JStr ''tok'')])]
     [(''allowedTools'', JArr [JStr ''Read'']), (''disallowedTools'', JArr []), (''streamMode'', JStr ''plan''),
      (''oauthMcpServers'', JObj [(''stripe'', JObj [])])]"

lemma strings_of_map: "strings_of (Some (JArr (map JStr ts))) = ts"
  by (induction ts) auto

lemma all_strings_map: "list_all (\<lambda>x. is_string (Some x)) (map JStr ts)"
  by (simp add: list_all_iff)

lemma e2b_payload_fields:
  "field (Some e2b_payload) ''executionMode'' = Some (JStr ''e2b'')"
  "field (field (Some e2b_payload) ''agentConfig'') ''allowedTools'' =
     Some (JArr (map JStr (getAllowedTools [] False False False DefaultMode E2bExecution)))"
  by (simp_all add: e2b_payload_def sample_payload_def)

lemma e2b_payload_valid: "validationErrors e2b_payload = []"
  unfolding validationErrors_def Let_def
  by (simp add: e2b_payload_def sample_payload_def complain_def string_list_errors_def streamTypes_errors_def
      sandboxDomain_errors_def all_strings_map)

lemma e2b_payload_ready: "\<exists>s. setupQuery up True e2b_payload = Ready s"
proof -
  have "js_truthy (field (Some e2b_payload) ''agentConfig'')"
    and m: "worker_mode (field (Some e2b_payload) ''agentConfig'') = DefaultMode"
    by (simp_all add: e2b_payload_def sample_payload_def worker_mode_def resolveStreamMode_def isStreamMode_def
        STREAM_MODE_KEYS_def getStreamToolRole_def)
  then show ?thesis
    using e2b_payload_valid e2b_payload_fields(1) e2b_has_domain [OF e2b_payload_valid e2b_payload_fields(1)]
    by (simp add: setupQuery_def Let_def)
qed

theorem e2b_session_isolated_witness:
  "\<exists>s. setupQuery (\<lambda>url. True) True e2b_payload = Ready s \<and> ss_servers s = [(''e2b'', E2bMcp)] \<and>
     set E2B_DISABLED_SDK_TOOLS \<inter> set (ss_allowedTools s) = {}"
proof -
  obtain s where s: "setupQuery (\<lambda>url. True) True e2b_payload = Ready s" using e2b_payload_ready by blast
  have "strings_of (field (field (Some e2b_payload) ''agentConfig'') ''allowedTools'') =
      getAllowedTools [] False False False DefaultMode E2bExecution"
    unfolding e2b_payload_fields(2) by (rule strings_of_map)
  then show ?thesis using e2b_session_isolated [OF s e2b_payload_fields(1)] s by blast
qed

text \<open>
  Plan mode does not stay read-only: in a session whose mode is plan, every known tool of every
  connected provider is handed to the SDK as allowed, although the policy denies all of them in that
  mode; the worker adds them after the mode has been applied.
\<close>

theorem plan_mode_widened_by_providers:
  assumes "setupQuery up sandbox payload = Ready s" and "tc_mode (ss_context s) = PlanMode"
    and "k \<in> set (connected_providers (field (Some payload) ''oauthTokens''))"
    and "member_of OAUTH_MCP_PROVIDERS k = Own c" and "t \<in> set (mp_knownTools c)"
  shows "t \<in> set (ss_allowedTools s) \<and> \<not> executable_for (ss_context s) t"
proof
  let ?a0 = "add_provider_tools (connected_providers (field (Some payload) ''oauthTokens''))
      (strings_of (field (field (Some payload) ''agentConfig'') ''allowedTools''))"
  have t: "t \<in> set ?a0" using assms(3-5) by (force simp: add_provider_tools_def)
  have "list_all (\<lambda>(k, c). list_all (\<lambda>t. case extractMcpServerKey t of Some k \<Rightarrow> \<not> in_object k GLOBAL_MCP_PROVIDERS | None \<Rightarrow> True)
      (mp_knownTools c)) OAUTH_MCP_PROVIDERS"
    by code_simp
  moreover have "(k, c) \<in> set OAUTH_MCP_PROVIDERS"
    using assms(4) by (auto simp: member_of_def map_of_SomeD split: option.splits if_splits)
  ultimately have "case extractMcpServerKey t of Some k \<Rightarrow> \<not> in_object k GLOBAL_MCP_PROVIDERS | None \<Rightarrow> True"
    using assms(5) unfolding list_all_iff by (metis (mono_tags, lifting) case_prodD)
  then have "t \<in> set (rs_filteredAllowedTools (resolveReachableGlobalMcpServers GLOBAL_MCP_PROVIDERS up ?a0))"
    using t by (intro resolve_keeps) auto
  then show "t \<in> set (ss_allowedTools s)"
    using assms(1) t unfolding setupQuery_def Let_def by (auto split: if_splits)
  show "\<not> executable_for (ss_context s) t"
    using known_tools_external [OF assms(4,5)] assms(2) by (rule external_not_in_plan)
qed

theorem plan_mode_widened_by_providers_witness:
  "\<exists>s. setupQuery (\<lambda>url. True) True plan_payload = Ready s \<and> ''mcp__stripe__create_refund'' \<in> set (ss_allowedTools s) \<and>
     \<not> executable_for (ss_context s) ''mcp__stripe__create_refund''"
proof -
  have valid: "validationErrors plan_payload = []"
    unfolding validationErrors_def Let_def
    by (simp add: plan_payload_def sample_payload_def complain_def string_list_errors_def streamTypes_errors_def)
  have c: "js_truthy (field (Some plan_payload) ''agentConfig'')"
    and e: "field (Some plan_payload) ''executionMode'' = None"
    and m: "worker_mode (field (Some plan_payload) ''agentConfig'') = PlanMode"
    and k: "''stripe'' \<in> set (connected_providers (field (Some plan_payload) ''oauthTokens''))"
    by (simp_all add: plan_payload_def sample_payload_def worker_mode_def resolveStreamMode_def isStreamMode_def
        STREAM_MODE_KEYS_def getStreamToolRole_def connected_providers_def)
  obtain s where s: "setupQuery (\<lambda>url. True) True plan_payload = Ready s" and ctx: "tc_mode (ss_context s) = PlanMode"
    using valid c e m by (simp add: setupQuery_def Let_def createStreamToolContext_def)
  have own: "member_of OAUTH_MCP_PROVIDERS ''stripe'' = Own stripe_provider"
    and t: "''mcp__stripe__create_refund'' \<in> set (mp_knownTools stripe_provider)"
    by (simp_all add: member_of_def OAUTH_MCP_PROVIDERS_def stripe_provider_def)
  show ?thesis using plan_mode_widened_by_providers [OF s ctx k own t] s by blast
qed

text \<open>The sandbox tools are added in every mode too, the writing ones and the shell included.\<close>

lemma plan_mode_widened_by_sandbox:
  assumes "setupQuery up sandbox payload = Ready s" and "field (Some payload) ''executionMode'' = Some (JStr ''e2b'')"
    and "tc_mode (ss_context s) = PlanMode" and "t \<in> set E2B_MCP_TOOLS"
  shows "t \<in> set (ss_allowedTools s) \<and> \<not> executable_for (ss_context s) t"
proof
  show "t \<in> set (ss_allowedTools s)"
    using assms(1,2,4) e2b_has_domain [OF setup_Ready(1) [OF assms(1)] assms(2)]
    unfolding setupQuery_def Let_def by (auto split: if_splits)
  have "list_all isExternalMcpTool E2B_MCP_TOOLS" by code_simp
  then show "\<not> executable_for (ss_context s) t" using assms(3,4) external_not_in_plan by (simp add: list_all_iff)
qed

text \<open>The terminal mode cannot be used in a sandboxed workspace: the setup fails.\<close>

lemma terminal_mode_fails_in_sandbox:
  assumes "validationErrors payload = []" and "field (Some payload) ''executionMode'' = Some (JStr ''e2b'')"
    and "js_truthy (field (Some payload) ''agentConfig'')" and "worker_mode (field (Some payload) ''agentConfig'') = SuperadminMode"
  shows "setupQuery up sandbox payload = Failed"
  using assms e2b_has_domain [OF assms(1,2)] by (simp add: setupQuery_def Let_def)

end
