(* ===== verification/ToolCommands.thy ===== *)
theory ToolCommands
  imports SandboxedFs EnvIsolation
begin

section \<open>The command tools\<close>

text \<open>
  The Glob, Grep and Bash tools of \<open>packages/tools/src/tools/sandboxed-fs/index.ts\<close> with what they stand
  on: the output limits (\<open>packages/shared/src/output-limits.ts\<close>), the environment of subprocesses
  (\<open>packages/tools/src/lib/env-sanitizer.ts\<close>), the command line of \<open>safeSpawnSync\<close> and the guard against
  heavy shell commands (\<open>packages/shared/src/tools/stream-tools.ts\<close>). What a command does is a parameter.
\<close>

subsection \<open>Output limits\<close>

definition is_blank :: "char \<Rightarrow> bool" where
  "is_blank c \<longleftrightarrow> c = CHR '' '' \<or> c = CHR 0x09"

text \<open>\<open>replace(/[ \t]+$/gm, "")\<close>: a line ends before a line feed, a carriage return or the end.\<close>

fun trim_lines :: "string \<Rightarrow> string" where
  "trim_lines [] = []"
| "trim_lines (c # cs) =
     (if is_blank c \<and> (case dropWhile is_blank cs of [] \<Rightarrow> True | d # ds \<Rightarrow> d = newline \<or> d = CHR 0x0D)
      then trim_lines cs else c # trim_lines cs)"

definition normalizeWhitespace :: "string \<Rightarrow> string" where
  "normalizeWhitespace t = trim_lines (collapse_spaces (collapse_newlines t))"

definition DEFAULT_MAX_CHARS :: nat where "DEFAULT_MAX_CHARS = 8000"
definition DEFAULT_MAX_LINES :: nat where "DEFAULT_MAX_LINES = 50"
definition BASH_TIMEOUT_MS :: nat where "BASH_TIMEOUT_MS = 120000"
definition BASH_MAX_TIMEOUT_MS :: nat where "BASH_MAX_TIMEOUT_MS = 600000"
definition SEARCH_TIMEOUT_MS :: nat where "SEARCH_TIMEOUT_MS = 30000"

record truncate_options =
  to_maxChars :: "nat option"
  to_maxLines :: "nat option"
  to_suffix :: "string option"

definition SEARCH_OUTPUT :: truncate_options where
  "SEARCH_OUTPUT = \<lparr>to_maxChars = Some 20000, to_maxLines = Some 400, to_suffix = None\<rparr>"

definition BASH_OUTPUT :: truncate_options where
  "BASH_OUTPUT = \<lparr>to_maxChars = Some 20000, to_maxLines = Some 200, to_suffix = None\<rparr>"

text \<open>The number of omitted characters is counted from the text before normalisation and may be negative.\<close>

definition digits_int :: "int \<Rightarrow> string" where
  "digits_int k = (if k < 0 then ''-'' @ digits (nat (- k)) else digits (nat k))"

definition truncateOutput :: "string \<Rightarrow> truncate_options \<Rightarrow> string" where
  "truncateOutput out opts =
     (let maxChars = (case to_maxChars opts of None \<Rightarrow> DEFAULT_MAX_CHARS | Some k \<Rightarrow> k);
          maxLines = (case to_maxLines opts of None \<Rightarrow> DEFAULT_MAX_LINES | Some k \<Rightarrow> k);
          r0 = normalizeWhitespace out;
          ls = split_on newline r0;
          cut1 = length ls > maxLines;
          r1 = (if cut1 then join_with [newline] (take maxLines ls) else r0);
          t1 = (if cut1 then digits (length ls - maxLines) @ '' lines'' else []);
          cut2 = length r1 > maxChars;
          r2 = (if cut2 then take maxChars r1 else r1);
          chars = digits_int (int (length out) - int maxChars) @ '' chars'';
          t2 = (if cut2 then (if t1 = [] then chars else t1 @ '', '' @ chars) else t1)
      in if cut1 \<or> cut2
         then r2 @ (case to_suffix opts of Some s \<Rightarrow> s
                    | None \<Rightarrow> [newline, newline] @ ''... truncated ('' @ t2 @ '' omitted, limit: '' @ digits maxLines @
                        '' lines / '' @ digits maxChars @ '' chars)'')
         else r2)"

subsection \<open>Subprocesses\<close>

definition DENIED_ENV_KEYS :: "string list" where
  "DENIED_ENV_KEYS =
     [''SUPABASE_URL'', ''SUPABASE_SERVICE_ROLE_KEY'', ''SUPABASE_SERVICE_KEY'', ''SUPABASE_ACCESS_TOKEN'',
      ''SUPABASE_PROJECT_ID'', ''DATABASE_URL'', ''DATABASE_PASSWORD'', ''JWT_SECRET'', ''LOCKBOX_MASTER_KEY'',
      ''REDIS_URL'', ''ANTHROPIC_API_KEY'', ''ANTH_API_SECRET'', ''ASK_LARS_KEY'', ''GROQ_API_SECRET'',
      ''STRIPE_OAUTH_TOKEN'', ''LINEAR_CLIENT_SECRET'', ''GOOGLE_CLIENT_SECRET'', ''POLAR_ACCESS_TOKEN'',
      ''POLAR_WEBHOOK_SECRET'', ''SHELL_PASSWORD'', ''E2E_TEST_SECRET'', ''INTERNAL_WEBHOOK_SECRET'']"

definition CLEARED_ENV_KEYS :: "string list" where
  "CLEARED_ENV_KEYS =
     [''XDG_CACHE_HOME'', ''XDG_CONFIG_HOME'', ''XDG_DATA_HOME'', ''XDG_STATE_HOME'', ''BUN_INSTALL'',
      ''BUN_INSTALL_CACHE_DIR'', ''BUN_INSTALL_BIN'', ''BUN_INSTALL_GLOBAL_DIR'', ''NPM_CONFIG_CACHE'',
      ''NPM_CONFIG_PREFIX'', ''PNPM_HOME'', ''YARN_CACHE_FOLDER'']"

definition sanitizeSubprocessEnv :: "env \<Rightarrow> env" where
  "sanitizeSubprocessEnv parent =
     (let e0 = filter (\<lambda>(k, v). k \<notin> set DENIED_ENV_KEYS) parent;
          e1 = jset ''TEMP'' ''/tmp'' (jset ''TMP'' ''/tmp'' (jset ''TMPDIR'' ''/tmp'' e0))
      in fold jdel CLEARED_ENV_KEYS e1)"

record spawn_result =
  sr_error :: "string option"
  sr_status :: "int option"
  sr_stdout :: string
  sr_stderr :: string

text \<open>On Linux the command runs under \<open>timeout\<close>, in whole seconds.\<close>

definition safeSpawnArgs :: "nat \<Rightarrow> string \<Rightarrow> string list \<Rightarrow> string list" where
  "safeSpawnArgs timeoutMs command args =
     [''timeout'', ''--kill-after=5'', digits ((timeoutMs + 999) div 1000), command] @ args"

type_synonym runner = "string list \<Rightarrow> env \<Rightarrow> spawn_result"

definition no_matches :: string where
  "no_matches = ''(no matches)''"

datatype command_result = Refusal | Fail string | Output string | ErrorOutput string

subsection \<open>Glob and Grep\<close>

definition globTool :: "runner \<Rightarrow> env \<Rightarrow> string list \<Rightarrow> fs \<Rightarrow> string \<Rightarrow> string \<Rightarrow> string option \<Rightarrow> tool_failure + command_result" where
  "globTool run parent bases fs cwd pattern path =
     (case getWorkspaceRoot bases fs cwd of
        None \<Rightarrow> Inr Refusal
      | Some root \<Rightarrow>
          (case assertSearchPath fs path root of
             Inl e \<Rightarrow> Inl e
           | Inr r \<Rightarrow>
               (let res = run (safeSpawnArgs SEARCH_TIMEOUT_MS ''rg'' (globArgs pattern (render_path r))) (sanitizeSubprocessEnv parent);
                    out = trim (sr_stdout res)
                in Inr (case sr_error res of
                     Some m \<Rightarrow> Fail m
                   | None \<Rightarrow> if sr_status res \<noteq> Some 0 \<and> out = [] then Output no_matches
                             else if out = [] then Output no_matches
                             else Output (truncateOutput out SEARCH_OUTPUT)))))"

definition grepTool ::
    "runner \<Rightarrow> env \<Rightarrow> string list \<Rightarrow> fs \<Rightarrow> string \<Rightarrow> string \<Rightarrow> string option \<Rightarrow> string option \<Rightarrow> nat option
       \<Rightarrow> tool_failure + command_result" where
  "grepTool run parent bases fs cwd pattern path include max_results =
     (case getWorkspaceRoot bases fs cwd of
        None \<Rightarrow> Inr Refusal
      | Some root \<Rightarrow>
          (case assertSearchPath fs path root of
             Inl e \<Rightarrow> Inl e
           | Inr r \<Rightarrow>
               (let res = run (safeSpawnArgs SEARCH_TIMEOUT_MS ''rg'' (grepArgs pattern include max_results (render_path r)))
                            (sanitizeSubprocessEnv parent);
                    out = trim (sr_stdout res); errs = trim (sr_stderr res)
                in Inr (case sr_error res of
                     Some m \<Rightarrow> Fail m
                   | None \<Rightarrow> if sr_status res = Some 1 \<and> out = [] then Output no_matches
                             else if sr_status res \<noteq> Some 0 \<and> errs \<noteq> [] then Fail errs
                             else if out = [] then Output no_matches
                             else Output (truncateOutput out SEARCH_OUTPUT)))))"

subsection \<open>Regular expressions of the shell guard\<close>

datatype regex =
    Cls "char \<Rightarrow> bool"
  | Plus "char \<Rightarrow> bool"
  | Then regex regex
  | Or regex regex
  | Opt regex
  | WordB
  | Bol
  | Eol

definition word_char :: "char \<Rightarrow> bool" where
  "word_char c \<longleftrightarrow> (let n = of_char c :: nat in (48 \<le> n \<and> n \<le> 57) \<or> (65 \<le> n \<and> n \<le> 90) \<or> n = 95 \<or> (97 \<le> n \<and> n \<le> 122))"

definition word_at :: "string \<Rightarrow> nat \<Rightarrow> bool" where
  "word_at s i \<longleftrightarrow> i < length s \<and> word_char (s ! i)"

text \<open>The positions where a match that starts at \<open>i\<close> can end.\<close>

fun match_ends :: "regex \<Rightarrow> string \<Rightarrow> nat \<Rightarrow> nat list" where
  "match_ends (Cls P) s i = (if i < length s \<and> P (s ! i) then [Suc i] else [])"
| "match_ends (Plus P) s i = map (\<lambda>k. i + k) [1..<Suc (length (takeWhile P (drop i s)))]"
| "match_ends (Then a b) s i = concat (map (match_ends b s) (match_ends a s i))"
| "match_ends (Or a b) s i = match_ends a s i @ match_ends b s i"
| "match_ends (Opt a) s i = match_ends a s i @ [i]"
| "match_ends WordB s i = (if (0 < i \<and> word_at s (i - 1)) \<noteq> word_at s i then [i] else [])"
| "match_ends Bol s i = (if i = 0 then [i] else [])"
| "match_ends Eol s i = (if i = length s then [i] else [])"

definition regex_test :: "regex \<Rightarrow> string \<Rightarrow> bool" where
  "regex_test r s \<longleftrightarrow> list_ex (\<lambda>i. match_ends r s i \<noteq> []) [0..<Suc (length s)]"

fun literal :: "string \<Rightarrow> regex" where
  "literal [c] = Cls ((=) c)"
| "literal (c # cs) = Then (Cls ((=) c)) (literal cs)"
| "literal [] = Opt (Cls (\<lambda>c. False))"

fun alternatives :: "regex list \<Rightarrow> regex" where
  "alternatives [r] = r"
| "alternatives (r # rs) = Or r (alternatives rs)"
| "alternatives [] = Cls (\<lambda>c. False)"

fun sequence :: "regex list \<Rightarrow> regex" where
  "sequence [r] = r"
| "sequence (r # rs) = Then r (sequence rs)"
| "sequence [] = Opt (Cls (\<lambda>c. False))"

definition blanks :: regex where
  "blanks = Plus is_ws"

definition command_start :: regex where
  "command_start =
     Or Bol (Then (alternatives [literal ''&&'', literal ''||'', literal ''|'', literal '';'']) (Opt blanks))"

definition claude_word :: regex where
  "claude_word = sequence [Opt (literal ''./''), literal ''claude'', Or WordB Eol]"

definition HEAVY_BASH_PATTERNS :: "regex list" where
  "HEAVY_BASH_PATTERNS =
     [sequence [WordB,
        alternatives [literal ''tsc'', sequence [literal ''npx'', blanks, literal ''tsc''],
          sequence [literal ''bun'', Opt (literal ''x''), blanks, literal ''tsc''],
          sequence [literal ''pnpm'', blanks, literal ''tsc''], sequence [literal ''yarn'', blanks, literal ''tsc'']],
        WordB],
      sequence [command_start, claude_word],
      sequence [command_start,
        alternatives [literal ''npx'', Then (literal ''bun'') (Opt (literal ''x'')),
          sequence [literal ''pnpm'', blanks, literal ''dlx''], sequence [literal ''yarn'', blanks, literal ''dlx'']],
        blanks, claude_word],
      literal ''claude-agent-sdk/cli.js'',
      sequence [WordB, Or (literal ''turbo'') (literal ''bun run turbo''), blanks, literal ''run'', blanks,
        alternatives [literal ''build'', literal ''type-check'', literal ''lint'', literal ''test''], WordB]]"

definition EXACT_HEAVY_BASH_COMMANDS :: "string list" where
  "EXACT_HEAVY_BASH_COMMANDS =
     [''bun run static-check'', ''bun run check:pre-push'', ''bun run check:all'', ''next build'', ''claude'']"

text \<open>\<open>replace(/\s+/g, " ")\<close>.\<close>

fun collapse_ws :: "string \<Rightarrow> string" where
  "collapse_ws [] = []"
| "collapse_ws (c # cs) =
     (if \<not> is_ws c then c # collapse_ws cs
      else case cs of [] \<Rightarrow> '' '' | d # ds \<Rightarrow> if is_ws d then collapse_ws cs else CHR '' '' # collapse_ws cs)"

definition normalizeCommand :: "string \<Rightarrow> string" where
  "normalizeCommand command = collapse_ws (trim (to_lower command))"

definition isHeavyBashCommand :: "string \<Rightarrow> bool" where
  "isHeavyBashCommand command \<longleftrightarrow>
     (let n = normalizeCommand command
      in n \<noteq> [] \<and> (n \<in> set EXACT_HEAVY_BASH_COMMANDS \<or> list_ex (\<lambda>r. regex_test r n) HEAVY_BASH_PATTERNS))"

subsection \<open>Bash\<close>

text \<open>A foreground command; \<open>Inl\<close> stands for the start of a detached one.\<close>

definition bashTool :: "runner \<Rightarrow> env \<Rightarrow> string list \<Rightarrow> fs \<Rightarrow> string \<Rightarrow> string \<Rightarrow> nat option \<Rightarrow> bool option \<Rightarrow> string list + command_result" where
  "bashTool run parent bases fs cwd command timeout background =
     (case getWorkspaceRoot bases fs cwd of
        None \<Rightarrow> Inr Refusal
      | Some root \<Rightarrow>
          if isHeavyBashCommand command then Inr (Fail ''Command blocked by policy'')
          else if background = Some True then Inl [''bash'', ''-lc'', command]
          else
            (let timeoutMs = min BASH_MAX_TIMEOUT_MS (case timeout of None \<Rightarrow> BASH_TIMEOUT_MS | Some k \<Rightarrow> k);
                 res = run (safeSpawnArgs timeoutMs ''bash'' [''-lc'', command]) (sanitizeSubprocessEnv parent)
             in Inr (case sr_error res of
                  Some m \<Rightarrow> Fail m
                | None \<Rightarrow>
                    (let out0 = trim (join_with [newline] (filter (\<lambda>t. t \<noteq> []) [sr_stdout res, sr_stderr res]));
                         out = (if out0 = [] then ''(no output)'' else out0)
                     in case sr_status res of
                          Some k \<Rightarrow>
                            if k \<noteq> 0
                            then ErrorOutput (truncateOutput (out @ [newline, newline] @ ''Exit code: '' @ digits_int k) BASH_OUTPUT)
                            else Output (truncateOutput out BASH_OUTPUT)
                        | None \<Rightarrow> Output (truncateOutput out BASH_OUTPUT)))))"

subsection \<open>The limits hold\<close>

lemma take_split_join: "k > 0 \<Longrightarrow> k \<le> length (split_on d s) \<Longrightarrow> \<exists>t. s = join_with [d] (take k (split_on d s)) @ t"
proof (induction s arbitrary: k)
  case (Cons c cs)
  show ?case
  proof (cases "c = d")
    case True
    show ?thesis
    proof (cases k)
      case (Suc j)
      show ?thesis
      proof (cases "j = 0")
        case False
        then have "j > 0" "j \<le> length (split_on d cs)" using Cons.prems Suc True by simp_all
        then obtain t where t: "cs = join_with [d] (take j (split_on d cs)) @ t" using Cons.IH by blast
        obtain w ws where "take j (split_on d cs) = w # ws"
          using \<open>j > 0\<close> by (cases "split_on d cs"; cases j) auto
        then show ?thesis using t True Suc by (intro exI [of _ t]) simp
      qed (use Suc True in simp)
    qed (use Cons.prems in simp)
  next
    case False
    obtain w ws where w: "split_on d cs = w # ws" by (cases "split_on d cs") auto
    then obtain t where t: "cs = join_with [d] (take k (w # ws)) @ t" using Cons.IH [of k] Cons.prems False by auto
    obtain j where k: "k = Suc j" using Cons.prems by (cases k) auto
    have "join_with [d] (take k ((c # w) # ws)) = c # join_with [d] (take k (w # ws))"
      unfolding k by (cases "take j ws") auto
    then show ?thesis using t w False by (intro exI [of _ t]) simp
  qed
qed (auto simp: take_Suc)

lemma split_take_count: "length (split_on d (join_with [d] (take k (split_on d s)))) \<le> max k 1"
proof -
  have no: "\<forall>w\<in>set (take k (split_on d s)). d \<notin> set w"
    using split_on_pieces by (metis in_set_takeD)
  have "length (split_on d (join_with [d] ws)) \<le> max (length ws) 1" if "\<forall>w\<in>set ws. d \<notin> set w" for ws
    using that
  proof (induction ws rule: induct_list012)
    case (2 w)
    then show ?case by (simp add: split_on_no_sep)
  next
    case (3 w v ws)
    then show ?case using split_on_append_sep [of d w "join_with [d] (v # ws)"] by auto
  qed simp
  moreover have "max (length (take k (split_on d s))) 1 \<le> max k 1" by auto
  ultimately show ?thesis using no le_trans by blast
qed

lemma split_take_le: "length (split_on d (take m s)) \<le> length (split_on d s)"
proof (induction s arbitrary: m)
  case (Cons c cs)
  have "length (split_on d (c # xs)) = (if c = d then 1 else 0) + length (split_on d xs)" for xs
    by (cases "split_on d xs") auto
  then show ?case using Cons.IH by (cases m) (auto simp: Suc_le_eq)
qed simp

text \<open>
  C21. A tool result never exceeds its limits, which are those of the options or the defaults, with at
  least one line: it is the beginning of the normalised output, with at most that many lines and
  characters, followed by a notice exactly when something was cut off, which happens exactly when the
  normalised output has more lines or characters. The notice is the suffix of the options or, as for
  every tool of the repository, a text that names both limits.
\<close>

theorem truncateOutput_bounded:
  fixes opts :: truncate_options and out :: string
  defines "L \<equiv> (case to_maxLines opts of None \<Rightarrow> DEFAULT_MAX_LINES | Some k \<Rightarrow> k)"
    and "C \<equiv> (case to_maxChars opts of None \<Rightarrow> DEFAULT_MAX_CHARS | Some k \<Rightarrow> k)"
    and "whole \<equiv> normalizeWhitespace out"
  assumes "L > 0"
  shows "\<exists>shown rest omitted. whole = shown @ rest \<and> length shown \<le> C \<and> length (split_on newline shown) \<le> L \<and>
    truncateOutput out opts = shown @
      (if rest = [] then [] else case to_suffix opts of Some s \<Rightarrow> s
       | None \<Rightarrow> [newline, newline] @ ''... truncated ('' @ omitted @ '' omitted, limit: '' @ digits L @ '' lines / '' @
           digits C @ '' chars)'') \<and>
    (rest = [] \<longleftrightarrow> length whole \<le> C \<and> length (split_on newline whole) \<le> L)"
proof -
  let ?ls = "split_on newline whole"
  let ?r1 = "if length ?ls > L then join_with [newline] (take L ?ls) else whole"
  let ?notice = "\<lambda>omitted. case to_suffix opts of Some s \<Rightarrow> s
       | None \<Rightarrow> [newline, newline] @ ''... truncated ('' @ omitted @ '' omitted, limit: '' @ digits L @ '' lines / '' @
           digits C @ '' chars)''"
  have "\<exists>omitted. truncateOutput out opts =
      (if length ?ls > L \<or> length ?r1 > C then (if length ?r1 > C then take C ?r1 else ?r1) @ ?notice omitted
       else if length ?r1 > C then take C ?r1 else ?r1)"
    unfolding truncateOutput_def Let_def L_def [symmetric] C_def [symmetric] whole_def [symmetric] by (rule exI) (rule refl)
  then obtain omitted where run: "truncateOutput out opts =
      (if length ?ls > L \<or> length ?r1 > C then (if length ?r1 > C then take C ?r1 else ?r1) @ ?notice omitted
       else if length ?r1 > C then take C ?r1 else ?r1)" ..
  obtain t where t: "whole = ?r1 @ t"
    using take_split_join [OF assms(4), of newline whole] by (cases "length ?ls > L") auto
  have lines: "length (split_on newline ?r1) \<le> L"
    using split_take_count [of newline L whole] assms(4) by auto
  have cut: "?r1 \<noteq> whole" if "length ?ls > L"
    using that lines by force
  show ?thesis
  proof (cases "length ?ls > L \<or> length ?r1 > C")
    case True
    have few: "length (split_on newline (take C ?r1)) \<le> L"
      using split_take_le [of newline C ?r1] lines by (rule le_trans)
    have parts: "whole = take C ?r1 @ (drop C ?r1 @ t)" using t by (metis append.assoc append_take_drop_id)
    have ne: "drop C ?r1 @ t \<noteq> []"
    proof
      assume e: "drop C ?r1 @ t = []"
      then have "whole = ?r1" using t by simp
      then show False using True cut e by auto
    qed
    have long: "length whole > C \<or> length ?ls > L"
    proof -
      have "length whole = length ?r1 + length t" using arg_cong [OF t, of length] by (simp only: length_append)
      then show ?thesis using True by linarith
    qed
    have same: "(if length r > C then take C r else r) = take C r" for r :: string by simp
    have cutoff: "truncateOutput out opts = take C ?r1 @ ?notice omitted"
      unfolding run same using True by (rule if_P)
    show ?thesis
    proof (intro exI conjI)
      show "whole = take C ?r1 @ (drop C ?r1 @ t)" by (rule parts)
      show "length (take C ?r1) \<le> C" by simp
      show "length (split_on newline (take C ?r1)) \<le> L" by (rule few)
      show "truncateOutput out opts = take C ?r1 @ (if drop C ?r1 @ t = [] then [] else ?notice omitted)"
        unfolding cutoff using ne by (simp only: if_False)
      show "drop C ?r1 @ t = [] \<longleftrightarrow> length whole \<le> C \<and> length ?ls \<le> L"
      proof -
        have "\<not> (length whole \<le> C \<and> length ?ls \<le> L)" using long by linarith
        then show ?thesis using ne by blast
      qed
    qed
  next
    case False
    then have "truncateOutput out opts = whole" "length whole \<le> C" "length ?ls \<le> L" unfolding run by auto
    then show ?thesis by (intro exI [of _ whole] exI [of _ "[]"]) auto
  qed
qed

theorem truncateOutput_bounded_witness:
  "(\<exists>shown rest. normalizeWhitespace (''a'' @ [newline] @ ''b'' @ [newline] @ ''c'') = shown @ rest \<and> length shown \<le> 20000 \<and>
     rest = [] \<and> truncateOutput (''a'' @ [newline] @ ''b'' @ [newline] @ ''c'') BASH_OUTPUT = shown) \<and>
   truncateOutput (''a'' @ [newline] @ ''b'' @ [newline] @ ''c'') \<lparr>to_maxChars = Some 9, to_maxLines = Some 2, to_suffix = None\<rparr>
     = ''a'' @ [newline] @ ''b'' @ [newline, newline] @ ''... truncated (1 lines omitted, limit: 2 lines / 9 chars)''"
proof
  let ?o = "''a'' @ [newline] @ ''b'' @ [newline] @ ''c''"
  have n: "normalizeWhitespace ?o = ?o" "split_on newline ?o = [''a'', ''b'', ''c'']" by code_simp+
  have l: "to_maxLines BASH_OUTPUT = Some 200" "to_maxChars BASH_OUTPUT = Some 20000" by (simp_all add: BASH_OUTPUT_def)
  have pos: "(0 :: nat) < 200" by simp
  have short: "length ?o \<le> 20000 \<and> length [''a'', ''b'', ''c''] \<le> (200 :: nat)" by simp
  obtain shown rest omitted where r: "?o = shown @ rest" "length shown \<le> 20000"
      "truncateOutput ?o BASH_OUTPUT = shown @ (if rest = [] then [] else case to_suffix BASH_OUTPUT of Some s \<Rightarrow> s
       | None \<Rightarrow> [newline, newline] @ ''... truncated ('' @ omitted @ '' omitted, limit: '' @ digits 200 @ '' lines / '' @
           digits 20000 @ '' chars)'')"
      "rest = [] \<longleftrightarrow> length ?o \<le> 20000 \<and> length [''a'', ''b'', ''c''] \<le> (200 :: nat)"
    using truncateOutput_bounded [of BASH_OUTPUT ?o, unfolded l n option.case, OF pos] by (elim exE conjE)
  have "rest = []" using r(4) short by blast
  moreover from this have "truncateOutput ?o BASH_OUTPUT = shown" using r(3) by (simp only: if_True append_Nil2 simp_thms)
  ultimately show "\<exists>shown rest. normalizeWhitespace ?o = shown @ rest \<and> length shown \<le> 20000 \<and> rest = [] \<and>
      truncateOutput ?o BASH_OUTPUT = shown"
    unfolding n using r(1,2) by blast
  show "truncateOutput ?o \<lparr>to_maxChars = Some 9, to_maxLines = Some 2, to_suffix = None\<rparr>
     = ''a'' @ [newline] @ ''b'' @ [newline, newline] @ ''... truncated (1 lines omitted, limit: 2 lines / 9 chars)''"
    by code_simp
qed

text \<open>The exit code of a command stands at the end of its output, so a long output loses it.\<close>

lemma exit_code_lost:
  "truncateOutput (''a'' @ [newline] @ ''b'' @ [newline, newline] @ ''Exit code: 1'')
     \<lparr>to_maxChars = Some 9, to_maxLines = Some 2, to_suffix = Some ''+''\<rparr> = ''a'' @ [newline] @ ''b+''"
  by code_simp

text \<open>The indentation of the lines a search returns is collapsed.\<close>

lemma indentation_lost:
  "normalizeWhitespace (''x:    return'') = ''x: return''"
  by code_simp

subsection \<open>No secret reaches a subprocess\<close>

lemma jget_fold_jdel: "jget (fold jdel ks m) k = (if k \<in> set ks then None else jget m k)"
  by (induction ks arbitrary: m) auto

lemma jget_filter_keys: "jget (filter (\<lambda>(k, v). P k) m) k = (if P k then jget m k else None)"
  by (induction m) auto

text \<open>
  The environment of a tool's subprocess: none of the denied names and none of the cleared
  directories is set, the three temporary directories are set to the shared one, and every other
  variable is the parent's.
\<close>

theorem sanitizeSubprocessEnv_exact:
  "jget (sanitizeSubprocessEnv parent) k =
     (if k \<in> set DENIED_ENV_KEYS \<union> set CLEARED_ENV_KEYS then None
      else if k \<in> {''TMPDIR'', ''TMP'', ''TEMP''} then Some ''/tmp'' else jget parent k)"
proof -
  have "list_all (\<lambda>t. t \<notin> set DENIED_ENV_KEYS) [''TMPDIR'', ''TMP'', ''TEMP'']" by code_simp
  then have tmp: "k \<notin> set DENIED_ENV_KEYS" if "k = ''TMPDIR'' \<or> k = ''TMP'' \<or> k = ''TEMP''"
    using that unfolding list.pred_inject by blast
  note look = sanitizeSubprocessEnv_def Let_def jget_fold_jdel jget_jset jget_filter_keys Un_iff insert_iff empty_iff
  show ?thesis
  proof (cases "k = ''TMPDIR'' \<or> k = ''TMP'' \<or> k = ''TEMP''")
    case True
    note nd = tmp [OF True]
    from True show ?thesis
    proof (elim disjE)
      assume "k = ''TMPDIR''" with nd show ?thesis by (simp only: look simp_thms if_True if_False) simp
    next
      assume "k = ''TMP''" with nd show ?thesis by (simp only: look simp_thms if_True if_False) simp
    next
      assume "k = ''TEMP''" with nd show ?thesis by (simp only: look simp_thms if_True if_False)
    qed
  next
    case False
    then show ?thesis by (simp only: look de_Morgan_disj if_False simp_thms) simp
  qed
qed

subsection \<open>The shell guard\<close>

lemma match_literal:
  "l \<noteq> [] \<Longrightarrow> length a + length l \<in> set (match_ends (literal l) (a @ l @ b) (length a))"
proof (induction l arbitrary: a rule: literal.induct)
  case (1 c)
  then show ?case by simp
next
  case (2 c v va)
  have "length (a @ [c]) + length (v # va) \<in> set (match_ends (literal (v # va)) ((a @ [c]) @ (v # va) @ b) (length (a @ [c])))"
    by (rule 2) simp
  then show ?case by (simp add: nth_append)
qed simp

lemma match_then:
  "j \<in> set (match_ends r s i) \<Longrightarrow> k \<in> set (match_ends t s j) \<Longrightarrow> k \<in> set (match_ends (Then r t) s i)"
  by auto

text \<open>
  The agent cannot start itself from the shell: a command is blocked whenever its normalised text
  has, at its start or after a separator, the word \<open>claude\<close>, whatever surrounds it.
\<close>

theorem guard_blocks_claude:
  assumes "normalizeCommand command = a @ sep @ gap @ ''claude'' @ rest"
    and "(a = [] \<and> sep = [] \<and> gap = []) \<or> (sep \<in> {''&&'', ''||'', ''|'', '';''} \<and> gap \<in> {[], '' ''})"
    and "rest = [] \<or> \<not> word_char (hd rest)"
  shows "isHeavyBashCommand command"
proof -
  let ?n = "normalizeCommand command" and ?p = "a @ sep @ gap"
  have n: "?n = ?p @ ''claude'' @ rest" using assms(1) by simp
  have start: "length ?p \<in> set (match_ends command_start ?n (length a))"
  proof (cases "sep = []")
    case True
    then show ?thesis using assms(2) by (simp add: command_start_def)
  next
    case False
    then have sep: "sep \<in> {''&&'', ''||'', ''|'', '';''}" "gap \<in> {[], '' ''}" using assms(2) by auto
    have "length a + length sep \<in> set (match_ends (literal sep) ?n (length a))"
      using match_literal [of sep a "gap @ ''claude'' @ rest"] False assms(1) by simp
    then have s: "length a + length sep \<in> set (match_ends (alternatives [literal ''&&'', literal ''||'', literal ''|'', literal '';'']) ?n (length a))"
      using sep(1) by (simp only: alternatives.simps match_ends.simps set_append Un_iff insert_iff empty_iff) metis
    have "length ?p \<in> set (match_ends (Opt blanks) ?n (length a + length sep))"
    proof (cases "gap = []")
      case True
      then show ?thesis by simp
    next
      case False
      then have "drop (length a + length sep) ?n = '' '' @ ''claude'' @ rest" "gap = '' ''"
        using sep(2) assms(1) by simp_all
      then show ?thesis by (simp add: blanks_def is_ws_def)
    qed
    with s have "length ?p \<in> set (match_ends (Then (alternatives [literal ''&&'', literal ''||'', literal ''|'', literal '';'']) (Opt blanks)) ?n (length a))"
      by (rule match_then)
    then show ?thesis unfolding command_start_def match_ends.simps(4) set_append by (rule UnI2)
  qed
  have "length ?p + length ''claude'' \<in> set (match_ends (literal ''claude'') ?n (length ?p))"
    unfolding n by (rule match_literal) simp
  moreover have "length ?p + length ''claude'' \<in> set (match_ends (Or WordB Eol) ?n (length ?p + length ''claude''))"
    using assms(3) n by (cases rest) (auto simp: word_at_def nth_append word_char_def)
  moreover have "length ?p \<in> set (match_ends (Opt (literal ''./'')) ?n (length ?p))" by simp
  ultimately have "length ?p + length ''claude'' \<in> set (match_ends claude_word ?n (length ?p))"
    unfolding claude_word_def sequence.simps by (meson match_then)
  then have "length ?p + length ''claude'' \<in> set (match_ends (sequence [command_start, claude_word]) ?n (length a))"
    unfolding sequence.simps using start by (meson match_then)
  then have "match_ends (sequence [command_start, claude_word]) ?n (length a) \<noteq> []" by force
  then have "regex_test (sequence [command_start, claude_word]) ?n"
    unfolding regex_test_def list_ex_iff using n by (intro bexI [of _ "length a"]) auto
  then show ?thesis
    using n by (simp add: isHeavyBashCommand_def Let_def HEAVY_BASH_PATTERNS_def)
qed

theorem guard_blocks_claude_witness:
  "isHeavyBashCommand ''cd x  &&  CLAUDE -p hi''"
proof (rule guard_blocks_claude)
  show "normalizeCommand ''cd x  &&  CLAUDE -p hi'' = ''cd x '' @ ''&&'' @ '' '' @ ''claude'' @ '' -p hi''" by code_simp
  show "(''cd x '' = [] \<and> ''&&'' = [] \<and> '' '' = []) \<or> (''&&'' \<in> {''&&'', ''||'', ''|'', '';''} \<and> '' '' \<in> {[], '' ''})" by simp
  show "'' -p hi'' = [] \<or> \<not> word_char (hd '' -p hi'')" by (simp add: word_char_def)
qed

text \<open>
  A command on a line of its own passes, because the line feed becomes a space before the patterns are
  tried; so does one after a single ampersand.
\<close>

lemma guard_bypassed:
  "\<not> isHeavyBashCommand (''true'' @ [newline] @ ''claude -p hi'')"
  "\<not> isHeavyBashCommand ''true & claude -p hi''"
  by code_simp+

text \<open>Searches start inside the workspace, or not at all.\<close>

lemma search_root_inside:
  assumes "assertSearchPath fs path (render_path rs) = Inr r" and "\<forall>w\<in>set rs. clean_seg w"
  shows "prefix rs r"
proof -
  obtain p where p: "fs_realpath fs p = Inr r" and i: "isPathWithinWorkspace (render_path r) (render_path rs)"
    using assms(1) by (auto simp: assertSearchPath_def Let_def split: sum.splits if_splits)
  then show ?thesis using realpath_clean [OF p] assms(2) by (simp add: within_render)
qed

end
