(* ===== verification/SiteHost.thy ===== *)
theory SiteHost
  imports Prelude
begin

section \<open>The host of the deployed sites\<close>

text \<open>
  The scripts of \<open>packages/site-controller/scripts\<close>: what each does to the users, services,
  environment files, site directories and symbolic links of the host. A script either succeeds or
  stops with an exit code, and keeps what it had changed before it stopped.

  Programs the scripts only run (\<open>dig\<close>, \<open>psql\<close>, \<open>useradd\<close>, the site's own build, the Caddy
  generator) are fields of \<open>world\<close>. Not modelled: owners and permissions of files, the git
  repository that \<open>02-setup-fs.sh\<close> initialises, the systemd override of an \<open>alive.toml\<close>, the
  database of users of a container.
\<close>

type_synonym files = "(string list, string) jsmap"

record domain_row =
  dr_port :: nat
  dr_org :: string
  dr_server :: string
  dr_e2b :: bool
  dr_sandbox :: "string option"
  dr_running :: bool
  dr_test :: bool

text \<open>
  Users, services and environment files are keyed by slug (\<open>site-<slug>\<close>, \<open>site@<slug>.service\<close>,
  \<open><slug>.env\<close>); a running service is kept with the ports it listens on, and an environment file
  with its \<open>DOMAIN\<close> and \<open>PORT\<close>. \<open>h_sites\<close> holds the site directories by name, \<open>h_links\<close> the symbolic
  links beside them with the directory each points to, \<open>h_scratch\<close> the scratch workspaces of sandboxed
  sites, \<open>h_ports\<close> the ports other processes listen on, \<open>h_rows\<close> the table \<open>app.domains\<close>, the last two
  fields the files \<open>port-map.json\<close> and \<open>sandbox-map.json\<close>.
\<close>

record host =
  h_users :: "string list"
  h_services :: "(string, nat list) jsmap"
  h_env :: "(string, string \<times> nat) jsmap"
  h_sites :: "(string, files) jsmap"
  h_links :: "(string, string) jsmap"
  h_ports :: "nat list"
  h_rows :: "(string, domain_row) jsmap"
  h_scratch :: "string list"
  h_portmap :: "(string, nat) jsmap"
  h_sandboxmap :: "(string, string \<times> nat) jsmap"

record world =
  w_command :: "string \<Rightarrow> bool"
  w_serverId :: string
  w_dig :: "string \<Rightarrow> string"
  w_psql :: bool
  w_useradd :: "string \<Rightarrow> bool"
  w_template :: "string \<Rightarrow> files"
  w_git :: "string \<Rightarrow> bool"
  w_build :: "string \<Rightarrow> nat \<Rightarrow> files \<Rightarrow> nat + files"
  w_boot :: "files \<Rightarrow> nat \<Rightarrow> nat list option"
  w_caddy :: "nat option"
  w_listed :: "string \<Rightarrow> bool"
  w_sync :: bool
  w_kill :: "string \<Rightarrow> bool"
  w_userdel :: "string \<Rightarrow> bool"

type_synonym 'a script = "host \<Rightarrow> (nat + 'a) \<times> host"

subsection \<open>\<open>00-validate-dns.sh\<close>\<close>

definition cloudflare_prefixes :: "string list" where
  "cloudflare_prefixes = [''104.16.'', ''104.17.'', ''104.18.'', ''104.19.'', ''104.20.'', ''104.21.'', ''104.22.'',
     ''104.23.'', ''104.24.'', ''172.64.'', ''172.65.'', ''172.66.'', ''172.67.'', ''172.70.'', ''172.71.'',
     ''173.245.'', ''188.114.'', ''190.93.'', ''197.234.'', ''198.41.'']"

text \<open>The exit code of the script; the last line that \<open>dig\<close> prints is the address it resolves to.\<close>

definition validate_dns_script :: "world \<Rightarrow> string \<Rightarrow> string \<Rightarrow> string \<Rightarrow> nat" where
  "validate_dns_script w domain serverIp wildcardDomain =
     (if domain = wildcardDomain \<or> ends_with (CHR ''.'' # wildcardDomain) domain then 0
      else let ip = w_dig w domain
        in if ip = '''' then 12
           else if list_ex (\<lambda>p. starts_with p ip) cloudflare_prefixes then 12
           else if ip \<noteq> serverIp then 12 else 0)"

subsection \<open>\<open>00-assign-port.sh\<close>\<close>

definition port_in_use :: "host \<Rightarrow> nat \<Rightarrow> bool" where
  "port_in_use h p = (list_ex (\<lambda>(_, ps). p \<in> set ps) (h_services h) \<or> p \<in> set (h_ports h))"

definition max_port :: "world \<Rightarrow> host \<Rightarrow> nat" where
  "max_port w h = fold (\<lambda>(_, r) m. if 3333 \<le> dr_port r \<and> dr_port r \<le> 3999 \<and> dr_server r = w_serverId w
     then max (dr_port r) m else m) (h_rows h) 3332"

function scan_port :: "(nat \<Rightarrow> bool) \<Rightarrow> nat \<Rightarrow> nat \<Rightarrow> nat + nat" where
  "scan_port used p attempts =
     (if \<not> used p then Inr p
      else if p + 1 > 3999 then Inl 1
      else if attempts + 1 > 100 then Inl 1
      else scan_port used (p + 1) (attempts + 1))"
  by pat_completeness auto
termination by (relation "measure (\<lambda>(_, _, a). 101 - a)") auto

declare scan_port.simps [simp del]

text \<open>The port \<open>psql\<close> finds registered for the host name on this server, none when it cannot be asked.\<close>

definition registered_port :: "world \<Rightarrow> host \<Rightarrow> string \<Rightarrow> nat option" where
  "registered_port w h domain = (if \<not> w_psql w then None else
     (case jget (h_rows h) domain of Some r \<Rightarrow> if dr_server r = w_serverId w then Some (dr_port r) else None
      | None \<Rightarrow> None))"

definition assign_port_script :: "world \<Rightarrow> string \<Rightarrow> host \<Rightarrow> nat + nat" where
  "assign_port_script w domain h =
     (case (case registered_port w h domain of
        Some p \<Rightarrow> if port_in_use h p then None else Some p
      | None \<Rightarrow> None) of Some p \<Rightarrow> Inr p | None \<Rightarrow>
        (let first = (if w_psql w then max_port w h else 3332) + 1
         in if first > 3999 then Inl 1 else scan_port (port_in_use h) first 0))"

subsection \<open>\<open>01-ensure-user.sh\<close>, \<open>02-setup-fs.sh\<close>\<close>

definition ensure_user_script :: "world \<Rightarrow> string \<Rightarrow> unit script" where
  "ensure_user_script w slug h =
     (if slug \<in> set (h_users h) then (Inr (), h)
      else if w_useradd w slug then (Inr (), h\<lparr>h_users := h_users h @ [slug]\<rparr>) else (Inl 1, h))"

text \<open>\<open>rsync\<close> copies every file of the template that lies under none of the excluded names.\<close>

definition excluded_names :: "string list" where
  "excluded_names = [''node_modules'', ''.bun'', ''.git'', ''template'']"

definition rsync :: "files \<Rightarrow> files \<Rightarrow> files" where
  "rsync src tgt = fold (\<lambda>(p, c) fs. if list_ex (\<lambda>s. s \<in> set excluded_names) p then fs else jset p c fs) src tgt"

definition site_caddyfile :: "string \<Rightarrow> string" where
  "site_caddyfile domain = join_with [CHR 0x0A]
     [''# Auto-generated Caddyfile for '' @ domain, ''# Port: __PORT__'', '''', domain @ '' {'',
      ''    import common_headers'', ''    import image_serving'', ''    reverse_proxy localhost:__PORT__ {'',
      ''        header_up Host {host}'', ''        header_up X-Real-IP {remote_host}'',
      ''        header_up X-Forwarded-For {remote_host}'', ''        header_up X-Forwarded-Proto {scheme}'',
      ''    }'', ''}'', '''']"

text \<open>\<open>tr '.' '-'\<close>, and the slug \<open>domain.replace(/\./g, "-")\<close> of the orchestrator's teardown.\<close>

definition dot_slug :: "string \<Rightarrow> string" where
  "dot_slug domain = map (\<lambda>c. if c = CHR ''.'' then CHR ''-'' else c) domain"

text \<open>\<open>-e\<close> follows a symbolic link.\<close>

definition site_exists :: "host \<Rightarrow> string \<Rightarrow> bool" where
  "site_exists h name = (jget (h_sites h) name \<noteq> None \<or>
     (case jget (h_links h) name of Some d \<Rightarrow> jget (h_sites h) d \<noteq> None | None \<Rightarrow> False))"

definition site_files :: "host \<Rightarrow> string \<Rightarrow> files" where
  "site_files h domain = (case jget (h_sites h) domain of Some fs \<Rightarrow> fs | None \<Rightarrow> [])"

definition setup_fs_script :: "world \<Rightarrow> string \<Rightarrow> string \<Rightarrow> unit script" where
  "setup_fs_script w domain templatePath h =
     (let copied = rsync (w_template w templatePath) (site_files h domain);
          fs = jset [''user'', ''.alive'', ''.schema-version''] (''1'' @ [CHR 0x0A])
                 (jset [''Caddyfile''] (site_caddyfile domain) copied);
          h' = h\<lparr>h_sites := jset domain fs (h_sites h)\<rparr>;
          link = dot_slug domain
      in if \<not> w_git w domain then (Inl 128, h')
         else if link \<noteq> domain \<and> \<not> site_exists h' link
         then (if jget (h_links h') link \<noteq> None then (Inl 1, h')
               else (Inr (), h'\<lparr>h_links := jset link domain (h_links h')\<rparr>))
         else (Inr (), h'))"

subsection \<open>\<open>03-build-site.sh\<close>, \<open>04-start-service.sh\<close>\<close>

text \<open>The environment file is written before anything is built.\<close>

definition build_script :: "world \<Rightarrow> string \<Rightarrow> string \<Rightarrow> nat \<Rightarrow> unit script" where
  "build_script w domain slug port h =
     (let h' = h\<lparr>h_env := jset slug (domain, port) (h_env h)\<rparr>
      in case w_build w domain port (site_files h' domain) of
           Inl code \<Rightarrow> (Inl code, h')
         | Inr fs \<Rightarrow> (Inr (), h'\<lparr>h_sites := jset domain fs (h_sites h')\<rparr>))"

text \<open>
  The unit \<open>site@.service\<close> that the preflight installs: it runs as \<open>site-<slug>\<close> in
  \<open>SITES_ROOT/<slug>/user\<close>, with the environment file of the slug when there is one. Starting a unit
  that is running changes nothing, and a unit without its user or its directory cannot be executed.
  \<open>w_boot\<close> tells on which ports the application of a directory listens when it is started with a
  \<open>PORT\<close>, none when it does not stay up; without an environment file the \<open>PORT\<close> is unset, which is
  \<open>0\<close> here.
\<close>

definition unit_directory :: "host \<Rightarrow> string \<Rightarrow> files option" where
  "unit_directory h slug = (case jget (h_sites h) slug of Some fs \<Rightarrow> Some fs
     | None \<Rightarrow> (case jget (h_links h) slug of Some d \<Rightarrow> jget (h_sites h) d | None \<Rightarrow> None))"

definition env_port :: "host \<Rightarrow> string \<Rightarrow> nat" where
  "env_port h slug = (case jget (h_env h) slug of Some (_, p) \<Rightarrow> p | None \<Rightarrow> 0)"

definition systemctl_start :: "world \<Rightarrow> string \<Rightarrow> unit script" where
  "systemctl_start w slug h =
     (if jget (h_services h) slug \<noteq> None then (Inr (), h)
      else if slug \<notin> set (h_users h) then (Inl 1, h)
      else (case unit_directory h slug of None \<Rightarrow> (Inl 1, h)
        | Some fs \<Rightarrow> (case w_boot w fs (env_port h slug) of None \<Rightarrow> (Inr (), h)
            | Some ps \<Rightarrow> (Inr (), h\<lparr>h_services := jset slug ps (h_services h)\<rparr>))))"

definition start_service_script :: "world \<Rightarrow> string \<Rightarrow> nat \<Rightarrow> unit script" where
  "start_service_script w slug port h = (case systemctl_start w slug h of
       (Inl code, h') \<Rightarrow> (Inl code, h')
     | (Inr _, h') \<Rightarrow> if jget (h_services h') slug = None then (Inl 15, h')
         else if port_in_use h' port then (Inr (), h') else (Inl 16, h'))"

subsection \<open>\<open>05-caddy-inject.sh\<close>, \<open>99-teardown.sh\<close>\<close>

text \<open>The Caddy configuration is generated from the table; the host's own state is as it was.\<close>

definition caddy_script :: "world \<Rightarrow> unit script" where
  "caddy_script w h = (case w_caddy w of Some code \<Rightarrow> (Inl code, h) | None \<Rightarrow> (Inr (), h))"

text \<open>
  \<open>w_listed\<close> tells whether \<open>systemctl list-unit-files\<close> names the unit of the slug, \<open>w_sync\<close> whether
  the generated configuration can be synchronised (when it was generated at all), \<open>w_kill\<close> whether
  the processes of the user end when they are killed.
\<close>

definition teardown_script :: "world \<Rightarrow> string \<Rightarrow> string \<Rightarrow> bool \<Rightarrow> bool \<Rightarrow> unit script" where
  "teardown_script w domain slug removeUser removeFiles h =
     (let h1 = (if w_listed w slug then h\<lparr>h_services := jdel slug (h_services h)\<rparr> else h)
      in if \<not> w_sync w then (Inl 1, h1) else
      (let h2 = h1\<lparr>h_env := jdel slug (h_env h1)\<rparr>
       in if removeUser \<and> slug \<in> set (h_users h2) \<and> \<not> w_kill w slug then (Inl 1, h2) else
       (let h3 = (if removeUser \<and> slug \<in> set (h_users h2)
                  then h2\<lparr>h_services := jdel slug (h_services h2)\<rparr> else h2)
        in if removeUser \<and> slug \<in> set (h_users h3) \<and> \<not> w_userdel w slug then (Inl 1, h3) else
        (let h4 = (if removeUser then h3\<lparr>h_users := filter (\<lambda>u. u \<noteq> slug) (h_users h3)\<rparr> else h3)
         in if \<not> removeFiles then (Inr (), h4)
            else (Inr (), h4\<lparr>h_sites := jdel domain (h_sites h4),
                             h_links := jdel (dot_slug domain) (h_links h4)\<rparr>)))))"

subsection \<open>Ports\<close>

lemma scan_port_range: "scan_port used p a = Inr q \<Longrightarrow> p \<le> 3999 \<Longrightarrow> p \<le> q \<and> q \<le> 3999 \<and> \<not> used q"
proof (induction used p a rule: scan_port.induct)
  case (1 used p a)
  show ?case
    using 1 by (auto simp: scan_port.simps [of used p] split: if_splits)
qed

lemma scan_port_least: "scan_port used p a = Inr q \<Longrightarrow> p \<le> r \<Longrightarrow> r < q \<Longrightarrow> used r"
proof (induction used p a rule: scan_port.induct)
  case (1 used p a)
  show ?case
  proof (cases "r = p")
    case True
    then show ?thesis
      using 1(2,4) by (auto simp: scan_port.simps [of used p] split: if_splits)
  next
    case False
    then show ?thesis
      using 1 by (auto simp: scan_port.simps [of used p] split: if_splits)
  qed
qed

lemma fold_max_ge: "m \<le> fold (\<lambda>(_, r) m. if P r then max (f r) m else m) rows (m :: nat)"
  by (induction rows arbitrary: m) (auto simp: case_prod_unfold, (meson max.cobounded2 le_trans)+)

lemma fold_max_member:
  "(d, r) \<in> set rows \<Longrightarrow> P r \<Longrightarrow> f r \<le> fold (\<lambda>(_, r) m. if P r then max (f r) m else m) rows (m :: nat)"
proof (induction rows arbitrary: m)
  case (Cons x rows)
  then show ?case
    using fold_max_ge [of "max (f r) m" P f rows] by (auto simp: case_prod_unfold)
qed simp

lemma max_port_least: "3332 \<le> max_port w h"
  unfolding max_port_def by (rule fold_max_ge)

lemma max_port_registered:
  "jget (h_rows h) d = Some r \<Longrightarrow> dr_server r = w_serverId w \<Longrightarrow> 3333 \<le> dr_port r \<Longrightarrow> dr_port r \<le> 3999
    \<Longrightarrow> dr_port r \<le> max_port w h"
  unfolding max_port_def by (rule fold_max_member [of d]) (auto dest: map_of_SomeD)

lemma assign_port_cases:
  assumes "assign_port_script w domain h = Inr p"
  obtains (registered) "registered_port w h domain = Some p" "\<not> port_in_use h p"
    | (new) "3333 \<le> p" "p \<le> 3999" "\<not> port_in_use h p" "w_psql w \<Longrightarrow> max_port w h < p"
proof -
  let ?first = "(if w_psql w then max_port w h else 3332) + 1"
  consider "registered_port w h domain = Some p" "\<not> port_in_use h p"
    | "?first \<le> 3999" "scan_port (port_in_use h) ?first 0 = Inr p"
    using assms unfolding assign_port_script_def Let_def
    by (auto split: option.splits if_splits)
  then show thesis
  proof cases
    case 2
    then have "?first \<le> p" "p \<le> 3999" "\<not> port_in_use h p"
      using scan_port_range by blast+
    moreover have "3333 \<le> ?first"
      using max_port_least [of w h] by simp
    ultimately show thesis
      by (intro new) (auto split: if_splits)
  qed (rule registered)
qed

end
