(* ===== verification/Deploy.thy ===== *)
theory Deploy
  imports SiteHost
begin

section \<open>The site orchestrator\<close>

text \<open>
  \<open>SiteOrchestrator\<close> of \<open>packages/site-controller\<close> and the executors that run its scripts: the phases of
  a deployment, the errors it throws and returns, its rollback, and the teardown.
\<close>

datatype deployment_code = CONFIGURATION_MISSING | DNS_VALIDATION_FAILED | INVALID_DOMAIN | PATH_TRAVERSAL
  | SITE_EXISTS | PORT_ASSIGNMENT_FAILED | USER_CREATION_FAILED | FILESYSTEM_ERROR | BUILD_FAILED
  | SERVICE_START_FAILED | CADDY_CONFIG_FAILED | ROLLBACK_FAILED | UNKNOWN

text \<open>What is thrown: a \<open>DeploymentError\<close>, a \<open>ScriptError\<close> (the script and its exit code), another \<open>Error\<close>.\<close>

datatype failure = DeploymentError deployment_code | ScriptError string nat | PlainError string

type_synonym 'a effect = "host \<Rightarrow> (failure + 'a) \<times> host"

definition run_script :: "string \<Rightarrow> 'a script \<Rightarrow> 'a effect" where
  "run_script name s h = (case s h of (Inl code, h') \<Rightarrow> (Inl (ScriptError name code), h')
     | (Inr x, h') \<Rightarrow> (Inr x, h'))"

definition and_then :: "'a effect \<Rightarrow> 'b effect \<Rightarrow> 'b effect" where
  "and_then f g h = (case f h of (Inl e, h') \<Rightarrow> (Inl e, h') | (Inr _, h') \<Rightarrow> g h')"

definition skip :: "unit effect" where
  "skip h = (Inr (), h)"

subsection \<open>Executors\<close>

definition validateDns :: "world \<Rightarrow> string \<Rightarrow> string \<Rightarrow> string \<Rightarrow> bool" where
  "validateDns w domain serverIp wildcardDomain = (validate_dns_script w domain serverIp wildcardDomain = 0)"

text \<open>The port, and \<open>isNew\<close>, read off what the script prints on its standard output.\<close>

definition assignPort :: "world \<Rightarrow> string \<Rightarrow> host \<Rightarrow> failure + nat \<times> bool" where
  "assignPort w domain h = (case assign_port_script w domain h of
       Inl code \<Rightarrow> Inl (ScriptError ''00-assign-port.sh'' code)
     | Inr p \<Rightarrow> Inr (p, \<not> str_includes ''already has assigned port'' (digits p)))"

definition ensureUser :: "world \<Rightarrow> string \<Rightarrow> unit effect" where
  "ensureUser w slug = run_script ''01-ensure-user.sh'' (ensure_user_script w slug)"

definition setupFilesystem :: "world \<Rightarrow> string \<Rightarrow> string \<Rightarrow> unit effect" where
  "setupFilesystem w domain templatePath = run_script ''02-setup-fs.sh'' (setup_fs_script w domain templatePath)"

definition buildSite :: "world \<Rightarrow> string \<Rightarrow> string \<Rightarrow> nat \<Rightarrow> unit effect" where
  "buildSite w domain slug port = run_script ''03-build-site.sh'' (build_script w domain slug port)"

definition startService :: "world \<Rightarrow> string \<Rightarrow> nat \<Rightarrow> unit effect" where
  "startService w slug port = run_script ''04-start-service.sh'' (start_service_script w slug port)"

definition configureCaddy :: "world \<Rightarrow> unit effect" where
  "configureCaddy w = run_script ''05-caddy-inject.sh'' (caddy_script w)"

subsection \<open>Deployment\<close>

record deploy_config =
  dc_domain :: string
  dc_slug :: string
  dc_templatePath :: string
  dc_rollbackOnFailure :: bool
  dc_skipBuild :: bool
  dc_skipCaddy :: bool
  dc_serverIp :: string
  dc_wildcardDomain :: string

record deploy_result =
  r_domain :: string
  r_port :: nat
  r_serviceName :: string
  r_success :: bool
  r_failedPhase :: "string option"

definition getServiceName :: "string \<Rightarrow> string" where
  "getServiceName slug = ''site@'' @ slug @ ''.service''"

definition required_commands :: "string list" where
  "required_commands = [''jq'', ''tar'', ''useradd'', ''systemctl'', ''rsync'', ''git'']"

definition checkSystemDependencies :: "world \<Rightarrow> failure option" where
  "checkSystemDependencies w =
     (if list_ex (\<lambda>c. \<not> w_command w c) required_commands then Some (DeploymentError CONFIGURATION_MISSING) else None)"

definition is_alpha :: "char \<Rightarrow> bool" where
  "is_alpha c = (is_lower_ascii c \<or> is_upper_ascii c)"

definition is_alnum :: "char \<Rightarrow> bool" where
  "is_alnum c = (is_alpha c \<or> is_digit_ascii c)"

text \<open>\<open>/^[a-z0-9.-]+$/i\<close>.\<close>

definition domain_format :: "string \<Rightarrow> bool" where
  "domain_format d = (d \<noteq> '''' \<and> list_all (\<lambda>c. is_alnum c \<or> c = CHR ''.'' \<or> c = CHR ''-'') d)"

definition validate_config :: "deploy_config \<Rightarrow> failure option" where
  "validate_config c =
     (if dc_serverIp c = '''' then Some (DeploymentError CONFIGURATION_MISSING)
      else if dc_wildcardDomain c = '''' then Some (DeploymentError CONFIGURATION_MISSING)
      else if \<not> domain_format (dc_domain c) then Some (DeploymentError INVALID_DOMAIN)
      else if str_includes ''..'' (dc_domain c) \<or> starts_with ''/'' (dc_domain c)
      then Some (DeploymentError PATH_TRAVERSAL) else None)"

fun codeToPhase :: "deployment_code \<Rightarrow> string" where
  "codeToPhase DNS_VALIDATION_FAILED = ''dns''"
| "codeToPhase INVALID_DOMAIN = ''validation''"
| "codeToPhase PATH_TRAVERSAL = ''validation''"
| "codeToPhase SITE_EXISTS = ''validation''"
| "codeToPhase PORT_ASSIGNMENT_FAILED = ''port''"
| "codeToPhase USER_CREATION_FAILED = ''user''"
| "codeToPhase FILESYSTEM_ERROR = ''filesystem''"
| "codeToPhase BUILD_FAILED = ''build''"
| "codeToPhase SERVICE_START_FAILED = ''service''"
| "codeToPhase CADDY_CONFIG_FAILED = ''caddy''"
| "codeToPhase _ = ''unknown''"

text \<open>Phases 3 to 7, once a port is assigned.\<close>

definition deploy_phases :: "world \<Rightarrow> deploy_config \<Rightarrow> nat \<Rightarrow> unit effect" where
  "deploy_phases w c port =
     and_then (ensureUser w (dc_slug c))
     (and_then (setupFilesystem w (dc_domain c) (dc_templatePath c))
     (and_then (if dc_skipBuild c then skip else buildSite w (dc_domain c) (dc_slug c) port)
     (and_then (if dc_skipBuild c then skip else startService w (dc_slug c) port)
     (if dc_skipCaddy c then skip else configureCaddy w))))"

definition teardown :: "world \<Rightarrow> string \<Rightarrow> bool \<Rightarrow> bool \<Rightarrow> unit effect" where
  "teardown w domain removeUser removeFiles =
     run_script ''99-teardown.sh'' (teardown_script w domain (dot_slug domain) removeUser removeFiles)"

text \<open>The \<open>catch\<close> block; \<open>port\<close> is \<open>deployedPort\<close>, and an error of the rollback is only logged.\<close>

definition deploy_failed :: "world \<Rightarrow> deploy_config \<Rightarrow> nat option \<Rightarrow> failure \<Rightarrow> deploy_result effect" where
  "deploy_failed w c port err h =
     (let failedPhase = (case err of DeploymentError code \<Rightarrow> codeToPhase code | _ \<Rightarrow> ''unknown'');
          h' = (case port of
              Some p \<Rightarrow> if dc_rollbackOnFailure c \<and> p \<noteq> 0 then snd (teardown w (dc_domain c) True True h) else h
            | None \<Rightarrow> h)
      in (case err of
            DeploymentError code \<Rightarrow> (Inl err, h')
          | _ \<Rightarrow> (Inr \<lparr>r_domain = dc_domain c, r_port = (case port of Some p \<Rightarrow> p | None \<Rightarrow> 0),
                      r_serviceName = getServiceName (dc_slug c), r_success = False,
                      r_failedPhase = Some failedPhase\<rparr>, h')))"

definition deploy :: "world \<Rightarrow> deploy_config \<Rightarrow> deploy_result effect" where
  "deploy w c h = (case checkSystemDependencies w of Some e \<Rightarrow> (Inl e, h) | None \<Rightarrow>
     (case validate_config c of Some e \<Rightarrow> (Inl e, h) | None \<Rightarrow>
       if \<not> validateDns w (dc_domain c) (dc_serverIp c) (dc_wildcardDomain c)
       then deploy_failed w c None (DeploymentError DNS_VALIDATION_FAILED) h
       else (case assignPort w (dc_domain c) h of
           Inl e \<Rightarrow> deploy_failed w c None e h
         | Inr (port, _) \<Rightarrow> (case deploy_phases w c port h of
             (Inl e, h') \<Rightarrow> deploy_failed w c (Some port) e h'
           | (Inr _, h') \<Rightarrow> (Inr \<lparr>r_domain = dc_domain c, r_port = port,
               r_serviceName = getServiceName (dc_slug c), r_success = True, r_failedPhase = None\<rparr>, h')))))"

subsection \<open>What a deployment may change\<close>

text \<open>
  A preorder on hosts that every script of a deployment respects is respected by all its phases, and
  with the teardown by a deployment and its rollback.
\<close>

locale deploy_effects =
  fixes keeps :: "host \<Rightarrow> host \<Rightarrow> bool" and w :: world and domain slug :: string
  assumes keeps_refl: "keeps h h"
    and keeps_trans: "keeps h h' \<Longrightarrow> keeps h' h'' \<Longrightarrow> keeps h h''"
    and user_keeps: "keeps h (snd (ensure_user_script w slug h))"
    and setup_keeps: "keeps h (snd (setup_fs_script w domain t h))"
    and build_keeps: "keeps h (snd (build_script w domain slug port h))"
    and start_keeps: "keeps h (snd (start_service_script w slug port h))"
    and caddy_keeps: "keeps h (snd (caddy_script w h))"
begin

lemma run_keeps: "keeps h (snd (s h)) \<Longrightarrow> keeps h (snd (run_script name s h))"
  by (auto simp: run_script_def split: prod.splits sum.splits)

lemma then_keeps:
  "keeps h (snd (f h)) \<Longrightarrow> (\<And>h'. keeps h' (snd (g h'))) \<Longrightarrow> keeps h (snd (and_then f g h))"
  by (auto simp: and_then_def split: prod.splits sum.splits intro: keeps_trans)

lemma skip_keeps: "keeps h (snd (skip h))"
  by (simp add: skip_def keeps_refl)

lemma phases_keep:
  assumes "dc_domain c = domain" "dc_slug c = slug"
  shows "keeps h (snd (deploy_phases w c port h))"
  unfolding deploy_phases_def ensureUser_def setupFilesystem_def buildSite_def startService_def
    configureCaddy_def assms
  by (intro then_keeps) (simp_all add: run_keeps skip_keeps user_keeps setup_keeps build_keeps
      start_keeps caddy_keeps)

end

locale deploy_rollback = deploy_effects +
  assumes teardown_keeps: "keeps h (snd (teardown_script w domain (dot_slug domain) True True h))"
begin

lemma failed_keeps: "dc_domain c = domain \<Longrightarrow> keeps h (snd (deploy_failed w c port err h))"
proof -
  assume c: "dc_domain c = domain"
  have "keeps h (snd (teardown w (dc_domain c) True True h))"
    unfolding teardown_def c by (rule run_keeps) (rule teardown_keeps)
  then show ?thesis
    by (auto simp: deploy_failed_def Let_def keeps_refl split: option.splits failure.splits)
qed

lemma deploy_keeps:
  assumes c: "dc_domain c = domain" "dc_slug c = slug"
  shows "keeps h (snd (deploy w c h))"
proof -
  have "keeps h h'" if "deploy_phases w c port h = (r, h')" for port r h'
    using phases_keep [OF c, of h port] that by simp
  moreover have "keeps h (snd (deploy_failed w c port err h'))" if "keeps h h'" for port err h'
    using that failed_keeps [OF c(1)] by (rule keeps_trans)
  ultimately show ?thesis
    using failed_keeps [OF c(1), of h] unfolding deploy_def
    by (auto simp: keeps_refl split: option.splits sum.splits prod.splits)
qed

end

text \<open>Everything that is not the domain's or its slugs'.\<close>

definition others_kept :: "string \<Rightarrow> string \<Rightarrow> host \<Rightarrow> host \<Rightarrow> bool" where
  "others_kept domain slug h h' \<longleftrightarrow>
     (\<forall>d. d \<noteq> domain \<longrightarrow> jget (h_sites h') d = jget (h_sites h) d) \<and>
     (\<forall>l. l \<noteq> dot_slug domain \<longrightarrow> jget (h_links h') l = jget (h_links h) l) \<and>
     (\<forall>s. s \<noteq> slug \<and> s \<noteq> dot_slug domain \<longrightarrow>
        (s \<in> set (h_users h') \<longleftrightarrow> s \<in> set (h_users h)) \<and>
        jget (h_services h') s = jget (h_services h) s \<and> jget (h_env h') s = jget (h_env h) s) \<and>
     h_ports h' = h_ports h \<and> h_rows h' = h_rows h \<and> h_scratch h' = h_scratch h \<and>
     h_portmap h' = h_portmap h \<and> h_sandboxmap h' = h_sandboxmap h"

lemma systemctl_start_change:
  obtains (same) "snd (systemctl_start w slug h) = h"
  | (started) ps where "slug \<in> set (h_users h)"
      "snd (systemctl_start w slug h) = h\<lparr>h_services := jset slug ps (h_services h)\<rparr>"
proof (cases "jget (h_services h) slug = None \<and> slug \<in> set (h_users h)")
  case True
  show thesis
  proof (cases "unit_directory h slug")
    case (Some fs)
    then show thesis
      using True by (cases "w_boot w fs (env_port h slug)") (simp_all add: systemctl_start_def same started)
  qed (use True in \<open>simp add: systemctl_start_def same\<close>)
next
  case False
  then show thesis
    by (intro same) (auto simp: systemctl_start_def)
qed

lemma start_service_change: "snd (start_service_script w slug port h) = snd (systemctl_start w slug h)"
proof (cases "systemctl_start w slug h")
  case (Pair r h')
  then show ?thesis
    by (cases r) (simp_all add: start_service_script_def)
qed

lemma teardown_users:
  "slug' \<in> set (h_users (snd (teardown_script w domain slug True True h))) \<longleftrightarrow>
     slug' \<in> set (h_users h) \<and> (slug' = slug \<longrightarrow> \<not> (w_sync w \<and> w_kill w slug \<and> w_userdel w slug))"
  by (auto simp add: teardown_script_def Let_def)

lemma teardown_services:
  "jget (h_services (snd (teardown_script w domain slug True True h))) slug' =
     (if slug' = slug \<and> (w_listed w slug \<or> w_sync w \<and> w_kill w slug \<and> slug \<in> set (h_users h)) then None
      else jget (h_services h) slug')"
  by (simp add: teardown_script_def Let_def)

lemma teardown_env:
  "jget (h_env (snd (teardown_script w domain slug True True h))) slug' =
     (if slug' = slug \<and> w_sync w then None else jget (h_env h) slug')"
  by (simp add: teardown_script_def Let_def)

definition teardown_ends :: "world \<Rightarrow> string \<Rightarrow> host \<Rightarrow> bool" where
  "teardown_ends w slug h \<longleftrightarrow> w_sync w \<and> (slug \<in> set (h_users h) \<longrightarrow> w_kill w slug \<and> w_userdel w slug)"

lemma teardown_sites:
  "jget (h_sites (snd (teardown_script w domain slug True True h))) d =
     (if d = domain \<and> teardown_ends w slug h then None else jget (h_sites h) d)"
  by (simp add: teardown_script_def teardown_ends_def Let_def)

lemma teardown_links:
  "jget (h_links (snd (teardown_script w domain slug True True h))) l =
     (if l = dot_slug domain \<and> teardown_ends w slug h then None else jget (h_links h) l)"
  by (simp add: teardown_script_def teardown_ends_def Let_def)

lemma teardown_rest:
  "h_ports (snd (teardown_script w domain slug u f h)) = h_ports h"
  "h_rows (snd (teardown_script w domain slug u f h)) = h_rows h"
  "h_scratch (snd (teardown_script w domain slug u f h)) = h_scratch h"
  "h_portmap (snd (teardown_script w domain slug u f h)) = h_portmap h"
  "h_sandboxmap (snd (teardown_script w domain slug u f h)) = h_sandboxmap h"
  by (simp_all add: teardown_script_def Let_def)

lemmas teardown_fields = teardown_users teardown_services teardown_env teardown_sites teardown_links teardown_rest

interpretation others: deploy_rollback "others_kept domain slug" w domain slug
proof
  show "others_kept domain slug h (snd (start_service_script w slug port h))" for h port
    by (rule systemctl_start_change [of w slug h]) (simp_all add: start_service_change others_kept_def)
  show "others_kept domain slug h (snd (ensure_user_script w slug h))" for h
    by (simp add: others_kept_def ensure_user_script_def)
  show "others_kept domain slug h (snd (setup_fs_script w domain t h))" for h t
    by (simp add: others_kept_def setup_fs_script_def Let_def)
  show "others_kept domain slug h (snd (build_script w domain slug port h))" for h port
    by (simp add: others_kept_def build_script_def Let_def split: sum.split)
  show "others_kept domain slug h (snd (caddy_script w h))" for h
    by (simp add: others_kept_def caddy_script_def split: option.split)
  show "others_kept domain slug h (snd (teardown_script w domain (dot_slug domain) True True h))" for h
    unfolding others_kept_def teardown_fields by simp
qed (simp_all add: others_kept_def)

text \<open>A service runs under a user of the host.\<close>

definition user_of_service :: "string \<Rightarrow> host \<Rightarrow> host \<Rightarrow> bool" where
  "user_of_service slug h h' \<longleftrightarrow>
     ((jget (h_services h) slug \<noteq> None \<longrightarrow> slug \<in> set (h_users h)) \<longrightarrow>
      (jget (h_services h') slug \<noteq> None \<longrightarrow> slug \<in> set (h_users h')))"

interpretation service_user: deploy_rollback "user_of_service slug" w domain slug
proof
  show "user_of_service slug h (snd (start_service_script w slug port h))" for h port
    by (rule systemctl_start_change [of w slug h]) (simp_all add: start_service_change user_of_service_def)
  show "user_of_service slug h (snd (ensure_user_script w slug h))" for h
    by (simp add: user_of_service_def ensure_user_script_def)
  show "user_of_service slug h (snd (setup_fs_script w domain t h))" for h t
    by (simp add: user_of_service_def setup_fs_script_def Let_def)
  show "user_of_service slug h (snd (build_script w domain slug port h))" for h port
    by (simp add: user_of_service_def build_script_def Let_def split: sum.split)
  show "user_of_service slug h (snd (caddy_script w h))" for h
    by (simp add: user_of_service_def caddy_script_def split: option.split)
  show "user_of_service slug h (snd (teardown_script w domain (dot_slug domain) True True h))" for h
    unfolding user_of_service_def teardown_users teardown_services by auto
qed (simp_all add: user_of_service_def)

subsection \<open>What a deployment does\<close>

lemma assignPort_Inr: "assignPort w domain h = Inr (p, n) \<Longrightarrow> assign_port_script w domain h = Inr p"
  by (simp add: assignPort_def split: sum.splits)

lemma deploy_unfold:
  assumes "checkSystemDependencies w = None" "validate_config c = None"
    "validateDns w (dc_domain c) (dc_serverIp c) (dc_wildcardDomain c)"
    "assignPort w (dc_domain c) h = Inr (port, n)"
  shows "deploy w c h = (case deploy_phases w c port h of
       (Inl e, h') \<Rightarrow> deploy_failed w c (Some port) e h'
     | (Inr _, h') \<Rightarrow> (Inr \<lparr>r_domain = dc_domain c, r_port = port,
         r_serviceName = getServiceName (dc_slug c), r_success = True, r_failedPhase = None\<rparr>, h'))"
  using assms by (simp add: deploy_def)

lemma deploy_succeeds:
  assumes "deploy w c h = (Inr r, h')" "r_success r"
  obtains port n u where "assignPort w (dc_domain c) h = Inr (port, n)" "r_port r = port"
    "deploy_phases w c port h = (Inr u, h')" "validate_config c = None"
  using assms unfolding deploy_def
  by (auto simp: deploy_failed_def Let_def split: option.splits sum.splits prod.splits if_splits failure.splits)

lemma and_then_Inr: "and_then f g h = (Inr x, h') \<longleftrightarrow> (\<exists>y h1. f h = (Inr y, h1) \<and> g h1 = (Inr x, h'))"
  by (auto simp: and_then_def split: prod.splits sum.splits)

lemma run_script_Inr: "run_script name s h = (Inr x, h') \<longleftrightarrow> s h = (Inr x, h')"
  by (auto simp: run_script_def split: prod.splits sum.splits)

lemma script_services:
  "h_services (snd (ensure_user_script w slug h)) = h_services h"
  "h_services (snd (setup_fs_script w domain t h)) = h_services h"
  "h_services (snd (build_script w domain slug port h)) = h_services h"
  "h_ports (snd (ensure_user_script w slug h)) = h_ports h"
  "h_ports (snd (setup_fs_script w domain t h)) = h_ports h"
  "h_ports (snd (build_script w domain slug port h)) = h_ports h"
  by (simp_all add: ensure_user_script_def setup_fs_script_def build_script_def Let_def split: sum.split)

lemma phases_started:
  assumes "deploy_phases w c port h = (Inr u, h')" "\<not> dc_skipBuild c"
  obtains h1 h2 h3 h4 where
    "ensure_user_script w (dc_slug c) h = (Inr (), h1)"
    "setup_fs_script w (dc_domain c) (dc_templatePath c) h1 = (Inr (), h2)"
    "build_script w (dc_domain c) (dc_slug c) port h2 = (Inr (), h3)"
    "start_service_script w (dc_slug c) port h3 = (Inr (), h4)"
  using assms unfolding deploy_phases_def ensureUser_def setupFilesystem_def buildSite_def startService_def
  by (auto simp: and_then_Inr run_script_Inr)

text \<open>A service that runs is not restarted, so the new port never listens.\<close>

lemma running_phases_fail:
  assumes "jget (h_services h) (dc_slug c) \<noteq> None" "\<not> port_in_use h port" "\<not> dc_skipBuild c"
  obtains name code h' where "deploy_phases w c port h = (Inl (ScriptError name code), h')"
proof -
  obtain r h' where run: "deploy_phases w c port h = (r, h')" by fastforce
  show thesis
  proof (cases r)
    case (Inl e)
    then have "\<exists>name code. e = ScriptError name code"
      using run unfolding deploy_phases_def ensureUser_def setupFilesystem_def buildSite_def startService_def
        configureCaddy_def
      by (auto simp: and_then_def run_script_def skip_def split: prod.splits sum.splits if_splits)
    then show thesis
      using Inl run that by auto
  next
    case (Inr u)
    then obtain h1 h2 h3 h4 where steps:
      "ensure_user_script w (dc_slug c) h = (Inr (), h1)"
      "setup_fs_script w (dc_domain c) (dc_templatePath c) h1 = (Inr (), h2)"
      "build_script w (dc_domain c) (dc_slug c) port h2 = (Inr (), h3)"
      "start_service_script w (dc_slug c) port h3 = (Inr (), h4)"
      using run assms(3) by (auto elim: phases_started)
    have "h_services h3 = h_services h" "h_ports h3 = h_ports h"
      using steps(1-3) script_services by (metis snd_conv)+
    then have "fst (start_service_script w (dc_slug c) port h3) = Inl 16"
      using assms(1,2) by (auto simp: start_service_script_def systemctl_start_def port_in_use_def)
    then show thesis
      using steps(4) by simp
  qed
qed

lemma redeploy_tears_down:
  assumes ok: "checkSystemDependencies w = None" "validate_config c = None"
    "validateDns w (dc_domain c) (dc_serverIp c) (dc_wildcardDomain c)"
    and c: "dc_rollbackOnFailure c" "\<not> dc_skipBuild c" "dc_slug c = dot_slug (dc_domain c)"
    and running: "jget (h_services h) (dc_slug c) = Some ps" "jget (h_rows h) (dc_domain c) = Some row"
      "dr_port row \<in> set ps"
    and ends: "w_sync w" "w_kill w (dc_slug c)" "w_userdel w (dc_slug c)"
    and port: "assignPort w (dc_domain c) h = Inr (port, n)"
  obtains r h' where "deploy w c h = (Inr r, h')" "\<not> r_success r" "r_failedPhase r = Some ''unknown''"
    "jget (h_sites h') (dc_domain c) = None" "dc_slug c \<notin> set (h_users h')"
    "jget (h_env h') (dc_slug c) = None" "h_rows h' = h_rows h"
proof -
  have used: "port_in_use h (dr_port row)"
    using running map_of_SomeD [OF running(1)] by (auto simp: port_in_use_def list_ex_iff)
  have free: "\<not> port_in_use h port" "port \<noteq> 0"
    using assignPort_Inr [OF port]
    by (auto elim!: assign_port_cases simp: registered_port_def running(2) used split: if_splits)
  obtain name code h1 where fails: "deploy_phases w c port h = (Inl (ScriptError name code), h1)"
    using running_phases_fail [of h c port w] free(1) c(2) running(1) by (metis option.distinct(1))
  define h2 where "h2 = snd (teardown w (dc_domain c) True True h1)"
  have h2: "h2 = snd (teardown_script w (dc_domain c) (dc_slug c) True True h1)"
    unfolding h2_def teardown_def c(3) by (simp add: run_script_def split: prod.split sum.split)
  have "h_rows h1 = h_rows h"
    using others.phases_keep [of c "dc_domain c" "dc_slug c" h w port] fails by (simp add: others_kept_def)
  then have gone: "jget (h_sites h2) (dc_domain c) = None" "dc_slug c \<notin> set (h_users h2)"
    "jget (h_env h2) (dc_slug c) = None" "h_rows h2 = h_rows h"
    unfolding h2 teardown_fields using ends by (auto simp: teardown_ends_def)
  have "deploy w c h = (Inr \<lparr>r_domain = dc_domain c, r_port = port, r_serviceName = getServiceName (dc_slug c),
      r_success = False, r_failedPhase = Some ''unknown''\<rparr>, h2)"
    using deploy_unfold [OF ok port] fails c(1) free(2) by (simp add: deploy_failed_def Let_def h2_def)
  from this _ _ gone show thesis
    by (rule that) auto
qed

text \<open>A failure that is returned never names its phase: \<open>codeToPhase\<close> only sees errors that are rethrown.\<close>

lemma failed_phase_unknown:
  "deploy w c h = (Inr r, h') \<Longrightarrow> \<not> r_success r \<Longrightarrow> r_failedPhase r = Some ''unknown''"
  unfolding deploy_def
  by (auto simp: deploy_failed_def Let_def split: option.splits sum.splits prod.splits if_splits failure.splits)

lemma str_includes_subset: "str_includes p s \<Longrightarrow> set p \<subseteq> set s"
proof (induction s)
  case (Cons c s)
  then show ?case
    by (auto simp: starts_with_def dest: in_set_takeD) (metis in_set_takeD set_ConsD)
qed simp

lemma char_digit_ascii: "(d :: nat) < 10 \<Longrightarrow> is_digit_ascii (char_of (48 + d))"
  by (simp add: is_digit_ascii_def Let_def)

lemma digits_ascii: "list_all is_digit_ascii (digits n)"
proof (induction n rule: digits.induct)
  case (1 n)
  then show ?case
    using char_digit_ascii [of n] char_digit_ascii [of "n mod 10"] by (subst digits.simps) auto
qed

lemma assigned_port_always_new: "assignPort w domain h = Inr (p, n) \<Longrightarrow> n"
proof -
  assume "assignPort w domain h = Inr (p, n)"
  then have n: "n \<longleftrightarrow> \<not> str_includes ''already has assigned port'' (digits p)"
    by (auto simp: assignPort_def split: sum.splits)
  have "CHR ''a'' \<notin> set (digits p)"
    using digits_ascii [of p] by (auto simp: list_all_iff is_digit_ascii_def)
  then show n
    using str_includes_subset [of "''already has assigned port''" "digits p"] unfolding n by auto
qed

text \<open>
  The unit runs in the directory of its slug. Where the slug of the deployment is not the name of the
  symbolic link that the file system script makes, there is no such directory.
\<close>

lemma directory_kept:
  assumes "slug \<noteq> domain" "slug \<noteq> dot_slug domain" "jget (h_sites h) slug = None" "jget (h_links h) slug = None"
  shows "jget (h_sites (snd (ensure_user_script w slug h))) slug = None \<and>
      jget (h_links (snd (ensure_user_script w slug h))) slug = None"
    "jget (h_sites (snd (setup_fs_script w domain t h))) slug = None \<and>
      jget (h_links (snd (setup_fs_script w domain t h))) slug = None"
    "jget (h_sites (snd (build_script w domain slug port h))) slug = None \<and>
      jget (h_links (snd (build_script w domain slug port h))) slug = None"
  using assms by (simp_all add: ensure_user_script_def setup_fs_script_def build_script_def Let_def split: sum.split)

lemma missing_directory_fails:
  assumes slug: "dc_slug c \<noteq> dc_domain c" "dc_slug c \<noteq> dot_slug (dc_domain c)"
    and none: "jget (h_sites h) (dc_slug c) = None" "jget (h_links h) (dc_slug c) = None"
      "jget (h_services h) (dc_slug c) = None"
    and built: "\<not> dc_skipBuild c"
  shows "deploy_phases w c port h \<noteq> (Inr u, h')"
proof
  assume "deploy_phases w c port h = (Inr u, h')"
  then obtain h1 h2 h3 h4 where steps:
    "ensure_user_script w (dc_slug c) h = (Inr (), h1)"
    "setup_fs_script w (dc_domain c) (dc_templatePath c) h1 = (Inr (), h2)"
    "build_script w (dc_domain c) (dc_slug c) port h2 = (Inr (), h3)"
    "start_service_script w (dc_slug c) port h3 = (Inr (), h4)"
    using built by (auto elim: phases_started)
  have h1: "jget (h_sites h1) (dc_slug c) = None" "jget (h_links h1) (dc_slug c) = None"
    using directory_kept(1) [OF slug none(1,2), of w] steps(1) by simp_all
  have h2: "jget (h_sites h2) (dc_slug c) = None" "jget (h_links h2) (dc_slug c) = None"
    using directory_kept(2) [OF slug h1, of w "dc_templatePath c"] steps(2) by simp_all
  have h3: "jget (h_sites h3) (dc_slug c) = None" "jget (h_links h3) (dc_slug c) = None"
    using directory_kept(3) [OF slug h2, of w port] steps(3) by simp_all
  have "h_services h3 = h_services h"
    using steps(1-3) script_services by (metis snd_conv)
  then show False
    using steps(4) h3 none(3)
    by (auto simp: start_service_script_def systemctl_start_def unit_directory_def split: if_splits)
qed

end
