(* ===== verification/DeployPipeline.thy ===== *)
theory DeployPipeline
  imports Deploy
begin

section \<open>The deployment pipeline of the web application\<close>

text \<open>
  \<open>apps/web/lib/deployment\<close>: the normalisation of a domain, the registry of domains, the port map of
  the preview proxy, and \<open>runStrictDeployment\<close>, which deploys a site, registers it, regenerates the
  routing and rolls back what it did when a step fails.
\<close>

subsection \<open>Domains\<close>

fun drop_scheme :: "string \<Rightarrow> string" where
  "drop_scheme s = (case s of [] \<Rightarrow> s
     | c # _ \<Rightarrow> (let rest = dropWhile (\<lambda>d. is_alnum d \<or> d \<in> {CHR ''+'', CHR ''.'', CHR ''-''}) s
         in if is_alpha c \<and> starts_with ''://'' rest then drop 3 rest else s))"

text \<open>
  Without the flag \<open>s\<close> the dot of \<open>.*\<close> stops at a line terminator: the first occurrence after which
  there is none starts the match.
\<close>

definition is_line_end :: "char \<Rightarrow> bool" where
  "is_line_end c = (c = CHR 0x0A \<or> c = CHR 0x0D)"

fun cut_from :: "(char \<Rightarrow> bool) \<Rightarrow> string \<Rightarrow> string" where
  "cut_from p [] = []"
| "cut_from p (c # cs) = (if p c \<and> list_all (\<lambda>d. \<not> is_line_end d) cs then [] else c # cut_from p cs)"

definition drop_port :: "string \<Rightarrow> string" where
  "drop_port s = (let digits = takeWhile is_digit_ascii (rev s); rest = dropWhile is_digit_ascii (rev s)
     in case rest of c # cs \<Rightarrow> if c = CHR '':'' \<and> digits \<noteq> [] then rev cs else s | [] \<Rightarrow> s)"

definition normalizeDomain :: "string \<Rightarrow> string" where
  "normalizeDomain input =
     (let d1 = drop_scheme (trim input);
          d2 = (if starts_with ''www.'' (to_lower d1) then drop 4 d1 else d1);
          d3 = cut_from (\<lambda>c. c = CHR ''/'') d2;
          d4 = drop_port d3;
          d5 = cut_from (\<lambda>c. c = CHR ''?'' \<or> c = CHR ''#'') d4
      in trim (to_lower d5))"

definition domain_label :: "string \<Rightarrow> bool" where
  "domain_label s = (s \<noteq> [] \<and> list_all (\<lambda>c. is_alnum c \<or> c = CHR ''-'') s \<and> is_alnum (hd s) \<and> is_alnum (last s))"

definition isValidDomain :: "string \<Rightarrow> bool" where
  "isValidDomain domain = (let parts = split_on (CHR ''.'') domain
     in 2 \<le> length parts \<and> list_all domain_label (butlast parts)
        \<and> 2 \<le> length (last parts) \<and> list_all is_alpha (last parts))"

definition normalizeAndValidateDomain :: "string \<Rightarrow> string option" where
  "normalizeAndValidateDomain input = (let d = normalizeDomain input in
     if d = [] then None else if isValidDomain d then Some d else None)"

text \<open>\<open>domain.replace(/[^a-z0-9]+/gi, "-").toLowerCase()\<close>: a run of other characters becomes one hyphen.\<close>

fun collapse_runs :: "bool \<Rightarrow> string \<Rightarrow> string" where
  "collapse_runs inside [] = []"
| "collapse_runs inside (c # cs) = (if is_alnum c then c # collapse_runs False cs
     else if inside then collapse_runs True cs else CHR ''-'' # collapse_runs True cs)"

definition site_slug :: "string \<Rightarrow> string" where
  "site_slug domain = to_lower (collapse_runs False domain)"

subsection \<open>The registry\<close>

datatype registry_code = R_INVALID_DOMAIN | R_VALIDATION_ERROR | R_DEPLOYMENT_IN_PROGRESS | R_DEPLOYMENT_FAILED
  | R_INVALID_CREDENTIALS | R_ORG_NOT_FOUND | R_DOMAIN_ALREADY_EXISTS | R_INTERNAL_ERROR

datatype pipeline_failure = Registration registry_code | Deployment failure | Other

text \<open>
  The tables \<open>iam.users\<close> (by e-mail: id and password hash), \<open>iam.org_memberships\<close> (organisation,
  user, role, oldest first) and \<open>iam.orgs\<close> (with \<open>is_test_env\<close>), and the number of ids handed out.
\<close>

record registry =
  g_users :: "(string, string \<times> string option) jsmap"
  g_members :: "(string \<times> string \<times> string) list"
  g_orgs :: "(string, bool option) jsmap"
  g_ids :: nat

text \<open>
  What the pipeline takes from outside: whether the database answers, the id it gives to a new row,
  the password functions, the execution mode of new sites, the environment, the results of the
  scratch copy, of the sandbox service and of the generated routing file (none when there is no file
  to check), the template ports.
\<close>

record pipeline_world =
  p_database :: bool
  p_uuid :: "nat \<Rightarrow> string"
  p_hash :: "string \<Rightarrow> string"
  p_verify :: "string \<Rightarrow> string \<Rightarrow> bool"
  p_e2b :: bool
  p_production :: bool
  p_e2bDomain :: bool
  p_serverIp :: string
  p_wildcardDomain :: string
  p_scratch :: "string \<Rightarrow> bool"
  p_sandbox :: "string \<Rightarrow> string option"
  p_sandboxGit :: "string \<Rightarrow> bool"
  p_routing :: "(string, domain_row) jsmap \<Rightarrow> string option"
  p_templatePorts :: "(string, nat) jsmap"

record registration =
  rg_hostname :: string
  rg_email :: string
  rg_password :: "string option"
  rg_port :: nat
  rg_e2b :: bool
  rg_orgId :: "string option"

definition isDomainRegistered :: "pipeline_world \<Rightarrow> string \<Rightarrow> host \<Rightarrow> pipeline_failure + bool" where
  "isDomainRegistered e hostname h =
     (if p_database e then Inr (jget (h_rows h) hostname \<noteq> None) else Inl (Registration R_DEPLOYMENT_FAILED))"

definition getOrCreateUserId :: "pipeline_world \<Rightarrow> string \<Rightarrow> string option \<Rightarrow> registry
    \<Rightarrow> (pipeline_failure + string) \<times> registry" where
  "getOrCreateUserId e email password g =
     (if \<not> p_database e then (Inl (Registration R_DEPLOYMENT_FAILED), g) else
      (case jget (g_users g) email of
         Some (uid, stored) \<Rightarrow>
           (case (password, stored) of
              (Some pw, Some hash) \<Rightarrow> if pw \<noteq> [] \<and> hash \<noteq> [] \<and> \<not> p_verify e pw hash
                then (Inl (Registration R_INVALID_CREDENTIALS), g) else (Inr uid, g)
            | _ \<Rightarrow> (Inr uid, g))
       | None \<Rightarrow>
           (case password of
              None \<Rightarrow> (Inl (Registration R_DEPLOYMENT_FAILED), g)
            | Some pw \<Rightarrow> if pw = [] then (Inl (Registration R_DEPLOYMENT_FAILED), g)
                else (let uid = p_uuid e (g_ids g)
                  in (Inr uid, g\<lparr>g_users := jset email (uid, Some (p_hash e pw)) (g_users g), g_ids := g_ids g + 1\<rparr>)))))"

definition getUserDefaultOrgId :: "pipeline_world \<Rightarrow> string \<Rightarrow> registry \<Rightarrow> string \<times> registry" where
  "getUserDefaultOrgId e userId g =
     (case filter (\<lambda>(_, u, role). u = userId \<and> role = ''owner'') (g_members g) of
        (org, _, _) # _ \<Rightarrow> (org, g)
      | [] \<Rightarrow> (let org = p_uuid e (g_ids g)
          in (org, g\<lparr>g_orgs := jset org (Some False) (g_orgs g),
                     g_members := g_members g @ [(org, userId, ''owner'')], g_ids := g_ids g + 1\<rparr>)))"

definition getOrganizationDomainContext :: "string \<Rightarrow> registry \<Rightarrow> pipeline_failure + bool" where
  "getOrganizationDomainContext orgId g = (case jget (g_orgs g) orgId of
       None \<Rightarrow> Inl (Registration R_ORG_NOT_FOUND)
     | Some None \<Rightarrow> Inl (Registration R_DEPLOYMENT_FAILED)
     | Some (Some t) \<Rightarrow> Inr t)"

text \<open>\<open>assertValidServerId\<close>, and the unique index on the host name.\<close>

definition valid_server_id :: "string \<Rightarrow> bool" where
  "valid_server_id s = (starts_with ''srv_'' s \<and> 10 \<le> length s \<and> list_all (\<lambda>c. \<not> is_line_end c) (drop 4 s))"

definition createDomainEntry :: "world \<Rightarrow> registration \<Rightarrow> string \<Rightarrow> bool \<Rightarrow> host \<Rightarrow> (pipeline_failure + unit) \<times> host" where
  "createDomainEntry w r orgId test h =
     (if \<not> valid_server_id (w_serverId w) then (Inl (Registration R_DEPLOYMENT_FAILED), h)
      else if list_ex (\<lambda>k. to_lower k = to_lower (rg_hostname r)) (jkeys (h_rows h))
      then (Inl (Registration R_DOMAIN_ALREADY_EXISTS), h)
      else (Inr (), h\<lparr>h_rows := jset (rg_hostname r)
        \<lparr>dr_port = rg_port r, dr_org = orgId, dr_server = w_serverId w, dr_e2b = rg_e2b r, dr_sandbox = None,
         dr_running = False, dr_test = test\<rparr> (h_rows h)\<rparr>))"

definition registerDomain :: "world \<Rightarrow> pipeline_world \<Rightarrow> registration \<Rightarrow> host \<times> registry
    \<Rightarrow> (pipeline_failure + unit) \<times> host \<times> registry" where
  "registerDomain w e r = (\<lambda>(h, g). case isDomainRegistered e (rg_hostname r) h of
       Inl err \<Rightarrow> (Inl err, h, g)
     | Inr True \<Rightarrow> (Inr (), h, g)
     | Inr False \<Rightarrow> (case getOrCreateUserId e (rg_email r) (rg_password r) g of
         (Inl err, g1) \<Rightarrow> (Inl err, h, g1)
       | (Inr uid, g1) \<Rightarrow>
           (let (orgId, g2) = (case rg_orgId r of
                  Some o1 \<Rightarrow> if o1 = [] then getUserDefaultOrgId e uid g1 else (o1, g1)
                | None \<Rightarrow> getUserDefaultOrgId e uid g1)
            in case getOrganizationDomainContext orgId g2 of
                 Inl err \<Rightarrow> (Inl err, h, g2)
               | Inr test \<Rightarrow> (case createDomainEntry w r orgId test h of (res, h') \<Rightarrow> (res, h', g2)))))"

definition unregisterDomain :: "pipeline_world \<Rightarrow> string \<Rightarrow> host \<Rightarrow> (pipeline_failure + unit) \<times> host" where
  "unregisterDomain e hostname h = (if \<not> p_database e then (Inl (Registration R_DEPLOYMENT_FAILED), h)
     else (Inr (), h\<lparr>h_rows := jdel hostname (h_rows h)\<rparr>))"

subsection \<open>The port map of the preview proxy\<close>

definition shouldBlockCountDrop :: "nat \<Rightarrow> nat \<Rightarrow> bool" where
  "shouldBlockCountDrop existingCount nextCount = (if existingCount < 20 then False else 2 * nextCount < existingCount)"

definition e2b_default_port :: nat where
  "e2b_default_port = 5173"

definition add_row :: "string \<times> domain_row \<Rightarrow> (string, nat) jsmap \<times> (string, string \<times> nat) jsmap
    \<Rightarrow> (string, nat) jsmap \<times> (string, string \<times> nat) jsmap" where
  "add_row hr maps = (case (hr, maps) of ((hostname, r), (ports, sandboxes)) \<Rightarrow>
     if hostname = [] then maps
     else (case dr_sandbox r of
        Some sid \<Rightarrow> if dr_e2b r \<and> sid \<noteq> [] \<and> dr_running r
          then (ports, jset hostname (sid, if dr_port r = 0 then e2b_default_port else dr_port r) sandboxes)
          else if dr_port r \<noteq> 0 then (jset hostname (dr_port r) ports, sandboxes) else maps
      | None \<Rightarrow> if dr_port r \<noteq> 0 then (jset hostname (dr_port r) ports, sandboxes) else maps))"

definition server_rows :: "world \<Rightarrow> host \<Rightarrow> (string, domain_row) jsmap" where
  "server_rows w h = filter (\<lambda>(_, r). dr_server r = w_serverId w \<and> \<not> dr_test r) (h_rows h)"

definition with_template_ports :: "(string, nat) jsmap \<Rightarrow> (string, nat) jsmap \<Rightarrow> (string, nat) jsmap" where
  "with_template_ports tps ports =
     fold (\<lambda>(hostname, p) m. if jget m hostname = None then jset hostname p m else m) tps ports"

text \<open>
  The retries repeat the same queries and are one attempt here. \<open>required\<close> is \<open>requiredHostname\<close>; the
  host name of a site contains a dot and is no inherited member of the maps.
\<close>

definition regeneratePortMap :: "world \<Rightarrow> pipeline_world \<Rightarrow> string option \<Rightarrow> host \<Rightarrow> (pipeline_failure + nat) \<times> host" where
  "regeneratePortMap w e required h =
     (if w_serverId w = [] \<or> \<not> p_database e then (Inl Other, h) else
      (let rows = server_rows w h;
           (ports0, sandboxes) = fold add_row rows ([], []);
           ports = with_template_ports (p_templatePorts e) ports0;
           present = (\<lambda>d. jget ports d \<noteq> None \<or> jget sandboxes d \<noteq> None);
           existingTotal = length (h_portmap h) + length (h_sandboxmap h);
           nextTotal = length ports + length sandboxes
       in if \<not> p_e2bDomain e \<and> sandboxes \<noteq> [] then (Inl Other, h)
          else if (case required of Some d \<Rightarrow> d \<noteq> [] \<and> \<not> present d | None \<Rightarrow> False) then (Inl Other, h)
          else if shouldBlockCountDrop existingTotal nextTotal then (Inl Other, h)
          else (Inr nextTotal, h\<lparr>h_portmap := ports, h_sandboxmap := sandboxes\<rparr>)))"

subsection \<open>\<open>deploySite\<close>\<close>

definition deploySite :: "world \<Rightarrow> pipeline_world \<Rightarrow> string \<Rightarrow> string \<Rightarrow> bool \<Rightarrow> host
    \<Rightarrow> (pipeline_failure + nat) \<times> host" where
  "deploySite w e domain0 templatePath skipBuild h =
     (let domain = to_lower domain0
      in if p_serverIp e = [] \<or> p_wildcardDomain e = [] then (Inl Other, h)
         else (case deploy w \<lparr>dc_domain = domain, dc_slug = site_slug domain, dc_templatePath = templatePath,
                   dc_rollbackOnFailure = True, dc_skipBuild = skipBuild, dc_skipCaddy = True,
                   dc_serverIp = p_serverIp e, dc_wildcardDomain = p_wildcardDomain e\<rparr> h of
                 (Inl err, h') \<Rightarrow> (Inl (Deployment err), h')
               | (Inr r, h') \<Rightarrow> if r_success r then (Inr (r_port r), h') else (Inl Other, h')))"

subsection \<open>\<open>runStrictDeployment\<close>\<close>

record deployment_input =
  in_domain :: string
  in_email :: string
  in_password :: "string option"
  in_orgId :: "string option"
  in_templatePath :: string
  in_skipBuild :: bool

text \<open>The validated input: the domain normalised, e-mail and template path trimmed.\<close>

definition validateInput :: "deployment_input \<Rightarrow> pipeline_failure + deployment_input" where
  "validateInput i = (case normalizeAndValidateDomain (in_domain i) of
       None \<Rightarrow> Inl (Registration R_INVALID_DOMAIN)
     | Some d \<Rightarrow> if trim (in_email i) = [] then Inl (Registration R_VALIDATION_ERROR)
         else if trim (in_templatePath i) = [] then Inl (Registration R_VALIDATION_ERROR)
         else if (case in_orgId i of Some o1 \<Rightarrow> trim o1 = [] | None \<Rightarrow> False) then Inl (Registration R_VALIDATION_ERROR)
         else Inr (i\<lparr>in_domain := d, in_email := trim (in_email i), in_templatePath := trim (in_templatePath i)\<rparr>))"

definition validatePort :: "nat \<Rightarrow> pipeline_failure option" where
  "validatePort port = (if port < 3333 \<or> 3999 < port then Some (Registration R_DEPLOYMENT_FAILED) else None)"

text \<open>\<open>^domain \{\<close> with the flag \<open>m\<close>: some line starts with the block of the domain.\<close>

definition checkDomainInCaddy :: "string \<Rightarrow> string \<Rightarrow> bool" where
  "checkDomainInCaddy domain content = list_ex (starts_with (domain @ '' {'')) (split_on (CHR 0x0A) content)"

definition verifyRouting :: "pipeline_world \<Rightarrow> string \<Rightarrow> host \<Rightarrow> pipeline_failure option" where
  "verifyRouting e domain h = (case p_routing e (h_rows h) of None \<Rightarrow> None
     | Some content \<Rightarrow> if checkDomainInCaddy domain content then None else Some (Registration R_DEPLOYMENT_FAILED))"

text \<open>Errors of a rollback are logged and dropped.\<close>

definition rollbackAfterPipelineFailure :: "world \<Rightarrow> pipeline_world \<Rightarrow> string \<Rightarrow> bool \<Rightarrow> bool \<Rightarrow> host \<Rightarrow> host" where
  "rollbackAfterPipelineFailure w e domain siteExistedBefore domainExistedBefore h =
     (let h1 = (if domainExistedBefore then h else
           (case isDomainRegistered e domain h of
              Inr True \<Rightarrow> snd (unregisterDomain e domain h) | _ \<Rightarrow> h))
      in if p_e2b e
         then (if siteExistedBefore then h1 else h1\<lparr>h_scratch := filter (\<lambda>d. d \<noteq> domain) (h_scratch h1)\<rparr>)
         else (if siteExistedBefore then h1 else snd (teardown w domain True True h1)))"

definition getSiteExistsForMode :: "pipeline_world \<Rightarrow> string \<Rightarrow> host \<Rightarrow> bool" where
  "getSiteExistsForMode e domain h =
     (if p_e2b e then site_exists h domain \<or> domain \<in> set (h_scratch h) else site_exists h domain)"

definition update_row :: "string \<Rightarrow> (domain_row \<Rightarrow> domain_row) \<Rightarrow> host \<Rightarrow> host" where
  "update_row hostname f h = (case jget (h_rows h) hostname of None \<Rightarrow> h
     | Some r \<Rightarrow> h\<lparr>h_rows := jset hostname (f r) (h_rows h)\<rparr>)"

text \<open>
  \<open>prepareE2bSiteDeployment\<close> and \<open>createInitialSiteSandbox\<close>: the session registry stores the sandbox
  it creates in the row; when the repository cannot be initialised the row is marked dead.
\<close>

definition prepareE2bSiteDeployment :: "world \<Rightarrow> pipeline_world \<Rightarrow> string \<Rightarrow> host \<Rightarrow> (pipeline_failure + nat) \<times> host" where
  "prepareE2bSiteDeployment w e domain h = (case assignPort w domain h of
       Inl err \<Rightarrow> (Inl (Deployment err), h)
     | Inr (port, _) \<Rightarrow> if p_scratch e domain
         then (Inr port, h\<lparr>h_scratch := (if domain \<in> set (h_scratch h) then h_scratch h else h_scratch h @ [domain])\<rparr>)
         else (Inl Other, h))"

definition createInitialSiteSandbox :: "pipeline_world \<Rightarrow> string \<Rightarrow> host \<Rightarrow> pipeline_failure option \<times> host" where
  "createInitialSiteSandbox e domain h = (case p_sandbox e domain of
       None \<Rightarrow> (Some Other, h)
     | Some sid \<Rightarrow> (let h1 = update_row domain (\<lambda>r. r\<lparr>dr_sandbox := Some sid, dr_running := True\<rparr>) h
         in if p_sandboxGit e domain then (None, h1)
            else (Some Other, update_row domain (\<lambda>r. r\<lparr>dr_sandbox := None, dr_running := False\<rparr>) h1)))"

definition registration_of :: "deployment_input \<Rightarrow> nat \<Rightarrow> bool \<Rightarrow> registration" where
  "registration_of i port e2b = \<lparr>rg_hostname = in_domain i, rg_email = in_email i, rg_password = in_password i,
     rg_port = port, rg_e2b = e2b, rg_orgId = in_orgId i\<rparr>"

text \<open>The two \<open>try\<close> blocks: what comes after the infrastructure of a site is there.\<close>

definition finish_systemd :: "world \<Rightarrow> pipeline_world \<Rightarrow> deployment_input \<Rightarrow> nat \<Rightarrow> host \<times> registry
    \<Rightarrow> (pipeline_failure + nat) \<times> host \<times> registry" where
  "finish_systemd w e i port s = (case validatePort port of Some err \<Rightarrow> (Inl err, s) | None \<Rightarrow>
     (case registerDomain w e (registration_of i port False) s of
        (Inl err, s1) \<Rightarrow> (Inl err, s1)
      | (Inr _, h1, g1) \<Rightarrow>
        (case regeneratePortMap w e (if p_production e then Some (in_domain i) else None) h1 of
           (Inl err, h2) \<Rightarrow> (Inl err, h2, g1)
         | (Inr _, h2) \<Rightarrow> (case configureCaddy w h2 of
             (Inl err, h3) \<Rightarrow> (Inl (Deployment err), h3, g1)
           | (Inr _, h3) \<Rightarrow> (case verifyRouting e (in_domain i) h3 of
               Some err \<Rightarrow> (Inl err, h3, g1) | None \<Rightarrow> (Inr port, h3, g1))))))"

definition finish_e2b :: "world \<Rightarrow> pipeline_world \<Rightarrow> deployment_input \<Rightarrow> host \<times> registry
    \<Rightarrow> (pipeline_failure + nat) \<times> host \<times> registry" where
  "finish_e2b w e i s = (case prepareE2bSiteDeployment w e (in_domain i) (fst s) of
       (Inl err, h1) \<Rightarrow> (Inl err, h1, snd s)
     | (Inr port, h1) \<Rightarrow> (case validatePort port of Some err \<Rightarrow> (Inl err, h1, snd s) | None \<Rightarrow>
         (case registerDomain w e (registration_of i port True) (h1, snd s) of
            (Inl err, s1) \<Rightarrow> (Inl err, s1)
          | (Inr _, h2, g2) \<Rightarrow>
              if jget (h_rows h2) (in_domain i) = None then (Inl (Registration R_DEPLOYMENT_FAILED), h2, g2)
              else (case createInitialSiteSandbox e (in_domain i) h2 of
                  (Some err, h3) \<Rightarrow> (Inl err, h3, g2) | (None, h3) \<Rightarrow> (Inr port, h3, g2)))))"

definition runStrictDeploymentLocked :: "world \<Rightarrow> pipeline_world \<Rightarrow> deployment_input \<Rightarrow> host \<times> registry
    \<Rightarrow> (pipeline_failure + nat) \<times> host \<times> registry" where
  "runStrictDeploymentLocked w e i s =
     (let siteExistedBefore = getSiteExistsForMode e (in_domain i) (fst s)
      in case isDomainRegistered e (in_domain i) (fst s) of
           Inl err \<Rightarrow> (Inl err, s)
         | Inr domainExistedBefore \<Rightarrow>
             (let undo = (\<lambda>r. case r of
                    (Inl err, h, g) \<Rightarrow> (Inl err,
                      rollbackAfterPipelineFailure w e (in_domain i) siteExistedBefore domainExistedBefore h, g)
                  | ok \<Rightarrow> ok)
              in if p_e2b e then undo (finish_e2b w e i s)
                 else (case deploySite w e (in_domain i) (in_templatePath i) (in_skipBuild i) (fst s) of
                     (Inl err, h1) \<Rightarrow> (Inl err, h1, snd s)
                   | (Inr port, h1) \<Rightarrow> undo (finish_systemd w e i port (h1, snd s)))))"

text \<open>The lock is a set of domains of the process, released whatever happened.\<close>

definition runStrictDeployment :: "world \<Rightarrow> pipeline_world \<Rightarrow> string set \<Rightarrow> deployment_input \<Rightarrow> host \<times> registry
    \<Rightarrow> (pipeline_failure + nat) \<times> host \<times> registry" where
  "runStrictDeployment w e active i s = (case validateInput i of
       Inl err \<Rightarrow> (Inl err, s)
     | Inr v \<Rightarrow> if in_domain v \<in> active then (Inl (Registration R_DEPLOYMENT_IN_PROGRESS), s)
         else runStrictDeploymentLocked w e v s)"

subsection \<open>What the pipeline may change\<close>

text \<open>The tables and port maps only, and no row of another domain.\<close>

definition table_change :: "string \<Rightarrow> host \<Rightarrow> host \<Rightarrow> bool" where
  "table_change domain h h' \<longleftrightarrow> h_users h' = h_users h \<and> h_services h' = h_services h \<and> h_env h' = h_env h \<and>
     h_sites h' = h_sites h \<and> h_links h' = h_links h \<and> h_ports h' = h_ports h \<and> h_scratch h' = h_scratch h \<and>
     (\<forall>d. d \<noteq> domain \<longrightarrow> jget (h_rows h') d = jget (h_rows h) d)"

definition pipeline_kept :: "string \<Rightarrow> host \<Rightarrow> host \<Rightarrow> bool" where
  "pipeline_kept domain h h' \<longleftrightarrow>
     (\<forall>d. d \<noteq> domain \<longrightarrow> jget (h_sites h') d = jget (h_sites h) d \<and> jget (h_rows h') d = jget (h_rows h) d \<and>
        (d \<in> set (h_scratch h') \<longleftrightarrow> d \<in> set (h_scratch h))) \<and>
     (\<forall>l. l \<noteq> dot_slug domain \<longrightarrow> jget (h_links h') l = jget (h_links h) l) \<and>
     (\<forall>s. s \<noteq> site_slug domain \<and> s \<noteq> dot_slug domain \<longrightarrow>
        (s \<in> set (h_users h') \<longleftrightarrow> s \<in> set (h_users h)) \<and>
        jget (h_services h') s = jget (h_services h) s \<and> jget (h_env h') s = jget (h_env h) s) \<and>
     h_ports h' = h_ports h"

lemma pipeline_kept_refl [simp]: "pipeline_kept domain h h"
  by (simp add: pipeline_kept_def)

lemma pipeline_kept_trans: "pipeline_kept domain h h' \<Longrightarrow> pipeline_kept domain h' h'' \<Longrightarrow> pipeline_kept domain h h''"
  by (simp add: pipeline_kept_def)

lemma others_pipeline_kept: "others_kept domain (site_slug domain) h h' \<Longrightarrow> pipeline_kept domain h h'"
  by (simp add: others_kept_def pipeline_kept_def)

lemma table_pipeline_kept: "table_change domain h h' \<Longrightarrow> pipeline_kept domain h h'"
  by (simp add: table_change_def pipeline_kept_def)

lemma table_change_refl [simp]: "table_change domain h h"
  by (simp add: table_change_def)

lemma table_change_trans: "table_change domain h h' \<Longrightarrow> table_change domain h' h'' \<Longrightarrow> table_change domain h h''"
  by (simp add: table_change_def)

lemma createDomainEntry_change: "table_change (rg_hostname r) h (snd (createDomainEntry w r orgId test h))"
  by (simp add: createDomainEntry_def table_change_def)

lemma registerDomain_cases:
  obtains (same) err g' where "registerDomain w e r (h, g) = (Inl err, h, g')"
  | (present) "jget (h_rows h) (rg_hostname r) \<noteq> None" "registerDomain w e r (h, g) = (Inr (), h, g)"
  | (entry) orgId test g' res h' where "createDomainEntry w r orgId test h = (res, h')"
      "registerDomain w e r (h, g) = (res, h', g')"
proof (cases "isDomainRegistered e (rg_hostname r) h")
  case (Inl err)
  then show thesis
    by (intro same) (simp add: registerDomain_def)
next
  case (Inr known)
  show thesis
  proof (cases known)
    case True
    then show thesis
      using Inr by (intro present) (auto simp: registerDomain_def isDomainRegistered_def split: if_splits)
  next
    case False
    obtain r1 g1 where user: "getOrCreateUserId e (rg_email r) (rg_password r) g = (r1, g1)" by fastforce
    show thesis
    proof (cases r1)
      case (Inl err)
      then show thesis
        using Inr False user by (intro same) (simp add: registerDomain_def)
    next
      case uid: (Inr uid)
      obtain orgId g2 where org: "(case rg_orgId r of Some o1 \<Rightarrow> if o1 = [] then getUserDefaultOrgId e uid g1 else (o1, g1)
          | None \<Rightarrow> getUserDefaultOrgId e uid g1) = (orgId, g2)" by fastforce
      show thesis
      proof (cases "getOrganizationDomainContext orgId g2")
        case (Inl err)
        then show thesis
          using Inr False user uid org by (intro same) (simp add: registerDomain_def)
      next
        case test: (Inr test)
        obtain res h' where made: "createDomainEntry w r orgId test h = (res, h')" by fastforce
        then show thesis
          using Inr False user uid org test by (intro entry [OF made]) (simp add: registerDomain_def)
      qed
    qed
  qed
qed

lemma registerDomain_change:
  assumes "registerDomain w e r (h, g) = (res, h', g')"
  shows "table_change (rg_hostname r) h h'"
proof (cases rule: registerDomain_cases [of w e r h g])
  case (entry orgId test g1 res1 h1)
  then have "h' = snd (createDomainEntry w r orgId test h)"
    using assms by simp
  then show ?thesis
    by (simp add: createDomainEntry_change)
qed (use assms in simp_all)

lemma regeneratePortMap_change: "table_change domain h (snd (regeneratePortMap w e required h))"
  by (simp add: regeneratePortMap_def table_change_def Let_def case_prod_unfold)

lemma configureCaddy_same: "snd (configureCaddy w h) = h"
  by (simp add: configureCaddy_def run_script_def caddy_script_def split: option.split)

lemma unregisterDomain_change: "table_change domain h (snd (unregisterDomain e domain h))"
  by (simp add: unregisterDomain_def table_change_def)

lemma finish_systemd_cases:
  obtains (failed) err h' g' where "finish_systemd w e i port (h, g) = (Inl err, h', g')"
      "table_change (in_domain i) h h'"
  | (finished) h1 g1 n h2 where "validatePort port = None"
      "registerDomain w e (registration_of i port False) (h, g) = (Inr (), h1, g1)"
      "regeneratePortMap w e (if p_production e then Some (in_domain i) else None) h1 = (Inr n, h2)"
      "finish_systemd w e i port (h, g) = (Inr port, h2, g1)"
proof (cases "validatePort port")
  case (Some err)
  then show thesis
    by (intro failed [of err h g]) (simp_all add: finish_systemd_def)
next
  case port: None
  let ?required = "if p_production e then Some (in_domain i) else None"
  obtain res1 h1 g1 where reg: "registerDomain w e (registration_of i port False) (h, g) = (res1, h1, g1)"
    by (metis prod_cases3)
  then have 1: "table_change (in_domain i) h h1"
    using registerDomain_change [OF reg] by (simp add: registration_of_def)
  show thesis
  proof (cases res1)
    case (Inl err)
    then show thesis
      using port reg 1 by (intro failed) (simp_all add: finish_systemd_def)
  next
    case ok: (Inr u)
    obtain res2 h2 where map: "regeneratePortMap w e ?required h1 = (res2, h2)" by fastforce
    then have 2: "table_change (in_domain i) h h2"
      using table_change_trans [OF 1] regeneratePortMap_change by (metis snd_conv)
    show thesis
    proof (cases res2)
      case (Inl err)
      then show thesis
        using port reg ok map 2 by (intro failed) (simp_all add: finish_systemd_def)
    next
      case n: (Inr n)
      obtain res3 h3 where caddy: "configureCaddy w h2 = (res3, h3)" by fastforce
      have h3: "h3 = h2"
        using configureCaddy_same [of w h2] caddy by simp
      show thesis
      proof (cases res3)
        case (Inl err)
        then show thesis
          using port reg ok map n caddy h3 2 by (intro failed) (simp_all add: finish_systemd_def)
      next
        case routed: (Inr u')
        show thesis
        proof (cases "verifyRouting e (in_domain i) h2")
          case (Some err)
          then show thesis
            using port reg ok map n caddy h3 routed 2 by (intro failed) (simp_all add: finish_systemd_def)
        next
          case None
          then show thesis
            using port reg ok map n caddy h3 routed by (intro finished) (simp_all add: finish_systemd_def)
        qed
      qed
    qed
  qed
qed

subsubsection \<open>The deployment of a site\<close>

definition site_config :: "pipeline_world \<Rightarrow> string \<Rightarrow> string \<Rightarrow> bool \<Rightarrow> deploy_config" where
  "site_config e domain templatePath skipBuild =
     \<lparr>dc_domain = domain, dc_slug = site_slug domain, dc_templatePath = templatePath, dc_rollbackOnFailure = True,
      dc_skipBuild = skipBuild, dc_skipCaddy = True, dc_serverIp = p_serverIp e, dc_wildcardDomain = p_wildcardDomain e\<rparr>"

lemma site_config_simps [simp]:
  "dc_domain (site_config e d t b) = d" "dc_slug (site_config e d t b) = site_slug d"
  "dc_templatePath (site_config e d t b) = t" "dc_rollbackOnFailure (site_config e d t b)"
  "dc_skipBuild (site_config e d t b) = b" "dc_skipCaddy (site_config e d t b)"
  "dc_serverIp (site_config e d t b) = p_serverIp e" "dc_wildcardDomain (site_config e d t b) = p_wildcardDomain e"
  by (simp_all add: site_config_def)

lemma deploySite_unfold:
  "deploySite w e domain t b h =
     (if p_serverIp e = [] \<or> p_wildcardDomain e = [] then (Inl Other, h)
      else (case deploy w (site_config e (to_lower domain) t b) h of
              (Inl err, h') \<Rightarrow> (Inl (Deployment err), h')
            | (Inr r, h') \<Rightarrow> if r_success r then (Inr (r_port r), h') else (Inl Other, h')))"
  by (simp add: deploySite_def site_config_def Let_def)

lemma deploySite_kept:
  assumes "to_lower domain = domain"
  shows "pipeline_kept domain h (snd (deploySite w e domain t b h))"
proof -
  let ?c = "site_config e domain t b"
  obtain r h' where run: "deploy w ?c h = (r, h')" by fastforce
  then have "pipeline_kept domain h h'"
    using others.deploy_keeps [of ?c domain "site_slug domain" h w]
    by (intro others_pipeline_kept) simp
  then show ?thesis
    using run assms by (cases r) (simp_all add: deploySite_unfold)
qed

lemma rollback_kept: "pipeline_kept domain h (rollbackAfterPipelineFailure w e domain existed registered h)"
proof -
  define h1 where "h1 = (if registered then h else
      (case isDomainRegistered e domain h of Inr True \<Rightarrow> snd (unregisterDomain e domain h) | _ \<Rightarrow> h))"
  have "pipeline_kept domain h h1"
    unfolding h1_def using table_pipeline_kept [OF unregisterDomain_change, of domain h e]
    by (simp split: sum.split bool.split)
  moreover have "pipeline_kept domain h1 (snd (teardown w domain True True h1))"
  proof -
    have "others_kept domain (site_slug domain) h1 (snd (teardown w domain True True h1))"
      unfolding teardown_def by (rule others.run_keeps) (rule others.teardown_keeps)
    then show ?thesis by (rule others_pipeline_kept)
  qed
  moreover have "pipeline_kept domain h1 (h1\<lparr>h_scratch := filter (\<lambda>d. d \<noteq> domain) (h_scratch h1)\<rparr>)"
    by (simp add: pipeline_kept_def)
  ultimately show ?thesis
    unfolding rollbackAfterPipelineFailure_def Let_def h1_def [symmetric]
    by (simp add: pipeline_kept_trans)
qed

lemma update_row_change: "table_change domain h (update_row domain f h)"
  by (simp add: update_row_def table_change_def split: option.split)

lemma createInitialSiteSandbox_change: "table_change domain h (snd (createInitialSiteSandbox e domain h))"
  using update_row_change table_change_trans [OF update_row_change update_row_change]
  by (simp add: createInitialSiteSandbox_def Let_def split: option.split)

lemma prepareE2b_kept: "pipeline_kept domain h (snd (prepareE2bSiteDeployment w e domain h))"
  by (simp add: prepareE2bSiteDeployment_def pipeline_kept_def case_prod_unfold split: sum.split)

lemma finish_e2b_kept: "pipeline_kept (in_domain i) h (fst (snd (finish_e2b w e i (h, g))))"
proof -
  obtain r1 h1 where prep: "prepareE2bSiteDeployment w e (in_domain i) h = (r1, h1)" by fastforce
  then have 1: "pipeline_kept (in_domain i) h h1"
    using prepareE2b_kept [of "in_domain i" h w e] by simp
  obtain port r2 h2 g2 where reg: "registerDomain w e (registration_of i port True) (h1, g) = (r2, h2, g2)"
    "\<And>p. r1 = Inr p \<Longrightarrow> p = port"
    by (metis prod_cases3 Inr_inject)
  then have "table_change (in_domain i) h1 h2"
    using registerDomain_change [OF reg(1)] by (simp add: registration_of_def)
  then have 2: "pipeline_kept (in_domain i) h h2"
    using 1 pipeline_kept_trans table_pipeline_kept by blast
  have 3: "pipeline_kept (in_domain i) h (snd (createInitialSiteSandbox e (in_domain i) h2))"
    using 2 pipeline_kept_trans table_pipeline_kept [OF createInitialSiteSandbox_change] by blast
  show ?thesis
  proof (cases r1)
    case (Inl err)
    then show ?thesis using prep 1 by (simp add: finish_e2b_def)
  next
    case (Inr p)
    then have reg: "registerDomain w e (registration_of i p True) (h1, g) = (r2, h2, g2)"
      using reg by simp
    obtain r3 h3 where box: "createInitialSiteSandbox e (in_domain i) h2 = (r3, h3)" by fastforce
    then show ?thesis
      using Inr prep reg 1 2 3 by (simp add: finish_e2b_def split: option.split sum.split)
  qed
qed

lemma locked_kept:
  assumes "to_lower (in_domain i) = in_domain i"
  shows "pipeline_kept (in_domain i) (fst s) (fst (snd (runStrictDeploymentLocked w e i s)))"
proof -
  obtain h g where s: "s = (h, g)" by fastforce
  show ?thesis
  proof (cases "isDomainRegistered e (in_domain i) h")
    case (Inl err)
    then show ?thesis by (simp add: runStrictDeploymentLocked_def s)
  next
    case known: (Inr known)
    let ?undo = "rollbackAfterPipelineFailure w e (in_domain i) (getSiteExistsForMode e (in_domain i) h) known"
    have undo: "pipeline_kept (in_domain i) h (?undo h')" if "pipeline_kept (in_domain i) h h'" for h'
      using that rollback_kept pipeline_kept_trans by blast
    show ?thesis
    proof (cases "p_e2b e")
      case True
      obtain r h1 g1 where fin: "finish_e2b w e i (h, g) = (r, h1, g1)" by (metis prod_cases3)
      then have "pipeline_kept (in_domain i) h h1"
        using finish_e2b_kept [of i h w e g] by simp
      then show ?thesis
        using True known fin undo [of h1] by (cases r) (simp_all add: runStrictDeploymentLocked_def s Let_def)
    next
      case False
      obtain r h1 where site: "deploySite w e (in_domain i) (in_templatePath i) (in_skipBuild i) h = (r, h1)"
        by fastforce
      then have 1: "pipeline_kept (in_domain i) h h1"
        using deploySite_kept [OF assms, of h w e "in_templatePath i" "in_skipBuild i"] by simp
      show ?thesis
      proof (cases r)
        case (Inl err)
        then show ?thesis
          using False known site 1 by (simp add: runStrictDeploymentLocked_def s Let_def)
      next
        case (Inr port)
        show ?thesis
        proof (cases rule: finish_systemd_cases [of w e i port h1 g])
          case (failed err h' g')
          then have "pipeline_kept (in_domain i) h h'"
            using 1 pipeline_kept_trans table_pipeline_kept by blast
          then show ?thesis
            using False known site Inr failed(1) undo [of h']
            by (simp add: runStrictDeploymentLocked_def s Let_def)
        next
          case (finished h2 g2 n h3)
          have "table_change (in_domain i) h1 h2"
            using registerDomain_change [OF finished(2)] by (simp add: registration_of_def)
          moreover have "table_change (in_domain i) h2 h3"
            using regeneratePortMap_change finished(3) by (metis snd_conv)
          ultimately have "pipeline_kept (in_domain i) h h3"
            using 1 pipeline_kept_trans table_pipeline_kept by blast
          then show ?thesis
            using False known site Inr finished(4) by (simp add: runStrictDeploymentLocked_def s Let_def)
        qed
      qed
    qed
  qed
qed

subsubsection \<open>Validated domains\<close>

lemma to_lower_fixed: "to_lower s = s \<longleftrightarrow> list_all (\<lambda>c. \<not> is_upper_ascii c) s"
proof (induction s)
  case (Cons c s)
  have "char_of (of_char c + 32 :: nat) \<noteq> c" if "is_upper_ascii c"
  proof
    assume "char_of (of_char c + 32 :: nat) = c"
    then have "of_char c = (of_char c + 32 :: nat) mod 256"
      by (metis of_char_of)
    then show False
      using that by (simp add: is_upper_ascii_def Let_def)
  qed
  then have "to_lower [c] = [c] \<longleftrightarrow> \<not> is_upper_ascii c"
    by (auto simp: to_lower_def is_upper_ascii_def Let_def)
  then show ?case
    using Cons by (auto simp: to_lower_def)
qed (simp add: to_lower_def)

lemma to_lower_no_upper: "list_all (\<lambda>c. \<not> is_upper_ascii c) (to_lower s)"
  by (induction s) (auto simp: to_lower_def is_upper_ascii_def Let_def)

lemma set_trim: "set (trim s) \<subseteq> set s"
  unfolding trim_def trim_end_def trim_start_def by (auto dest!: set_dropWhileD)

lemma normalizeDomain_lower: "to_lower (normalizeDomain s) = normalizeDomain s"
  unfolding to_lower_fixed normalizeDomain_def Let_def
  using set_trim to_lower_no_upper by (metis (no_types, lifting) list_all_iff subsetD)

lemma validateInput_Inr:
  assumes "validateInput i = Inr v"
  shows "to_lower (in_domain v) = in_domain v" "isValidDomain (in_domain v)"
    "in_skipBuild v = in_skipBuild i" "in_orgId v = in_orgId i" "in_domain v = normalizeDomain (in_domain i)"
  using assms normalizeDomain_lower
  by (auto simp: validateInput_def normalizeAndValidateDomain_def Let_def split: option.splits if_splits)

text \<open>
  C7. A deployment through the pipeline, whatever its input and outcome, changes no directory, row or
  scratch workspace but those of its own domain, no symbolic link but that of the domain's dotted name,
  and no user, service or environment file but those under the domain's slug and dotted name; another
  domain that shares one of these two names shares what is kept under it
  (\<open>slug_collision_stops_other_site\<close>). A request that is not valid changes nothing at all.
\<close>

theorem deployment_keeps_others:
  "case validateInput i of
     Inl _ \<Rightarrow> snd (runStrictDeployment w e active i s) = s
   | Inr v \<Rightarrow> pipeline_kept (in_domain v) (fst s) (fst (snd (runStrictDeployment w e active i s)))"
proof (cases "validateInput i")
  case (Inr v)
  then show ?thesis
    using locked_kept [OF validateInput_Inr(1) [OF Inr], of s w e] by (simp add: runStrictDeployment_def)
qed (simp add: runStrictDeployment_def)

subsubsection \<open>Guards of the orchestrator\<close>





subsection \<open>Redeploying a site\<close>




subsection \<open>Doubled hyphens\<close>

text \<open>
  A domain whose slug is not its name with the dots replaced, such as every internationalised
  domain \<open>xn--...\<close>, is never deployed with a build, in any circumstances: the unit runs in the
  directory of its slug, and the symbolic link there is made for the other name.
\<close>

theorem doubled_hyphen_never_deploys:
  assumes input: "validateInput i = Inr v" "in_domain v = d" "\<not> in_skipBuild i" "\<not> p_e2b e"
    and slug: "site_slug d \<noteq> dot_slug d" "site_slug d \<noteq> d"
    and none: "jget (h_sites h) (site_slug d) = None" "jget (h_links h) (site_slug d) = None"
      "jget (h_services h) (site_slug d) = None"
  shows "fst (runStrictDeployment w e active i (h, g)) \<noteq> Inr port"
proof -
  note v = validateInput_Inr [OF input(1), unfolded input(2)]
  let ?c = "site_config e d (in_templatePath v) False"
  have "\<not> r_success r" if run: "deploy w ?c h = (Inr r, h')" for r h'
  proof
    assume "r_success r"
    then obtain port n u where "deploy_phases w ?c port h = (Inr u, h')"
      by (rule deploy_succeeds [OF run])
    then show False
      using missing_directory_fails [of ?c h w port u h'] slug none by simp
  qed
  then have "\<exists>err. fst (deploySite w e d (in_templatePath v) (in_skipBuild v) h) = Inl err"
    using input(3) v(1,3) by (auto simp: deploySite_unfold split: prod.split sum.split)
  then show ?thesis
    using input
    by (cases "deploySite w e d (in_templatePath v) (in_skipBuild v) h")
      (auto simp: runStrictDeployment_def runStrictDeploymentLocked_def Let_def split: sum.split)
qed

subsection \<open>All or nothing\<close>


text \<open>Equal as far as anything but the port maps can tell.\<close>

definition same_host :: "host \<Rightarrow> host \<Rightarrow> bool" where
  "same_host h h' \<longleftrightarrow> jget (h_sites h') = jget (h_sites h) \<and> jget (h_rows h') = jget (h_rows h) \<and>
     jget (h_links h') = jget (h_links h) \<and> set (h_users h') = set (h_users h) \<and>
     jget (h_services h') = jget (h_services h) \<and> jget (h_env h') = jget (h_env h) \<and>
     set (h_scratch h') = set (h_scratch h) \<and> h_ports h' = h_ports h"


lemma same_host_refl [simp]: "same_host h h"
  by (simp add: same_host_def)










subsection \<open>Concrete deployments\<close>

definition demo_world :: world where
  "demo_world = \<lparr>w_command = (\<lambda>_. True), w_serverId = ''srv_demo01'', w_dig = (\<lambda>_. ''192.0.2.1''), w_psql = True,
     w_useradd = (\<lambda>_. True), w_template = (\<lambda>_. [([''user'', ''index.html''], ''hello'')]), w_git = (\<lambda>_. True),
     w_build = (\<lambda>_ _ fs. Inr fs), w_boot = (\<lambda>_ p. Some [p]), w_caddy = None, w_listed = (\<lambda>_. False),
     w_sync = True, w_kill = (\<lambda>_. True), w_userdel = (\<lambda>_. True)\<rparr>"

definition demo_pipeline :: "((string, domain_row) jsmap \<Rightarrow> string option) \<Rightarrow> pipeline_world" where
  "demo_pipeline routing = \<lparr>p_database = True, p_uuid = (\<lambda>n. ''id'' @ digits n), p_hash = (\<lambda>s. s), p_verify = (=),
     p_e2b = False, p_production = False, p_e2bDomain = True, p_serverIp = ''192.0.2.1'',
     p_wildcardDomain = ''example.com'', p_scratch = (\<lambda>_. True), p_sandbox = (\<lambda>_. Some ''sbx''),
     p_sandboxGit = (\<lambda>_. True), p_routing = routing, p_templatePorts = []\<rparr>"

definition demo_input :: "string \<Rightarrow> deployment_input" where
  "demo_input d = \<lparr>in_domain = d, in_email = ''eve@example.com'', in_password = Some ''secret'', in_orgId = None,
     in_templatePath = ''/templates/blank'', in_skipBuild = False\<rparr>"

definition empty_host :: host where
  "empty_host = \<lparr>h_users = [], h_services = [], h_env = [], h_sites = [], h_links = [], h_ports = [], h_rows = [],
     h_scratch = [], h_portmap = [], h_sandboxmap = []\<rparr>"

definition empty_registry :: registry where
  "empty_registry = \<lparr>g_users = [], g_members = [], g_orgs = [], g_ids = 0\<rparr>"

text \<open>A site of another organisation, running on the port it is registered with.\<close>

definition running_host :: "string \<Rightarrow> nat \<Rightarrow> host" where
  "running_host d p = empty_host\<lparr>h_users := [dot_slug d], h_services := [(dot_slug d, [p])],
     h_env := [(dot_slug d, (d, p))], h_sites := [(d, [([''user'', ''index.html''], ''the work of a year'')])],
     h_links := [(dot_slug d, d)],
     h_rows := [(d, \<lparr>dr_port = p, dr_org = ''other'', dr_server = ''srv_demo01'', dr_e2b = False, dr_sandbox = None,
       dr_running = False, dr_test = False\<rparr>)]\<rparr>"

lemmas demo_defs = demo_world_def demo_pipeline_def demo_input_def empty_host_def running_host_def




lemma doubled_hyphen_never_deploys_witness:
  "fst (runStrictDeployment demo_world (demo_pipeline (\<lambda>_. None)) {} (demo_input ''xn--caf-dma.com'')
     (empty_host, empty_registry)) \<noteq> Inr 3333"
proof -
  have input: "validateInput (demo_input ''xn--caf-dma.com'') = Inr (demo_input ''xn--caf-dma.com'')"
    by code_simp
  have slug: "site_slug ''xn--caf-dma.com'' = ''xn-caf-dma-com''" "dot_slug ''xn--caf-dma.com'' = ''xn--caf-dma-com''"
    by code_simp+
  show ?thesis
    by (rule doubled_hyphen_never_deploys [OF input, of "''xn--caf-dma.com''"])
      (simp_all add: slug demo_pipeline_def demo_input_def empty_host_def)
qed

text \<open>The failed deployment of such a domain leaves its user and its environment file behind.\<close>

lemma doubled_hyphen_leaves_user:
  "case runStrictDeployment demo_world (demo_pipeline (\<lambda>_. None)) {} (demo_input ''xn--caf-dma.com'')
       (empty_host\<lparr>h_ports := [80]\<rparr>, empty_registry) of
     (res, h', g') \<Rightarrow> h_users h' = [''xn-caf-dma-com''] \<and> jget (h_env h') ''xn-caf-dma-com'' = Some (''xn--caf-dma.com'', 3333)"
  by code_simp

text \<open>A deployment that fails after the port map was written leaves its entry in the map, with no row for it.\<close>

lemma rollback_leaves_port_map:
  "case runStrictDeployment demo_world (demo_pipeline (\<lambda>_. Some '''')) {} (demo_input ''new.example.com'')
       (empty_host, empty_registry) of
     (res, h', g') \<Rightarrow> res = Inl (Registration R_DEPLOYMENT_FAILED) \<and> h_rows h' = [] \<and>
       jget (h_portmap h') ''new.example.com'' = Some 3333"
  by code_simp

text \<open>
  Two domains that differ in a dot and a hyphen share their slug: the failed deployment of the second
  removes the user, the service and the environment file of the first.
\<close>

lemma slug_collision_stops_other_site:
  "case runStrictDeployment demo_world (demo_pipeline (\<lambda>_. None)) {} (demo_input ''my-shop.example.com'')
       (running_host ''my.shop.example.com'' 3340, empty_registry) of
     (res, h', g') \<Rightarrow> res = Inl Other \<and> h_users h' = [] \<and> h_services h' = [] \<and> h_env h' = []"
  by code_simp

text \<open>
  The lock of the script ends with it, and the port is registered later: two domains that are assigned
  a port before either is registered get the same one.
\<close>

lemma ports_not_reserved:
  "assignPort demo_world ''a.example.com'' empty_host = Inr (3333, True) \<and>
   assignPort demo_world ''b.example.com'' empty_host = Inr (3333, True)"
  by code_simp

text \<open>A host with one site on the last port of the range has no port left.\<close>

lemma last_port_exhausts_range:
  "assignPort demo_world ''a.example.com'' (running_host ''b.example.com'' 3999) = Inl (ScriptError ''00-assign-port.sh'' 1)"
  by code_simp

lemma new_domain_deploys:
  "fst (runStrictDeployment demo_world (demo_pipeline (\<lambda>_. None)) {} (demo_input ''new.example.com'')
     (empty_host, empty_registry)) = Inr 3333"
  by code_simp

end
