(* ===== verification/OAuth.thy ===== *)
theory OAuth
  imports Json "HOL-Library.Monad_Syntax"
begin

section \<open>OAuth connections and access tokens\<close>

text \<open>
  \<open>packages/oauth-core\<close>: the stored form of a connection (\<open>oauth-connection.ts\<close>), and the manager
  (\<open>index.ts\<close>) that stores provider credentials and tokens, hands out access tokens, refreshes them
  under a lock, disables and revokes connections.

  A stored secret decrypts to a text that is JSON, to another text, or not at all. Dates are strings:
  \<open>o_iso\<close> and \<open>o_time\<close> stand for \<open>toISOString\<close> and \<open>Date.parse\<close>. The provider's answers are parameters.
  The calls of the storage succeed; its errors are not modelled, nor is the audit log.
\<close>

subsection \<open>Stored connections\<close>

record connection =
  c_provider :: string
  c_credential_provider :: string
  c_tenant_user_id :: "string option"
  c_redirect_uri :: "string option"
  c_access_token :: string
  c_refresh_token :: "string option"
  c_expires_at :: "string option"
  c_scope :: "string option"
  c_token_type :: string
  c_saved_at :: string
  c_cached_email :: "string option"
  c_provider_metadata :: "(string, json) jsmap"
  c_disabled_at :: "string option"
  c_disabled_reason :: "string option"

record tokens =
  t_access_token :: string
  t_refresh_token :: "string option"
  t_expires_in :: "rat option"
  t_scope :: "string option"
  t_token_type :: "string option"
  t_provider_metadata :: "(string, json) jsmap option"

text \<open>\<open>z.string().min(1)\<close>, \<open>.nullable()\<close> and \<open>.nullable().optional()\<close>; \<open>None\<close> is a failed parse.\<close>

fun min1 :: "json option \<Rightarrow> string option" where
  "min1 (Some (JStr s)) = (if s = [] then None else Some s)"
| "min1 _ = None"

fun nullable :: "json option \<Rightarrow> string option option" where
  "nullable (Some JNull) = Some None"
| "nullable v = map_option Some (min1 v)"

fun optional_nullable :: "json option \<Rightarrow> string option option" where
  "optional_nullable None = Some None"
| "optional_nullable v = nullable v"

fun optional_min1 :: "json option \<Rightarrow> string option option" where
  "optional_min1 None = Some None"
| "optional_min1 v = map_option Some (min1 v)"

fun scalar :: "json \<Rightarrow> bool" where
  "scalar (JArr _) = False"
| "scalar (JObj _) = False"
| "scalar _ = True"

fun metadata_schema :: "json option \<Rightarrow> (string, json) jsmap option" where
  "metadata_schema (Some (JObj m)) = (if list_all (\<lambda>(_, v). scalar v) m then Some m else None)"
| "metadata_schema _ = None"

definition sharedConnectionFields :: "json \<Rightarrow> connection option" where
  "sharedConnectionFields v = do {
     p \<leftarrow> min1 (getObjectProperty v ''provider'');
     cp \<leftarrow> min1 (getObjectProperty v ''credential_provider'');
     tenant \<leftarrow> nullable (getObjectProperty v ''tenant_user_id'');
     redirect \<leftarrow> nullable (getObjectProperty v ''redirect_uri'');
     access \<leftarrow> min1 (getObjectProperty v ''access_token'');
     refresh \<leftarrow> nullable (getObjectProperty v ''refresh_token'');
     expires \<leftarrow> nullable (getObjectProperty v ''expires_at'');
     sc \<leftarrow> nullable (getObjectProperty v ''scope'');
     ty \<leftarrow> min1 (getObjectProperty v ''token_type'');
     saved \<leftarrow> min1 (getObjectProperty v ''saved_at'');
     email \<leftarrow> nullable (getObjectProperty v ''cached_email'');
     meta \<leftarrow> metadata_schema (getObjectProperty v ''provider_metadata'');
     Some \<lparr>c_provider = p, c_credential_provider = cp, c_tenant_user_id = tenant, c_redirect_uri = redirect,
       c_access_token = access, c_refresh_token = refresh, c_expires_at = expires, c_scope = sc,
       c_token_type = ty, c_saved_at = saved, c_cached_email = email, c_provider_metadata = meta,
       c_disabled_at = None, c_disabled_reason = None\<rparr> }"

definition schemaV1 :: "json \<Rightarrow> connection option" where
  "schemaV1 v = (if getObjectProperty v ''version'' = Some (JNum 1) then sharedConnectionFields v else None)"

definition schemaV2 :: "json \<Rightarrow> connection option" where
  "schemaV2 v = (if getObjectProperty v ''version'' = Some (JNum 2) then do {
     c \<leftarrow> sharedConnectionFields v;
     since \<leftarrow> nullable (getObjectProperty v ''disabled_at'');
     reason \<leftarrow> nullable (getObjectProperty v ''disabled_reason'');
     Some (c\<lparr>c_disabled_at := since, c_disabled_reason := reason\<rparr>) } else None)"

definition legacySavedAt :: string where
  "legacySavedAt = ''1970-01-01T00:00:00.000Z''"

definition legacySchema :: "string \<Rightarrow> string \<Rightarrow> json \<Rightarrow> connection option" where
  "legacySchema provider fallback v = do {
     access \<leftarrow> min1 (getObjectProperty v ''access_token'');
     refresh \<leftarrow> optional_nullable (getObjectProperty v ''refresh_token'');
     expires \<leftarrow> optional_nullable (getObjectProperty v ''expires_at'');
     sc \<leftarrow> optional_nullable (getObjectProperty v ''scope'');
     ty \<leftarrow> optional_min1 (getObjectProperty v ''token_type'');
     saved \<leftarrow> optional_min1 (getObjectProperty v ''saved_at'');
     email \<leftarrow> optional_nullable (getObjectProperty v ''cached_email'');
     Some \<lparr>c_provider = provider, c_credential_provider = fallback, c_tenant_user_id = None, c_redirect_uri = None,
       c_access_token = access, c_refresh_token = refresh, c_expires_at = expires, c_scope = sc,
       c_token_type = or_else ty ''Bearer'', c_saved_at = or_else saved legacySavedAt, c_cached_email = email,
       c_provider_metadata = [], c_disabled_at = None, c_disabled_reason = None\<rparr> }"

datatype oauth_error = UnknownProvider | NotConfigured | MissingScopes "string list" | ProviderError string
  | NotConnected | Disabled "string option" | NoRefreshToken | NotRefreshable | MissingCredentials
  | ParseFailed | ProviderMismatch | RefreshFailed string | InvalidKeyName

text \<open>The second version first, then the first, then the unversioned form, which takes any object.\<close>

definition parseStoredOAuthConnection :: "string \<Rightarrow> string \<Rightarrow> json \<Rightarrow> oauth_error + connection" where
  "parseStoredOAuthConnection provider fallback v =
     (case schemaV2 v of
        Some c \<Rightarrow> if c_provider c \<noteq> provider then Inl ProviderMismatch else Inr c
      | None \<Rightarrow> (case schemaV1 v of
          Some c \<Rightarrow> if c_provider c \<noteq> provider then Inl ProviderMismatch else Inr c
        | None \<Rightarrow> (case legacySchema provider fallback v of Some c \<Rightarrow> Inr c | None \<Rightarrow> Inl ParseFailed)))"

definition mergeProviderMetadata :: "(string, json) jsmap option \<Rightarrow> (string, json) jsmap option \<Rightarrow> (string, json) jsmap" where
  "mergeProviderMetadata existing next_meta =
     fold (\<lambda>(k, v). jset k v) (or_else next_meta []) (fold (\<lambda>(k, v). jset k v) (or_else existing []) [])"

fun or_null :: "string option \<Rightarrow> json" where
  "or_null None = JNull"
| "or_null (Some s) = JStr s"

text \<open>What \<open>JSON.stringify\<close> writes and \<open>JSON.parse\<close> reads back.\<close>

definition connection_json :: "connection \<Rightarrow> json" where
  "connection_json c = JObj [(''version'', JNum 2), (''provider'', JStr (c_provider c)),
     (''credential_provider'', JStr (c_credential_provider c)), (''tenant_user_id'', or_null (c_tenant_user_id c)),
     (''redirect_uri'', or_null (c_redirect_uri c)), (''access_token'', JStr (c_access_token c)),
     (''refresh_token'', or_null (c_refresh_token c)), (''expires_at'', or_null (c_expires_at c)),
     (''scope'', or_null (c_scope c)), (''token_type'', JStr (c_token_type c)), (''saved_at'', JStr (c_saved_at c)),
     (''cached_email'', or_null (c_cached_email c)), (''provider_metadata'', JObj (c_provider_metadata c)),
     (''disabled_at'', or_null (c_disabled_at c)), (''disabled_reason'', or_null (c_disabled_reason c))]"

subsection \<open>The manager\<close>

datatype secret = Document json | Plain string | Sealed

type_synonym secrets = "(string \<times> string \<times> string, secret) jsmap"

definition oauth_tokens_namespace :: string where
  "oauth_tokens_namespace = ''oauth_connections''"

definition user_env_keys_namespace :: string where
  "user_env_keys_namespace = ''user_env_keys''"

text \<open>\<open>get\<close> answers nothing for a secret that cannot be decrypted, and \<open>exists\<close> does not decrypt.\<close>

definition secret_text :: "secrets \<Rightarrow> string \<times> string \<times> string \<Rightarrow> string option" where
  "secret_text st k = (case jget st k of Some (Plain s) \<Rightarrow> Some s | _ \<Rightarrow> None)"

record oauth_world =
  o_env :: "string \<Rightarrow> string option"
  o_iso :: "int \<Rightarrow> string"
  o_time :: "string \<Rightarrow> int option"
  o_exchange :: "string \<Rightarrow> string \<Rightarrow> string \<Rightarrow> string \<Rightarrow> string option \<Rightarrow> string + tokens"
  o_refresh :: "string \<Rightarrow> (string \<times> string) list \<Rightarrow> string \<Rightarrow> string \<Rightarrow> string \<Rightarrow> string + tokens"
  o_email :: "string \<Rightarrow> string \<Rightarrow> string option"
  o_revoke :: "string \<Rightarrow> string \<Rightarrow> string option"

text \<open>The secrets, and the refresh tokens sent to each provider so far.\<close>

record oauth_state =
  s_secrets :: secrets
  s_calls :: "(string \<times> string) list"

record provider_config =
  pc_client_id :: string
  pc_client_secret :: string
  pc_redirect_uri :: "string option"

definition registered_providers :: "string list" where
  "registered_providers = [''github'', ''google'', ''google_calendar'', ''google_search_console'', ''linear'', ''microsoft'',
     ''stripe'', ''supabase'']"

definition hasProvider :: "string \<Rightarrow> bool" where
  "hasProvider p = (to_lower p \<in> set registered_providers)"

definition isRefreshable :: "string \<Rightarrow> bool" where
  "isRefreshable p = (hasProvider p \<and> to_lower p \<noteq> ''github'')"

definition isRevocable :: "string \<Rightarrow> bool" where
  "isRevocable p = (hasProvider p \<and> to_lower p \<noteq> ''microsoft'')"

definition isUserInfoProvider :: "string \<Rightarrow> bool" where
  "isUserInfoProvider p = (hasProvider p \<and> to_lower p \<notin> {''github'', ''stripe'', ''supabase''})"

definition resolveCredentialProvider :: "string \<Rightarrow> string" where
  "resolveCredentialProvider provider = (let n = to_lower provider in
     if n = ''google_calendar'' \<or> n = ''google_search_console'' then ''google'' else n)"

definition config_key :: "string \<Rightarrow> string \<Rightarrow> string \<Rightarrow> string \<times> string \<times> string" where
  "config_key tenant provider field = (tenant, ''provider_config'', provider @ field)"

text \<open>An empty string counts as absent wherever the source tests for truth.\<close>

definition truthy :: "string option \<Rightarrow> string option" where
  "truthy v = (case v of Some s \<Rightarrow> if s = [] then None else Some s | None \<Rightarrow> None)"

definition setProviderConfig :: "string \<Rightarrow> string \<Rightarrow> provider_config \<Rightarrow> secrets \<Rightarrow> oauth_error + secrets" where
  "setProviderConfig tenant provider c st =
     (if \<not> hasProvider provider then Inl UnknownProvider else
      (let st1 = jset (config_key tenant provider ''_client_id'') (Plain (pc_client_id c)) st;
           st2 = jset (config_key tenant provider ''_client_secret'') (Plain (pc_client_secret c)) st1
       in case truthy (pc_redirect_uri c) of None \<Rightarrow> Inr st2
          | Some u \<Rightarrow> Inr (jset (config_key tenant provider ''_redirect_uri'') (Plain u) st2)))"

definition readProviderConfig :: "string \<Rightarrow> string \<Rightarrow> secrets \<Rightarrow> provider_config option" where
  "readProviderConfig tenant provider st =
     (case (truthy (secret_text st (config_key tenant provider ''_client_id'')),
            truthy (secret_text st (config_key tenant provider ''_client_secret''))) of
        (Some i, Some s) \<Rightarrow> Some \<lparr>pc_client_id = i, pc_client_secret = s,
          pc_redirect_uri = truthy (secret_text st (config_key tenant provider ''_redirect_uri''))\<rparr>
      | _ \<Rightarrow> None)"

definition getProviderConfig :: "string \<Rightarrow> string \<Rightarrow> secrets \<Rightarrow> provider_config option" where
  "getProviderConfig tenant provider st = (case readProviderConfig tenant provider st of
       Some c \<Rightarrow> Some c
     | None \<Rightarrow> (let cp = resolveCredentialProvider provider
         in if cp \<noteq> provider then readProviderConfig tenant cp st else None))"

definition deleteProviderConfig :: "string \<Rightarrow> string \<Rightarrow> secrets \<Rightarrow> secrets" where
  "deleteProviderConfig tenant provider st =
     fold (\<lambda>f. jdel (config_key tenant provider f)) [''_client_id'', ''_client_secret'', ''_redirect_uri''] st"

definition env_config :: "oauth_world \<Rightarrow> string \<Rightarrow> provider_config option" where
  "env_config w cp =
     (case (truthy (o_env w (to_upper cp @ ''_CLIENT_ID'')), truthy (o_env w (to_upper cp @ ''_CLIENT_SECRET''))) of
        (Some i, Some s) \<Rightarrow> Some \<lparr>pc_client_id = i, pc_client_secret = s,
          pc_redirect_uri = truthy (o_env w (to_upper cp @ ''_REDIRECT_URI''))\<rparr>
      | _ \<Rightarrow> None)"

definition resolveProviderConfig :: "oauth_world \<Rightarrow> string \<Rightarrow> string option \<Rightarrow> string option \<Rightarrow> string option \<Rightarrow> secrets
    \<Rightarrow> provider_config option" where
  "resolveProviderConfig w provider tenant credentialProvider redirect st =
     (let stored = (case truthy tenant of Some t \<Rightarrow> getProviderConfig t provider st | None \<Rightarrow> None);
          cp = or_else (truthy credentialProvider) (resolveCredentialProvider provider);
          config = (case stored of Some c \<Rightarrow> Some c | None \<Rightarrow> env_config w cp)
      in case (config, truthy redirect) of
           (Some c, Some u) \<Rightarrow> Some (c\<lparr>pc_redirect_uri := Some u\<rparr>)
         | _ \<Rightarrow> config)"

definition connection_key :: "string \<Rightarrow> string \<Rightarrow> string \<times> string \<times> string" where
  "connection_key user provider = (user, oauth_tokens_namespace, provider)"

text \<open>An empty or sealed secret is no connection.\<close>

definition readStoredConnection :: "string \<Rightarrow> string \<Rightarrow> secrets \<Rightarrow> oauth_error + connection option" where
  "readStoredConnection user provider st = (case jget st (connection_key user provider) of
       None \<Rightarrow> Inr None
     | Some Sealed \<Rightarrow> Inr None
     | Some (Plain s) \<Rightarrow> if s = [] then Inr None else Inl ParseFailed
     | Some (Document v) \<Rightarrow> (case parseStoredOAuthConnection provider (resolveCredentialProvider provider) v of
         Inl e \<Rightarrow> Inl e | Inr c \<Rightarrow> Inr (Some c)))"

definition coerceExpiresAt :: "rat \<Rightarrow> int \<Rightarrow> int" where
  "coerceExpiresAt expiresInSeconds now =
     (let v = now + max 0 (floor expiresInSeconds) * 1000 - 5 * 60 * 1000 in max v (now + 30000))"

record save_context =
  sc_email :: "string option"
  sc_tenantUserId :: "string option"
  sc_credentialProvider :: "string option"
  sc_redirectUri :: "string option"
  sc_providerMetadata :: "(string, json) jsmap option"

definition buildStoredOAuthConnection :: "oauth_world \<Rightarrow> string \<Rightarrow> string \<Rightarrow> save_context \<Rightarrow> string option \<Rightarrow> int \<Rightarrow> tokens
    \<Rightarrow> connection" where
  "buildStoredOAuthConnection w provider credentialProvider c expiresAt now t =
     \<lparr>c_provider = provider, c_credential_provider = credentialProvider, c_tenant_user_id = sc_tenantUserId c,
      c_redirect_uri = sc_redirectUri c, c_access_token = t_access_token t, c_refresh_token = t_refresh_token t,
      c_expires_at = expiresAt, c_scope = t_scope t, c_token_type = or_else (t_token_type t) ''Bearer'',
      c_saved_at = o_iso w now, c_cached_email = sc_email c,
      c_provider_metadata = mergeProviderMetadata (sc_providerMetadata c) (t_provider_metadata t),
      c_disabled_at = None, c_disabled_reason = None\<rparr>"

definition saveTokens :: "oauth_world \<Rightarrow> int \<Rightarrow> string \<Rightarrow> string \<Rightarrow> tokens \<Rightarrow> save_context \<Rightarrow> secrets \<Rightarrow> secrets" where
  "saveTokens w now user provider t c st =
     (let expiresAt = (case t_expires_in t of Some n \<Rightarrow> if n = 0 then None else Some (o_iso w (coerceExpiresAt n now))
            | None \<Rightarrow> None);
          cp = or_else (truthy (sc_credentialProvider c)) (resolveCredentialProvider provider)
      in jset (connection_key user provider)
           (Document (connection_json (buildStoredOAuthConnection w provider cp c expiresAt now t))) st)"

subsection \<open>The callback of an authorisation\<close>

fun split_scopes :: "string \<Rightarrow> string list" where
  "split_scopes [] = [[]]"
| "split_scopes (c # cs) = (if c = CHR '','' \<or> is_ws c then [] # split_scopes cs
     else (case split_scopes cs of [] \<Rightarrow> [[c]] | p # ps \<Rightarrow> (c # p) # ps))"

definition normalizeScopes :: "string option \<Rightarrow> string list" where
  "normalizeScopes sc = (case truthy sc of None \<Rightarrow> []
     | Some s \<Rightarrow> filter (\<lambda>x. x \<noteq> []) (map (\<lambda>x. to_lower (trim x)) (split_scopes s)))"

definition missing_scopes :: "string list \<Rightarrow> string option \<Rightarrow> string list" where
  "missing_scopes required granted =
     filter (\<lambda>x. x \<notin> set (normalizeScopes granted))
       (filter (\<lambda>x. x \<noteq> []) (map (\<lambda>x. to_lower (trim x)) required))"

definition handleCallback :: "oauth_world \<Rightarrow> int \<Rightarrow> string \<Rightarrow> string \<Rightarrow> string \<Rightarrow> string \<Rightarrow> string option \<Rightarrow> string list
    \<Rightarrow> secrets \<Rightarrow> (oauth_error + string option) \<times> secrets" where
  "handleCallback w now tenant user provider code redirect required st =
     (let cp = resolveCredentialProvider provider
      in case resolveProviderConfig w provider (Some tenant) (Some cp) redirect st of
           None \<Rightarrow> (Inl NotConfigured, st)
         | Some c \<Rightarrow> if \<not> hasProvider provider then (Inl UnknownProvider, st) else
             (case o_exchange w provider code (pc_client_id c) (pc_client_secret c) (pc_redirect_uri c) of
                Inl msg \<Rightarrow> (Inl (ProviderError msg), st)
              | Inr t \<Rightarrow> if missing_scopes required (t_scope t) \<noteq> []
                  then (Inl (MissingScopes (missing_scopes required (t_scope t))), st)
                  else (let email = (if isUserInfoProvider provider then o_email w provider (t_access_token t) else None)
                    in (Inr (t_scope t), saveTokens w now user provider t
                      \<lparr>sc_email = email, sc_tenantUserId = Some tenant, sc_credentialProvider = Some cp,
                       sc_redirectUri = pc_redirect_uri c, sc_providerMetadata = None\<rparr> st))))"

subsection \<open>Access tokens\<close>

text \<open>
  \<open>getAccessToken\<close> in its atomic parts. \<open>accessBegin\<close> is what runs before the lock; it answers with a
  token, with an error, or with the connection, the refresh token and the credentials of a refresh.
  Under the lock \<open>recheck\<close> reads the connection again and \<open>refreshTokens\<close> calls the provider and
  stores what it returns; \<open>refreshFailed\<close> runs after the lock.
\<close>

datatype access_begin = Token string | NeedRefresh connection string provider_config

definition accessBegin :: "oauth_world \<Rightarrow> int \<Rightarrow> string \<Rightarrow> string \<Rightarrow> secrets \<Rightarrow> oauth_error + access_begin" where
  "accessBegin w now user provider st = (case readStoredConnection user provider st of
       Inl e \<Rightarrow> Inl e
     | Inr None \<Rightarrow> Inl NotConnected
     | Inr (Some c) \<Rightarrow> if truthy (c_disabled_at c) \<noteq> None then Inl (Disabled (c_disabled_reason c)) else
         (case Option.bind (truthy (c_expires_at c)) (o_time w) of
            None \<Rightarrow> Inr (Token (c_access_token c))
          | Some shouldRefreshAt \<Rightarrow> if now < shouldRefreshAt then Inr (Token (c_access_token c)) else
              (case truthy (c_refresh_token c) of
                 None \<Rightarrow> Inl NoRefreshToken
               | Some r \<Rightarrow> if \<not> hasProvider provider then Inl UnknownProvider
                   else if \<not> isRefreshable provider then Inl NotRefreshable
                   else (case resolveProviderConfig w provider (c_tenant_user_id c) (Some (c_credential_provider c)) None st of
                       None \<Rightarrow> Inl MissingCredentials
                     | Some cfg \<Rightarrow> Inr (NeedRefresh c r cfg)))))"

definition recheck :: "oauth_world \<Rightarrow> int \<Rightarrow> string \<Rightarrow> string \<Rightarrow> secrets \<Rightarrow> string option" where
  "recheck w now user provider st = (case readStoredConnection user provider st of
       Inr (Some c) \<Rightarrow> (case Option.bind (truthy (c_expires_at c)) (o_time w) of
           Some shouldRefreshAt \<Rightarrow> if now < shouldRefreshAt then Some (c_access_token c) else None
         | None \<Rightarrow> None)
     | _ \<Rightarrow> None)"

definition refreshTokens :: "oauth_world \<Rightarrow> int \<Rightarrow> string \<Rightarrow> string \<Rightarrow> connection \<Rightarrow> string \<Rightarrow> provider_config
    \<Rightarrow> oauth_state \<Rightarrow> (string + string) \<times> oauth_state" where
  "refreshTokens w now user provider c r cfg s =
     (let s1 = s\<lparr>s_calls := s_calls s @ [(provider, r)]\<rparr>
      in case o_refresh w provider (s_calls s) r (pc_client_id cfg) (pc_client_secret cfg) of
           Inl msg \<Rightarrow> (Inl msg, s1)
         | Inr t \<Rightarrow>
             (let kept = t\<lparr>t_refresh_token := Some (or_else (t_refresh_token t) r),
                  t_provider_metadata := Some (mergeProviderMetadata (Some (c_provider_metadata c)) (t_provider_metadata t))\<rparr>
              in (Inr (t_access_token t), s1\<lparr>s_secrets := saveTokens w now user provider kept
                   \<lparr>sc_email = c_cached_email c, sc_tenantUserId = c_tenant_user_id c,
                    sc_credentialProvider = Some (c_credential_provider c), sc_redirectUri = c_redirect_uri c,
                    sc_providerMetadata = None\<rparr> (s_secrets s1)\<rparr>)))"

definition refreshLocked :: "oauth_world \<Rightarrow> int \<Rightarrow> string \<Rightarrow> string \<Rightarrow> connection \<Rightarrow> string \<Rightarrow> provider_config
    \<Rightarrow> oauth_state \<Rightarrow> (string + string) \<times> oauth_state" where
  "refreshLocked w now user provider c r cfg s = (case recheck w now user provider (s_secrets s) of
       Some token \<Rightarrow> (Inr token, s)
     | None \<Rightarrow> refreshTokens w now user provider c r cfg s)"

definition disableConnection :: "oauth_world \<Rightarrow> int \<Rightarrow> string \<Rightarrow> string \<Rightarrow> string \<Rightarrow> secrets \<Rightarrow> oauth_error + secrets" where
  "disableConnection w now user provider reason st = (case readStoredConnection user provider st of
       Inl e \<Rightarrow> Inl e
     | Inr None \<Rightarrow> Inl NotConnected
     | Inr (Some c) \<Rightarrow> Inr (jset (connection_key user provider)
         (Document (connection_json (c\<lparr>c_disabled_at := Some (o_iso w now), c_disabled_reason := Some reason\<rparr>))) st))"

definition isUnrecoverable :: "string \<Rightarrow> bool" where
  "isUnrecoverable msg = (str_includes ''invalid_grant'' msg \<or> str_includes ''revoked'' msg \<or> str_includes ''expired'' msg)"

definition refreshFailed :: "oauth_world \<Rightarrow> int \<Rightarrow> string \<Rightarrow> string \<Rightarrow> string \<Rightarrow> oauth_state \<Rightarrow> oauth_state" where
  "refreshFailed w now user provider msg s = (if isUnrecoverable msg
     then (case disableConnection w now user provider ''refresh_failed'' (s_secrets s) of
         Inr st \<Rightarrow> s\<lparr>s_secrets := st\<rparr> | Inl _ \<Rightarrow> s)
     else s)"

text \<open>The whole call when nothing else runs meanwhile and the lock is free.\<close>

definition getAccessToken :: "oauth_world \<Rightarrow> int \<Rightarrow> string \<Rightarrow> string \<Rightarrow> oauth_state \<Rightarrow> (oauth_error + string) \<times> oauth_state" where
  "getAccessToken w now user provider s = (case accessBegin w now user provider (s_secrets s) of
       Inl e \<Rightarrow> (Inl e, s)
     | Inr (Token t) \<Rightarrow> (Inr t, s)
     | Inr (NeedRefresh c r cfg) \<Rightarrow> (case refreshLocked w now user provider c r cfg s of
         (Inr t, s') \<Rightarrow> (Inr t, s')
       | (Inl msg, s') \<Rightarrow> (Inl (RefreshFailed msg), refreshFailed w now user provider msg s')))"

definition getRefreshToken :: "string \<Rightarrow> string \<Rightarrow> secrets \<Rightarrow> string option" where
  "getRefreshToken user provider st = (case readStoredConnection user provider st of
       Inr (Some c) \<Rightarrow> c_refresh_token c | _ \<Rightarrow> None)"

definition isConnected :: "string \<Rightarrow> string \<Rightarrow> secrets \<Rightarrow> bool" where
  "isConnected user provider st = (jget st (connection_key user provider) \<noteq> None)"

definition disconnect :: "string \<Rightarrow> string \<Rightarrow> secrets \<Rightarrow> secrets" where
  "disconnect user provider st = jdel (connection_key user provider) st"

definition revoke :: "oauth_world \<Rightarrow> int \<Rightarrow> string \<Rightarrow> string \<Rightarrow> string \<Rightarrow> oauth_state \<Rightarrow> oauth_error option \<times> oauth_state" where
  "revoke w now tenant user provider s = (case readStoredConnection user provider (s_secrets s) of
       Inl e \<Rightarrow> (Some e, s)
     | Inr stored \<Rightarrow>
         (let configTenant = (case stored of Some c \<Rightarrow> or_else (c_tenant_user_id c) tenant | None \<Rightarrow> tenant);
              cp = map_option c_credential_provider stored
          in case resolveProviderConfig w provider (Some configTenant) cp None (s_secrets s) of
               None \<Rightarrow> (Some NotConfigured, s)
             | Some cfg \<Rightarrow> (case getAccessToken w now user provider s of
                 (Inl e, s1) \<Rightarrow> (Some e, s1)
               | (Inr token, s1) \<Rightarrow> if \<not> hasProvider provider then (Some UnknownProvider, s1) else
                   (case (if isRevocable provider then o_revoke w provider token else None) of
                      Some msg \<Rightarrow> (Some (ProviderError msg), s1)
                    | None \<Rightarrow> (None, s1\<lparr>s_secrets := disconnect user provider (s_secrets s1)\<rparr>)))))"

subsection \<open>Keys of a user's environment\<close>

definition valid_key_name :: "string \<Rightarrow> bool" where
  "valid_key_name k = (case k of [] \<Rightarrow> False
     | c # cs \<Rightarrow> is_upper_ascii c \<and> length cs \<le> 127 \<and>
         list_all (\<lambda>d. is_upper_ascii d \<or> is_digit_ascii d \<or> d = CHR ''_'') cs)"

definition env_key :: "string \<Rightarrow> string \<Rightarrow> string \<times> string \<times> string" where
  "env_key user k = (user, user_env_keys_namespace, k)"

definition setUserEnvKey :: "string \<Rightarrow> string \<Rightarrow> string \<Rightarrow> secrets \<Rightarrow> oauth_error + secrets" where
  "setUserEnvKey user k v st = (if valid_key_name k then Inr (jset (env_key user k) (Plain v) st) else Inl InvalidKeyName)"

definition getUserEnvKey :: "string \<Rightarrow> string \<Rightarrow> secrets \<Rightarrow> string option" where
  "getUserEnvKey user k st = secret_text st (env_key user k)"

definition listUserEnvKeyNames :: "string \<Rightarrow> secrets \<Rightarrow> string list" where
  "listUserEnvKeyNames user st =
     map (\<lambda>((_, _, k), _). k) (filter (\<lambda>((u, n, _), _). u = user \<and> n = user_env_keys_namespace) st)"

definition getAllUserEnvKeys :: "string \<Rightarrow> secrets \<Rightarrow> (string, string) jsmap" where
  "getAllUserEnvKeys user st = fold (\<lambda>k m. case truthy (getUserEnvKey user k st) of
     Some v \<Rightarrow> jset k v m | None \<Rightarrow> m) (listUserEnvKeyNames user st) []"

definition deleteUserEnvKey :: "string \<Rightarrow> string \<Rightarrow> secrets \<Rightarrow> secrets" where
  "deleteUserEnvKey user k st = jdel (env_key user k) st"

definition hasUserEnvKey :: "string \<Rightarrow> string \<Rightarrow> secrets \<Rightarrow> bool" where
  "hasUserEnvKey user k st = (jget st (env_key user k) \<noteq> None)"

definition buildInstanceId :: "string \<Rightarrow> string \<Rightarrow> string option \<Rightarrow> string option \<Rightarrow> nat option \<Rightarrow> string" where
  "buildInstanceId provider environment tenant run worker =
     join_with '':'' ([provider, environment] @ (case truthy tenant of Some t \<Rightarrow> [t] | None \<Rightarrow> [])
       @ (case truthy run of Some r \<Rightarrow> [r] | None \<Rightarrow> [])
       @ (case worker of Some n \<Rightarrow> [CHR ''w'' # digits n] | None \<Rightarrow> []))"

subsection \<open>The stored form\<close>

definition storable :: "connection \<Rightarrow> bool" where
  "storable c \<longleftrightarrow> c_provider c \<noteq> [] \<and> c_credential_provider c \<noteq> [] \<and> c_access_token c \<noteq> [] \<and>
     c_token_type c \<noteq> [] \<and> c_saved_at c \<noteq> [] \<and> c_tenant_user_id c \<noteq> Some [] \<and> c_redirect_uri c \<noteq> Some [] \<and>
     c_refresh_token c \<noteq> Some [] \<and> c_expires_at c \<noteq> Some [] \<and> c_scope c \<noteq> Some [] \<and> c_cached_email c \<noteq> Some [] \<and>
     c_disabled_at c \<noteq> Some [] \<and> c_disabled_reason c \<noteq> Some [] \<and> list_all (\<lambda>(_, v). scalar v) (c_provider_metadata c)"

lemma nullable_or_null [simp]: "nullable (Some (or_null v)) = (if v = Some [] then None else Some v)"
  by (cases v) auto

lemma optional_or_null [simp]: "optional_nullable (Some (or_null v)) = (if v = Some [] then None else Some v)"
  by (cases v) auto

lemma connection_json_fields:
  "getObjectProperty (connection_json c) ''version'' = Some (JNum 2)"
  "getObjectProperty (connection_json c) ''provider'' = Some (JStr (c_provider c))"
  "getObjectProperty (connection_json c) ''credential_provider'' = Some (JStr (c_credential_provider c))"
  "getObjectProperty (connection_json c) ''tenant_user_id'' = Some (or_null (c_tenant_user_id c))"
  "getObjectProperty (connection_json c) ''redirect_uri'' = Some (or_null (c_redirect_uri c))"
  "getObjectProperty (connection_json c) ''access_token'' = Some (JStr (c_access_token c))"
  "getObjectProperty (connection_json c) ''refresh_token'' = Some (or_null (c_refresh_token c))"
  "getObjectProperty (connection_json c) ''expires_at'' = Some (or_null (c_expires_at c))"
  "getObjectProperty (connection_json c) ''scope'' = Some (or_null (c_scope c))"
  "getObjectProperty (connection_json c) ''token_type'' = Some (JStr (c_token_type c))"
  "getObjectProperty (connection_json c) ''saved_at'' = Some (JStr (c_saved_at c))"
  "getObjectProperty (connection_json c) ''cached_email'' = Some (or_null (c_cached_email c))"
  "getObjectProperty (connection_json c) ''provider_metadata'' = Some (JObj (c_provider_metadata c))"
  "getObjectProperty (connection_json c) ''disabled_at'' = Some (or_null (c_disabled_at c))"
  "getObjectProperty (connection_json c) ''disabled_reason'' = Some (or_null (c_disabled_reason c))"
  by (simp_all add: connection_json_def)

lemma schemaV2_json: "schemaV2 (connection_json c) = (if storable c then Some c else None)"
  unfolding schemaV2_def sharedConnectionFields_def connection_json_fields
  by (auto simp: storable_def)

lemma schemaV1_json: "schemaV1 (connection_json c) = None"
  by (simp add: schemaV1_def connection_json_fields)

lemma legacy_json:
  "legacySchema p f (connection_json c) = Some c' \<Longrightarrow> c_provider c' = p \<and> c_credential_provider c' = f \<and>
     c_tenant_user_id c' = None \<and> c_redirect_uri c' = None \<and> c_provider_metadata c' = [] \<and>
     c_disabled_at c' = None \<and> c_disabled_reason c' = None \<and> c_access_token c \<noteq> [] \<and> c_token_type c \<noteq> [] \<and>
     c_saved_at c \<noteq> [] \<and> c_refresh_token c \<noteq> Some [] \<and> c_expires_at c \<noteq> Some [] \<and> c_scope c \<noteq> Some [] \<and>
     c_cached_email c \<noteq> Some []"
  unfolding legacySchema_def connection_json_fields
  by (auto split: if_splits Option.bind_splits)

text \<open>
  C32. A stored connection is read back as it was written exactly when none of its texts is empty
  and its metadata holds no arrays and objects.
\<close>

theorem connection_roundtrip:
  assumes "provider \<noteq> []" "fallback \<noteq> []" "c_provider c = provider"
  shows "parseStoredOAuthConnection provider fallback (connection_json c) = Inr c \<longleftrightarrow> storable c"
proof (cases "storable c")
  case True
  then show ?thesis
    using assms(3) by (simp add: parseStoredOAuthConnection_def schemaV2_json)
next
  case False
  have "legacySchema provider fallback (connection_json c) \<noteq> Some c"
    using legacy_json [of provider fallback c c] False assms(1,2) by (auto simp: storable_def)
  then show ?thesis
    using False by (auto simp: parseStoredOAuthConnection_def schemaV2_json schemaV1_json split: option.split)
qed

subsection \<open>Expiry\<close>

lemma coerceExpiresAt_bounds:
  "now + 30000 \<le> coerceExpiresAt n now"
  "coerceExpiresAt n now \<le> now + max 30000 (max 0 (floor n) * 1000 - 300000)"
  by (simp_all add: coerceExpiresAt_def Let_def)

text \<open>The floor of thirty seconds lies after the end of a token that lives shorter.\<close>

lemma refresh_time_in_life: "coerceExpiresAt n now \<le> now + floor n * 1000 \<longleftrightarrow> 30 \<le> floor n"
  by (auto simp: coerceExpiresAt_def Let_def)

subsection \<open>Saving and reading\<close>

definition saved_connection :: "oauth_world \<Rightarrow> int \<Rightarrow> string \<Rightarrow> tokens \<Rightarrow> save_context \<Rightarrow> connection" where
  "saved_connection w now provider t c = buildStoredOAuthConnection w provider
     (or_else (truthy (sc_credentialProvider c)) (resolveCredentialProvider provider)) c
     (case t_expires_in t of Some n \<Rightarrow> if n = 0 then None else Some (o_iso w (coerceExpiresAt n now)) | None \<Rightarrow> None) now t"

lemma saveTokens_get:
  "jget (saveTokens w now user provider t c st) k =
     (if k = connection_key user provider then Some (Document (connection_json (saved_connection w now provider t c)))
      else jget st k)"
  by (simp add: saveTokens_def saved_connection_def Let_def)

lemma saved_fields [simp]:
  "c_provider (saved_connection w now provider t c) = provider"
  "c_access_token (saved_connection w now provider t c) = t_access_token t"
  "c_refresh_token (saved_connection w now provider t c) = t_refresh_token t"
  "c_scope (saved_connection w now provider t c) = t_scope t"
  "c_disabled_at (saved_connection w now provider t c) = None"
  "c_cached_email (saved_connection w now provider t c) = sc_email c"
  "c_tenant_user_id (saved_connection w now provider t c) = sc_tenantUserId c"
  "c_redirect_uri (saved_connection w now provider t c) = sc_redirectUri c"
  "c_expires_at (saved_connection w now provider t c) = (case t_expires_in t of
     Some n \<Rightarrow> if n = 0 then None else Some (o_iso w (coerceExpiresAt n now)) | None \<Rightarrow> None)"
  by (simp_all add: saved_connection_def buildStoredOAuthConnection_def)

lemma read_document:
  assumes "jget st (connection_key user provider) = Some (Document (connection_json c))" "storable c" "c_provider c = provider"
  shows "readStoredConnection user provider st = Inr (Some c)"
  using assms by (simp add: readStoredConnection_def parseStoredOAuthConnection_def schemaV2_json)

lemma truthy_Some [simp]: "s \<noteq> [] \<Longrightarrow> truthy (Some s) = Some s"
  by (simp add: truthy_def)

lemma truthy_None [simp]: "truthy None = None"
  by (simp add: truthy_def)

definition refresh_context :: "connection \<Rightarrow> save_context" where
  "refresh_context c = \<lparr>sc_email = c_cached_email c, sc_tenantUserId = c_tenant_user_id c,
     sc_credentialProvider = Some (c_credential_provider c), sc_redirectUri = c_redirect_uri c,
     sc_providerMetadata = None\<rparr>"

definition kept_tokens :: "connection \<Rightarrow> string \<Rightarrow> tokens \<Rightarrow> tokens" where
  "kept_tokens c r t = t\<lparr>t_refresh_token := Some (or_else (t_refresh_token t) r),
     t_provider_metadata := Some (mergeProviderMetadata (Some (c_provider_metadata c)) (t_provider_metadata t))\<rparr>"

lemma refreshTokens_unfold:
  "refreshTokens w now user provider c r cfg s =
     (let s1 = s\<lparr>s_calls := s_calls s @ [(provider, r)]\<rparr>
      in case o_refresh w provider (s_calls s) r (pc_client_id cfg) (pc_client_secret cfg) of
           Inl msg \<Rightarrow> (Inl msg, s1)
         | Inr t \<Rightarrow> (Inr (t_access_token t), s1\<lparr>s_secrets :=
             saveTokens w now user provider (kept_tokens c r t) (refresh_context c) (s_secrets s1)\<rparr>))"
  by (simp add: refreshTokens_def kept_tokens_def refresh_context_def Let_def split: sum.split)


text \<open>
  A refresh that is under way undoes a disconnection and the disabling of the connection: when
  the provider answers, the connection is there again and enabled.
\<close>

theorem refresh_undoes_disconnect:
  assumes answer: "o_refresh w provider (s_calls s) r (pc_client_id cfg) (pc_client_secret cfg) = Inr t"
    and stored: "storable (saved_connection w now provider (kept_tokens c r t) (refresh_context c))"
    and meanwhile: "s' = s\<lparr>s_secrets := disconnect user provider (s_secrets s)\<rparr> \<or>
      (\<exists>st. disableConnection w now user provider reason (s_secrets s) = Inr st \<and> s' = s\<lparr>s_secrets := st\<rparr> \<and>
        recheck w now user provider st = None)"
  shows "\<exists>s'' c''. refreshLocked w now user provider c r cfg s' = (Inr (t_access_token t), s'') \<and>
    isConnected user provider (s_secrets s'') \<and>
    readStoredConnection user provider (s_secrets s'') = Inr (Some c'') \<and> c_disabled_at c'' = None"
proof -
  let ?c = "saved_connection w now provider (kept_tokens c r t) (refresh_context c)"
  have calls: "s_calls s' = s_calls s" and "recheck w now user provider (s_secrets s') = None"
    using meanwhile by (auto simp: recheck_def readStoredConnection_def disconnect_def)
  then have run: "refreshLocked w now user provider c r cfg s' = (Inr (t_access_token t),
      s'\<lparr>s_calls := s_calls s' @ [(provider, r)],
         s_secrets := saveTokens w now user provider (kept_tokens c r t) (refresh_context c) (s_secrets s')\<rparr>)"
    using answer by (simp add: refreshLocked_def refreshTokens_unfold Let_def)
  have "readStoredConnection user provider
      (saveTokens w now user provider (kept_tokens c r t) (refresh_context c) (s_secrets s')) = Inr (Some ?c)"
    by (rule read_document) (simp_all add: saveTokens_get stored)
  then show ?thesis
    by (simp add: run isConnected_def saveTokens_get)
qed

text \<open>A token that lives for zero seconds is stored as one that never expires.\<close>

lemma zero_expiry_never_refreshed:
  assumes "t_expires_in t = Some 0" "storable (saved_connection w now provider t c)"
  shows "accessBegin w later user provider (saveTokens w now user provider t c st) = Inr (Token (t_access_token t))"
proof -
  have "readStoredConnection user provider (saveTokens w now user provider t c st) =
      Inr (Some (saved_connection w now provider t c))"
    by (rule read_document) (simp_all add: saveTokens_get assms)
  then show ?thesis
    using assms(1) by (simp add: accessBegin_def)
qed

text \<open>A provider that grants no scope sends an empty one; what is stored then cannot be read.\<close>

lemma empty_scope_unreadable:
  assumes "t_scope t = Some []"
  shows "readStoredConnection user provider (saveTokens w now user provider t c st) = Inl ParseFailed"
proof -
  have "\<not> storable (saved_connection w now provider t c)"
    using assms by (simp add: storable_def)
  moreover have "legacySchema provider (resolveCredentialProvider provider)
      (connection_json (saved_connection w now provider t c)) = None"
    using legacy_json assms by (metis not_Some_eq saved_fields(4))
  ultimately show ?thesis
    by (simp add: readStoredConnection_def saveTokens_get parseStoredOAuthConnection_def schemaV2_json schemaV1_json)
qed

text \<open>A connection whose token cannot be had cannot be revoked.\<close>

lemma getAccessToken_keeps:
  assumes "isConnected user provider (s_secrets s)"
  shows "isConnected user provider (s_secrets (snd (getAccessToken w now user provider s)))"
  using assms
  by (auto simp: getAccessToken_def isConnected_def refreshLocked_def refreshTokens_unfold refreshFailed_def
      disableConnection_def Let_def saveTokens_get split: sum.splits access_begin.splits option.splits prod.splits if_splits)

lemma revoke_needs_token:
  assumes "isConnected user provider (s_secrets s)" "fst (getAccessToken w now user provider s) = Inl e"
  shows "fst (revoke w now tenant user provider s) \<noteq> None \<and>
    isConnected user provider (s_secrets (snd (revoke w now tenant user provider s)))"
  using assms getAccessToken_keeps [OF assms(1), of w now]
  by (cases "getAccessToken w now user provider s") (auto simp: revoke_def Let_def split: sum.split option.split)

text \<open>A callback stores tokens only when they grant every required scope.\<close>

lemma callback_scopes:
  "handleCallback w now tenant user provider code redirect required st = (Inr sc, st') \<Longrightarrow>
     missing_scopes required sc = [] \<and> isConnected user provider st'"
  "handleCallback w now tenant user provider code redirect required st = (Inl e, st') \<Longrightarrow> st' = st"
  by (auto simp: handleCallback_def Let_def isConnected_def saveTokens_get split: option.splits sum.splits if_splits)

text \<open>Setting credentials without a redirect keeps the redirect of the old ones.\<close>

lemma stale_redirect:
  assumes "hasProvider provider" "pc_client_id c \<noteq> []" "pc_client_secret c \<noteq> []" "pc_redirect_uri c = None"
    "secret_text st (config_key tenant provider ''_redirect_uri'') = Some u" "u \<noteq> []"
  shows "\<exists>st'. setProviderConfig tenant provider c st = Inr st' \<and>
    getProviderConfig tenant provider st' = Some (c\<lparr>pc_redirect_uri := Some u\<rparr>)"
  using assms by (simp add: setProviderConfig_def getProviderConfig_def readProviderConfig_def config_key_def
      secret_text_def Let_def)

subsection \<open>A concrete connection\<close>

definition demo_connection :: connection where
  "demo_connection = \<lparr>c_provider = ''linear'', c_credential_provider = ''linear'', c_tenant_user_id = Some ''tenant'',
     c_redirect_uri = None, c_access_token = ''old'', c_refresh_token = Some ''r1'', c_expires_at = Some ''0'',
     c_scope = Some ''read'', c_token_type = ''Bearer'', c_saved_at = ''0'', c_cached_email = None,
     c_provider_metadata = [(''team'', JStr ''core'')], c_disabled_at = None, c_disabled_reason = None\<rparr>"

definition demo_tokens :: tokens where
  "demo_tokens = \<lparr>t_access_token = ''new'', t_refresh_token = None, t_expires_in = Some 3600, t_scope = Some ''read'',
     t_token_type = None, t_provider_metadata = None\<rparr>"

text \<open>The world knows two dates, and the provider accepts the refresh token \<open>r1\<close> once.\<close>

definition demo_oauth :: oauth_world where
  "demo_oauth = \<lparr>o_env = (\<lambda>k. if k = ''LINEAR_CLIENT_ID'' then Some ''id'' else if k = ''LINEAR_CLIENT_SECRET'' then Some ''sec'' else None),
     o_iso = (\<lambda>t. if t = 3300000 then ''00:55'' else ''00:00''), o_time = (\<lambda>s. if s = ''00:55'' then Some 3300000 else Some 0),
     o_exchange = (\<lambda>_ _ _ _ _. Inr demo_tokens),
     o_refresh = (\<lambda>_ used r _ _. if (''linear'', r) \<in> set used then Inl ''invalid_grant'' else Inr demo_tokens),
     o_email = (\<lambda>_ _. None), o_revoke = (\<lambda>_ _. None)\<rparr>"

definition demo_config :: provider_config where
  "demo_config = \<lparr>pc_client_id = ''id'', pc_client_secret = ''sec'', pc_redirect_uri = None\<rparr>"

definition demo_state :: oauth_state where
  "demo_state = \<lparr>s_secrets = [((''user'', ''oauth_connections'', ''linear''), Document (connection_json demo_connection))],
     s_calls = []\<rparr>"

lemma connection_roundtrip_witness:
  "parseStoredOAuthConnection ''linear'' ''linear'' (connection_json demo_connection) = Inr demo_connection"
proof -
  have "storable demo_connection"
    by (simp add: storable_def demo_connection_def)
  then show ?thesis
    using connection_roundtrip [of "''linear''" "''linear''" demo_connection] by (simp add: demo_connection_def)
qed

lemma demo_begin:
  "accessBegin demo_oauth 1000 ''user'' ''linear'' (s_secrets demo_state) = Inr (NeedRefresh demo_connection ''r1'' demo_config)"
proof -
  have "readStoredConnection ''user'' ''linear'' (s_secrets demo_state) = Inr (Some demo_connection)"
    by (rule read_document)
      (simp_all add: demo_state_def connection_key_def oauth_tokens_namespace_def storable_def demo_connection_def)
  moreover have "to_upper ''linear'' = ''LINEAR''" "to_lower ''linear'' = ''linear''"
    by code_simp+
  ultimately show ?thesis
    by (simp add: accessBegin_def demo_connection_def demo_oauth_def demo_config_def demo_state_def hasProvider_def
        isRefreshable_def registered_providers_def resolveProviderConfig_def env_config_def Let_def
        getProviderConfig_def readProviderConfig_def secret_text_def config_key_def or_else_def resolveCredentialProvider_def)
qed

lemma demo_storable:
  "storable (saved_connection demo_oauth 0 ''linear'' (kept_tokens demo_connection ''r1'' demo_tokens)
     (refresh_context demo_connection))"
  by (simp add: storable_def saved_connection_def buildStoredOAuthConnection_def kept_tokens_def refresh_context_def
      demo_connection_def demo_tokens_def demo_oauth_def or_else_def mergeProviderMetadata_def)


lemma demo_answer:
  "o_refresh demo_oauth ''linear'' (s_calls demo_state) ''r1'' (pc_client_id demo_config) (pc_client_secret demo_config) =
     Inr demo_tokens"
  by (simp add: demo_oauth_def demo_state_def)


lemma refresh_undoes_disconnect_witness:
  "\<exists>s'' c''. refreshLocked demo_oauth 0 ''user'' ''linear'' demo_connection ''r1'' demo_config
      (demo_state\<lparr>s_secrets := disconnect ''user'' ''linear'' (s_secrets demo_state)\<rparr>) = (Inr (t_access_token demo_tokens), s'') \<and>
    isConnected ''user'' ''linear'' (s_secrets s'') \<and>
    readStoredConnection ''user'' ''linear'' (s_secrets s'') = Inr (Some c'') \<and> c_disabled_at c'' = None"
  by (rule refresh_undoes_disconnect [OF demo_answer demo_storable, where reason = "''admin''"]) simp

text \<open>
  Answers without a lifetime are not seen by those who wait: the second request sends the refresh
  token it had read before the lock, and the answer to that disables the connection it had just got.
\<close>

lemma stale_refresh_disables:
  "let w = demo_oauth\<lparr>o_refresh := (\<lambda>_ used r _ _. if (''linear'', r) \<in> set used then Inl ''invalid_grant''
         else Inr (demo_tokens\<lparr>t_refresh_token := Some ''r2'', t_expires_in := None\<rparr>))\<rparr>
   in case refreshLocked w 1000 ''user'' ''linear'' demo_connection ''r1'' demo_config demo_state of
        (first, s1) \<Rightarrow> (case refreshLocked w 2000 ''user'' ''linear'' demo_connection ''r1'' demo_config s1 of
          (second, s2) \<Rightarrow> first = Inr ''new'' \<and> second = Inl ''invalid_grant'' \<and>
            accessBegin w 3000 ''user'' ''linear''
              (s_secrets (refreshFailed w 2000 ''user'' ''linear'' ''invalid_grant'' s2)) =
              Inl (Disabled (Some ''refresh_failed'')))"
  by code_simp

end
