(* ===== verification/SandboxCalls.thy ===== *)
theory SandboxCalls
  imports Paths Json
begin

section \<open>E2B sandboxes: calls, errors and confined files\<close>

text \<open>
  The sandbox package: \<open>packages/sandbox/src/connect-errors.ts\<close>, \<open>runtime-facade.ts\<close>,
  \<open>scoped-files.ts\<close>, and \<open>apps/web/lib/sandbox/connect-sandbox.ts\<close>. The E2B service and the
  database are not part of the repository: they are an argument, the record \<open>e2b_service\<close>, whose
  answers may depend on everything asked before. An asynchronous function of the source is an
  \<open>act\<close>: it takes the calls made so far and returns what it throws or yields, with the calls it
  added. What a function does to the outside is therefore its list of calls.
\<close>

named_theorems act_defs \<open>the combinators of asynchronous functions and the single calls\<close>
named_theorems emits_rules \<open>which calls a composed function makes\<close>

subsection \<open>Thrown values\<close>

text \<open>An \<open>Error\<close> with its message and its other own properties, or any other value.\<close>

datatype thrown = ErrorObj string "(string \<times> json) list" | ThrownValue json | ThrownUndefined

fun is_thrown_object :: "thrown \<Rightarrow> bool" where
  "is_thrown_object (ErrorObj m ps) \<longleftrightarrow> True"
| "is_thrown_object (ThrownValue v) \<longleftrightarrow> (case v of JObj _ \<Rightarrow> True | JArr _ \<Rightarrow> True | _ \<Rightarrow> False)"
| "is_thrown_object ThrownUndefined \<longleftrightarrow> False"

text \<open>\<open>Reflect.get\<close>.\<close>

fun thrown_get :: "thrown \<Rightarrow> string \<Rightarrow> json option" where
  "thrown_get (ErrorObj m ps) k = (if k = ''message'' then Some (JStr m) else map_of ps k)"
| "thrown_get (ThrownValue v) k = getObjectProperty v k"
| "thrown_get ThrownUndefined k = None"

text \<open>
  \<open>Number.parseInt(s, 10)\<close>, \<open>None\<close> for \<open>NaN\<close>: white space, a sign, the longest run of digits. A value
  that rounds to infinity is not finite.
\<close>

definition digits_value :: "string \<Rightarrow> int" where
  "digits_value ds = fold (\<lambda>c n. 10 * n + (of_char c - 48)) ds 0"

definition parseInt10 :: "string \<Rightarrow> int option" where
  "parseInt10 s =
     (let t = trim_start s;
          neg = starts_with ''-'' t;
          ds = takeWhile is_digit_ascii (if neg \<or> starts_with ''+'' t then tl t else t)
      in if ds = [] then None else Some (if neg then - digits_value ds else digits_value ds))"

definition max_finite :: int where
  "max_finite = 2 ^ 1024 - 2 ^ 970"

definition parseStatusCode :: "json option \<Rightarrow> rat option" where
  "parseStatusCode v =
     (case v of
        Some (JNum n) \<Rightarrow> Some n
      | Some (JStr s) \<Rightarrow>
          if trim s = [] then None
          else (case parseInt10 s of
                  Some n \<Rightarrow> if \<bar>n\<bar> < max_finite then Some (of_int n) else None
                | None \<Rightarrow> None)
      | _ \<Rightarrow> None)"

definition getSandboxConnectErrorStatusCode :: "thrown \<Rightarrow> rat option" where
  "getSandboxConnectErrorStatusCode err =
     (if \<not> is_thrown_object err then None
      else case parseStatusCode (thrown_get err ''status'') of
             Some n \<Rightarrow> Some n
           | None \<Rightarrow>
               (case parseStatusCode (thrown_get err ''statusCode'') of
                  Some n \<Rightarrow> Some n
                | None \<Rightarrow>
                    (case thrown_get err ''response'' of
                       Some response \<Rightarrow> parseStatusCode (getObjectProperty response ''status'')
                     | None \<Rightarrow> None)))"

text \<open>How the runtime prints numbers and other values: \<open>String\<close> of a number, \<open>JSON.stringify\<close> or \<open>String\<close> of a value.\<close>

record js_texts =
  jt_number :: "rat \<Rightarrow> string"
  jt_value :: "thrown \<Rightarrow> string"

definition getSandboxConnectErrorMessage :: "js_texts \<Rightarrow> thrown \<Rightarrow> string" where
  "getSandboxConnectErrorMessage T err =
     (let own = (case thrown_get err ''message'' of Some (JStr m) \<Rightarrow> m | _ \<Rightarrow> []);
          is_error = (case err of ErrorObj _ _ \<Rightarrow> True | _ \<Rightarrow> False)
      in if is_error \<and> own \<noteq> [] then own
         else if is_thrown_object err \<and> trim own \<noteq> [] then own
         else case getSandboxConnectErrorStatusCode err of
                Some n \<Rightarrow> ''HTTP '' @ jt_number T n
              | None \<Rightarrow> jt_value T err)"

text \<open>\<open>/\bpattern\b/i.test(s)\<close> for a lower-case pattern of words: an occurrence with no word character next to it.\<close>

definition is_word_char :: "char \<Rightarrow> bool" where
  "is_word_char c \<longleftrightarrow> is_lower_ascii c \<or> is_upper_ascii c \<or> is_digit_ascii c \<or> c = CHR ''_''"

fun word_match :: "string \<Rightarrow> bool \<Rightarrow> string \<Rightarrow> bool" where
  "word_match pat inWord [] \<longleftrightarrow> False"
| "word_match pat inWord (c # cs) \<longleftrightarrow>
     \<not> inWord \<and> starts_with pat (to_lower (c # cs)) \<and>
       (case drop (length pat) (c # cs) of [] \<Rightarrow> True | d # _ \<Rightarrow> \<not> is_word_char d)
     \<or> word_match pat (is_word_char c) cs"

definition SANDBOX_GONE_MESSAGE_PATTERNS :: "string list" where
  "SANDBOX_GONE_MESSAGE_PATTERNS = [''not found'', ''does not exist'', ''no such sandbox'']"

definition isSandboxDefinitelyGone :: "js_texts \<Rightarrow> thrown \<Rightarrow> bool" where
  "isSandboxDefinitelyGone T err \<longleftrightarrow>
     getSandboxConnectErrorStatusCode err = Some 404 \<or>
     list_ex (\<lambda>pat. word_match pat False (getSandboxConnectErrorMessage T err)) SANDBOX_GONE_MESSAGE_PATTERNS"

subsection \<open>Calls and the functions that make them\<close>

datatype sandbox_status = SbCreating | SbRunning | SbPaused | SbDead

fun status_name :: "sandbox_status \<Rightarrow> string" where
  "status_name SbCreating = ''creating''"
| "status_name SbRunning = ''running''"
| "status_name SbPaused = ''paused''"
| "status_name SbDead = ''dead''"

text \<open>
  One constructor per function of the E2B SDK and of \<open>SandboxPersistence\<close> the package calls. The
  first argument is the sandbox id, or the domain id for the calls to the database.
\<close>

datatype sb_call =
    Connect string
  | CreateSandbox string "(string \<times> string) list"
  | PauseSandbox string
  | KillSandbox string
  | ListDir string string
  | ReadPath string string
  | MakeDir string string
  | WriteFiles string "(string \<times> string) list"
  | RemovePath string string
  | RunCommand string string string
  | StartCommand string string string "(string \<times> string) list"
  | UpdateSandbox string string sandbox_status
  | UpdatePort string nat
  | MarkDead string string

text \<open>The calls so far, oldest first, each with whether it succeeded.\<close>

type_synonym history = "(sb_call \<times> bool) list"

type_synonym 'a act = "history \<Rightarrow> (thrown + 'a) \<times> history"

record run_result =
  rr_stdout :: string
  rr_stderr :: string
  rr_exitCode :: int

record e2b_service =
  ev_connect :: "history \<Rightarrow> string \<Rightarrow> thrown + unit"
  ev_create :: "history \<Rightarrow> string \<Rightarrow> (string \<times> string) list \<Rightarrow> thrown + string"
  ev_pause :: "history \<Rightarrow> string \<Rightarrow> thrown + bool"
  ev_kill :: "history \<Rightarrow> string \<Rightarrow> thrown + unit"
  ev_list :: "history \<Rightarrow> string \<Rightarrow> string \<Rightarrow> thrown + (string \<times> bool) list"
  ev_read :: "history \<Rightarrow> string \<Rightarrow> string \<Rightarrow> thrown + string"
  ev_makeDir :: "history \<Rightarrow> string \<Rightarrow> string \<Rightarrow> thrown + unit"
  ev_write :: "history \<Rightarrow> string \<Rightarrow> (string \<times> string) list \<Rightarrow> thrown + unit"
  ev_remove :: "history \<Rightarrow> string \<Rightarrow> string \<Rightarrow> thrown + unit"
  ev_run :: "history \<Rightarrow> string \<Rightarrow> string \<Rightarrow> string \<Rightarrow> thrown + run_result"
  ev_start :: "history \<Rightarrow> string \<Rightarrow> string \<Rightarrow> string \<Rightarrow> (string \<times> string) list \<Rightarrow> thrown + int"
  ev_updateSandbox :: "history \<Rightarrow> string \<Rightarrow> string \<Rightarrow> sandbox_status \<Rightarrow> thrown + unit"
  ev_updatePort :: "(history \<Rightarrow> string \<Rightarrow> nat \<Rightarrow> thrown + unit) option"
  ev_markDead :: "history \<Rightarrow> string \<Rightarrow> string \<Rightarrow> thrown + unit"

definition return_act :: "'a \<Rightarrow> 'a act" where
  [act_defs]: "return_act x h = (Inr x, h)"

definition throw_act :: "thrown \<Rightarrow> 'a act" where
  [act_defs]: "throw_act e h = (Inl e, h)"

definition call_act :: "sb_call \<Rightarrow> (history \<Rightarrow> thrown + 'a) \<Rightarrow> 'a act" where
  [act_defs]: "call_act c f h = (f h, h @ [(c, case f h of Inl _ \<Rightarrow> False | Inr _ \<Rightarrow> True)])"

definition then_act :: "'a act \<Rightarrow> ('a \<Rightarrow> 'b act) \<Rightarrow> 'b act" where
  [act_defs]: "then_act m k h = (case m h of (Inl e, h1) \<Rightarrow> (Inl e, h1) | (Inr x, h1) \<Rightarrow> k x h1)"

text \<open>\<open>try { ... } catch (e) { ... }\<close>.\<close>

definition catch_act :: "'a act \<Rightarrow> (thrown \<Rightarrow> 'a act) \<Rightarrow> 'a act" where
  [act_defs]: "catch_act m k h = (case m h of (Inl e, h1) \<Rightarrow> k e h1 | (Inr x, h1) \<Rightarrow> (Inr x, h1))"

text \<open>\<open>try { x = m } catch (e) { return bad(e) }\<close> followed by the rest of the function.\<close>

definition attempt_act :: "'a act \<Rightarrow> ('a \<Rightarrow> 'b act) \<Rightarrow> (thrown \<Rightarrow> 'b act) \<Rightarrow> 'b act" where
  [act_defs]: "attempt_act m good bad h = (case m h of (Inl e, h1) \<Rightarrow> bad e h1 | (Inr x, h1) \<Rightarrow> good x h1)"

definition connect_call :: "e2b_service \<Rightarrow> string \<Rightarrow> unit act" where
  [act_defs]: "connect_call S sid = call_act (Connect sid) (\<lambda>h. ev_connect S h sid)"

definition create_call :: "e2b_service \<Rightarrow> string \<Rightarrow> (string \<times> string) list \<Rightarrow> string act" where
  [act_defs]: "create_call S template metadata = call_act (CreateSandbox template metadata) (\<lambda>h. ev_create S h template metadata)"

definition pause_call :: "e2b_service \<Rightarrow> string \<Rightarrow> bool act" where
  [act_defs]: "pause_call S sid = call_act (PauseSandbox sid) (\<lambda>h. ev_pause S h sid)"

definition kill_call :: "e2b_service \<Rightarrow> string \<Rightarrow> unit act" where
  [act_defs]: "kill_call S sid = call_act (KillSandbox sid) (\<lambda>h. ev_kill S h sid)"

definition list_call :: "e2b_service \<Rightarrow> string \<Rightarrow> string \<Rightarrow> (string \<times> bool) list act" where
  [act_defs]: "list_call S sid p = call_act (ListDir sid p) (\<lambda>h. ev_list S h sid p)"

definition read_call :: "e2b_service \<Rightarrow> string \<Rightarrow> string \<Rightarrow> string act" where
  [act_defs]: "read_call S sid p = call_act (ReadPath sid p) (\<lambda>h. ev_read S h sid p)"

definition makeDir_call :: "e2b_service \<Rightarrow> string \<Rightarrow> string \<Rightarrow> unit act" where
  [act_defs]: "makeDir_call S sid p = call_act (MakeDir sid p) (\<lambda>h. ev_makeDir S h sid p)"

definition write_call :: "e2b_service \<Rightarrow> string \<Rightarrow> (string \<times> string) list \<Rightarrow> unit act" where
  [act_defs]: "write_call S sid fs = call_act (WriteFiles sid fs) (\<lambda>h. ev_write S h sid fs)"

definition remove_call :: "e2b_service \<Rightarrow> string \<Rightarrow> string \<Rightarrow> unit act" where
  [act_defs]: "remove_call S sid p = call_act (RemovePath sid p) (\<lambda>h. ev_remove S h sid p)"

definition run_call :: "e2b_service \<Rightarrow> string \<Rightarrow> string \<Rightarrow> string \<Rightarrow> run_result act" where
  [act_defs]: "run_call S sid cmd dir = call_act (RunCommand sid cmd dir) (\<lambda>h. ev_run S h sid cmd dir)"

definition start_call :: "e2b_service \<Rightarrow> string \<Rightarrow> string \<Rightarrow> string \<Rightarrow> (string \<times> string) list \<Rightarrow> int act" where
  [act_defs]: "start_call S sid cmd dir envs = call_act (StartCommand sid cmd dir envs) (\<lambda>h. ev_start S h sid cmd dir envs)"

definition updateSandbox_call :: "e2b_service \<Rightarrow> string \<Rightarrow> string \<Rightarrow> sandbox_status \<Rightarrow> unit act" where
  [act_defs]: "updateSandbox_call S d sid st = call_act (UpdateSandbox d sid st) (\<lambda>h. ev_updateSandbox S h d sid st)"

definition markDead_call :: "e2b_service \<Rightarrow> string \<Rightarrow> string \<Rightarrow> unit act" where
  [act_defs]: "markDead_call S d sid = call_act (MarkDead d sid) (\<lambda>h. ev_markDead S h d sid)"

text \<open>\<open>m\<close> makes only calls with the property \<open>P\<close>, and forgets none of the earlier ones.\<close>

definition emits :: "(sb_call \<Rightarrow> bool) \<Rightarrow> 'a act \<Rightarrow> bool" where
  "emits P m \<longleftrightarrow> (\<forall>h. \<exists>cs. snd (m h) = h @ cs \<and> (\<forall>c\<in>set cs. P (fst c)))"

lemma emits_return [emits_rules]: "emits P (return_act x)"
  by (simp add: emits_def return_act_def)

lemma emits_throw [emits_rules]: "emits P (throw_act e)"
  by (simp add: emits_def throw_act_def)

lemma emits_call: "P c \<Longrightarrow> emits P (call_act c f)"
  by (simp add: emits_def call_act_def)

lemma emits_attempt [emits_rules]:
  assumes m: "emits P m" and good: "\<And>x. emits P (good x)" and bad: "\<And>e. emits P (bad e)"
  shows "emits P (attempt_act m good bad)"
  unfolding emits_def
proof
  fix h
  obtain r h1 where mh: "m h = (r, h1)" by (cases "m h")
  obtain cs where cs: "h1 = h @ cs" "\<forall>c\<in>set cs. P (fst c)"
    using m mh by (metis emits_def snd_conv)
  obtain k where k: "attempt_act m good bad h = k h1" "emits P k"
    using good bad mh by (cases r) (auto simp: attempt_act_def)
  obtain ds where "snd (k h1) = h1 @ ds" "\<forall>c\<in>set ds. P (fst c)"
    using k(2) by (metis emits_def)
  then show "\<exists>cs. snd (attempt_act m good bad h) = h @ cs \<and> (\<forall>c\<in>set cs. P (fst c))"
    using cs k(1) by (intro exI [of _ "cs @ ds"]) auto
qed

lemma then_act_attempt: "then_act m k = attempt_act m k throw_act"
  by (simp add: act_defs fun_eq_iff split: prod.splits sum.splits)

lemma catch_act_attempt: "catch_act m k = attempt_act m return_act k"
  by (simp add: act_defs fun_eq_iff split: prod.splits sum.splits)

lemma emits_then [emits_rules]: "emits P m \<Longrightarrow> (\<And>x. emits P (k x)) \<Longrightarrow> emits P (then_act m k)"
  unfolding then_act_attempt by (intro emits_rules)

lemma emits_catch [emits_rules]: "emits P m \<Longrightarrow> (\<And>e. emits P (k e)) \<Longrightarrow> emits P (catch_act m k)"
  unfolding catch_act_attempt by (intro emits_rules)

lemma emits_if [emits_rules]: "(b \<Longrightarrow> emits P m) \<Longrightarrow> (\<not> b \<Longrightarrow> emits P n) \<Longrightarrow> emits P (if b then m else n)"
  by simp

lemma emits_calls [emits_rules]:
  "P (Connect sid) \<Longrightarrow> emits P (connect_call S sid)"
  "P (CreateSandbox t md) \<Longrightarrow> emits P (create_call S t md)"
  "P (PauseSandbox sid) \<Longrightarrow> emits P (pause_call S sid)"
  "P (KillSandbox sid) \<Longrightarrow> emits P (kill_call S sid)"
  "P (ListDir sid p) \<Longrightarrow> emits P (list_call S sid p)"
  "P (ReadPath sid p) \<Longrightarrow> emits P (read_call S sid p)"
  "P (MakeDir sid p) \<Longrightarrow> emits P (makeDir_call S sid p)"
  "P (WriteFiles sid fs) \<Longrightarrow> emits P (write_call S sid fs)"
  "P (RemovePath sid p) \<Longrightarrow> emits P (remove_call S sid p)"
  "P (RunCommand sid cmd dir) \<Longrightarrow> emits P (run_call S sid cmd dir)"
  "P (StartCommand sid cmd dir envs) \<Longrightarrow> emits P (start_call S sid cmd dir envs)"
  "P (UpdateSandbox d sid st) \<Longrightarrow> emits P (updateSandbox_call S d sid st)"
  "P (MarkDead d sid) \<Longrightarrow> emits P (markDead_call S d sid)"
  by (simp_all add: act_defs [abs_def] emits_def)

subsection \<open>A service that always answers\<close>

text \<open>Used by the examples: every call succeeds, files and listings are empty, nothing listens.\<close>

definition quiet_service :: e2b_service where
  "quiet_service = \<lparr>ev_connect = \<lambda>h sid. Inr (), ev_create = \<lambda>h t md. Inr ''sb_new'', ev_pause = \<lambda>h sid. Inr True,
     ev_kill = \<lambda>h sid. Inr (), ev_list = \<lambda>h sid p. Inr [], ev_read = \<lambda>h sid p. Inr [],
     ev_makeDir = \<lambda>h sid p. Inr (), ev_write = \<lambda>h sid fs. Inr (), ev_remove = \<lambda>h sid p. Inr (),
     ev_run = \<lambda>h sid cmd dir. Inr \<lparr>rr_stdout = [], rr_stderr = [], rr_exitCode = 0\<rparr>,
     ev_start = \<lambda>h sid cmd dir envs. Inr 1, ev_updateSandbox = \<lambda>h d sid st. Inr (),
     ev_updatePort = None, ev_markDead = \<lambda>h d sid. Inr ()\<rparr>"

end
