(* ===== verification/SandboxFiles.thy ===== *)
theory SandboxFiles
  imports SandboxCalls SandboxedFs
begin

section \<open>Files of a sandbox, confined to its workspace root\<close>

text \<open>
  \<open>resolveSandboxWorkspacePath\<close>, the gate of every file operation on a sandbox, with its two
  clients: the facade that connects for each operation (\<open>runtime-facade.ts\<close>,
  \<open>connect-sandbox.ts\<close>) and the file system of a session (\<open>scoped-files.ts\<close>), and the commands
  of a session (\<open>session.ts\<close>).
\<close>

definition SANDBOX_WORKSPACE_ROOT :: string where
  "SANDBOX_WORKSPACE_ROOT = ''/home/user/project''"

record sandbox_domain =
  sd_domain_id :: string
  sd_hostname :: string
  sd_port :: nat
  sd_sandbox_id :: "string option"
  sd_sandbox_status :: "sandbox_status option"
  sd_is_test_env :: "bool option"
  sd_test_run_id :: "string option"

definition RuntimeNotReadyError :: "string \<Rightarrow> sandbox_status option \<Rightarrow> thrown" where
  "RuntimeNotReadyError hostname status =
     ErrorObj (''Sandbox for '' @ hostname @ '' is not ready (status: '' @
               (case status of None \<Rightarrow> ''none'' | Some s \<Rightarrow> status_name s) @ '').'')
       [(''name'', JStr ''RuntimeNotReadyError''), (''code'', JStr ''RUNTIME_NOT_READY''),
        (''status'', case status of None \<Rightarrow> JNull | Some s \<Rightarrow> JStr (status_name s))]"

definition RuntimePathValidationError :: "string \<Rightarrow> thrown" where
  "RuntimePathValidationError relativePath =
     ErrorObj (''Sandbox path must stay within '' @ SANDBOX_WORKSPACE_ROOT @ '': '' @ relativePath)
       [(''name'', JStr ''RuntimePathValidationError''), (''code'', JStr ''RUNTIME_PATH_OUTSIDE_WORKSPACE''),
        (''relativePath'', JStr relativePath)]"

subsection \<open>The gate\<close>

definition isOutsideWorkspace :: "string \<Rightarrow> bool" where
  "isOutsideWorkspace p \<longleftrightarrow> p = ''..'' \<or> starts_with ''../'' p"

definition normalizeListedPath :: "string \<Rightarrow> string \<Rightarrow> string" where
  "normalizeListedPath relativePath entryName =
     (let normalized = path_normalize relativePath
      in if normalized = ''.'' \<or> normalized = [] then entryName else path_join [normalized, entryName])"

definition resolveSandboxWorkspacePath :: "string \<Rightarrow> bool \<Rightarrow> thrown + string" where
  "resolveSandboxWorkspacePath relativePath allowWorkspaceRoot =
     (if CHR 0x00 \<in> set relativePath then Inl (RuntimePathValidationError relativePath)
      else let normalized = path_normalize relativePath
           in if is_absolute normalized \<or> isOutsideWorkspace normalized
              then Inl (RuntimePathValidationError relativePath)
              else let sandboxPath = (if normalized = ''.'' \<or> normalized = [] then SANDBOX_WORKSPACE_ROOT
                                      else path_join [SANDBOX_WORKSPACE_ROOT, normalized])
                   in if \<not> allowWorkspaceRoot \<and> sandboxPath = SANDBOX_WORKSPACE_ROOT
                      then Inl (RuntimePathValidationError relativePath)
                      else if \<not> isPathWithinWorkspace sandboxPath SANDBOX_WORKSPACE_ROOT
                      then Inl (RuntimePathValidationError relativePath)
                      else Inr sandboxPath)"

text \<open>The gate as a step of an asynchronous function.\<close>

definition resolve_act :: "string \<Rightarrow> bool \<Rightarrow> string act" where
  "resolve_act relativePath allowWorkspaceRoot =
     (case resolveSandboxWorkspacePath relativePath allowWorkspaceRoot of
        Inl e \<Rightarrow> throw_act e
      | Inr p \<Rightarrow> return_act p)"

subsection \<open>The file system of a session\<close>

datatype entry_kind = FileEntry | DirectoryEntry | UnknownEntry

text \<open>A listed entry: its name, its kind, its path relative to the workspace root.\<close>

type_synonym file_entry = "string \<times> entry_kind \<times> string"

definition listed :: "string \<Rightarrow> (string \<times> bool) list \<Rightarrow> file_entry list" where
  "listed relativePath entries =
     map (\<lambda>(name, dir). (name, if dir then DirectoryEntry else FileEntry, normalizeListedPath relativePath name)) entries"

text \<open>\<open>error instanceof Error\<close> and its message contains \<open>exists\<close>.\<close>

fun already_exists :: "thrown \<Rightarrow> bool" where
  "already_exists (ErrorObj m ps) = str_includes ''exists'' m"
| "already_exists _ = False"

definition make_directory :: "e2b_service \<Rightarrow> string \<Rightarrow> string \<Rightarrow> unit act" where
  "make_directory S sid sandboxPath =
     catch_act (makeDir_call S sid sandboxPath) (\<lambda>e. if already_exists e then return_act () else throw_act e)"

definition detectEntryKind :: "e2b_service \<Rightarrow> string \<Rightarrow> string \<Rightarrow> entry_kind act" where
  "detectEntryKind S sid sandboxPath =
     catch_act
       (then_act (list_call S sid (path_dirname sandboxPath)) (\<lambda>entries.
          return_act (case find (\<lambda>e. fst e = path_basename sandboxPath) entries of
                        None \<Rightarrow> UnknownEntry
                      | Some (name, dir) \<Rightarrow> if dir then DirectoryEntry else FileEntry)))
       (\<lambda>e. return_act UnknownEntry)"

definition scoped_read :: "e2b_service \<Rightarrow> string \<Rightarrow> string \<Rightarrow> string act" where
  "scoped_read S sid p = then_act (resolve_act p False) (\<lambda>q. read_call S sid q)"

definition scoped_write :: "e2b_service \<Rightarrow> string \<Rightarrow> string \<Rightarrow> string \<Rightarrow> unit act" where
  "scoped_write S sid p content = then_act (resolve_act p False) (\<lambda>q. write_call S sid [(q, content)])"

definition scoped_list :: "e2b_service \<Rightarrow> string \<Rightarrow> string \<Rightarrow> file_entry list act" where
  "scoped_list S sid p =
     then_act (resolve_act p True) (\<lambda>q. then_act (list_call S sid q) (\<lambda>entries. return_act (listed p entries)))"

definition scoped_makeDir :: "e2b_service \<Rightarrow> string \<Rightarrow> string \<Rightarrow> unit act" where
  "scoped_makeDir S sid p = then_act (resolve_act p False) (\<lambda>q. make_directory S sid q)"

definition scoped_remove :: "e2b_service \<Rightarrow> string \<Rightarrow> string \<Rightarrow> unit act" where
  "scoped_remove S sid p = then_act (resolve_act p False) (\<lambda>q. remove_call S sid q)"

definition scoped_getEntryKind :: "e2b_service \<Rightarrow> string \<Rightarrow> string \<Rightarrow> entry_kind act" where
  "scoped_getEntryKind S sid p = then_act (resolve_act p False) (\<lambda>q. detectEntryKind S sid q)"

subsection \<open>Commands of a session\<close>

definition session_run :: "e2b_service \<Rightarrow> string \<Rightarrow> string \<Rightarrow> string option \<Rightarrow> bool \<Rightarrow> run_result act" where
  "session_run S sid cmd cwdOption background =
     (let cwd = (case cwdOption of None \<Rightarrow> SANDBOX_WORKSPACE_ROOT | Some d \<Rightarrow> d)
      in if background
         then then_act (start_call S sid cmd cwd [])
                (\<lambda>pid. return_act \<lparr>rr_stdout = [], rr_stderr = [], rr_exitCode = 0\<rparr>)
         else run_call S sid cmd cwd)"

subsection \<open>Connecting for one operation\<close>

definition connectRunningSandbox :: "js_texts \<Rightarrow> e2b_service \<Rightarrow> sandbox_domain \<Rightarrow> string act" where
  "connectRunningSandbox T S d =
     (case sd_sandbox_id d of
        None \<Rightarrow> throw_act (RuntimeNotReadyError (sd_hostname d) (sd_sandbox_status d))
      | Some sid \<Rightarrow>
          if sid = [] \<or> sd_sandbox_status d \<notin> {Some SbRunning, Some SbPaused}
          then throw_act (RuntimeNotReadyError (sd_hostname d) (sd_sandbox_status d))
          else catch_act (then_act (connect_call S sid) (\<lambda>_. return_act sid))
                 (\<lambda>err. if isSandboxDefinitelyGone T err
                        then then_act (catch_act (markDead_call S (sd_domain_id d) sid) (\<lambda>_. return_act ()))
                               (\<lambda>_. throw_act (RuntimeNotReadyError (sd_hostname d) (Some SbDead)))
                        else throw_act (RuntimeNotReadyError (sd_hostname d) (sd_sandbox_status d))))"

definition runtime_ensureDirectory :: "js_texts \<Rightarrow> e2b_service \<Rightarrow> sandbox_domain \<Rightarrow> string \<Rightarrow> unit act" where
  "runtime_ensureDirectory T S d p =
     then_act (connectRunningSandbox T S d) (\<lambda>sid. then_act (resolve_act p False) (\<lambda>q. make_directory S sid q))"

definition runtime_getEntryKind :: "js_texts \<Rightarrow> e2b_service \<Rightarrow> sandbox_domain \<Rightarrow> string \<Rightarrow> entry_kind act" where
  "runtime_getEntryKind T S d p =
     then_act (connectRunningSandbox T S d) (\<lambda>sid. then_act (resolve_act p False) (\<lambda>q. detectEntryKind S sid q))"

definition runtime_writeFile :: "js_texts \<Rightarrow> e2b_service \<Rightarrow> sandbox_domain \<Rightarrow> string \<Rightarrow> string \<Rightarrow> unit act" where
  "runtime_writeFile T S d p content =
     then_act (connectRunningSandbox T S d)
       (\<lambda>sid. then_act (resolve_act p False) (\<lambda>q. write_call S sid [(q, content)]))"

definition runtime_readTextFile :: "js_texts \<Rightarrow> e2b_service \<Rightarrow> sandbox_domain \<Rightarrow> string \<Rightarrow> string act" where
  "runtime_readTextFile T S d p =
     then_act (connectRunningSandbox T S d) (\<lambda>sid. then_act (resolve_act p False) (\<lambda>q. read_call S sid q))"

definition runtime_listDirectory :: "js_texts \<Rightarrow> e2b_service \<Rightarrow> sandbox_domain \<Rightarrow> string \<Rightarrow> file_entry list act" where
  "runtime_listDirectory T S d p =
     then_act (connectRunningSandbox T S d)
       (\<lambda>sid. then_act (resolve_act p True)
          (\<lambda>q. then_act (list_call S sid q) (\<lambda>entries. return_act (listed p entries))))"

definition runtime_deletePath :: "js_texts \<Rightarrow> e2b_service \<Rightarrow> sandbox_domain \<Rightarrow> string \<Rightarrow> entry_kind act" where
  "runtime_deletePath T S d p =
     then_act (connectRunningSandbox T S d)
       (\<lambda>sid. then_act (resolve_act p False)
          (\<lambda>q. then_act (detectEntryKind S sid q)
             (\<lambda>kind. then_act (remove_call S sid q) (\<lambda>_. return_act kind))))"

text \<open>
  \<open>connectSandbox\<close> of the web application, which does not resume a paused sandbox. The environment
  variable \<open>E2B_DOMAIN\<close> is an argument.
\<close>

definition SandboxNotReadyError :: "string \<Rightarrow> sandbox_status option \<Rightarrow> thrown" where
  "SandboxNotReadyError hostname status =
     ErrorObj (''Sandbox for '' @ hostname @ '' is not ready (status: '' @
               (case status of None \<Rightarrow> ''none'' | Some s \<Rightarrow> status_name s) @ ''). Send a message first to initialize.'')
       [(''code'', JStr ''SANDBOX_NOT_READY'')]"

definition connectSandbox :: "string \<Rightarrow> js_texts \<Rightarrow> e2b_service \<Rightarrow> sandbox_domain \<Rightarrow> string act" where
  "connectSandbox e2bDomain T S d =
     (case sd_sandbox_id d of
        None \<Rightarrow> throw_act (SandboxNotReadyError (sd_hostname d) (sd_sandbox_status d))
      | Some sid \<Rightarrow>
          if sid = [] \<or> sd_sandbox_status d \<noteq> Some SbRunning
          then throw_act (SandboxNotReadyError (sd_hostname d) (sd_sandbox_status d))
          else if e2bDomain = [] then throw_act (ErrorObj ''E2B_DOMAIN environment variable is required'' [])
          else catch_act (then_act (connect_call S sid) (\<lambda>_. return_act sid))
                 (\<lambda>err. if isSandboxDefinitelyGone T err
                        then then_act (catch_act (markDead_call S (sd_domain_id d) sid) (\<lambda>_. return_act ()))
                               (\<lambda>_. throw_act (SandboxNotReadyError (sd_hostname d) (Some SbDead)))
                        else throw_act (SandboxNotReadyError (sd_hostname d) (sd_sandbox_status d))))"

subsection \<open>What the gate accepts\<close>

text \<open>The segments of a relative path, normalised: parent references remain only at the front.\<close>

definition rel_segs :: "string \<Rightarrow> string list" where
  "rel_segs p = norm_segs True [] (split_on slash p)"

definition root_segs :: "string list" where
  "root_segs = [''home'', ''user'', ''project'']"

lemma norm_segs_parents:
  assumes "\<forall>w\<in>set ws. slash \<notin> set w" and "\<forall>w\<in>set acc. clean_seg w"
  shows "\<exists>k xs. norm_segs True (acc @ replicate n dotdot) ws = replicate k dotdot @ xs \<and> (\<forall>w\<in>set xs. clean_seg w)"
  using assms
proof (induction ws arbitrary: acc n)
  case Nil
  then show ?case by (intro exI [of _ n] exI [of _ "rev acc"]) simp
next
  case (Cons w ws)
  then have ws: "\<forall>w\<in>set ws. slash \<notin> set w" by simp
  note IH = Cons.IH [OF ws]
  consider "w = [] \<or> w = ''.''" | "w = dotdot" "acc = []" | v vs where "w = dotdot" "acc = v # vs"
    | "w \<noteq> []" "w \<noteq> ''.''" "w \<noteq> dotdot"
    by (cases acc) blast+
  then show ?case
  proof cases
    case 1
    then show ?thesis using IH [OF Cons.prems(2)] by simp
  next
    case 2
    then have "norm_segs True (acc @ replicate n dotdot) (w # ws) = norm_segs True (replicate (Suc n) dotdot) ws"
      by (cases n) simp_all
    then show ?thesis using IH [of "[]" "Suc n"] by simp
  next
    case 3
    then have "v \<noteq> dotdot" using Cons.prems(2) by (simp add: clean_seg_def)
    then show ?thesis using 3 IH [of vs n] Cons.prems(2) by simp
  next
    case 4
    then have "clean_seg w" using Cons.prems(1) by (simp add: clean_seg_def)
    then show ?thesis using 4 IH [of "w # acc" n] Cons.prems(2) by simp
  qed
qed

lemma rel_segs_shape: "\<exists>k xs. rel_segs p = replicate k dotdot @ xs \<and> (\<forall>w\<in>set xs. clean_seg w)"
  using norm_segs_parents [of "split_on slash p" "[]" 0] by (auto simp: rel_segs_def dest: split_on_pieces)

lemma rel_segs_clean:
  assumes "dotdot \<notin> set (rel_segs p)"
  shows "\<forall>w\<in>set (rel_segs p). clean_seg w"
proof -
  obtain k xs where "rel_segs p = replicate k dotdot @ xs" "\<forall>w\<in>set xs. clean_seg w"
    using rel_segs_shape by blast
  moreover from this assms have "k = 0" by (cases k) simp_all
  ultimately show ?thesis by simp
qed

lemma rel_segs_dotdot: "dotdot \<in> set (rel_segs p) \<longleftrightarrow> (\<exists>ys. rel_segs p = dotdot # ys)"
proof -
  obtain k xs where shape: "rel_segs p = replicate k dotdot @ xs" and xs: "\<forall>w\<in>set xs. clean_seg w"
    using rel_segs_shape by blast
  have no: "dotdot \<notin> set xs" using xs by (auto simp: clean_seg_def)
  show ?thesis
  proof (cases k)
    case 0
    then show ?thesis using shape no by (cases xs) auto
  next
    case (Suc j)
    then show ?thesis using shape by simp
  qed
qed

lemma normalize_relative:
  assumes "\<not> is_absolute p"
  shows "path_normalize p =
    (if rel_segs p = [] then if p \<noteq> [] \<and> ends_with ''/'' p then ''./'' else ''.''
     else join_with ''/'' (rel_segs p) @ (if ends_with ''/'' p then ''/'' else []))"
proof (cases "p = []")
  case True
  then show ?thesis by (simp add: path_normalize_def rel_segs_def)
next
  case False
  obtain k xs where shape: "rel_segs p = replicate k dotdot @ xs" "\<forall>w\<in>set xs. clean_seg w"
    using rel_segs_shape by blast
  have "join_with ''/'' ys \<noteq> []" if "ys \<noteq> []" "[] \<notin> set ys" for ys :: "string list"
    using that by (induction ys rule: induct_list012) auto
  moreover have "[] \<notin> set (rel_segs p)" using shape by (auto simp: clean_seg_def)
  ultimately have "rel_segs p \<noteq> [] \<Longrightarrow> join_with ''/'' (rel_segs p) \<noteq> []" by blast
  then show ?thesis using False assms by (simp add: path_normalize_def Let_def rel_segs_def)
qed

lemma split_root: "split_on slash SANDBOX_WORKSPACE_ROOT = [] # root_segs"
  by (simp add: SANDBOX_WORKSPACE_ROOT_def root_segs_def)

lemma root_segs_clean: "\<forall>w\<in>set root_segs. clean_seg w"
  by (simp add: root_segs_def clean_seg_def)

lemma ends_with_slash_app [simp]: "ends_with ''/'' (s @ ''/'')"
  by (simp add: ends_with_slash)

lemma join_with_starts: "ys \<noteq> [] \<Longrightarrow> join_with ''/'' (y # ys) = y @ ''/'' @ join_with ''/'' ys"
  by (cases ys) simp_all

lemma isOutside_iff:
  assumes "\<not> is_absolute p"
  shows "isOutsideWorkspace (path_normalize p) \<longleftrightarrow> dotdot \<in> set (rel_segs p)"
proof (cases "dotdot \<in> set (rel_segs p)")
  case True
  then obtain ys where "rel_segs p = dotdot # ys" using rel_segs_dotdot by blast
  then have "path_normalize p = dotdot \<or> (\<exists>t. path_normalize p = dotdot @ ''/'' @ t)"
    using join_with_starts [of ys dotdot]
    by (cases ys) (auto simp: normalize_relative [OF assms])
  then show ?thesis using True by (auto simp: isOutsideWorkspace_def starts_with_def)
next
  case False
  have clean: "\<forall>w\<in>set (rel_segs p). clean_seg w" by (rule rel_segs_clean [OF False])
  show ?thesis
  proof (cases "rel_segs p")
    case Nil
    then show ?thesis using False
      by (simp add: normalize_relative [OF assms] isOutsideWorkspace_def starts_with_def)
  next
    case (Cons y ys)
    have y: "y \<noteq> dotdot" "slash \<notin> set y" using clean Cons by (simp_all add: clean_seg_def)
    obtain t where "path_normalize p = y @ t \<and> (t = [] \<or> hd t = slash)"
      using Cons join_with_starts [of ys y] by (cases ys) (auto simp: normalize_relative [OF assms])
    moreover have "y = dotdot" if pre: "y @ t = dotdot \<or> starts_with ''../'' (y @ t)" "t = [] \<or> hd t = slash" for t
    proof -
      consider "y @ t = dotdot" | u where "y @ t = dotdot @ slash # u"
        using pre(1) by (auto simp: starts_with_iff)
      then show ?thesis
      proof cases
        case 1
        then show ?thesis using pre(2) by (cases t) (auto simp: append_eq_Cons_conv)
      next
        case 2
        show ?thesis
        proof (cases t)
          case Nil
          then show ?thesis using 2 y(2) by auto
        next
          case (Cons c t')
          then have "y @ slash # t' = dotdot @ slash # u" using pre(2) 2 by simp
          then show ?thesis using sep_split [OF _ y(2), of t' dotdot u] by simp
        qed
      qed
    qed
    ultimately show ?thesis using False y(1) by (auto simp: isOutsideWorkspace_def)
  qed
qed

lemma normalize_absolute:
  assumes "is_absolute p"
  shows "is_absolute (path_normalize p)"
  using resolve_normalized [OF assms] by blast

lemma normalize_relative_relative:
  assumes "\<not> is_absolute p" and "dotdot \<notin> set (rel_segs p)"
  shows "\<not> is_absolute (path_normalize p)"
proof -
  have "\<forall>w\<in>set (rel_segs p). clean_seg w" by (rule rel_segs_clean [OF assms(2)])
  moreover have "starts_with ''/'' s \<longleftrightarrow> (\<exists>t. s = slash # t)" for s by (auto simp: starts_with_iff)
  ultimately show ?thesis
    using join_with_starts [of "tl (rel_segs p)" "hd (rel_segs p)"]
    by (cases "rel_segs p"; cases "tl (rel_segs p)"; cases "hd (rel_segs p)")
      (auto simp: normalize_relative [OF assms(1)] is_absolute_def clean_seg_def)
qed

lemma join_at_root:
  assumes "\<forall>w\<in>set ys. clean_seg w"
  shows "path_join [SANDBOX_WORKSPACE_ROOT, (if ys = [] then ''.'' else join_with ''/'' ys) @ (if b then ''/'' else [])]
    = render_path (root_segs @ ys) @ (if b then ''/'' else [])"
proof -
  define n where "n = (if ys = [] then ''.'' else join_with ''/'' ys)"
  have slashes: "\<forall>w\<in>set ys. slash \<notin> set w" using assms by (auto simp: clean_seg_def)
  have n: "n \<noteq> []" "last n \<noteq> slash"
    using join_with_last [of ys] assms by (auto simp: n_def)
  have "norm_segs False acc (split_on slash n) = rev acc @ ys" for acc
    using split_on_join [of ys] slashes norm_segs_clean_id [OF assms]
    by (cases "ys = []") (simp_all add: n_def)
  moreover have "split_on slash (n @ ''/'') = split_on slash n @ [[]]"
    using split_on_append [of slash n "[]"] by simp
  ultimately have "norm_segs False (rev root_segs) (split_on slash (n @ (if b then ''/'' else []))) = root_segs @ ys"
    by (simp add: norm_segs_empty_end)
  moreover have "split_on slash (SANDBOX_WORKSPACE_ROOT @ ''/'' @ m) = [] # root_segs @ split_on slash m" for m
    using split_on_append [of slash SANDBOX_WORKSPACE_ROOT m] by (simp add: split_root)
  moreover have "norm_segs False [] ([] # root_segs @ ws) = norm_segs False (rev root_segs) ws" for ws
    using norm_segs_append [of "[]" root_segs ws] norm_segs_clean_id [OF root_segs_clean, of "[]"] by simp
  ultimately have segs: "norm_segs False [] (split_on slash (SANDBOX_WORKSPACE_ROOT @ ''/'' @ n @ (if b then ''/'' else []))) = root_segs @ ys"
    by metis
  have "join_with ''/'' (root_segs @ ys) \<noteq> []"
    using join_with_last [of "root_segs @ ys"] root_segs_clean assms by (auto simp: root_segs_def)
  moreover have "is_absolute (SANDBOX_WORKSPACE_ROOT @ m)" for m
    by (simp add: is_absolute_def starts_with_def SANDBOX_WORKSPACE_ROOT_def)
  moreover have "ends_with ''/'' (SANDBOX_WORKSPACE_ROOT @ ''/'' @ n @ (if b then ''/'' else [])) = b"
    using n by (auto simp: ends_with_slash)
  moreover have "SANDBOX_WORKSPACE_ROOT \<noteq> []" by (simp add: SANDBOX_WORKSPACE_ROOT_def)
  ultimately show ?thesis
    using n(1) segs unfolding n_def [symmetric]
    by (simp add: path_join_def path_normalize_def Let_def render_path_def)
qed

lemma join_root_dot: "path_join [SANDBOX_WORKSPACE_ROOT, ''./''] = SANDBOX_WORKSPACE_ROOT @ ''/''"
  using join_at_root [of "[]" True] by (simp add: render_path_def root_segs_def SANDBOX_WORKSPACE_ROOT_def)

lemma render_root: "render_path root_segs = SANDBOX_WORKSPACE_ROOT"
  by (simp add: render_path_def root_segs_def SANDBOX_WORKSPACE_ROOT_def)

lemma render_root_below: "ys \<noteq> [] \<Longrightarrow> render_path (root_segs @ ys) = SANDBOX_WORKSPACE_ROOT @ ''/'' @ join_with ''/'' ys"
  by (cases ys) (simp_all add: render_path_def root_segs_def SANDBOX_WORKSPACE_ROOT_def)

lemma rendered_within: "isPathWithinWorkspace (render_path (root_segs @ ys) @ (if b then ''/'' else [])) SANDBOX_WORKSPACE_ROOT"
proof -
  have "\<not> ends_with ''/'' SANDBOX_WORKSPACE_ROOT" by code_simp
  then show ?thesis
    by (cases "ys = []") (auto simp: isPathWithinWorkspace_def Let_def render_root render_root_below starts_with_iff)
qed

lemma normalized_segs:
  assumes "\<not> is_absolute p" and "dotdot \<notin> set (rel_segs p)"
  shows "(if path_normalize p = ''.'' \<or> path_normalize p = [] then SANDBOX_WORKSPACE_ROOT
          else path_join [SANDBOX_WORKSPACE_ROOT, path_normalize p])
     = render_path (root_segs @ rel_segs p) @ (if ends_with ''/'' p then ''/'' else [])"
proof (cases "rel_segs p = []")
  case True
  then show ?thesis
    using join_root_dot
    by (auto simp: normalize_relative [OF assms(1)] render_root ends_with_def split: if_splits)
next
  case False
  have clean: "\<forall>w\<in>set (rel_segs p). clean_seg w" by (rule rel_segs_clean [OF assms(2)])
  have n: "path_normalize p = join_with ''/'' (rel_segs p) @ (if ends_with ''/'' p then ''/'' else [])"
    using False by (simp add: normalize_relative [OF assms(1)])
  have "join_with ''/'' (rel_segs p) @ t \<noteq> ''.'' \<and> join_with ''/'' (rel_segs p) @ t \<noteq> []" for t
  proof (cases "rel_segs p")
    case (Cons y ys)
    then have "y \<noteq> []" "y \<noteq> ''.''" using clean by (simp_all add: clean_seg_def)
    then show ?thesis using Cons join_with_starts [of ys y]
      by (cases ys; cases y) auto
  qed (use False in simp)
  then have "path_normalize p \<noteq> ''.'' \<and> path_normalize p \<noteq> []" unfolding n by blast
  moreover have "path_join [SANDBOX_WORKSPACE_ROOT, path_normalize p] =
      render_path (root_segs @ rel_segs p) @ (if ends_with ''/'' p then ''/'' else [])"
    using join_at_root [OF clean, of "ends_with ''/'' p"] False unfolding n by simp
  ultimately show ?thesis by simp
qed

lemma gate_exact:
  "resolveSandboxWorkspacePath p allowRoot = Inr q \<longleftrightarrow>
     CHR 0x00 \<notin> set p \<and> \<not> is_absolute p \<and> dotdot \<notin> set (rel_segs p) \<and>
     (if rel_segs p = [] then allowRoot \<or> ends_with ''/'' p else True) \<and>
     q = render_path (root_segs @ rel_segs p) @ (if ends_with ''/'' p then ''/'' else [])"
proof (cases "is_absolute p \<or> dotdot \<in> set (rel_segs p)")
  case True
  then have "is_absolute (path_normalize p) \<or> isOutsideWorkspace (path_normalize p)"
    using normalize_absolute isOutside_iff by blast
  then show ?thesis using True by (auto simp: resolveSandboxWorkspacePath_def Let_def)
next
  case False
  let ?q = "render_path (root_segs @ rel_segs p) @ (if ends_with ''/'' p then ''/'' else [])"
  have n: "\<not> (is_absolute (path_normalize p) \<or> isOutsideWorkspace (path_normalize p))"
    using False normalize_relative_relative isOutside_iff by blast
  have "?q = SANDBOX_WORKSPACE_ROOT \<longleftrightarrow> rel_segs p = [] \<and> \<not> ends_with ''/'' p"
    by (cases "rel_segs p = []") (simp_all add: render_root render_root_below)
  then show ?thesis
    using False n rendered_within [of "rel_segs p" "ends_with ''/'' p"]
    unfolding resolveSandboxWorkspacePath_def Let_def normalized_segs [OF False [unfolded de_Morgan_disj, THEN conjunct1] False [unfolded de_Morgan_disj, THEN conjunct2]]
    by auto
qed

text \<open>
  C33. The gate is exact. A path is accepted if and only if it has no null character, is relative, no parent
  reference is left after normalising it, and it does not normalise to the root itself, unless the root
  is allowed or the path ends in a separator; the result is the root followed by the normalised
  segments, with the trailing separator of the argument.
\<close>

theorem sandbox_path_exact:
  "resolveSandboxWorkspacePath p allowRoot = Inr q \<longleftrightarrow>
     CHR 0x00 \<notin> set p \<and> \<not> is_absolute p \<and> dotdot \<notin> set (rel_segs p) \<and>
     (if rel_segs p = [] then allowRoot \<or> ends_with ''/'' p else True) \<and>
     q = render_path (root_segs @ rel_segs p) @ (if ends_with ''/'' p then ''/'' else [])"
  by (rule gate_exact)

definition inside_root :: "string \<Rightarrow> bool" where
  "inside_root p \<longleftrightarrow> prefix root_segs (resolve_segs ''/'' p)"

fun call_inside :: "sb_call \<Rightarrow> bool" where
  "call_inside (ListDir sid p) = inside_root p"
| "call_inside (ReadPath sid p) = inside_root p"
| "call_inside (MakeDir sid p) = inside_root p"
| "call_inside (WriteFiles sid fs) = list_all (\<lambda>f. inside_root (fst f)) fs"
| "call_inside (RemovePath sid p) = inside_root p"
| "call_inside _ = True"

lemma resolve_rendered:
  assumes "\<forall>w\<in>set xs. clean_seg w"
  shows "resolve_segs ''/'' (render_path xs @ (if b then ''/'' else [])) = xs"
proof -
  have slashes: "\<forall>w\<in>set xs. slash \<notin> set w" using assms by (auto simp: clean_seg_def)
  have "norm_segs False [] (split_on slash (join_with ''/'' xs)) = xs"
    using split_on_join [of xs] slashes norm_segs_clean_id [OF assms, of "[]"] by (cases "xs = []") simp_all
  moreover have "split_on slash (s @ ''/'') = split_on slash s @ [[]]" for s
    using split_on_append [of slash s "[]"] by simp
  ultimately show ?thesis
    by (simp add: resolve_segs_def render_path_def is_absolute_def starts_with_def norm_segs_empty_end)
qed

lemma accepted_inside:
  assumes "resolveSandboxWorkspacePath p allowRoot = Inr q"
  shows "inside_root q"
proof -
  have "\<forall>w\<in>set (root_segs @ rel_segs p). clean_seg w"
    using assms root_segs_clean rel_segs_clean [of p] unfolding gate_exact by auto
  then show ?thesis
    using assms resolve_rendered [of "root_segs @ rel_segs p" "ends_with ''/'' p"]
    unfolding gate_exact inside_root_def by simp
qed

lemma emits_resolve:
  assumes "\<And>q. resolveSandboxWorkspacePath p allowRoot = Inr q \<Longrightarrow> emits P (k q)"
  shows "emits P (then_act (resolve_act p allowRoot) k)"
proof (cases "resolveSandboxWorkspacePath p allowRoot")
  case (Inl e)
  then show ?thesis by (simp add: emits_def act_defs resolve_act_def)
next
  case (Inr q)
  then have "then_act (resolve_act p allowRoot) k = k q"
    by (auto simp: act_defs resolve_act_def)
  then show ?thesis using assms [OF Inr] by simp
qed

lemma refused_calls_nothing:
  "resolveSandboxWorkspacePath p allowRoot = Inl e \<Longrightarrow> then_act (resolve_act p allowRoot) k h = (Inl e, h)"
  by (simp add: act_defs resolve_act_def)

lemma emits_make_directory: "P (MakeDir sid q) \<Longrightarrow> emits P (make_directory S sid q)"
  unfolding make_directory_def by (intro emits_rules)

lemma emits_detectEntryKind: "P (ListDir sid (path_dirname q)) \<Longrightarrow> emits P (detectEntryKind S sid q)"
  unfolding detectEntryKind_def by (intro emits_rules)

lemma dirname_below:
  assumes "\<forall>w\<in>set xs. clean_seg w" and "xs \<noteq> []"
  shows "path_dirname (render_path xs @ (if b then ''/'' else [])) = render_path (butlast xs)"
proof -
  have slashes: "\<forall>w\<in>set xs. slash \<notin> set w" using assms(1) by (auto simp: clean_seg_def)
  have "split_on slash (join_with ''/'' xs) = xs" by (rule split_on_join [OF assms(2) slashes])
  moreover have "split_on slash (s @ ''/'') = split_on slash s @ [[]]" for s
    using split_on_append [of slash s "[]"] by simp
  moreover have "filter (\<lambda>w. w \<noteq> []) xs = xs"
    using assms(1) by (auto simp: filter_id_conv clean_seg_def)
  ultimately have "filter (\<lambda>w. w \<noteq> []) (split_on slash (render_path xs @ (if b then ''/'' else []))) = xs"
    by (simp add: render_path_def)
  then show ?thesis by (simp add: path_dirname_def)
qed

lemma parent_inside:
  assumes "resolveSandboxWorkspacePath p allowRoot = Inr q" and "rel_segs p \<noteq> []"
  shows "inside_root (path_dirname q)"
proof -
  have clean: "\<forall>w\<in>set (root_segs @ rel_segs p). clean_seg w"
    using assms(1) root_segs_clean rel_segs_clean [of p] unfolding gate_exact by auto
  then have "\<forall>w\<in>set (root_segs @ butlast (rel_segs p)). clean_seg w"
    using in_set_butlastD by fastforce
  moreover have "path_dirname q = render_path (root_segs @ butlast (rel_segs p))"
    using assms dirname_below [OF clean, of "ends_with ''/'' p"] unfolding gate_exact by (simp add: butlast_append)
  ultimately show ?thesis
    using resolve_rendered [of "root_segs @ butlast (rel_segs p)" False] by (simp add: inside_root_def)
qed

text \<open>The directory above the root, where \<open>getEntryKind\<close> looks for the root itself.\<close>

definition ROOT_PARENT :: string where
  "ROOT_PARENT = ''/home/user''"

lemma root_parent:
  assumes "resolveSandboxWorkspacePath p False = Inr q" and "rel_segs p = []"
  shows "path_dirname q = ROOT_PARENT"
proof -
  have "path_dirname (render_path root_segs @ ''/'') = ROOT_PARENT"
    using dirname_below [OF root_segs_clean, of True] by (simp add: root_segs_def render_path_def ROOT_PARENT_def)
  then show ?thesis using assms unfolding gate_exact by simp
qed

text \<open>
  C34. Confinement of a session's files: whatever path the caller gives, every file call that reading, writing,
  listing, making a directory, removing and asking for the kind of an entry send to the sandbox names a
  path that resolves inside the workspace root, except that the kind of the root itself is looked up in a
  listing of the directory above it. A path that the gate refuses makes every one of these operations
  throw without any call.
\<close>

theorem sandbox_files_confined:
  "emits call_inside (scoped_read S sid p) \<and>
   emits call_inside (scoped_write S sid p content) \<and>
   emits call_inside (scoped_list S sid p) \<and>
   emits call_inside (scoped_makeDir S sid p) \<and>
   emits call_inside (scoped_remove S sid p) \<and>
   emits (\<lambda>c. call_inside c \<or> rel_segs p = [] \<and> c = ListDir sid ROOT_PARENT) (scoped_getEntryKind S sid p) \<and>
   (case resolveSandboxWorkspacePath p False of
      Inl e \<Rightarrow> scoped_read S sid p h = (Inl e, h) \<and> scoped_write S sid p content h = (Inl e, h) \<and>
        scoped_makeDir S sid p h = (Inl e, h) \<and> scoped_remove S sid p h = (Inl e, h) \<and>
        scoped_getEntryKind S sid p h = (Inl e, h)
    | Inr q \<Rightarrow> True) \<and>
   (case resolveSandboxWorkspacePath p True of Inl e \<Rightarrow> scoped_list S sid p h = (Inl e, h) | Inr q \<Rightarrow> True)"
proof (intro conjI)
  show "emits call_inside (scoped_read S sid p)" "emits call_inside (scoped_write S sid p content)"
    "emits call_inside (scoped_list S sid p)" "emits call_inside (scoped_remove S sid p)"
    unfolding scoped_read_def scoped_write_def scoped_list_def scoped_remove_def
    by (intro emits_resolve emits_rules; simp add: accepted_inside)+
  show "emits call_inside (scoped_makeDir S sid p)"
    unfolding scoped_makeDir_def by (intro emits_resolve emits_make_directory) (simp add: accepted_inside)
  show "emits (\<lambda>c. call_inside c \<or> rel_segs p = [] \<and> c = ListDir sid ROOT_PARENT) (scoped_getEntryKind S sid p)"
    unfolding scoped_getEntryKind_def
    by (intro emits_resolve emits_detectEntryKind) (cases "rel_segs p = []"; simp add: parent_inside root_parent)
  show "case resolveSandboxWorkspacePath p False of
      Inl e \<Rightarrow> scoped_read S sid p h = (Inl e, h) \<and> scoped_write S sid p content h = (Inl e, h) \<and>
        scoped_makeDir S sid p h = (Inl e, h) \<and> scoped_remove S sid p h = (Inl e, h) \<and>
        scoped_getEntryKind S sid p h = (Inl e, h)
    | Inr q \<Rightarrow> True"
    unfolding scoped_read_def scoped_write_def scoped_makeDir_def scoped_remove_def scoped_getEntryKind_def
    by (auto simp: refused_calls_nothing split: sum.split)
  show "case resolveSandboxWorkspacePath p True of Inl e \<Rightarrow> scoped_list S sid p h = (Inl e, h) | Inr q \<Rightarrow> True"
    unfolding scoped_list_def by (auto simp: refused_calls_nothing split: sum.split)
qed

text \<open>
  C35. The guard that keeps the root itself from being removed compares strings and is passed by the root
  written with a trailing separator: removing a dot is refused, removing dot-slash (or a name, two
  dots and a slash) sends the sandbox the removal of the whole workspace. Likewise the kind of
  dot-slash is looked up in the directory above the root.
\<close>

theorem root_guard_bypassed:
  "resolveSandboxWorkspacePath ''.'' False = Inl (RuntimePathValidationError ''.'') \<and>
   map fst (snd (scoped_remove S sid ''./'' h)) = map fst h @ [RemovePath sid ''/home/user/project/''] \<and>
   map fst (snd (scoped_remove S sid ''src/../'' h)) = map fst h @ [RemovePath sid ''/home/user/project/''] \<and>
   map fst (snd (scoped_getEntryKind S sid ''./'' h)) = map fst h @ [ListDir sid ''/home/user'']"
proof -
  have "rel_segs ''./'' = []" "rel_segs ''src/../'' = []" "ends_with ''/'' ''./''" "ends_with ''/'' ''src/../''"
    "\<not> is_absolute ''./''" "\<not> is_absolute ''src/../''" "CHR 0x00 \<notin> set ''./''" "CHR 0x00 \<notin> set ''src/../''"
    by code_simp+
  then have p: "resolveSandboxWorkspacePath ''./'' False = Inr ''/home/user/project/''"
    "resolveSandboxWorkspacePath ''src/../'' False = Inr ''/home/user/project/''"
    unfolding gate_exact by (simp_all add: render_root SANDBOX_WORKSPACE_ROOT_def)
  have "resolveSandboxWorkspacePath ''.'' False = Inl (RuntimePathValidationError ''.'')" by code_simp
  moreover have "path_dirname ''/home/user/project/'' = ''/home/user''" by code_simp
  ultimately show ?thesis
    by (simp add: scoped_remove_def scoped_getEntryKind_def detectEntryKind_def resolve_act_def act_defs p
        split: sum.splits)
qed

text \<open>
  What the facade asks before an operation: one connection, and one mark in the database exactly when
  the connection failed with an error that says the sandbox is gone.
\<close>

lemma connectRunningSandbox_calls:
  assumes "sd_sandbox_id d = Some sid" and "sid \<noteq> []" and "sd_sandbox_status d \<in> {Some SbRunning, Some SbPaused}"
  shows "map fst (snd (connectRunningSandbox T S d h)) = map fst h @ Connect sid #
    (case ev_connect S h sid of
       Inl err \<Rightarrow> if isSandboxDefinitelyGone T err then [MarkDead (sd_domain_id d) sid] else []
     | Inr _ \<Rightarrow> [])"
  using assms by (auto simp: connectRunningSandbox_def act_defs split: sum.splits)

lemma connectRunningSandbox_result:
  "fst (connectRunningSandbox T S d h) = Inr sid \<longleftrightarrow>
     sd_sandbox_id d = Some sid \<and> sid \<noteq> [] \<and> sd_sandbox_status d \<in> {Some SbRunning, Some SbPaused} \<and>
     ev_connect S h sid = Inr ()"
  by (auto simp: connectRunningSandbox_def act_defs split: sum.splits option.splits)

text \<open>Any message with the words counts, whatever the status code: a name that does not resolve, say.\<close>

lemma transient_failure_counts_as_gone:
  "isSandboxDefinitelyGone T (ErrorObj ''getaddrinfo: host not found'' [(''status'', JNum 503)]) \<and>
   \<not> isSandboxDefinitelyGone T (ErrorObj ''host notfound'' [(''status'', JNum 503)])"
  by (simp add: isSandboxDefinitelyGone_def getSandboxConnectErrorMessage_def getSandboxConnectErrorStatusCode_def
      parseStatusCode_def SANDBOX_GONE_MESSAGE_PATTERNS_def is_word_char_def starts_with_def to_lower_def
      is_lower_ascii_def is_upper_ascii_def is_digit_ascii_def)

end
