(* ===== verification/SandboxManager.thy ===== *)
theory SandboxManager
  imports SandboxFiles "HOL-Library.Multiset"
begin

section \<open>The sandbox manager\<close>

text \<open>
  \<open>packages/sandbox/src/manager.ts\<close>, \<open>registry.ts\<close> and the life-cycle part of \<open>session.ts\<close>: which
  files of a host workspace go into a new sandbox, how a sandbox is reconnected or created, its
  dev server, and the two caches of connected sandboxes in a worker process. The Vite patch, the
  install command and the port probes are calls on the sandbox.
\<close>

subsection \<open>Collecting the workspace files\<close>

text \<open>
  A directory as the walk sees it. \<open>None\<close> is a directory that cannot be read, or a file on which
  \<open>statSync\<close> or \<open>readFileSync\<close> throws; the size is the one \<open>statSync\<close> reports. A symbolic link is neither
  a directory nor a file of \<open>readdirSync\<close>.
\<close>

datatype dirent = Directory string "dirent list option" | Regular string "nat option" "string option" | Special string

definition SYNC_SKIP_DIRS :: "string list" where
  "SYNC_SKIP_DIRS = [''node_modules'', ''.bun'', ''dist'', ''.next'', ''.turbo'', ''.git'', ''.cache'', ''.vite'', ''__pycache__'', ''.alive'']"

definition SYNC_SKIP_EXTENSIONS :: "string list" where
  "SYNC_SKIP_EXTENSIONS = [''.png'', ''.jpg'', ''.jpeg'', ''.gif'', ''.webp'', ''.avif'', ''.ico'', ''.svg'', ''.mp4'', ''.webm'',
     ''.mp3'', ''.woff'', ''.woff2'', ''.ttf'', ''.eot'', ''.otf'', ''.pdf'', ''.zip'']"

definition SYNC_MAX_FILES :: nat where
  "SYNC_MAX_FILES = 500"

definition SYNC_MAX_BYTES :: nat where
  "SYNC_MAX_BYTES = 10 * 1024 * 1024"

definition SYNC_MAX_FILE_SIZE_BYTES :: nat where
  "SYNC_MAX_FILE_SIZE_BYTES = 1024 * 1024"

text \<open>\<open>path.extname\<close> of a file name: from the last dot, unless only that dot starts the name or the name is two dots.\<close>

definition path_extname :: "string \<Rightarrow> string" where
  "path_extname name =
     (let post = rev (takeWhile (\<lambda>c. c \<noteq> CHR ''.'') (rev name))
      in if CHR ''.'' \<notin> set name \<or> length post + 1 = length name \<or> name = dotdot then []
         else CHR ''.'' # post)"

text \<open>\<open>path.relative\<close>, in a process whose working directory is \<open>cwd\<close>.\<close>

definition path_relative :: "string \<Rightarrow> string \<Rightarrow> string \<Rightarrow> string" where
  "path_relative cwd f t =
     (let a = resolve_segs cwd f; b = resolve_segs cwd t; n = length (longest_common_prefix a b)
      in join_with ''/'' (replicate (length a - n) dotdot @ drop n b))"

datatype exceeded = FileCount | ByteSize

record collected =
  co_files :: "(string \<times> string) list"
  co_totalBytes :: nat
  co_exceeded :: "exceeded option"

text \<open>One regular file that passed the extension test.\<close>

definition collectFile :: "string \<Rightarrow> nat option \<Rightarrow> string option \<Rightarrow> collected \<Rightarrow> collected" where
  "collectFile sandboxPath bytes data c =
     (case bytes of
        None \<Rightarrow> c
      | Some n \<Rightarrow>
          if n > SYNC_MAX_FILE_SIZE_BYTES then c
          else if length (co_files c) + 1 > SYNC_MAX_FILES then c\<lparr>co_exceeded := Some FileCount\<rparr>
          else if co_totalBytes c + n > SYNC_MAX_BYTES then c\<lparr>co_exceeded := Some ByteSize\<rparr>
          else (case data of
                  None \<Rightarrow> c
                | Some d \<Rightarrow> c\<lparr>co_files := co_files c @ [(sandboxPath, d)], co_totalBytes := co_totalBytes c + n\<rparr>))"

fun walkEntries :: "string \<Rightarrow> string \<Rightarrow> string \<Rightarrow> dirent list \<Rightarrow> collected \<Rightarrow> collected" where
  "walkEntries cwd hostDir dir [] c = c"
| "walkEntries cwd hostDir dir (e # es) c =
     (if co_exceeded c \<noteq> None then c
      else walkEntries cwd hostDir dir es
        (case e of
           Directory name entries \<Rightarrow>
             if name \<in> set SYNC_SKIP_DIRS then c
             else (case entries of None \<Rightarrow> c | Some sub \<Rightarrow> walkEntries cwd hostDir (path_join [dir, name]) sub c)
         | Regular name bytes data \<Rightarrow>
             if to_lower (path_extname name) \<in> set SYNC_SKIP_EXTENSIONS then c
             else collectFile (path_join [SANDBOX_WORKSPACE_ROOT, path_relative cwd hostDir (path_join [dir, name])]) bytes data c
         | Special name \<Rightarrow> c))"

definition collectWorkspaceFiles :: "string \<Rightarrow> string \<Rightarrow> dirent list option \<Rightarrow> collected" where
  "collectWorkspaceFiles cwd hostDir entries =
     (let c0 = \<lparr>co_files = [], co_totalBytes = 0, co_exceeded = None\<rparr>;
          c = (case entries of None \<Rightarrow> c0 | Some es \<Rightarrow> walkEntries cwd hostDir hostDir es c0)
      in if co_exceeded c \<noteq> None then c\<lparr>co_files := []\<rparr> else c)"

subsection \<open>What is collected\<close>

text \<open>
  The files a walk offers, in its order: path in the sandbox, size and content of every regular file
  that is outside the skipped directories, has no skipped extension and is not too large by itself.
\<close>

fun offered :: "string list \<Rightarrow> dirent list \<Rightarrow> (string \<times> nat \<times> string option) list" where
  "offered rel [] = []"
| "offered rel (e # es) =
     (case e of
        Directory name entries \<Rightarrow>
          if name \<in> set SYNC_SKIP_DIRS then []
          else (case entries of None \<Rightarrow> [] | Some sub \<Rightarrow> offered (rel @ [name]) sub)
      | Regular name bytes data \<Rightarrow>
          if to_lower (path_extname name) \<in> set SYNC_SKIP_EXTENSIONS then []
          else (case bytes of
                  None \<Rightarrow> []
                | Some n \<Rightarrow> if n > SYNC_MAX_FILE_SIZE_BYTES then []
                             else [(render_path (root_segs @ rel @ [name]), n, data)])
      | Special name \<Rightarrow> []) @ offered rel es"

fun names_ok :: "dirent list \<Rightarrow> bool" where
  "names_ok [] \<longleftrightarrow> True"
| "names_ok (e # es) \<longleftrightarrow>
     (case e of
        Directory name entries \<Rightarrow> clean_seg name \<and> (case entries of None \<Rightarrow> True | Some sub \<Rightarrow> names_ok sub)
      | Regular name bytes data \<Rightarrow> clean_seg name
      | Special name \<Rightarrow> True) \<and> names_ok es"

definition take_one :: "string \<times> nat \<times> string option \<Rightarrow> collected \<Rightarrow> collected" where
  "take_one f c = (if co_exceeded c \<noteq> None then c else collectFile (fst f) (Some (fst (snd f))) (snd (snd f)) c)"

definition readable :: "(string \<times> nat \<times> string option) list \<Rightarrow> (string \<times> string) list" where
  "readable fs = List.map_filter (\<lambda>(p, n, d). map_option (\<lambda>s. (p, s)) d) fs"

definition readable_bytes :: "(string \<times> nat \<times> string option) list \<Rightarrow> nat" where
  "readable_bytes fs = sum_list (map (\<lambda>(p, n, d). if d = None then 0 else n) fs)"

lemma fold_exceeded: "co_exceeded c \<noteq> None \<Longrightarrow> fold take_one fs c = c"
  by (induction fs) (simp_all add: take_one_def)

lemma walkEntries_exceeded: "co_exceeded c \<noteq> None \<Longrightarrow> walkEntries cwd hostDir dir es c = c"
  by (cases es) simp_all

lemma longest_common_prefix_self: "longest_common_prefix a (a @ b) = a"
  by (induction a) simp_all

lemma joined_entry:
  assumes "is_absolute dir" and "clean_seg name"
  shows "is_absolute (path_join [dir, name]) \<and> resolve_segs cwd (path_join [dir, name]) = resolve_segs cwd dir @ [name]"
proof
  have dir: "dir \<noteq> []" and abs: "is_absolute (dir @ ''/'' @ name)" and n: "name \<noteq> []" "slash \<notin> set name"
    using assms by (auto simp: is_absolute_def starts_with_iff clean_seg_def)
  show "is_absolute (path_join [dir, name])"
    using resolve_normalized [OF abs] dir n by (simp add: path_join_def)
  show "resolve_segs cwd (path_join [dir, name]) = resolve_segs cwd dir @ [name]"
    using assms(2) n norm_segs_clean_id [of "[name]"] by (simp add: resolve_joined [OF assms(1)] split_on_no_sep)
qed

lemma sandbox_path_of_entry:
  assumes "is_absolute dir" and "resolve_segs cwd dir = resolve_segs cwd hostDir @ rel"
    and "clean_seg name" and "\<forall>w\<in>set rel. clean_seg w"
  shows "path_join [SANDBOX_WORKSPACE_ROOT, path_relative cwd hostDir (path_join [dir, name])]
    = render_path (root_segs @ rel @ [name])"
proof -
  have "resolve_segs cwd (path_join [dir, name]) = resolve_segs cwd hostDir @ rel @ [name]"
    using joined_entry [OF assms(1,3), of cwd] assms(2) by simp
  then have "path_relative cwd hostDir (path_join [dir, name]) = join_with ''/'' (rel @ [name])"
    by (simp add: path_relative_def longest_common_prefix_self)
  moreover have "path_join [SANDBOX_WORKSPACE_ROOT, join_with ''/'' (rel @ [name])] = render_path (root_segs @ rel @ [name])"
    using join_at_root [of "rel @ [name]" False] assms(3,4) by simp
  ultimately show ?thesis by simp
qed

lemma walkEntries_fold:
  assumes "is_absolute dir" and "resolve_segs cwd dir = resolve_segs cwd hostDir @ rel"
    and "\<forall>w\<in>set rel. clean_seg w" and "names_ok es"
  shows "walkEntries cwd hostDir dir es c = fold take_one (offered rel es) c"
  using assms
proof (induction cwd hostDir dir es c arbitrary: rel rule: walkEntries.induct)
  case (2 cwd hostDir dir e es c)
  show ?case
  proof (cases "co_exceeded c = None")
    case False
    then show ?thesis by (simp add: fold_exceeded)
  next
    case c: True
    note rest = "2.IH"(2) [OF _ "2.prems"(1-3)]
    show ?thesis
    proof (cases e)
      case (Directory name entries)
      then have name: "clean_seg name" and es: "names_ok es" using "2.prems"(4) by simp_all
      show ?thesis
      proof (cases "name \<in> set SYNC_SKIP_DIRS \<or> entries = None")
        case True
        then show ?thesis using rest c Directory es by auto
      next
        case False
        then obtain sub where sub: "entries = Some sub" by auto
        have "walkEntries cwd hostDir (path_join [dir, name]) sub c = fold take_one (offered (rel @ [name]) sub) c"
          using "2.IH"(1) [OF _ Directory _ sub, of "rel @ [name]"] c False joined_entry [OF "2.prems"(1) name, of cwd]
            "2.prems" name Directory sub by simp
        then show ?thesis using rest c Directory es False sub by simp
      qed
    next
      case (Regular name bytes data)
      then have name: "clean_seg name" and es: "names_ok es" using "2.prems"(4) by simp_all
      have "collectFile (path_join [SANDBOX_WORKSPACE_ROOT, path_relative cwd hostDir (path_join [dir, name])]) bytes data c
        = fold take_one (case bytes of None \<Rightarrow> [] | Some n \<Rightarrow> if n > SYNC_MAX_FILE_SIZE_BYTES then []
                             else [(render_path (root_segs @ rel @ [name]), n, data)]) c"
        using c sandbox_path_of_entry [OF "2.prems"(1,2) name "2.prems"(3)]
        by (simp add: take_one_def collectFile_def split: option.splits)
      then show ?thesis using rest c Regular es by simp
    next
      case (Special name)
      then show ?thesis using rest c "2.prems"(4) by simp
    qed
  qed
qed simp

lemma readable_simps [simp]:
  "readable [] = []" "readable_bytes [] = 0"
  "readable (xs @ ys) = readable xs @ readable ys"
  "readable_bytes (xs @ ys) = readable_bytes xs + readable_bytes ys"
  "readable [(p, n, d)] = (case d of None \<Rightarrow> [] | Some s \<Rightarrow> [(p, s)])"
  "readable_bytes [(p, n, d)] = (if d = None then 0 else n)"
  by (simp_all add: readable_def readable_bytes_def List.map_filter_def split: option.splits)

text \<open>No file is met once the limits are reached.\<close>

definition within_limits :: "(string \<times> nat \<times> string option) list \<Rightarrow> bool" where
  "within_limits fs \<longleftrightarrow>
     (\<forall>k<length fs. length (readable (take k fs)) < SYNC_MAX_FILES \<and>
                    readable_bytes (take k fs) + fst (snd (fs ! k)) \<le> SYNC_MAX_BYTES)"

lemma within_limits_snoc:
  "within_limits (fs @ [f]) \<longleftrightarrow>
     within_limits fs \<and> length (readable fs) < SYNC_MAX_FILES \<and> readable_bytes fs + fst (snd f) \<le> SYNC_MAX_BYTES"
  by (auto simp: within_limits_def nth_append less_Suc_eq)

lemma take_one_fold:
  assumes "\<forall>f\<in>set fs. fst (snd f) \<le> SYNC_MAX_FILE_SIZE_BYTES"
  shows "(within_limits fs \<longrightarrow> fold take_one fs \<lparr>co_files = [], co_totalBytes = 0, co_exceeded = None\<rparr>
           = \<lparr>co_files = readable fs, co_totalBytes = readable_bytes fs, co_exceeded = None\<rparr>) \<and>
         (\<not> within_limits fs \<longrightarrow> co_exceeded (fold take_one fs \<lparr>co_files = [], co_totalBytes = 0, co_exceeded = None\<rparr>) \<noteq> None)"
  using assms
proof (induction fs rule: rev_induct)
  case (snoc f fs)
  obtain p n d where f: "f = (p, n, d)" by (cases f)
  have n: "\<not> SYNC_MAX_FILE_SIZE_BYTES < n" using snoc.prems f by simp
  let ?c = "fold take_one fs \<lparr>co_files = [], co_totalBytes = 0, co_exceeded = None\<rparr>"
  show ?case
  proof (cases "within_limits fs")
    case False
    then have "co_exceeded ?c \<noteq> None" using snoc by simp
    then have "take_one f ?c = ?c" by (simp add: take_one_def)
    then show ?thesis using False \<open>co_exceeded ?c \<noteq> None\<close> by (simp add: within_limits_snoc)
  next
    case True
    then have c: "?c = \<lparr>co_files = readable fs, co_totalBytes = readable_bytes fs, co_exceeded = None\<rparr>"
      using snoc by simp
    have one: "take_one f c = collectFile p (Some n) d c" if "co_exceeded c = None" for c
      using that by (simp add: take_one_def f)
    have "fold take_one (fs @ [f]) \<lparr>co_files = [], co_totalBytes = 0, co_exceeded = None\<rparr>
      = collectFile p (Some n) d \<lparr>co_files = readable fs, co_totalBytes = readable_bytes fs, co_exceeded = None\<rparr>"
      by (simp add: c one)
    then show ?thesis
      using True n by (cases d) (simp_all add: within_limits_snoc f collectFile_def)
  qed
qed (simp add: within_limits_def)

lemma offered_small: "f \<in> set (offered rel es) \<Longrightarrow> fst (snd f) \<le> SYNC_MAX_FILE_SIZE_BYTES"
proof (induction rel es rule: offered.induct)
  case (2 rel e es)
  then show ?case by (cases e) (auto split: if_splits option.splits)
qed simp

lemma readable_bounds:
  assumes "within_limits fs"
  shows "length (readable fs) \<le> SYNC_MAX_FILES \<and> readable_bytes fs \<le> SYNC_MAX_BYTES"
  using assms
proof (cases fs rule: rev_cases)
  case (snoc gs g)
  obtain p n d where "g = (p, n, d)" by (cases g)
  then show ?thesis using assms snoc by (cases d) (simp_all add: within_limits_snoc)
qed simp

text \<open>
  C36. The workspace copied into a new sandbox is all or nothing: the walk over a readable host directory
  exceeds its limits exactly when some offered file is met with 500 files or the 10 MB already used
  up; then no file is sent; otherwise exactly the readable offered files are sent, each below the
  workspace root at its own relative path, at most 500 of them and at most 10 MB.
\<close>

theorem workspace_sync_all_or_nothing:
  assumes "is_absolute hostDir" and "names_ok entries"
  shows "(co_exceeded (collectWorkspaceFiles cwd hostDir (Some entries)) = None \<longleftrightarrow> within_limits (offered [] entries)) \<and>
    co_files (collectWorkspaceFiles cwd hostDir (Some entries))
      = (if within_limits (offered [] entries) then readable (offered [] entries) else []) \<and>
    length (co_files (collectWorkspaceFiles cwd hostDir (Some entries))) \<le> SYNC_MAX_FILES \<and>
    (within_limits (offered [] entries) \<longrightarrow> readable_bytes (offered [] entries) \<le> SYNC_MAX_BYTES)"
proof -
  let ?c0 = "\<lparr>co_files = [], co_totalBytes = 0, co_exceeded = None\<rparr>"
  have walk: "walkEntries cwd hostDir hostDir entries ?c0 = fold take_one (offered [] entries) ?c0"
    by (rule walkEntries_fold [OF assms(1) _ _ assms(2)]) simp_all
  have "\<forall>f\<in>set (offered [] entries). fst (snd f) \<le> SYNC_MAX_FILE_SIZE_BYTES"
    using offered_small by blast
  note folded = take_one_fold [OF this]
  show ?thesis
  proof (cases "within_limits (offered [] entries)")
    case True
    then show ?thesis
      using folded walk readable_bounds [OF True] by (simp add: collectWorkspaceFiles_def Let_def)
  next
    case False
    then show ?thesis
      using folded walk by (simp add: collectWorkspaceFiles_def Let_def)
  qed
qed

lemma skipped_names [simp]: "clean_seg ''src''" "clean_seg ''a.ts''" "clean_seg ''node_modules''" "clean_seg ''logo.PNG''"
  by (simp_all add: clean_seg_def)

theorem workspace_sync_all_or_nothing_witness:
  "co_files (collectWorkspaceFiles ''/'' ''/srv/app''
      (Some [Directory ''src'' (Some [Regular ''a.ts'' (Some 3) (Some ''abc''), Regular ''logo.PNG'' (Some 9) (Some ''x'')]),
             Directory ''node_modules'' (Some [Regular ''a.ts'' (Some 1) (Some ''y'')])]))
   = [(''/home/user/project/src/a.ts'', ''abc'')]"
proof -
  let ?es = "[Directory ''src'' (Some [Regular ''a.ts'' (Some 3) (Some ''abc''), Regular ''logo.PNG'' (Some 9) (Some ''x'')]),
             Directory ''node_modules'' (Some [Regular ''a.ts'' (Some 1) (Some ''y'')])]"
  have ext: "to_lower (path_extname ''a.ts'') = ''.ts''" "to_lower (path_extname ''logo.PNG'') = ''.png''" by code_simp+
  have off: "offered [] ?es = [(''/home/user/project/src/a.ts'', 3, Some ''abc'')]"
    by (simp add: ext SYNC_SKIP_DIRS_def SYNC_SKIP_EXTENSIONS_def SYNC_MAX_FILE_SIZE_BYTES_def render_path_def root_segs_def)
  have lim: "within_limits (offered [] ?es)"
    unfolding off by (simp add: within_limits_def SYNC_MAX_FILES_def SYNC_MAX_BYTES_def)
  have abs: "is_absolute ''/srv/app''" by code_simp
  have "names_ok ?es" by simp
  from workspace_sync_all_or_nothing [OF abs this, of "''/''"] lim
  have "co_files (collectWorkspaceFiles ''/'' ''/srv/app'' (Some ?es)) = readable (offered [] ?es)"
    by presburger
  then show ?thesis unfolding off by simp
qed

subsection \<open>Setting up a sandbox\<close>

text \<open>
  The replacement of \<open>/allowedHosts:\s*\[[\s\S]*?\]/g\<close> by \<open>allowedHosts: true\<close>: the key, white space, a
  bracket and everything up to the next closing bracket.
\<close>

definition allowed_hosts_match :: "string \<Rightarrow> string option" where
  "allowed_hosts_match s =
     (if \<not> starts_with ''allowedHosts:'' s then None
      else case dropWhile is_ws (drop (length ''allowedHosts:'') s) of
             [] \<Rightarrow> None
           | c # cs \<Rightarrow> if c = CHR ''['' \<and> CHR '']'' \<in> set cs
                       then Some (tl (dropWhile (\<lambda>d. d \<noteq> CHR '']'') cs)) else None)"

lemma length_allowed_hosts_match: "allowed_hosts_match s = Some t \<Longrightarrow> length t < length s"
proof -
  assume m: "allowed_hosts_match s = Some t"
  then obtain c cs where "dropWhile is_ws (drop (length ''allowedHosts:'') s) = c # cs"
    and t: "t = tl (dropWhile (\<lambda>d. d \<noteq> CHR '']'') cs)"
    unfolding allowed_hosts_match_def by (auto split: if_splits list.splits)
  moreover have "length (dropWhile is_ws (drop k s)) \<le> length s" for k
    using length_dropWhile_le [of is_ws "drop k s"] by simp
  then have "length (dropWhile is_ws (drop (length ''allowedHosts:'') s)) \<le> length s" by blast
  moreover have "length t \<le> length cs"
    unfolding t using length_dropWhile_le [of "\<lambda>d. d \<noteq> CHR '']''" cs] by simp
  ultimately show ?thesis by (simp only: list.size)
qed

function allow_all_hosts :: "string \<Rightarrow> string" where
  "allow_all_hosts [] = []"
| "allow_all_hosts (c # cs) =
     (case allowed_hosts_match (c # cs) of
        Some rest \<Rightarrow> ''allowedHosts: true'' @ allow_all_hosts rest
      | None \<Rightarrow> c # allow_all_hosts cs)"
  by pat_completeness auto
termination
  by (relation "measure length") (use length_allowed_hosts_match in fastforce)+

definition in_root :: "string \<Rightarrow> string" where
  "in_root name = path_join [SANDBOX_WORKSPACE_ROOT, name]"

fun patchConfigs :: "e2b_service \<Rightarrow> string \<Rightarrow> string list \<Rightarrow> unit act" where
  "patchConfigs S sid [] = return_act ()"
| "patchConfigs S sid (name # names) =
     attempt_act (read_call S sid (in_root name))
       (\<lambda>content. let patched = allow_all_hosts content
                   in if patched \<noteq> content then write_call S sid [(in_root name, patched)] else return_act ())
       (\<lambda>_. patchConfigs S sid names)"

definition patchViteAllowedHosts :: "e2b_service \<Rightarrow> string \<Rightarrow> unit act" where
  "patchViteAllowedHosts S sid = patchConfigs S sid [''vite.config.ts'', ''vite.config.js'', ''vite.config.mts'', ''vite.config.mjs'']"

definition detectInstallCommand :: "e2b_service \<Rightarrow> string \<Rightarrow> string option act" where
  "detectInstallCommand S sid =
     attempt_act (read_call S sid (in_root ''package.json''))
       (\<lambda>_. attempt_act (read_call S sid (in_root ''bun.lock''))
          (\<lambda>_. return_act (Some ''bun install''))
          (\<lambda>_. attempt_act (read_call S sid (in_root ''bun.lockb''))
             (\<lambda>_. return_act (Some ''bun install''))
             (\<lambda>_. return_act (Some ''npm install''))))
       (\<lambda>_. return_act None)"

definition runInstall :: "e2b_service \<Rightarrow> string \<Rightarrow> string \<Rightarrow> unit act" where
  "runInstall S sid cmd =
     attempt_act (run_call S sid cmd SANDBOX_WORKSPACE_ROOT) (\<lambda>_. return_act ()) (\<lambda>_. return_act ())"

definition installDependencies :: "e2b_service \<Rightarrow> string \<Rightarrow> unit act" where
  "installDependencies S sid =
     then_act (detectInstallCommand S sid)
       (\<lambda>cmd. case cmd of None \<Rightarrow> return_act () | Some c \<Rightarrow> runInstall S sid c)"

definition ensureDependencies :: "e2b_service \<Rightarrow> string \<Rightarrow> unit act" where
  "ensureDependencies S sid =
     then_act (detectInstallCommand S sid)
       (\<lambda>cmd. case cmd of
          None \<Rightarrow> return_act ()
        | Some c \<Rightarrow> attempt_act (list_call S sid (in_root ''node_modules'')) (\<lambda>_. return_act ()) (\<lambda>_. runInstall S sid c))"

text \<open>The host workspace: its path and what the walk finds there.\<close>

type_synonym host_workspace = "string \<times> dirent list option"

definition syncWorkspaceToSandbox :: "string \<Rightarrow> e2b_service \<Rightarrow> string \<Rightarrow> host_workspace \<Rightarrow> unit act" where
  "syncWorkspaceToSandbox cwd S sid host =
     (let c = collectWorkspaceFiles cwd (fst host) (snd host)
      in if co_exceeded c \<noteq> None then return_act ()
         else then_act (catch_act (makeDir_call S sid SANDBOX_WORKSPACE_ROOT) (\<lambda>_. return_act ()))
                (\<lambda>_. if co_files c = [] then return_act ()
                     else then_act (write_call S sid (co_files c))
                            (\<lambda>_. then_act (patchViteAllowedHosts S sid) (\<lambda>_. installDependencies S sid))))"

subsection \<open>The dev server\<close>

text \<open>\<open>s.split(/\s+/)\<close>.\<close>

function split_ws :: "string \<Rightarrow> string list" where
  "split_ws s =
     (let w = takeWhile (\<lambda>c. \<not> is_ws c) s; rest = dropWhile (\<lambda>c. \<not> is_ws c) s
      in if rest = [] then [w] else w # split_ws (dropWhile is_ws rest))"
  by pat_completeness auto
termination
proof (relation "measure length")
  fix s w rest
  assume rest: "rest = dropWhile (\<lambda>c. \<not> is_ws c) s" and ne: "rest \<noteq> []"
  have "length rest \<le> length s" unfolding rest by (rule length_dropWhile_le)
  moreover have "\<not> \<not> is_ws (hd rest)" using ne unfolding rest by (rule hd_dropWhile)
  ultimately have "length rest \<le> length s" "is_ws (hd rest)" by simp_all
  then have "length (dropWhile is_ws rest) < length s"
    using ne length_dropWhile_le [of is_ws "tl rest"] by (cases rest) simp_all
  then show "(dropWhile is_ws rest, s) \<in> measure length" by simp
qed simp

declare split_ws.simps [simp del]

text \<open>The port of one line of \<open>ss -tlnH\<close>: after the last colon of the fourth column.\<close>

definition line_port :: "string \<Rightarrow> nat option" where
  "line_port line =
     (let parts = split_ws (trim line)
      in if length parts \<le> 3 \<or> parts ! 3 = [] \<or> CHR '':'' \<notin> set (parts ! 3) then None
         else (case parseInt10 (rev (takeWhile (\<lambda>c. c \<noteq> CHR '':'') (rev (parts ! 3)))) of
                 Some n \<Rightarrow> if n > 1024 then Some (nat n) else None
               | None \<Rightarrow> None))"

fun first_port :: "string list \<Rightarrow> nat option" where
  "first_port [] = None"
| "first_port (l # ls) = (case line_port l of Some p \<Rightarrow> Some p | None \<Rightarrow> first_port ls)"

definition isPortListening :: "e2b_service \<Rightarrow> string \<Rightarrow> nat \<Rightarrow> bool act" where
  "isPortListening S sid port =
     attempt_act (run_call S sid (''ss -tlnH sport = :'' @ digits port @ '' 2>/dev/null || true'') SANDBOX_WORKSPACE_ROOT)
       (\<lambda>r. return_act (trim (rr_stdout r) \<noteq> []))
       (\<lambda>_. return_act False)"

definition detectAnyListeningPort :: "e2b_service \<Rightarrow> string \<Rightarrow> nat option act" where
  "detectAnyListeningPort S sid =
     attempt_act (run_call S sid ''ss -tlnH 2>/dev/null || true'' SANDBOX_WORKSPACE_ROOT)
       (\<lambda>r. let out = trim (rr_stdout r)
             in return_act (if out = [] then None else first_port (split_on newline out)))
       (\<lambda>_. return_act None)"

fun json_truthy :: "json \<Rightarrow> bool" where
  "json_truthy JNull = False"
| "json_truthy (JBool b) = b"
| "json_truthy (JNum n) = (n \<noteq> 0)"
| "json_truthy (JStr s) = (s \<noteq> [])"
| "json_truthy _ = True"

text \<open>\<open>pkg.scripts?.dev\<close> is truthy.\<close>

definition has_dev_script :: "json \<Rightarrow> bool" where
  "has_dev_script pkg =
     (case getObjectProperty pkg ''scripts'' of
        Some s \<Rightarrow> (case getObjectProperty s ''dev'' of Some d \<Rightarrow> json_truthy d | None \<Rightarrow> False)
      | None \<Rightarrow> False)"

text \<open>Up to ten polls, a second apart, then any port above 1024.\<close>

fun wait_for_port :: "e2b_service \<Rightarrow> string \<Rightarrow> nat \<Rightarrow> nat \<Rightarrow> nat option act" where
  "wait_for_port S sid port 0 = detectAnyListeningPort S sid"
| "wait_for_port S sid port (Suc n) =
     then_act (isPortListening S sid port)
       (\<lambda>up. if up then return_act (Some port) else wait_for_port S sid port n)"

definition null_scripts_error :: thrown where
  "null_scripts_error = ErrorObj (''Cannot read properties of null (reading '' @ [CHR 0x27] @ ''scripts'' @ [CHR 0x27] @ '')'') []"

text \<open>\<open>parse\<close> is \<open>JSON.parse\<close>, \<open>None\<close> where it throws.\<close>

definition ensureDevServer :: "(string \<Rightarrow> json option) \<Rightarrow> e2b_service \<Rightarrow> string \<Rightarrow> nat \<Rightarrow> nat option act" where
  "ensureDevServer parse S sid expectedPort =
     then_act (isPortListening S sid expectedPort) (\<lambda>up.
       if up then return_act (Some expectedPort)
       else attempt_act (read_call S sid (in_root ''package.json''))
         (\<lambda>pkgJson.
            case parse pkgJson of
              None \<Rightarrow> return_act None
            | Some pkg \<Rightarrow>
                if pkg = JNull then throw_act null_scripts_error
                else if \<not> has_dev_script pkg then return_act None
                else attempt_act (start_call S sid ''bun run dev'' SANDBOX_WORKSPACE_ROOT [(''PORT'', digits expectedPort)])
                       (\<lambda>_. wait_for_port S sid expectedPort 10)
                       (\<lambda>_. return_act None))
         (\<lambda>_. return_act None))"

definition ensureDevServerAndSyncPort :: "(string \<Rightarrow> json option) \<Rightarrow> e2b_service \<Rightarrow> string \<Rightarrow> sandbox_domain \<Rightarrow> unit act" where
  "ensureDevServerAndSyncPort parse S sid d =
     then_act (ensureDevServer parse S sid (sd_port d)) (\<lambda>actualPort.
       case actualPort of
         None \<Rightarrow> return_act ()
       | Some p \<Rightarrow>
           if p = 0 \<or> p = sd_port d then return_act ()
           else (case ev_updatePort S of
                   None \<Rightarrow> return_act ()
                 | Some f \<Rightarrow> call_act (UpdatePort (sd_domain_id d) p) (\<lambda>h. f h (sd_domain_id d) p)))"

subsection \<open>Reconnecting and creating\<close>

definition sync_if :: "string \<Rightarrow> e2b_service \<Rightarrow> string \<Rightarrow> host_workspace option \<Rightarrow> unit act" where
  "sync_if cwd S sid host =
     (case host of None \<Rightarrow> return_act () | Some w \<Rightarrow> if fst w = [] then return_act () else syncWorkspaceToSandbox cwd S sid w)"

definition create_metadata :: "sandbox_domain \<Rightarrow> (string \<times> string) list" where
  "create_metadata d =
     [(''domain_id'', sd_domain_id d), (''hostname'', sd_hostname d)] @
     (case sd_is_test_env d of None \<Rightarrow> [] | Some b \<Rightarrow> [(''is_test_env'', if b then ''true'' else ''false'')]) @
     (case sd_test_run_id d of None \<Rightarrow> [] | Some r \<Rightarrow> if r = [] then [] else [(''test_run_id'', r)])"

text \<open>What a manager is built with, apart from the service: the template, \<open>JSON.parse\<close>, printing, the working directory.\<close>

record manager_setup =
  ms_template :: string
  ms_parse :: "string \<Rightarrow> json option"
  ms_texts :: js_texts
  ms_cwd :: string

definition new_SandboxManager :: "string option \<Rightarrow> string \<Rightarrow> string option \<Rightarrow> manager_setup \<Rightarrow> string + manager_setup" where
  "new_SandboxManager apiKey domain template M =
     (if apiKey \<in> {None, Some []} then Inl ''[SandboxManager] FATAL: E2B_API_KEY env var is missing. Cannot authenticate with E2B.''
      else if domain = [] then Inl (''[SandboxManager] FATAL: E2B domain is required. Set E2B_DOMAIN env var (e.g. '' @ [CHR 0x27] @ ''e2b.test.example'' @ [CHR 0x27] @ '').'')
      else Inr (M\<lparr>ms_template := (case template of None \<Rightarrow> ''alive'' | Some t \<Rightarrow> t)\<rparr>))"

definition create_sandbox :: "manager_setup \<Rightarrow> e2b_service \<Rightarrow> sandbox_domain \<Rightarrow> host_workspace option \<Rightarrow> string act" where
  "create_sandbox M S d host =
     then_act (updateSandbox_call S (sd_domain_id d) [] SbCreating) (\<lambda>_.
     then_act (create_call S (ms_template M) (create_metadata d)) (\<lambda>sid.
     then_act (sync_if (ms_cwd M) S sid host) (\<lambda>_.
     then_act (updateSandbox_call S (sd_domain_id d) sid SbRunning) (\<lambda>_.
     then_act (ensureDevServerAndSyncPort (ms_parse M) S sid d) (\<lambda>_.
     return_act sid)))))"

text \<open>The body of the \<open>try\<close> of \<open>resolve\<close>.\<close>

definition reconnect :: "manager_setup \<Rightarrow> e2b_service \<Rightarrow> sandbox_domain \<Rightarrow> string \<Rightarrow> host_workspace option \<Rightarrow> string act" where
  "reconnect M S d sid host =
     then_act (connect_call S sid) (\<lambda>_.
     then_act (case host of
                 None \<Rightarrow> return_act ()
               | Some w \<Rightarrow> if fst w = [] then return_act ()
                           else attempt_act (list_call S sid SANDBOX_WORKSPACE_ROOT) (\<lambda>_. return_act ())
                                  (\<lambda>_. syncWorkspaceToSandbox (ms_cwd M) S sid w)) (\<lambda>_.
     then_act (ensureDependencies S sid) (\<lambda>_.
     then_act (if sd_sandbox_status d \<noteq> Some SbRunning then updateSandbox_call S (sd_domain_id d) sid SbRunning
               else return_act ()) (\<lambda>_.
     then_act (ensureDevServerAndSyncPort (ms_parse M) S sid d) (\<lambda>_.
     return_act sid)))))"

definition resolve_sandbox :: "manager_setup \<Rightarrow> e2b_service \<Rightarrow> sandbox_domain \<Rightarrow> host_workspace option \<Rightarrow> string act" where
  "resolve_sandbox M S d host =
     (case sd_sandbox_id d of
        None \<Rightarrow> create_sandbox M S d host
      | Some sid \<Rightarrow>
          if sid = [] \<or> sd_sandbox_status d \<notin> {Some SbRunning, Some SbPaused} then create_sandbox M S d host
          else attempt_act (reconnect M S d sid host) return_act
                 (\<lambda>err. if \<not> isSandboxDefinitelyGone (ms_texts M) err then throw_act err
                        else then_act (updateSandbox_call S (sd_domain_id d) sid SbDead)
                               (\<lambda>_. create_sandbox M S d host)))"

subsection \<open>The caches of a worker process\<close>

text \<open>
  \<open>sandboxes\<close> maps a domain to its connected sandbox, \<open>pending\<close> to the callers that wait for the one
  resolution in flight. A resolution ends in \<open>settle\<close>, with what \<open>resolve\<close> threw or returned.
\<close>

record sandbox_manager =
  sm_sandboxes :: "(string, string) jsmap"
  sm_pending :: "(string, nat list) jsmap"

datatype get_or_create = Cached string | Joined | Started

definition getOrCreate :: "nat \<Rightarrow> string \<Rightarrow> sandbox_manager \<Rightarrow> get_or_create \<times> sandbox_manager" where
  "getOrCreate caller dm m =
     (case jget (sm_sandboxes m) dm of
        Some sid \<Rightarrow> (Cached sid, m)
      | None \<Rightarrow>
          (case jget (sm_pending m) dm of
             Some cs \<Rightarrow> (Joined, m\<lparr>sm_pending := jset dm (cs @ [caller]) (sm_pending m)\<rparr>)
           | None \<Rightarrow> (Started, m\<lparr>sm_pending := jset dm [caller] (sm_pending m)\<rparr>)))"

definition settle :: "string \<Rightarrow> thrown + string \<Rightarrow> sandbox_manager \<Rightarrow> nat list \<times> sandbox_manager" where
  "settle dm r m =
     (case jget (sm_pending m) dm of
        None \<Rightarrow> ([], m)
      | Some cs \<Rightarrow>
          (cs, m\<lparr>sm_sandboxes := (case r of Inr sid \<Rightarrow> jset dm sid (sm_sandboxes m) | Inl _ \<Rightarrow> sm_sandboxes m),
                 sm_pending := jdel dm (sm_pending m)\<rparr>))"

definition manager_evict :: "string \<Rightarrow> sandbox_manager \<Rightarrow> sandbox_manager" where
  "manager_evict dm m = m\<lparr>sm_sandboxes := jdel dm (sm_sandboxes m)\<rparr>"

text \<open>\<open>pause\<close> and \<open>kill\<close> take the sandbox out of the cache before anything else; the rest is asynchronous.\<close>

definition manager_pause :: "e2b_service \<Rightarrow> string \<Rightarrow> sandbox_manager \<Rightarrow> unit act \<times> sandbox_manager" where
  "manager_pause S dm m =
     (case jget (sm_sandboxes m) dm of
        None \<Rightarrow> (return_act (), m)
      | Some sid \<Rightarrow>
          (catch_act (then_act (pause_call S sid) (\<lambda>paused. updateSandbox_call S dm sid SbPaused))
             (\<lambda>_. updateSandbox_call S dm sid SbDead),
           manager_evict dm m))"

definition manager_kill :: "e2b_service \<Rightarrow> string \<Rightarrow> sandbox_manager \<Rightarrow> unit act \<times> sandbox_manager" where
  "manager_kill S dm m =
     (case jget (sm_sandboxes m) dm of
        None \<Rightarrow> (return_act (), m)
      | Some sid \<Rightarrow>
          (then_act (catch_act (kill_call S sid) (\<lambda>_. return_act ())) (\<lambda>_. updateSandbox_call S dm sid SbDead),
           manager_evict dm m))"

text \<open>The registry keeps the sessions it made, each bound to the sandbox it was made for.\<close>

record session_registry =
  rg_sessions :: "(string, string) jsmap"
  rg_manager :: sandbox_manager

text \<open>\<open>acquire\<close> answers at once from its cache or the manager's; otherwise the caller waits.\<close>

definition acquire :: "nat \<Rightarrow> string \<Rightarrow> session_registry \<Rightarrow> get_or_create \<times> session_registry" where
  "acquire caller dm r =
     (case jget (rg_sessions r) dm of
        Some sid \<Rightarrow> (Cached sid, r)
      | None \<Rightarrow>
          (case getOrCreate caller dm (rg_manager r) of
             (Cached sid, m) \<Rightarrow> (Cached sid, r\<lparr>rg_manager := m, rg_sessions := jset dm sid (rg_sessions r)\<rparr>)
           | (w, m) \<Rightarrow> (w, r\<lparr>rg_manager := m\<rparr>)))"

definition registry_settle :: "string \<Rightarrow> thrown + string \<Rightarrow> session_registry \<Rightarrow> nat list \<times> session_registry" where
  "registry_settle dm res r =
     (case settle dm res (rg_manager r) of
        (cs, m) \<Rightarrow> (cs, r\<lparr>rg_manager := m,
                          rg_sessions := (case res of Inr sid \<Rightarrow> if cs = [] then rg_sessions r else jset dm sid (rg_sessions r)
                                                    | Inl _ \<Rightarrow> rg_sessions r)\<rparr>))"

definition registry_evict :: "string \<Rightarrow> session_registry \<Rightarrow> session_registry" where
  "registry_evict dm r = r\<lparr>rg_sessions := jdel dm (rg_sessions r), rg_manager := manager_evict dm (rg_manager r)\<rparr>"

text \<open>\<open>session.pause()\<close> and \<open>session.kill()\<close>; \<open>ensureReady\<close> of a session that was cached.\<close>

definition session_pause :: "e2b_service \<Rightarrow> string \<Rightarrow> session_registry \<Rightarrow> unit act \<times> session_registry" where
  "session_pause S dm r = (case manager_pause S dm (rg_manager r) of (a, m) \<Rightarrow> (a, r\<lparr>rg_manager := m\<rparr>))"

definition session_kill :: "e2b_service \<Rightarrow> string \<Rightarrow> session_registry \<Rightarrow> unit act \<times> session_registry" where
  "session_kill S dm r = (case manager_kill S dm (rg_manager r) of (a, m) \<Rightarrow> (a, r\<lparr>rg_manager := m\<rparr>))"

definition ensureReady_cached :: "manager_setup \<Rightarrow> e2b_service \<Rightarrow> sandbox_domain \<Rightarrow> string \<Rightarrow> string act" where
  "ensureReady_cached M S d sid =
     then_act (ensureDevServerAndSyncPort (ms_parse M) S sid d) (\<lambda>_. return_act sid)"

subsection \<open>The row of a sandbox\<close>

fun plain_call :: "sb_call \<Rightarrow> bool" where
  "plain_call (CreateSandbox t md) = False"
| "plain_call (UpdateSandbox d sid st) = False"
| "plain_call (PauseSandbox sid) = False"
| "plain_call (KillSandbox sid) = False"
| "plain_call _ = True"

text \<open>The sandbox columns of a domain after the calls of a history; a failed update changes nothing.\<close>

type_synonym sandbox_row = "string option \<times> sandbox_status option"

fun row_step :: "string \<Rightarrow> sb_call \<times> bool \<Rightarrow> sandbox_row \<Rightarrow> sandbox_row" where
  "row_step dm (UpdateSandbox d sid st, True) row = (if d = dm then (Some sid, Some st) else row)"
| "row_step dm _ row = row"

definition row_after :: "string \<Rightarrow> sandbox_row \<Rightarrow> history \<Rightarrow> sandbox_row" where
  "row_after dm row h = fold (row_step dm) h row"

lemma row_step_plain: "plain_call (fst c) \<Longrightarrow> row_step dm c row = row"
  by (cases "(dm, c, row)" rule: row_step.cases) auto

lemma row_after_plain: "\<forall>c\<in>set cs. plain_call (fst c) \<Longrightarrow> row_after dm row (h @ cs) = row_after dm row h"
  unfolding row_after_def by (induction cs rule: rev_induct) (simp_all add: row_step_plain)

lemma row_after_emits:
  assumes "emits plain_call m" and "m h = (r, h1)"
  shows "row_after dm row h1 = row_after dm row h"
proof -
  obtain cs where "h1 = h @ cs" "\<forall>c\<in>set cs. plain_call (fst c)"
    using assms by (metis emits_def snd_conv)
  then show ?thesis by (simp add: row_after_plain)
qed

lemma emits_option [emits_rules]:
  "emits P a \<Longrightarrow> (\<And>x. emits P (f x)) \<Longrightarrow> emits P (case v of None \<Rightarrow> a | Some x \<Rightarrow> f x)"
  by (cases v) simp_all

lemma emits_isPortListening [emits_rules]: "emits plain_call (isPortListening S sid p)"
  unfolding isPortListening_def by (intro emits_rules) simp

lemma emits_detectAny [emits_rules]: "emits plain_call (detectAnyListeningPort S sid)"
  unfolding detectAnyListeningPort_def Let_def by (intro emits_rules) simp

lemma emits_wait [emits_rules]: "emits plain_call (wait_for_port S sid p n)"
  by (induction n) (auto intro!: emits_rules)

lemma emits_detectInstall [emits_rules]: "emits plain_call (detectInstallCommand S sid)"
  unfolding detectInstallCommand_def by (intro emits_rules) simp_all

lemma emits_runInstall [emits_rules]: "emits plain_call (runInstall S sid c)"
  unfolding runInstall_def by (intro emits_rules) simp

lemma emits_ensureDependencies [emits_rules]: "emits plain_call (ensureDependencies S sid)"
  unfolding ensureDependencies_def by (intro emits_rules) simp_all

lemma emits_patchConfigs: "emits plain_call (patchConfigs S sid ns)"
  by (induction ns) (auto simp: Let_def intro!: emits_rules)

lemma emits_sync [emits_rules]: "emits plain_call (syncWorkspaceToSandbox cwd S sid w)"
  unfolding syncWorkspaceToSandbox_def Let_def patchViteAllowedHosts_def installDependencies_def
  by (intro emits_rules emits_patchConfigs) simp_all

lemma emits_sync_if [emits_rules]: "emits plain_call (sync_if cwd S sid w)"
  unfolding sync_if_def by (intro emits_rules)

lemma emits_devServer [emits_rules]: "emits plain_call (ensureDevServer parse S sid p)"
  unfolding ensureDevServer_def by (intro emits_rules) simp_all

lemma emits_devServerAndPort [emits_rules]: "emits plain_call (ensureDevServerAndSyncPort parse S sid d)"
  unfolding ensureDevServerAndSyncPort_def by (intro emits_rules emits_call) simp_all

lemma then_act_Inr:
  "then_act m k h = (Inr y, h') \<longleftrightarrow> (\<exists>x h1. m h = (Inr x, h1) \<and> k x h1 = (Inr y, h'))"
  by (auto simp: then_act_def split: prod.splits sum.splits)

lemma updateSandbox_Inr:
  "updateSandbox_call S d sid st h = (Inr u, h') \<Longrightarrow> row_after d row h' = (Some sid, Some st)"
  by (auto simp: act_defs row_after_def)

lemma updateSandbox_row:
  "updateSandbox_call S d sid st h = (r, h') \<Longrightarrow>
     row_after d row h' = (case r of Inr _ \<Rightarrow> (Some sid, Some st) | Inl _ \<Rightarrow> row_after d row h)"
  by (auto simp: act_defs row_after_def split: sum.splits)

lemma create_sandbox_row:
  assumes "create_sandbox M S d host h = (Inr sid, h')"
  shows "row_after (sd_domain_id d) row h' = (Some sid, Some SbRunning)"
proof -
  obtain h3 h4 h5 u where "updateSandbox_call S (sd_domain_id d) sid SbRunning h3 = (Inr u, h4)"
    and "ensureDevServerAndSyncPort (ms_parse M) S sid d h4 = (Inr (), h5)" and "h' = h5"
    using assms unfolding create_sandbox_def then_act_Inr by (auto simp: return_act_def)
  then show ?thesis
    using updateSandbox_Inr row_after_emits [OF emits_devServerAndPort] by metis
qed

lemma reconnect_row:
  assumes "reconnect M S d sid host h = (Inr sid', h')"
  shows "sid' = sid \<and> row_after (sd_domain_id d) row h' =
    (if sd_sandbox_status d = Some SbRunning then row_after (sd_domain_id d) row h else (Some sid, Some SbRunning))"
proof -
  define seed where "seed = (case host of
                 None \<Rightarrow> return_act ()
               | Some w \<Rightarrow> if fst w = [] then return_act ()
                           else attempt_act (list_call S sid SANDBOX_WORKSPACE_ROOT) (\<lambda>_. return_act ())
                                  (\<lambda>_. syncWorkspaceToSandbox (ms_cwd M) S sid w))"
  have seed: "emits plain_call seed" unfolding seed_def by (intro emits_rules) simp_all
  have con: "emits plain_call (connect_call S sid)" by (intro emits_rules) simp
  obtain u h1 h2 h3 h4 where a: "connect_call S sid h = (Inr u, h1)" "seed h1 = (Inr (), h2)"
    "ensureDependencies S sid h2 = (Inr (), h3)"
    and st: "(if sd_sandbox_status d \<noteq> Some SbRunning then updateSandbox_call S (sd_domain_id d) sid SbRunning
               else return_act ()) h3 = (Inr (), h4)"
    and dev: "ensureDevServerAndSyncPort (ms_parse M) S sid d h4 = (Inr (), h')" and "sid' = sid"
    using assms unfolding reconnect_def seed_def [symmetric] then_act_Inr by (auto simp: return_act_def)
  have "row_after (sd_domain_id d) row h3 = row_after (sd_domain_id d) row h"
    using row_after_emits [OF con a(1)] row_after_emits [OF seed a(2)] row_after_emits [OF emits_ensureDependencies a(3)] by simp
  moreover have "row_after (sd_domain_id d) row h' = row_after (sd_domain_id d) row h4"
    by (rule row_after_emits [OF emits_devServerAndPort dev])
  ultimately show ?thesis
    using st updateSandbox_Inr \<open>sid' = sid\<close> by (auto simp: return_act_def split: if_splits)
qed

text \<open>
  C37. The database tells the truth about a sandbox that was handed out: if the row was read as it stands and
  resolving the domain succeeds, then afterwards the row names exactly the sandbox returned, with
  status running; whatever failed, was retried or was created on the way.
\<close>

theorem resolve_row_true:
  assumes "row_after (sd_domain_id d) row h = (sd_sandbox_id d, sd_sandbox_status d)"
    and "resolve_sandbox M S d host h = (Inr sid, h')"
  shows "row_after (sd_domain_id d) row h' = (Some sid, Some SbRunning)"
proof (cases "create_sandbox M S d host h = (Inr sid, h')")
  case True
  then show ?thesis by (rule create_sandbox_row)
next
  case False
  then obtain sid0 where s0: "sd_sandbox_id d = Some sid0" "sd_sandbox_status d \<in> {Some SbRunning, Some SbPaused}"
    and res: "attempt_act (reconnect M S d sid0 host) return_act
                 (\<lambda>err. if \<not> isSandboxDefinitelyGone (ms_texts M) err then throw_act err
                        else then_act (updateSandbox_call S (sd_domain_id d) sid0 SbDead)
                               (\<lambda>_. create_sandbox M S d host)) h = (Inr sid, h')"
    using assms(2) by (auto simp: resolve_sandbox_def split: option.splits if_splits)
  obtain r h1 where r: "reconnect M S d sid0 host h = (r, h1)" by (cases "reconnect M S d sid0 host h")
  show ?thesis
  proof (cases r)
    case (Inr x)
    then have "x = sid" "h1 = h'" using res r by (simp_all add: attempt_act_def return_act_def)
    then show ?thesis using reconnect_row [of M S d sid0 host h x h1 row] r Inr s0 assms(1) by auto
  next
    case (Inl e)
    then obtain h2 where "create_sandbox M S d host h2 = (Inr sid, h')"
      using res r by (auto simp: attempt_act_def throw_act_def then_act_Inr split: if_splits)
    then show ?thesis by (rule create_sandbox_row)
  qed
qed

subsection \<open>Replacing a sandbox\<close>

fun no_create :: "sb_call \<Rightarrow> bool" where
  "no_create (CreateSandbox t md) = False"
| "no_create _ = True"

lemma emits_weaken: "emits P m \<Longrightarrow> (\<And>c. P c \<Longrightarrow> Q c) \<Longrightarrow> emits Q m"
  unfolding emits_def by metis

lemma plain_no_create: "plain_call c \<Longrightarrow> no_create c"
  by (cases c) simp_all

lemma emits_reconnect: "emits no_create (reconnect M S d sid host)"
proof -
  note plain = emits_weaken [OF _ plain_no_create]
  show ?thesis
    unfolding reconnect_def
    by (intro emits_rules plain [OF emits_sync] plain [OF emits_ensureDependencies] plain [OF emits_devServerAndPort]) simp_all
qed

text \<open>
  A domain that has a running or paused sandbox gets another one only after reconnecting raised an error
  that says the sandbox is gone; any other error reaches the caller and leaves the row alone.
\<close>

lemma created_only_when_gone:
  assumes "sd_sandbox_id d = Some sid" and "sid \<noteq> []" and "sd_sandbox_status d \<in> {Some SbRunning, Some SbPaused}"
    and "snd (resolve_sandbox M S d host h) = h @ cs" and "(CreateSandbox t md, b) \<in> set cs"
  shows "\<exists>err h1. reconnect M S d sid host h = (Inl err, h1) \<and> isSandboxDefinitelyGone (ms_texts M) err"
proof -
  obtain r h1 where r: "reconnect M S d sid host h = (r, h1)" by (cases "reconnect M S d sid host h")
  obtain ds where ds: "h1 = h @ ds" "\<forall>c\<in>set ds. no_create (fst c)"
    using emits_reconnect r by (metis emits_def snd_conv)
  show ?thesis
  proof (rule ccontr)
    assume "\<not> ?thesis"
    then have "snd (resolve_sandbox M S d host h) = h1"
      using assms(1-3) r by (cases r) (auto simp: resolve_sandbox_def attempt_act_def return_act_def throw_act_def)
    then have "cs = ds" using assms(4) ds(1) by simp
    then show False using ds(2) assms(5) by force
  qed
qed

text \<open>
  A creation that fails after the sandbox exists leaks it: if copying the workspace throws, the caller gets the
  error, the row is left at the status creating with an empty id, nothing kills the sandbox, and
  resolving the domain again, with the row as it now stands, starts by creating another one.
\<close>

theorem failed_create_leaks:
  assumes "updateSandbox_call S (sd_domain_id d) [] SbCreating h = (Inr u, h1)"
    and "create_call S (ms_template M) (create_metadata d) h1 = (Inr sid, h2)"
    and "sync_if (ms_cwd M) S sid host h2 = (Inl e, h3)"
  shows "create_sandbox M S d host h = (Inl e, h3) \<and>
    row_after (sd_domain_id d) row h3 = (Some [], Some SbCreating) \<and>
    (\<exists>cs. h3 = h @ cs \<and> KillSandbox sid \<notin> fst ` set cs) \<and>
    resolve_sandbox M S (d\<lparr>sd_sandbox_id := Some [], sd_sandbox_status := Some SbCreating\<rparr>) host
      = create_sandbox M S (d\<lparr>sd_sandbox_id := Some [], sd_sandbox_status := Some SbCreating\<rparr>) host"
proof -
  have h1: "h1 = h @ [(UpdateSandbox (sd_domain_id d) [] SbCreating, True)]"
    and h2: "h2 = h1 @ [(CreateSandbox (ms_template M) (create_metadata d), True)]"
    using assms(1,2) by (auto simp: act_defs split: sum.splits)
  obtain cs where cs: "h3 = h2 @ cs" "\<forall>c\<in>set cs. plain_call (fst c)"
    using emits_sync_if assms(3) by (metis emits_def snd_conv)
  have "row_after (sd_domain_id d) row h3 = row_after (sd_domain_id d) row h2"
    by (rule row_after_emits [OF emits_sync_if assms(3)])
  also have "\<dots> = (Some [], Some SbCreating)" by (simp add: h2 h1 row_after_def)
  finally have "row_after (sd_domain_id d) row h3 = (Some [], Some SbCreating)" .
  moreover have "create_sandbox M S d host h = (Inl e, h3)"
    using assms by (simp add: create_sandbox_def then_act_def)
  moreover have "KillSandbox sid \<notin> fst ` set cs" using cs(2) by fastforce
  then have "\<exists>ds. h3 = h @ ds \<and> KillSandbox sid \<notin> fst ` set ds"
    unfolding cs(1) h2 h1 by (intro exI) auto
  ultimately show ?thesis by (simp add: resolve_sandbox_def)
qed

text \<open>
  The catch of \<open>pause\<close> also covers the update of the row: when only that update fails, a sandbox that was
  paused is recorded as dead, and the next resolution replaces it.
\<close>

lemma pause_recorded_as_dead:
  assumes "jget (sm_sandboxes m) dm = Some sid" and "ev_pause S h sid = Inr b"
    and "ev_updateSandbox S (h @ [(PauseSandbox sid, True)]) dm sid SbPaused = Inl e"
    and "ev_updateSandbox S (h @ [(PauseSandbox sid, True), (UpdateSandbox dm sid SbPaused, False)]) dm sid SbDead = Inr ()"
  shows "row_after dm row (snd (fst (manager_pause S dm m) h)) = (Some sid, Some SbDead)"
  using assms by (simp add: manager_pause_def act_defs row_after_def)

text \<open>
  Every error of the reconnection is judged by its words, the database's included: with a connected sandbox, one failed
  update of its row is enough to replace it.
\<close>

definition flaky_rows :: e2b_service where
  "flaky_rows = quiet_service\<lparr>ev_updateSandbox := \<lambda>h d sid st.
     if st = SbRunning \<and> sid = ''sb_old'' then Inl (ErrorObj ''relation domains does not exist'' []) else Inr ()\<rparr>"

definition demo_domain :: sandbox_domain where
  "demo_domain = \<lparr>sd_domain_id = ''d1'', sd_hostname = ''h'', sd_port = 3333, sd_sandbox_id = Some ''sb_old'',
     sd_sandbox_status = Some SbPaused, sd_is_test_env = None, sd_test_run_id = None\<rparr>"

definition demo_setup :: manager_setup where
  "demo_setup = \<lparr>ms_template = ''alive'', ms_parse = \<lambda>s. None, ms_texts = \<lparr>jt_number = \<lambda>n. [], jt_value = \<lambda>v. []\<rparr>, ms_cwd = ''/''\<rparr>"

lemma relation_error_gone: "isSandboxDefinitelyGone T (ErrorObj ''relation domains does not exist'' [])"
  by (simp add: isSandboxDefinitelyGone_def getSandboxConnectErrorMessage_def SANDBOX_GONE_MESSAGE_PATTERNS_def
      is_word_char_def starts_with_def to_lower_def is_lower_ascii_def is_upper_ascii_def is_digit_ascii_def)

lemma trim_empty [simp]: "trim [] = []"
  by (simp add: trim_def trim_start_def trim_end_def)

lemma quiet_devServer:
  "ensureDevServerAndSyncPort (\<lambda>s. None) (quiet_service\<lparr>ev_updateSandbox := f\<rparr>) sid d h
    = (Inr (), h @ [(RunCommand sid (''ss -tlnH sport = :'' @ digits (sd_port d) @ '' 2>/dev/null || true'') SANDBOX_WORKSPACE_ROOT, True),
                    (ReadPath sid (in_root ''package.json''), True)])"
  by (simp add: ensureDevServerAndSyncPort_def ensureDevServer_def isPortListening_def act_defs quiet_service_def)

lemma quiet_dependencies:
  "\<exists>cs. ensureDependencies (quiet_service\<lparr>ev_updateSandbox := f\<rparr>) sid h = (Inr (), h @ cs)"
  by (simp add: ensureDependencies_def detectInstallCommand_def act_defs quiet_service_def)

lemma database_error_replaces_sandbox:
  "fst (resolve_sandbox demo_setup flaky_rows demo_domain None []) = Inr ''sb_new'' \<and>
   (Connect ''sb_old'', True) \<in> set (snd (resolve_sandbox demo_setup flaky_rows demo_domain None []))"
proof -
  let ?S = flaky_rows
  have S: "?S = quiet_service\<lparr>ev_updateSandbox := ev_updateSandbox ?S\<rparr>" by (simp add: flaky_rows_def)
  obtain cs where dep: "ensureDependencies ?S ''sb_old'' [(Connect ''sb_old'', True)]
      = (Inr (), (Connect ''sb_old'', True) # cs)"
    using quiet_dependencies [of "ev_updateSandbox ?S" "''sb_old''" "[(Connect ''sb_old'', True)]"]
    unfolding S [symmetric] by auto
  have up: "updateSandbox_call ?S d sid st h =
      (if st = SbRunning \<and> sid = ''sb_old'' then (Inl (ErrorObj ''relation domains does not exist'' []), h @ [(UpdateSandbox d sid st, False)])
       else (Inr (), h @ [(UpdateSandbox d sid st, True)]))" for d sid st h
    by (simp add: act_defs flaky_rows_def)
  have con: "connect_call ?S sid h = (Inr (), h @ [(Connect sid, True)])"
    "create_call ?S t md h = (Inr ''sb_new'', h @ [(CreateSandbox t md, True)])" for sid t md h
    by (simp_all add: act_defs flaky_rows_def quiet_service_def)
  have d: "sd_sandbox_id demo_domain = Some ''sb_old''" "sd_sandbox_status demo_domain = Some SbPaused"
    by (simp_all add: demo_domain_def)
  have rec: "reconnect demo_setup ?S demo_domain ''sb_old'' None []
    = (Inl (ErrorObj ''relation domains does not exist'' []),
       (Connect ''sb_old'', True) # cs @ [(UpdateSandbox (sd_domain_id demo_domain) ''sb_old'' SbRunning, False)])"
    by (simp add: reconnect_def then_act_def con dep up d return_act_def)
  have parse: "ms_parse demo_setup = (\<lambda>s. None)" by (simp add: demo_setup_def)
  have dev: "\<exists>ds. ensureDevServerAndSyncPort (ms_parse demo_setup) ?S sid dd h = (Inr (), h @ ds)" for sid dd h
    using quiet_devServer [of "ev_updateSandbox ?S" sid dd h] unfolding S [symmetric] parse by blast
  have "\<exists>ds. create_sandbox demo_setup ?S demo_domain None h = (Inr ''sb_new'', h @ ds)" for h
  proof -
    let ?h = "h @ [(UpdateSandbox (sd_domain_id demo_domain) [] SbCreating, True),
      (CreateSandbox (ms_template demo_setup) (create_metadata demo_domain), True),
      (UpdateSandbox (sd_domain_id demo_domain) ''sb_new'' SbRunning, True)]"
    obtain ds where "ensureDevServerAndSyncPort (ms_parse demo_setup) ?S ''sb_new'' demo_domain ?h = (Inr (), ?h @ ds)"
      using dev by blast
    then have "create_sandbox demo_setup ?S demo_domain None h = (Inr ''sb_new'', ?h @ ds)"
      by (simp add: create_sandbox_def then_act_def sync_if_def return_act_def con up)
    then show ?thesis by simp
  qed
  then obtain ds where cr: "create_sandbox demo_setup ?S demo_domain None
      (((Connect ''sb_old'', True) # cs @ [(UpdateSandbox (sd_domain_id demo_domain) ''sb_old'' SbRunning, False)]) @
        [(UpdateSandbox (sd_domain_id demo_domain) ''sb_old'' SbDead, True)])
    = (Inr ''sb_new'', (((Connect ''sb_old'', True) # cs @ [(UpdateSandbox (sd_domain_id demo_domain) ''sb_old'' SbRunning, False)]) @
        [(UpdateSandbox (sd_domain_id demo_domain) ''sb_old'' SbDead, True)]) @ ds)" by blast
  have "resolve_sandbox demo_setup ?S demo_domain None [] = (Inr ''sb_new'',
      (((Connect ''sb_old'', True) # cs @ [(UpdateSandbox (sd_domain_id demo_domain) ''sb_old'' SbRunning, False)]) @
        [(UpdateSandbox (sd_domain_id demo_domain) ''sb_old'' SbDead, True)]) @ ds)"
    using cr by (simp add: resolve_sandbox_def d attempt_act_def rec relation_error_gone then_act_def up)
  then show ?thesis by simp
qed

subsection \<open>One resolution at a time, one answer per caller\<close>

datatype registry_event =
    Acquires nat string
  | Settles string "thrown + string"
  | Pauses string
  | Kills string
  | Evicts string

text \<open>The registry, the callers answered with their domain, and the domains of the resolutions started and ended.\<close>

record registry_run =
  rr_registry :: session_registry
  rr_answered :: "(nat \<times> string) list"
  rr_started :: "string list"
  rr_ended :: "string list"

definition new_run :: registry_run where
  "new_run = \<lparr>rr_registry = \<lparr>rg_sessions = [], rg_manager = \<lparr>sm_sandboxes = [], sm_pending = []\<rparr>\<rparr>,
     rr_answered = [], rr_started = [], rr_ended = []\<rparr>"

definition registry_event :: "e2b_service \<Rightarrow> registry_event \<Rightarrow> registry_run \<Rightarrow> registry_run" where
  "registry_event S ev x =
     (case ev of
        Acquires caller dm \<Rightarrow>
          (case acquire caller dm (rr_registry x) of
             (Cached sid, r) \<Rightarrow> x\<lparr>rr_registry := r, rr_answered := rr_answered x @ [(caller, dm)]\<rparr>
           | (Joined, r) \<Rightarrow> x\<lparr>rr_registry := r\<rparr>
           | (Started, r) \<Rightarrow> x\<lparr>rr_registry := r, rr_started := rr_started x @ [dm]\<rparr>)
      | Settles dm res \<Rightarrow>
          if jget (sm_pending (rg_manager (rr_registry x))) dm = None then x
          else (case registry_settle dm res (rr_registry x) of
                  (cs, r) \<Rightarrow> x\<lparr>rr_registry := r, rr_answered := rr_answered x @ map (\<lambda>c. (c, dm)) cs,
                                rr_ended := rr_ended x @ [dm]\<rparr>)
      | Pauses dm \<Rightarrow> x\<lparr>rr_registry := snd (session_pause S dm (rr_registry x))\<rparr>
      | Kills dm \<Rightarrow> x\<lparr>rr_registry := snd (session_kill S dm (rr_registry x))\<rparr>
      | Evicts dm \<Rightarrow> x\<lparr>rr_registry := registry_evict dm (rr_registry x)\<rparr>)"

definition pending_of :: "registry_run \<Rightarrow> (string, nat list) jsmap" where
  "pending_of x = sm_pending (rg_manager (rr_registry x))"

definition waiting_callers :: "registry_run \<Rightarrow> (nat \<times> string) multiset" where
  "waiting_callers x = jsum (\<lambda>dm cs. mset (map (\<lambda>c. (c, dm)) cs)) (pending_of x)"

fun acquirers :: "registry_event list \<Rightarrow> (nat \<times> string) multiset" where
  "acquirers [] = {#}"
| "acquirers (Acquires c dm # evs) = add_mset (c, dm) (acquirers evs)"
| "acquirers (_ # evs) = acquirers evs"

definition run_ok :: "registry_event list \<Rightarrow> registry_run \<Rightarrow> bool" where
  "run_ok evs x \<longleftrightarrow>
     jmap_ok (pending_of x) \<and>
     acquirers evs = mset (rr_answered x) + waiting_callers x \<and>
     (\<forall>dm. count_list (rr_started x) dm = count_list (rr_ended x) dm + (if jget (pending_of x) dm = None then 0 else 1))"

lemma acquirers_snoc:
  "acquirers (evs @ [ev]) = acquirers evs + (case ev of Acquires c dm \<Rightarrow> {#(c, dm)#} | _ \<Rightarrow> {#})"
  by (induction evs rule: acquirers.induct) (auto split: registry_event.splits)

lemma pending_not_key: "jget m k = None \<Longrightarrow> k \<notin> fst ` set m"
  by (auto simp: map_of_eq_None_iff)

lemma count_list_snoc [simp]: "count_list (xs @ [x]) y = count_list xs y + (if x = y then 1 else 0)"
  by (induction xs) auto

lemma run_ok_same_pending:
  "run_ok evs x \<Longrightarrow> (case ev of Acquires c dm \<Rightarrow> False | _ \<Rightarrow> True) \<Longrightarrow> pending_of y = pending_of x \<Longrightarrow>
   rr_answered y = rr_answered x \<Longrightarrow> rr_started y = rr_started x \<Longrightarrow> rr_ended y = rr_ended x \<Longrightarrow> run_ok (evs @ [ev]) y"
  by (cases ev) (simp_all add: run_ok_def waiting_callers_def acquirers_snoc)

lemma pause_kill_pending:
  "sm_pending (rg_manager (snd (session_pause S dm r))) = sm_pending (rg_manager r)"
  "sm_pending (rg_manager (snd (session_kill S dm r))) = sm_pending (rg_manager r)"
  "sm_pending (rg_manager (registry_evict dm r)) = sm_pending (rg_manager r)"
  by (simp_all add: session_pause_def session_kill_def registry_evict_def manager_pause_def manager_kill_def
      manager_evict_def split: option.splits)

lemma acquire_cases:
  obtains (Cached) sid r' where "acquire c dm r = (Cached sid, r')" "sm_pending (rg_manager r') = sm_pending (rg_manager r)"
  | (Joined) r' cs where "acquire c dm r = (Joined, r')" "jget (sm_pending (rg_manager r)) dm = Some cs"
      "sm_pending (rg_manager r') = jset dm (cs @ [c]) (sm_pending (rg_manager r))"
  | (Started) r' where "acquire c dm r = (Started, r')" "jget (sm_pending (rg_manager r)) dm = None"
      "sm_pending (rg_manager r') = jset dm [c] (sm_pending (rg_manager r))"
proof -
  consider sid where "jget (rg_sessions r) dm = Some sid"
    | sid where "jget (rg_sessions r) dm = None" "jget (sm_sandboxes (rg_manager r)) dm = Some sid"
    | cs where "jget (rg_sessions r) dm = None" "jget (sm_sandboxes (rg_manager r)) dm = None" "jget (sm_pending (rg_manager r)) dm = Some cs"
    | "jget (rg_sessions r) dm = None" "jget (sm_sandboxes (rg_manager r)) dm = None" "jget (sm_pending (rg_manager r)) dm = None"
    by fastforce
  then show ?thesis
    by cases (simp_all add: acquire_def getOrCreate_def Cached Joined Started)
qed

lemma run_ok_event:
  assumes "run_ok evs x"
  shows "run_ok (evs @ [ev]) (registry_event S ev x)"
proof (cases ev)
  case (Acquires c dm)
  have ok: "jmap_ok (pending_of x)" "acquirers evs = mset (rr_answered x) + waiting_callers x"
    and count: "\<And>d. count_list (rr_started x) d = count_list (rr_ended x) d + (if jget (pending_of x) d = None then 0 else 1)"
    using assms by (simp_all add: run_ok_def)
  show ?thesis
  proof (cases rule: acquire_cases [of c dm "rr_registry x"])
    case (Cached sid r')
    then show ?thesis using Cached ok count
      by (simp add: run_ok_def registry_event_def Acquires acquirers_snoc waiting_callers_def pending_of_def)
  next
    case (Joined r' cs)
    have "jsum (\<lambda>dm cs. mset (map (\<lambda>c. (c, dm)) cs)) (jset dm (cs @ [c]) (pending_of x)) + mset (map (\<lambda>c. (c, dm)) cs)
        = jsum (\<lambda>dm cs. mset (map (\<lambda>c. (c, dm)) cs)) (pending_of x) + mset (map (\<lambda>c. (c, dm)) (cs @ [c]))"
      by (rule jsum_jset_present) (use Joined(2) in \<open>simp add: pending_of_def\<close>)
    then have "jsum (\<lambda>dm cs. mset (map (\<lambda>c. (c, dm)) cs)) (jset dm (cs @ [c]) (pending_of x)) =
        add_mset (c, dm) (waiting_callers x)"
      by (simp add: waiting_callers_def)
    then show ?thesis using Joined ok count
      by (simp add: run_ok_def registry_event_def Acquires acquirers_snoc waiting_callers_def pending_of_def)
  next
    case (Started r')
    have "dm \<notin> fst ` set (pending_of x)" using pending_not_key Started(2) by (simp add: pending_of_def)
    then have "jsum (\<lambda>dm cs. mset (map (\<lambda>c. (c, dm)) cs)) (jset dm [c] (pending_of x)) =
        add_mset (c, dm) (waiting_callers x)"
      by (subst jsum_jset_absent) (simp_all add: waiting_callers_def)
    then show ?thesis using Started ok count
      by (simp add: run_ok_def registry_event_def Acquires acquirers_snoc waiting_callers_def pending_of_def
          del: not_None_eq map_of_eq_Some_iff)
  qed
next
  case (Settles dm res)
  show ?thesis
  proof (cases "jget (pending_of x) dm")
    case None
    then have "registry_event S ev x = x" by (simp add: registry_event_def Settles pending_of_def)
    then show ?thesis using assms Settles by (simp add: run_ok_def acquirers_snoc)
  next
    case (Some cs)
    have ok: "jmap_ok (pending_of x)" "acquirers evs = mset (rr_answered x) + waiting_callers x"
      and count: "\<And>d. count_list (rr_started x) d = count_list (rr_ended x) d + (if jget (pending_of x) d = None then 0 else 1)"
      using assms by (simp_all add: run_ok_def)
    let ?y = "registry_event S ev x"
    have y: "pending_of ?y = jdel dm (pending_of x)" "rr_answered ?y = rr_answered x @ map (\<lambda>c. (c, dm)) cs"
      "rr_started ?y = rr_started x" "rr_ended ?y = rr_ended x @ [dm]"
      using Some by (simp_all add: registry_event_def Settles registry_settle_def settle_def pending_of_def)
    have "waiting_callers ?y + mset (map (\<lambda>c. (c, dm)) cs) = waiting_callers x"
      unfolding waiting_callers_def y by (rule jsum_jdel_present [OF ok(1) Some])
    moreover have "acquirers (evs @ [ev]) = acquirers evs" by (simp add: acquirers_snoc Settles)
    ultimately show ?thesis
      using ok count Some by (simp add: run_ok_def y ac_simps del: not_None_eq map_of_eq_Some_iff)
  qed
next
  case (Pauses dm)
  then show ?thesis using assms pause_kill_pending
    by (intro run_ok_same_pending [of evs x]) (simp_all add: registry_event_def pending_of_def)
next
  case (Kills dm)
  then show ?thesis using assms pause_kill_pending
    by (intro run_ok_same_pending [of evs x]) (simp_all add: registry_event_def pending_of_def)
next
  case (Evicts dm)
  then show ?thesis using assms pause_kill_pending
    by (intro run_ok_same_pending [of evs x]) (simp_all add: registry_event_def pending_of_def)
qed

lemma run_ok_all: "run_ok evs (fold (registry_event S) evs new_run)"
proof (induction evs rule: rev_induct)
  case Nil
  show ?case by (simp add: run_ok_def new_run_def pending_of_def waiting_callers_def)
next
  case (snoc ev evs)
  then show ?case using run_ok_event by simp
qed

text \<open>
  C38. Deduplication: whatever acquires, pauses, kills, evicts and settled resolutions follow each other, every
  caller is answered exactly once or is still waiting, and for each domain at most one resolution
  is in flight: as many were started as ended, plus one while callers wait.
\<close>

theorem registry_single_flight:
  "acquirers evs = mset (rr_answered (fold (registry_event S) evs new_run)) + waiting_callers (fold (registry_event S) evs new_run) \<and>
   count_list (rr_started (fold (registry_event S) evs new_run)) dm =
     count_list (rr_ended (fold (registry_event S) evs new_run)) dm +
     (if jget (pending_of (fold (registry_event S) evs new_run)) dm = None then 0 else 1)"
  using run_ok_all [of evs S] unfolding run_ok_def by blast

text \<open>
  C39. A session outlives its sandbox: killing or pausing a session records the sandbox as dead or paused, but
  empties only the manager's cache, so the registry goes on handing out the session of the sandbox that
  was killed or paused, without a single call, and even \<open>ensureReady\<close>, when nothing answers there any more,
  returns it.
\<close>

theorem killed_session_still_acquired:
  assumes "jget (rg_sessions r) dm = Some sid" and "jget (sm_sandboxes (rg_manager r)) dm = Some sid"
    and "ev_kill S h sid = Inr ()" and "ev_updateSandbox S (h @ [(KillSandbox sid, True)]) dm sid SbDead = Inr ()"
    and "ev_pause S h sid = Inr paused" and "ev_updateSandbox S (h @ [(PauseSandbox sid, True)]) dm sid SbPaused = Inr ()"
    and "\<And>h cmd dir. ev_run S h sid cmd dir = Inl gone" and "\<And>h p. ev_read S h sid p = Inl gone"
  shows "row_after dm row (snd (fst (session_kill S dm r) h)) = (Some sid, Some SbDead) \<and>
    acquire caller dm (snd (session_kill S dm r)) = (Cached sid, snd (session_kill S dm r)) \<and>
    row_after dm row (snd (fst (session_pause S dm r) h)) = (Some sid, Some SbPaused) \<and>
    acquire caller dm (snd (session_pause S dm r)) = (Cached sid, snd (session_pause S dm r)) \<and>
    fst (ensureReady_cached M S d sid h') = Inr sid"
proof -
  have "row_after dm row (snd (fst (session_kill S dm r) h)) = (Some sid, Some SbDead)"
    using assms(2-4) by (simp add: session_kill_def manager_kill_def act_defs row_after_def)
  moreover have "acquire caller dm (snd (session_kill S dm r)) = (Cached sid, snd (session_kill S dm r))"
    using assms(1,2) by (simp add: session_kill_def manager_kill_def acquire_def)
  moreover have "row_after dm row (snd (fst (session_pause S dm r) h)) = (Some sid, Some SbPaused)"
    using assms(2,5,6) by (simp add: session_pause_def manager_pause_def act_defs row_after_def)
  moreover have "acquire caller dm (snd (session_pause S dm r)) = (Cached sid, snd (session_pause S dm r))"
    using assms(1,2) by (simp add: session_pause_def manager_pause_def acquire_def)
  moreover have "fst (ensureReady_cached M S d sid h') = Inr sid"
    by (simp add: ensureReady_cached_def ensureDevServerAndSyncPort_def ensureDevServer_def isPortListening_def
        act_defs assms(7,8))
  ultimately show ?thesis by blast
qed

text \<open>A kill while the sandbox is being resolved does nothing: the cache is still empty, and filled afterwards.\<close>

lemma kill_during_start_ignored:
  assumes "jget (sm_sandboxes m) dm = None" and "jget (sm_pending m) dm = Some cs"
  shows "manager_kill S dm m = (return_act (), m) \<and>
    jget (sm_sandboxes (snd (settle dm (Inr sid) (snd (manager_kill S dm m))))) dm = Some sid"
  using assms by (simp add: manager_kill_def settle_def)

subsection \<open>Examples\<close>

definition fresh_domain :: sandbox_domain where
  "fresh_domain = demo_domain\<lparr>sd_sandbox_id := None, sd_sandbox_status := None\<rparr>"

lemma quiet_calls:
  "updateSandbox_call quiet_service d sid st h = (Inr (), h @ [(UpdateSandbox d sid st, True)])"
  "create_call quiet_service t md h = (Inr ''sb_new'', h @ [(CreateSandbox t md, True)])"
  by (simp_all add: act_defs quiet_service_def)

lemma quiet_create: "\<exists>h'. create_sandbox demo_setup quiet_service fresh_domain None [] = (Inr ''sb_new'', h')"
proof -
  let ?h = "[(UpdateSandbox (sd_domain_id fresh_domain) [] SbCreating, True),
    (CreateSandbox (ms_template demo_setup) (create_metadata fresh_domain), True),
    (UpdateSandbox (sd_domain_id fresh_domain) ''sb_new'' SbRunning, True)]"
  have "quiet_service\<lparr>ev_updateSandbox := ev_updateSandbox quiet_service\<rparr> = quiet_service" by simp
  then obtain h' where "ensureDevServerAndSyncPort (ms_parse demo_setup) quiet_service ''sb_new'' fresh_domain ?h = (Inr (), h')"
    using quiet_devServer [of "ev_updateSandbox quiet_service" "''sb_new''" fresh_domain ?h] by (simp add: demo_setup_def)
  then have "create_sandbox demo_setup quiet_service fresh_domain None [] = (Inr ''sb_new'', h')"
    by (simp add: create_sandbox_def then_act_def sync_if_def return_act_def quiet_calls)
  then show ?thesis by blast
qed

theorem resolve_row_true_witness:
  "\<exists>h'. resolve_sandbox demo_setup quiet_service fresh_domain None [] = (Inr ''sb_new'', h') \<and>
        row_after ''d1'' (None, None) h' = (Some ''sb_new'', Some SbRunning)"
proof -
  obtain h' where "create_sandbox demo_setup quiet_service fresh_domain None [] = (Inr ''sb_new'', h')"
    using quiet_create by blast
  then have res: "resolve_sandbox demo_setup quiet_service fresh_domain None [] = (Inr ''sb_new'', h')"
    by (simp add: resolve_sandbox_def fresh_domain_def)
  have "row_after (sd_domain_id fresh_domain) (None, None) [] = (sd_sandbox_id fresh_domain, sd_sandbox_status fresh_domain)"
    by (simp add: row_after_def fresh_domain_def)
  from resolve_row_true [OF this res] res show ?thesis
    by (simp add: fresh_domain_def demo_domain_def)
qed

definition full_disk :: e2b_service where
  "full_disk = quiet_service\<lparr>ev_write := \<lambda>h sid fs. Inl (ErrorObj ''disk full'' [])\<rparr>"

definition one_file :: host_workspace where
  "one_file = (''/srv/app'', Some [Regular ''a.ts'' (Some 3) (Some ''abc'')])"

lemma one_file_collected: "collectWorkspaceFiles ''/'' ''/srv/app'' (Some [Regular ''a.ts'' (Some 3) (Some ''abc'')])
  = \<lparr>co_files = [(''/home/user/project/a.ts'', ''abc'')], co_totalBytes = 3, co_exceeded = None\<rparr>"
proof -
  have ext: "to_lower (path_extname ''a.ts'') = ''.ts''" by code_simp
  have "path_join [SANDBOX_WORKSPACE_ROOT, path_relative ''/'' ''/srv/app'' (path_join [''/srv/app'', ''a.ts''])]
      = ''/home/user/project/a.ts''" by code_simp
  then show ?thesis
    by (simp add: collectWorkspaceFiles_def Let_def ext SYNC_SKIP_EXTENSIONS_def collectFile_def
        SYNC_MAX_FILE_SIZE_BYTES_def SYNC_MAX_FILES_def SYNC_MAX_BYTES_def)
qed

theorem failed_create_leaks_witness:
  "\<exists>h3. create_sandbox demo_setup full_disk fresh_domain (Some one_file) [] = (Inl (ErrorObj ''disk full'' []), h3) \<and>
        row_after ''d1'' (None, None) h3 = (Some [], Some SbCreating) \<and> KillSandbox ''sb_new'' \<notin> fst ` set h3"
proof -
  have up: "updateSandbox_call full_disk (sd_domain_id fresh_domain) [] SbCreating []
      = (Inr (), [(UpdateSandbox (sd_domain_id fresh_domain) [] SbCreating, True)])"
    and cr: "create_call full_disk t md h = (Inr ''sb_new'', h @ [(CreateSandbox t md, True)])" for t md h
    by (simp_all add: act_defs full_disk_def quiet_service_def)
  have sy: "\<exists>h3. sync_if (ms_cwd demo_setup) full_disk ''sb_new'' (Some one_file) h = (Inl (ErrorObj ''disk full'' []), h3)" for h
    by (simp add: sync_if_def one_file_def syncWorkspaceToSandbox_def demo_setup_def one_file_collected Let_def
        act_defs full_disk_def quiet_service_def)
  obtain h3 where s: "sync_if (ms_cwd demo_setup) full_disk ''sb_new'' (Some one_file)
      ([(UpdateSandbox (sd_domain_id fresh_domain) [] SbCreating, True)] @
       [(CreateSandbox (ms_template demo_setup) (create_metadata fresh_domain), True)])
    = (Inl (ErrorObj ''disk full'' []), h3)"
    using sy by blast
  have "sd_domain_id fresh_domain = ''d1''" by (simp add: fresh_domain_def demo_domain_def)
  then show ?thesis
    using failed_create_leaks [OF up cr s, of "(None, None)"] by auto
qed

definition dead_sandbox :: e2b_service where
  "dead_sandbox = quiet_service\<lparr>ev_run := \<lambda>h sid cmd dir. Inl ThrownUndefined, ev_read := \<lambda>h sid p. Inl ThrownUndefined\<rparr>"

definition one_session :: session_registry where
  "one_session = \<lparr>rg_sessions = [(''d1'', ''sb_old'')], rg_manager = \<lparr>sm_sandboxes = [(''d1'', ''sb_old'')], sm_pending = []\<rparr>\<rparr>"

theorem killed_session_still_acquired_witness:
  "acquire 7 ''d1'' (snd (session_kill dead_sandbox ''d1'' one_session))
     = (Cached ''sb_old'', snd (session_kill dead_sandbox ''d1'' one_session)) \<and>
   acquire 7 ''d1'' (snd (session_pause dead_sandbox ''d1'' one_session))
     = (Cached ''sb_old'', snd (session_pause dead_sandbox ''d1'' one_session)) \<and>
   fst (ensureReady_cached demo_setup dead_sandbox demo_domain ''sb_old'' []) = Inr ''sb_old''"
proof -
  have "jget (rg_sessions one_session) ''d1'' = Some ''sb_old''"
    "jget (sm_sandboxes (rg_manager one_session)) ''d1'' = Some ''sb_old''"
    by (simp_all add: one_session_def)
  moreover have "ev_updateSandbox dead_sandbox ([] @ [(KillSandbox ''sb_old'', True)]) ''d1'' ''sb_old'' SbDead = Inr ()"
    "ev_kill dead_sandbox [] ''sb_old'' = Inr ()" "ev_pause dead_sandbox [] ''sb_old'' = Inr True"
    "ev_updateSandbox dead_sandbox ([] @ [(PauseSandbox ''sb_old'', True)]) ''d1'' ''sb_old'' SbPaused = Inr ()"
    "\<And>h cmd dir. ev_run dead_sandbox h ''sb_old'' cmd dir = Inl ThrownUndefined"
    "\<And>h p. ev_read dead_sandbox h ''sb_old'' p = Inl ThrownUndefined"
    by (simp_all add: dead_sandbox_def quiet_service_def)
  ultimately show ?thesis
    using killed_session_still_acquired [of one_session "''d1''" "''sb_old''" dead_sandbox "[]" True ThrownUndefined] by blast
qed

end
