(* ===== verification/E2bTools.thy ===== *)
theory E2bTools
  imports SandboxFiles ToolCommands
begin

section \<open>The E2B tools\<close>

text \<open>
  \<open>packages/sandbox/src/e2b-mcp.ts\<close>: the Read, Write, Edit, Glob, Grep and Bash tools that replace the SDK's
  own when a stream runs in a sandbox, and \<open>buildPreviewUrl\<close> of \<open>packages/shared/src/constants.ts\<close>. Line
  numbers, limits and counts are integers; timeouts are passed on and not modelled.
\<close>

datatype e2b_answer = E2bText string | E2bError string

text \<open>\<open>err instanceof Error ? err.message : String(err)\<close>.\<close>

fun thrown_text :: "js_texts \<Rightarrow> thrown \<Rightarrow> string" where
  "thrown_text T (ErrorObj m ps) = m"
| "thrown_text T err = jt_value T err"

text \<open>The error that goes to the model; the report to the error tracker is a log.\<close>

definition resolveE2bPath :: "string \<Rightarrow> string + string" where
  "resolveE2bPath filePath =
     (let resolved = (if is_absolute filePath then path_resolve [] filePath
                      else path_resolve SANDBOX_WORKSPACE_ROOT filePath)
      in if \<not> isPathWithinWorkspace resolved SANDBOX_WORKSPACE_ROOT
         then Inl (''Path must be within '' @ SANDBOX_WORKSPACE_ROOT @ ''. Got: '' @ filePath)
         else Inr resolved)"

text \<open>A tool body behind the path check, with its \<open>catch\<close>.\<close>

definition checked_tool :: "js_texts \<Rightarrow> string \<Rightarrow> string \<Rightarrow> (string \<Rightarrow> e2b_answer act) \<Rightarrow> e2b_answer act" where
  "checked_tool T filePath failed body =
     (case resolveE2bPath filePath of
        Inl e \<Rightarrow> return_act (E2bError e)
      | Inr resolved \<Rightarrow> catch_act (body resolved) (\<lambda>err. return_act (E2bError (failed @ '': '' @ thrown_text T err))))"

subsection \<open>Files\<close>

text \<open>\<open>xs.slice(i, j)\<close>.\<close>

definition js_index :: "int \<Rightarrow> nat \<Rightarrow> nat" where
  "js_index i n = (if i < 0 then nat (int n + i) else min (nat i) n)"

definition js_slice :: "int \<Rightarrow> int \<Rightarrow> 'a list \<Rightarrow> 'a list" where
  "js_slice i j xs = drop (js_index i (length xs)) (take (js_index j (length xs)) xs)"

definition formatE2bRead :: "string \<Rightarrow> int option \<Rightarrow> int option \<Rightarrow> string" where
  "formatE2bRead content offset limit =
     (let lines = split_on newline content;
          start = (case offset of None \<Rightarrow> 0 | Some k \<Rightarrow> if k = 0 then 0 else k - 1);
          cnt = (case limit of None \<Rightarrow> int (length lines) | Some k \<Rightarrow> k)
      in join_with [newline]
           (map (\<lambda>(i, line). padStart 6 (digits_int (start + int i + 1)) @ [CHR 0x09] @ line)
              (enumerate 0 (js_slice start (start + cnt) lines))))"

definition e2b_read :: "js_texts \<Rightarrow> e2b_service \<Rightarrow> string \<Rightarrow> string \<Rightarrow> int option \<Rightarrow> int option \<Rightarrow> e2b_answer act" where
  "e2b_read T S sid file_path offset limit =
     checked_tool T file_path (''Failed to read '' @ file_path)
       (\<lambda>p. then_act (read_call S sid p) (\<lambda>content. return_act (E2bText (formatE2bRead content offset limit))))"

definition e2b_write :: "js_texts \<Rightarrow> e2b_service \<Rightarrow> string \<Rightarrow> string \<Rightarrow> string \<Rightarrow> e2b_answer act" where
  "e2b_write T S sid file_path content =
     checked_tool T file_path (''Failed to write '' @ file_path)
       (\<lambda>p. then_act (write_call S sid [(p, content)]) (\<lambda>_. return_act (E2bText (''Successfully wrote to '' @ file_path))))"

definition e2bStringEdit :: "e2b_service \<Rightarrow> string \<Rightarrow> string \<Rightarrow> string \<Rightarrow> string \<Rightarrow> string \<Rightarrow> bool \<Rightarrow> e2b_answer act" where
  "e2bStringEdit S sid p displayPath oldString newString replaceAll =
     (if oldString = newString then return_act (E2bError ''old_string and new_string are the same'')
      else then_act (read_call S sid p) (\<lambda>content.
        if \<not> str_includes oldString content then return_act (E2bError (''old_string not found in '' @ p))
        else if \<not> replaceAll \<and> occurrenceCount content oldString > 1
        then return_act (E2bError (''old_string appears '' @ digits_int (occurrenceCount content oldString) @
               '' times in the file. Use replace_all or provide more context to make it unique.''))
        else let updated = (if replaceAll then js_replaceAll content oldString newString
                            else js_replace content oldString newString)
             in then_act (write_call S sid [(p, updated)])
                  (\<lambda>_. return_act (E2bText (''Successfully edited '' @ displayPath)))))"

definition e2b_edit :: "js_texts \<Rightarrow> e2b_service \<Rightarrow> string \<Rightarrow> string \<Rightarrow> string \<Rightarrow> string \<Rightarrow> bool \<Rightarrow> e2b_answer act" where
  "e2b_edit T S sid file_path old_string new_string replace_all =
     checked_tool T file_path (''Failed to edit '' @ file_path)
       (\<lambda>p. e2bStringEdit S sid p file_path old_string new_string replace_all)"

subsection \<open>Searching\<close>

text \<open>\<open>JSON.stringify\<close> of a string.\<close>

definition hex_digit :: "nat \<Rightarrow> char" where
  "hex_digit n = (if n < 10 then char_of (48 + n) else char_of (87 + n))"

definition json_escape :: "char \<Rightarrow> string" where
  "json_escape c =
     (let n = of_char c :: nat
      in if n = 0x22 then [CHR 0x5C, CHR 0x22]
         else if n = 0x5C then [CHR 0x5C, CHR 0x5C]
         else if n = 8 then [CHR 0x5C, CHR ''b'']
         else if n = 9 then [CHR 0x5C, CHR ''t'']
         else if n = 10 then [CHR 0x5C, CHR ''n'']
         else if n = 12 then [CHR 0x5C, CHR ''f'']
         else if n = 13 then [CHR 0x5C, CHR ''r'']
         else if n < 32 then [CHR 0x5C] @ ''u00'' @ [hex_digit (n div 16), hex_digit (n mod 16)]
         else [c])"

definition json_quote :: "string \<Rightarrow> string" where
  "json_quote s = [CHR 0x22] @ concat (map json_escape s) @ [CHR 0x22]"

definition e2bGlobCommand :: "string \<Rightarrow> string \<Rightarrow> string" where
  "e2bGlobCommand pattern base = ''rg --files --hidden -g '' @ json_quote pattern @ '' '' @ json_quote base"

definition e2bGrepCommand :: "string \<Rightarrow> string option \<Rightarrow> int option \<Rightarrow> string \<Rightarrow> string" where
  "e2bGrepCommand pattern include max_results base =
     (let maxResults = min (int GREP_MAX_RESULTS) (case max_results of None \<Rightarrow> int GREP_DEFAULT_MAX_RESULTS | Some k \<Rightarrow> k)
      in join_with '' ''
           ([''rg'', ''--line-number'', ''--no-heading'', ''--color'', ''never'', ''--max-count'', digits_int maxResults] @
            (case include of None \<Rightarrow> [] | Some g \<Rightarrow> if g = [] then [] else [''--glob'', json_quote g]) @
            [json_quote pattern, json_quote base]))"

definition search_answer :: "run_result \<Rightarrow> e2b_answer" where
  "search_answer r =
     (let out = trim (rr_stdout r)
      in if out = [] then E2bText ''(no matches)'' else E2bText (truncateOutput out SEARCH_OUTPUT))"

text \<open>The search tools check their base before the \<open>try\<close>, and say what failed without naming a path.\<close>

definition e2b_glob :: "js_texts \<Rightarrow> e2b_service \<Rightarrow> string \<Rightarrow> string \<Rightarrow> string option \<Rightarrow> e2b_answer act" where
  "e2b_glob T S sid pattern searchPath =
     checked_tool T (case searchPath of None \<Rightarrow> SANDBOX_WORKSPACE_ROOT | Some p \<Rightarrow> p) ''Glob failed''
       (\<lambda>base. then_act (run_call S sid (e2bGlobCommand pattern base) SANDBOX_WORKSPACE_ROOT)
                 (\<lambda>r. return_act (search_answer r)))"

definition e2b_grep :: "js_texts \<Rightarrow> e2b_service \<Rightarrow> string \<Rightarrow> string \<Rightarrow> string option \<Rightarrow> string option \<Rightarrow> int option \<Rightarrow> e2b_answer act" where
  "e2b_grep T S sid pattern searchPath include max_results =
     checked_tool T (case searchPath of None \<Rightarrow> SANDBOX_WORKSPACE_ROOT | Some p \<Rightarrow> p) ''Grep failed''
       (\<lambda>base. then_act (run_call S sid (e2bGrepCommand pattern include max_results base) SANDBOX_WORKSPACE_ROOT)
                 (\<lambda>r. return_act (search_answer r)))"

subsection \<open>Commands\<close>

definition domainToPreviewLabel :: "string \<Rightarrow> string" where
  "domainToPreviewLabel d = map (\<lambda>c. if c = CHR ''.'' then CHR ''-'' else c) d"

definition buildPreviewUrl :: "string \<Rightarrow> string \<Rightarrow> string \<Rightarrow> string" where
  "buildPreviewUrl hostname previewBase p =
     ''https://preview--'' @ domainToPreviewLabel hostname @ ''.'' @ previewBase @
     (if starts_with ''/'' p then p else ''/'' @ p)"

text \<open>A match of the pattern for ports at the front of a string: two digits decide it.\<close>

definition two_digits :: "string \<Rightarrow> bool" where
  "two_digits s \<longleftrightarrow> length s \<ge> 2 \<and> list_all is_digit_ascii (take 2 s)"

definition port_here :: "string \<Rightarrow> bool" where
  "port_here s \<longleftrightarrow>
     list_ex (\<lambda>host. starts_with host (to_lower s) \<and> two_digits (drop (length host) s))
       [''localhost:'', ''127.0.0.1:'', ''0.0.0.0:''] \<or>
     (starts_with ''port'' (to_lower s) \<and> drop 4 s \<noteq> [] \<and> is_ws (hd (drop 4 s)) \<and>
      two_digits (dropWhile is_ws (drop 4 s)))"

fun mentions_port :: "string \<Rightarrow> bool" where
  "mentions_port [] = False"
| "mentions_port (c # cs) = (port_here (c # cs) \<or> mentions_port cs)"

text \<open>The dash in the appended sentence is not an ASCII character; it is written as a hyphen here.\<close>

definition appendPortUrls :: "string \<Rightarrow> string \<Rightarrow> string \<Rightarrow> string" where
  "appendPortUrls out hostname previewBase =
     (if \<not> mentions_port out then out
      else out @ [newline, newline] @ ''Preview: '' @ buildPreviewUrl hostname previewBase ''/'' @ [newline] @
           ''Share this URL with visitors - NOT localhost.'')"

definition bash_output :: "run_result \<Rightarrow> string" where
  "bash_output r =
     (let out1 = rr_stdout r;
          out2 = (if rr_stderr r = [] then out1 else out1 @ (if out1 = [] then [] else [newline]) @ rr_stderr r);
          out3 = (if rr_exitCode r \<noteq> 0 then out2 @ [newline] @ ''Exit code: '' @ digits_int (rr_exitCode r) else out2)
      in if out3 = [] then ''(no output)'' else out3)"

definition e2b_bash :: "js_texts \<Rightarrow> e2b_service \<Rightarrow> string \<Rightarrow> string \<Rightarrow> string \<Rightarrow> string \<Rightarrow> bool \<Rightarrow> e2b_answer act" where
  "e2b_bash T S sid hostname previewBase command background =
     catch_act
       (if background
        then then_act (start_call S sid command SANDBOX_WORKSPACE_ROOT [])
               (\<lambda>pid. return_act (E2bText (''Background process started (PID: '' @ digits_int pid @ '')'')))
        else then_act (run_call S sid command SANDBOX_WORKSPACE_ROOT)
               (\<lambda>r. return_act (E2bText (appendPortUrls (truncateOutput (bash_output r) BASH_OUTPUT) hostname previewBase))))
       (\<lambda>err. return_act (E2bError (''Command failed: '' @ thrown_text T err)))"

subsection \<open>What the tools send to the sandbox\<close>

text \<open>A path the tools let through is its own segments, at or below the workspace root.\<close>

lemma e2b_path_inside:
  assumes "resolveE2bPath p = Inr q"
  shows "inside_root q"
proof -
  have root: "SANDBOX_WORKSPACE_ROOT = path_resolve ''/'' SANDBOX_WORKSPACE_ROOT"
    by code_simp
  have segs: "resolve_segs ''/'' SANDBOX_WORKSPACE_ROOT = root_segs" by code_simp
  define cwd where "cwd = (if is_absolute p then [] else SANDBOX_WORKSPACE_ROOT)"
  have q: "q = path_resolve cwd p" and "isPathWithinWorkspace (path_resolve cwd p) SANDBOX_WORKSPACE_ROOT"
    using assms by (auto simp: resolveE2bPath_def Let_def cwd_def split: if_splits)
  then have "prefix root_segs (resolve_segs cwd p)"
    using within_resolved [of cwd p "''/''" SANDBOX_WORKSPACE_ROOT] root segs by simp
  moreover have "resolve_segs ''/'' q = resolve_segs cwd p"
    using resolve_rendered [of "resolve_segs cwd p" False] by (auto simp: q path_resolve_def dest: resolve_segs_clean)
  ultimately show ?thesis by (simp add: inside_root_def)
qed

lemma emits_checked:
  assumes "\<And>q. resolveE2bPath p = Inr q \<Longrightarrow> emits P (body q)"
  shows "emits P (checked_tool T p failed body)"
proof (cases "resolveE2bPath p")
  case (Inl e)
  then show ?thesis by (simp add: checked_tool_def emits_return)
next
  case (Inr q)
  then have "checked_tool T p failed body = catch_act (body q) (\<lambda>err. return_act (E2bError (failed @ '': '' @ thrown_text T err)))"
    by (simp add: checked_tool_def)
  then show ?thesis using assms [OF Inr] by (simp add: emits_catch emits_return)
qed

lemma emits_stringEdit:
  assumes "P (ReadPath sid q)" and "\<And>c. P (WriteFiles sid [(q, c)])"
  shows "emits P (e2bStringEdit S sid q d old new all)"
  unfolding e2bStringEdit_def Let_def by (intro emits_rules assms)

text \<open>
  The file tools of a sandbox stream reach only the workspace: whatever path, content, strings and numbers
  the model passes, every read and write that Read, Write and Edit send names a path that resolves
  inside the root, and a path outside is answered with an error and no call.
\<close>

theorem e2b_files_confined:
  "emits call_inside (e2b_read T S sid p offset limit) \<and>
   emits call_inside (e2b_write T S sid p content) \<and>
   emits call_inside (e2b_edit T S sid p old new all) \<and>
   (resolveE2bPath p = Inl e \<longrightarrow> e2b_write T S sid p content h = (Inr (E2bError e), h))"
proof (intro conjI impI)
  show "emits call_inside (e2b_read T S sid p offset limit)"
    unfolding e2b_read_def by (intro emits_checked emits_rules) (simp add: e2b_path_inside)
  show "emits call_inside (e2b_write T S sid p content)"
    unfolding e2b_write_def by (intro emits_checked emits_rules) (simp add: e2b_path_inside)
  show "emits call_inside (e2b_edit T S sid p old new all)"
    unfolding e2b_edit_def by (intro emits_checked emits_stringEdit) (simp_all add: e2b_path_inside)
  show "e2b_write T S sid p content h = (Inr (E2bError e), h)" if "resolveE2bPath p = Inl e"
    using that by (simp add: e2b_write_def checked_tool_def return_act_def)
qed

theorem e2b_files_confined_witness:
  "e2b_write \<lparr>jt_number = \<lambda>n. [], jt_value = \<lambda>v. []\<rparr> quiet_service ''sb'' ''/home/user/project/../.ssh/key'' ''x'' [] =
     (Inr (E2bError ''Path must be within /home/user/project. Got: /home/user/project/../.ssh/key''), [])"
proof -
  have "resolveE2bPath ''/home/user/project/../.ssh/key'' =
      Inl ''Path must be within /home/user/project. Got: /home/user/project/../.ssh/key''"
    by code_simp
  then show ?thesis using e2b_files_confined by blast
qed

text \<open>
  C40. The two Edit tools agree on the strings they are given. Let both be past their checks of the path,
  let both reads give the same text, and let both writes succeed. Then the Edit of a sandbox writes exactly
  the text the Edit of a local workspace writes when that one succeeds, and when the local one refuses the
  strings, neither writes anything. The checks of the path themselves differ: the local tool follows the
  symbolic links and refuses a path that leaves the workspace, the sandbox tool looks at the text of the path.
\<close>

theorem e2b_edit_as_local:
  assumes "ev_read S h sid q = Inr content" and "ev_write S (h @ [(ReadPath sid q, True)]) sid [(q, updated)] = Inr ()"
    and "assertExistingFilePath fs p base = Inr r" and "fs_readFile fs (render_path r) = Inr content"
    and "fs_writeFile fs (render_path r) updated = (Inr (), fs')"
    and "updated = (if every then js_replaceAll content old new else js_replace content old new)"
  shows "(fst (performStringEdit fs p old new every base) = TextResult (''Successfully edited '' @ p) \<longrightarrow>
      performStringEdit fs p old new every base = (TextResult (''Successfully edited '' @ p), fs') \<and>
      e2bStringEdit S sid q p old new every h =
        (Inr (E2bText (''Successfully edited '' @ p)), h @ [(ReadPath sid q, True), (WriteFiles sid [(q, updated)], True)])) \<and>
    (fst (performStringEdit fs p old new every base) \<noteq> TextResult (''Successfully edited '' @ p) \<longrightarrow>
      snd (performStringEdit fs p old new every base) = fs \<and>
      (\<exists>e. fst (e2bStringEdit S sid q p old new every h) = Inr (E2bError e)) \<and>
      list_all (\<lambda>c. c = (ReadPath sid q, True)) (drop (length h) (snd (e2bStringEdit S sid q p old new every h))))"
proof -
  consider "old = new" | "old \<noteq> new" "\<not> str_includes old content"
    | "old \<noteq> new" "str_includes old content" "\<not> every \<and> occurrenceCount content old > 1"
    | "old \<noteq> new" "str_includes old content" "\<not> (\<not> every \<and> occurrenceCount content old > 1)" by blast
  then show ?thesis
  proof cases
    case 1
    then show ?thesis by (simp add: performStringEdit_def e2bStringEdit_def act_defs)
  next
    case 2
    then show ?thesis using assms(1,3,4) by (simp add: performStringEdit_def e2bStringEdit_def act_defs)
  next
    case 3
    then show ?thesis using assms(1,3,4) by (simp add: performStringEdit_def e2bStringEdit_def act_defs)
  next
    case 4
    then have "performStringEdit fs p old new every base = (TextResult (''Successfully edited '' @ p), fs')"
      using assms(3-5) by (simp only: performStringEdit_def assms(6) [symmetric] Let_def if_False sum.case prod.case not_True_eq_False)
    moreover have "e2bStringEdit S sid q p old new every h =
        (Inr (E2bText (''Successfully edited '' @ p)), h @ [(ReadPath sid q, True), (WriteFiles sid [(q, updated)], True)])"
    proof (cases every)
      case True
      then have "updated = js_replaceAll content old new" using assms(6) by simp
      then show ?thesis using 4 True assms(1,2) by (simp add: e2bStringEdit_def Let_def act_defs)
    next
      case False
      then have "updated = js_replace content old new" using assms(6) by simp
      then show ?thesis using 4 False assms(1,2) by (simp add: e2bStringEdit_def Let_def act_defs)
    qed
    ultimately show ?thesis by simp
  qed
qed

subsection \<open>Where the tools surprise\<close>

text \<open>
  The command substitutions a POSIX shell performs in a command line: a dollar and a parenthesis, also
  between double quotes, unless a backslash precedes; none between single quotes. Up to the next
  closing parenthesis.
\<close>

datatype quoting = Unquoted | InDouble | InSingle

fun substitutions :: "quoting \<Rightarrow> string \<Rightarrow> string list" where
  "substitutions q (c # d # cs) =
     (if q = InSingle then substitutions (if c = CHR 0x27 then Unquoted else q) (d # cs)
      else if c = CHR 0x5C then substitutions q cs
      else if c = CHR ''$'' \<and> d = CHR ''('' then takeWhile (\<lambda>x. x \<noteq> CHR '')'') cs # substitutions q cs
      else if c = CHR 0x22 then substitutions (if q = InDouble then Unquoted else InDouble) (d # cs)
      else if c = CHR 0x27 \<and> q = Unquoted then substitutions InSingle (d # cs)
      else substitutions q (d # cs))"
| "substitutions q cs = []"

text \<open>
  Quoting by \<open>JSON.stringify\<close> is no protection from the shell: a search pattern with a substitution is run as a
  command by Glob, a tool that only reads.
\<close>

lemma glob_pattern_is_executed:
  "substitutions Unquoted (e2bGlobCommand ''$(touch x)'' SANDBOX_WORKSPACE_ROOT) = [''touch x''] \<and>
   substitutions Unquoted (e2bGrepCommand ''$(touch x)'' None None SANDBOX_WORKSPACE_ROOT) = [''touch x'']"
proof -
  have "e2bGlobCommand ''$(touch x)'' SANDBOX_WORKSPACE_ROOT =
      ''rg --files --hidden -g '' @ [CHR 0x22] @ ''$(touch x)'' @ [CHR 0x22] @ '' '' @ [CHR 0x22] @ ''/home/user/project'' @ [CHR 0x22]"
    by (simp add: e2bGlobCommand_def json_quote_def json_escape_def SANDBOX_WORKSPACE_ROOT_def)
  moreover have "digits_int 50 = ''50''" by code_simp
  then have "e2bGrepCommand ''$(touch x)'' None None SANDBOX_WORKSPACE_ROOT =
      ''rg --line-number --no-heading --color never --max-count 50 '' @ [CHR 0x22] @ ''$(touch x)'' @ [CHR 0x22] @ '' '' @
      [CHR 0x22] @ ''/home/user/project'' @ [CHR 0x22]"
    by (simp add: e2bGrepCommand_def json_quote_def json_escape_def SANDBOX_WORKSPACE_ROOT_def
        GREP_MAX_RESULTS_def GREP_DEFAULT_MAX_RESULTS_def)
  ultimately show ?thesis by simp
qed

text \<open>Without a limit Read shows every line, although it announces a default limit.\<close>

lemma e2b_read_unlimited:
  "formatE2bRead content None None = join_with [newline]
     (map (\<lambda>(i, line). padStart 6 (digits (i + 1)) @ [CHR 0x09] @ line) (enumerate 0 (split_on newline content)))"
proof -
  have "digits_int (int i + 1) = digits (i + 1)" for i by (simp add: digits_int_def nat_add_distrib)
  then show ?thesis by (simp add: formatE2bRead_def Let_def js_slice_def js_index_def)
qed

text \<open>Any word that ends in port, before a number, counts as a server's port.\<close>

lemma report_counts_as_port: "mentions_port ''report 10 issues'' \<and> \<not> mentions_port ''10 issues''"
  by code_simp

definition config_service :: e2b_service where
  "config_service = quiet_service\<lparr>ev_read := \<lambda>h sid p. Inr ''n=1''\<rparr>"

definition config_fs :: fs where
  "config_fs = [[''srv''] \<mapsto> FsDir, [''srv'', ''s''] \<mapsto> FsDir, [''srv'', ''s'', ''x''] \<mapsto> FsFile ''n=1'']"

theorem e2b_edit_as_local_witness:
  "e2bStringEdit config_service ''sb'' ''/home/user/project/x'' ''x'' ''=1'' ''=2'' False [] =
     (Inr (E2bText ''Successfully edited x''),
      [(ReadPath ''sb'' ''/home/user/project/x'', True), (WriteFiles ''sb'' [(''/home/user/project/x'', ''n=2'')], True)])"
proof -
  have a: "assertExistingFilePath config_fs ''x'' ''/srv/s'' = Inr [''srv'', ''s'', ''x'']" by code_simp
  have r: "fs_readFile config_fs (render_path [''srv'', ''s'', ''x'']) = Inr ''n=1''" by code_simp
  have "fst (fs_writeFile config_fs (render_path [''srv'', ''s'', ''x'']) ''n=2'') = Inr ()" by code_simp
  then obtain fs' where w: "fs_writeFile config_fs (render_path [''srv'', ''s'', ''x'']) ''n=2'' = (Inr (), fs')"
    by (metis prod.collapse)
  have u: "''n=2'' = (if False then js_replaceAll ''n=1'' ''=1'' ''=2'' else js_replace ''n=1'' ''=1'' ''=2'')" by code_simp
  have local: "fst (performStringEdit config_fs ''x'' ''=1'' ''=2'' False ''/srv/s'') = TextResult (''Successfully edited '' @ ''x'')"
    by code_simp
  have sr: "ev_read config_service [] ''sb'' ''/home/user/project/x'' = Inr ''n=1''"
    and sw: "ev_write config_service ([] @ [(ReadPath ''sb'' ''/home/user/project/x'', True)]) ''sb''
      [(''/home/user/project/x'', ''n=2'')] = Inr ()"
    by (simp_all add: config_service_def quiet_service_def)
  show ?thesis
    using e2b_edit_as_local [OF sr sw a r w u] local by simp
qed

end
