(* ===== verification/LoginLimit.thy ===== *)
theory LoginLimit
  imports Prelude
begin

section \<open>Rate limits and the login route\<close>

text \<open>
  \<open>apps/web/lib/auth/rate-limiter.ts\<close>, \<open>apps/web/lib/auth/client-identifier.ts\<close> and the part of
  \<open>apps/web/app/api/login/route.ts\<close> that guards the password check. Times are milliseconds. The
  password check and the user table are what the route is told at its end, for it waits for them.
\<close>

subsection \<open>The limiter\<close>

record limit_entry =
  le_attempts :: nat
  le_firstAttempt :: int
  le_lastAttempt :: int
  le_blockedUntil :: "int option"

type_synonym limiter = "(string, limit_entry) jsmap"

record limit_config =
  lc_maxAttempts :: nat
  lc_windowMs :: int
  lc_blockDurationMs :: int

definition DEFAULT_WINDOW_MS :: int where
  "DEFAULT_WINDOW_MS = 15 * 60 * 1000"

definition DEFAULT_BLOCK_MS :: int where
  "DEFAULT_BLOCK_MS = 15 * 60 * 1000"

definition new_RateLimiter :: "nat option \<Rightarrow> int option \<Rightarrow> int option \<Rightarrow> limit_config" where
  "new_RateLimiter maxAttempts windowMs blockDurationMs =
     \<lparr>lc_maxAttempts = (case maxAttempts of None \<Rightarrow> 5 | Some k \<Rightarrow> k),
      lc_windowMs = (case windowMs of None \<Rightarrow> DEFAULT_WINDOW_MS | Some k \<Rightarrow> k),
      lc_blockDurationMs = (case blockDurationMs of None \<Rightarrow> DEFAULT_BLOCK_MS | Some k \<Rightarrow> k)\<rparr>"

definition loginRateLimiter :: limit_config where
  "loginRateLimiter = new_RateLimiter (Some 5) (Some DEFAULT_WINDOW_MS) (Some DEFAULT_BLOCK_MS)"

definition isRateLimited :: "limit_config \<Rightarrow> int \<Rightarrow> string \<Rightarrow> limiter \<Rightarrow> bool \<times> limiter" where
  "isRateLimited c now identifier L =
     (case jget L identifier of
        None \<Rightarrow> (False, L)
      | Some e \<Rightarrow>
          if (case le_blockedUntil e of None \<Rightarrow> False | Some b \<Rightarrow> b \<noteq> 0 \<and> b > now) then (True, L)
          else if now - le_firstAttempt e > lc_windowMs c then (False, jdel identifier L)
          else (le_attempts e \<ge> lc_maxAttempts c, L))"

definition recordFailedAttempt :: "limit_config \<Rightarrow> int \<Rightarrow> string \<Rightarrow> limiter \<Rightarrow> limiter" where
  "recordFailedAttempt c now identifier L =
     (let fresh = \<lparr>le_attempts = 1, le_firstAttempt = now, le_lastAttempt = now, le_blockedUntil = None\<rparr>
      in case jget L identifier of
           None \<Rightarrow> jset identifier fresh L
         | Some e \<Rightarrow>
             if now - le_firstAttempt e > lc_windowMs c then jset identifier fresh L
             else jset identifier
                    (e\<lparr>le_attempts := le_attempts e + 1, le_lastAttempt := now,
                       le_blockedUntil := (if le_attempts e + 1 \<ge> lc_maxAttempts c then Some (now + lc_blockDurationMs c)
                                           else le_blockedUntil e)\<rparr>) L)"

definition reset_limit :: "string \<Rightarrow> limiter \<Rightarrow> limiter" where
  "reset_limit identifier L = jdel identifier L"

definition getBlockedTimeRemaining :: "int \<Rightarrow> string \<Rightarrow> limiter \<Rightarrow> int" where
  "getBlockedTimeRemaining now identifier L =
     (case jget L identifier of
        None \<Rightarrow> 0
      | Some e \<Rightarrow> (case le_blockedUntil e of None \<Rightarrow> 0 | Some b \<Rightarrow> if b = 0 then 0 else max 0 (b - now)))"

definition cleanup_limits :: "limit_config \<Rightarrow> int \<Rightarrow> limiter \<Rightarrow> limiter" where
  "cleanup_limits c now L = filter (\<lambda>(k, e). \<not> now - le_lastAttempt e > lc_windowMs c * 2) L"

subsection \<open>The login route\<close>

text \<open>The address of a client, from the headers of its request; the first usable part of \<open>X-Forwarded-For\<close>.\<close>

record ip_headers =
  ih_forwardedFor :: "string option"
  ih_cfConnectingIp :: "string option"
  ih_realIp :: "string option"

definition usable_header :: "string option \<Rightarrow> string option" where
  "usable_header v = (case v of None \<Rightarrow> None | Some s \<Rightarrow> if trim s = [] then None else Some (trim s))"

definition extractClientIp :: "ip_headers \<Rightarrow> string" where
  "extractClientIp h =
     (let forwarded = (case ih_forwardedFor h of
                         None \<Rightarrow> None
                       | Some s \<Rightarrow> if s = [] then None
                                   else find (\<lambda>p. p \<noteq> [] \<and> to_lower p \<noteq> ''unknown'') (map trim (split_on (CHR '','') s)))
      in case forwarded of
           Some ip \<Rightarrow> ip
         | None \<Rightarrow> (case usable_header (ih_cfConnectingIp h) of
                      Some ip \<Rightarrow> ip
                    | None \<Rightarrow> (case usable_header (ih_realIp h) of Some ip \<Rightarrow> ip | None \<Rightarrow> ''unknown'')))"

definition getClientIdentifier :: "ip_headers \<Rightarrow> string \<Rightarrow> string" where
  "getClientIdentifier h namespace = namespace @ '':'' @ extractClientIp h"

definition emailIdOf :: "string \<Rightarrow> string" where
  "emailIdOf email = ''login:email:'' @ email"

text \<open>The two identifiers of an attempt: the address, unless it is unknown, and the email.\<close>

definition login_ids :: "ip_headers \<Rightarrow> string \<Rightarrow> string option \<times> string" where
  "login_ids h email =
     (let ip = getClientIdentifier h ''login:ip''
      in (if ends_with '':unknown'' ip then None else Some ip, emailIdOf email))"

datatype login_start = TooManyRequests int | Proceeds

text \<open>The email is asked about only when the address is not limited.\<close>

definition loginBegin :: "limit_config \<Rightarrow> int \<Rightarrow> ip_headers \<Rightarrow> string \<Rightarrow> limiter \<Rightarrow> login_start \<times> limiter" where
  "loginBegin c now h email L =
     (case login_ids h email of (ipId, emailId) \<Rightarrow>
        let (ipLimited, L1) = (case ipId of None \<Rightarrow> (False, L) | Some i \<Rightarrow> isRateLimited c now i L);
            (limited, L2) = (if ipLimited then (True, L1) else isRateLimited c now emailId L1)
        in if limited
           then let blockedTime = max (case ipId of None \<Rightarrow> 0 | Some i \<Rightarrow> getBlockedTimeRemaining now i L2)
                                      (getBlockedTimeRemaining now emailId L2)
                in (TooManyRequests (max 1 ((blockedTime + 59999) div 60000)), L2)
           else (Proceeds, L2))"

definition failLogin :: "limit_config \<Rightarrow> int \<Rightarrow> ip_headers \<Rightarrow> string \<Rightarrow> limiter \<Rightarrow> limiter" where
  "failLogin c now h email L =
     (case login_ids h email of (ipId, emailId) \<Rightarrow>
        recordFailedAttempt c now emailId (case ipId of None \<Rightarrow> L | Some i \<Rightarrow> recordFailedAttempt c now i L))"

definition loginReset :: "ip_headers \<Rightarrow> string \<Rightarrow> limiter \<Rightarrow> limiter" where
  "loginReset h email L =
     (case login_ids h email of (ipId, emailId) \<Rightarrow>
        reset_limit emailId (case ipId of None \<Rightarrow> L | Some i \<Rightarrow> reset_limit i L))"

text \<open>\<open>valid\<close>: the user exists, has a password and it matches.\<close>

definition loginEnd :: "limit_config \<Rightarrow> int \<Rightarrow> ip_headers \<Rightarrow> string \<Rightarrow> bool \<Rightarrow> limiter \<Rightarrow> limiter" where
  "loginEnd c now h email valid L = (if valid then loginReset h email L else failLogin c now h email L)"

subsection \<open>How many attempts get through\<close>

text \<open>
  One identifier over time, with the failed attempts that passed the check, newest first. An
  \<open>Attempt\<close> is a check and, when it passes, the record of its failure, at a later time and with no
  other attempt of the identifier between. A \<open>Look\<close> is a check that no record follows, as for an
  address when the email is limited. A \<open>Sweep\<close> is the cleanup. Operations on other identifiers leave
  the entry alone (\<open>isRateLimited_other\<close>, \<open>recordFailedAttempt_other\<close>).
\<close>

datatype guard_event = Attempt int int | Look int | Sweep int

fun event_ok :: "int \<Rightarrow> guard_event \<Rightarrow> bool" where
  "event_ok now (Attempt t u) = (now \<le> t \<and> t \<le> u)"
| "event_ok now (Look t) = (now \<le> t)"
| "event_ok now (Sweep t) = (now \<le> t)"

fun event_time :: "guard_event \<Rightarrow> int" where
  "event_time (Attempt t u) = u"
| "event_time (Look t) = t"
| "event_time (Sweep t) = t"

fun limit_event :: "limit_config \<Rightarrow> string \<Rightarrow> guard_event \<Rightarrow> limiter \<times> int list \<Rightarrow> limiter \<times> int list" where
  "limit_event c i (Attempt t u) (L, ts) =
     (case isRateLimited c t i L of
        (True, L1) \<Rightarrow> (L1, ts)
      | (False, L1) \<Rightarrow> (recordFailedAttempt c u i L1, u # ts))"
| "limit_event c i (Look t) (L, ts) = (snd (isRateLimited c t i L), ts)"
| "limit_event c i (Sweep t) (L, ts) = (cleanup_limits c t L, ts)"

fun limit_run :: "limit_config \<Rightarrow> string \<Rightarrow> int \<Rightarrow> guard_event list \<Rightarrow> limiter \<times> int list \<Rightarrow> (limiter \<times> int list) option" where
  "limit_run c i now [] s = Some s"
| "limit_run c i now (ev # evs) s =
     (if event_ok now ev then limit_run c i (event_time ev) evs (limit_event c i ev s) else None)"

text \<open>
  The attempts fall into windows, the newest first. A window holds at most the maximum; its first
  attempt lies more than a window's length after the first attempt of the window before, and at
  least a block's length after the last one when that window was full.
\<close>

fun windows_ok :: "nat \<Rightarrow> int \<Rightarrow> int \<Rightarrow> int list list \<Rightarrow> bool" where
  "windows_ok m W B [] \<longleftrightarrow> True"
| "windows_ok m W B [w] \<longleftrightarrow> w \<noteq> [] \<and> length w \<le> m"
| "windows_ok m W B (w # v # ws) \<longleftrightarrow> w \<noteq> [] \<and> length w \<le> m \<and> last w > last v + W \<and>
     (length v = m \<longrightarrow> last w \<ge> hd v + B) \<and> windows_ok m W B (v # ws)"

text \<open>The entry of the identifier describes the newest window; without an entry a new window may begin.\<close>

definition describes :: "limit_config \<Rightarrow> int \<Rightarrow> int list list \<Rightarrow> limit_entry option \<Rightarrow> bool" where
  "describes c now ws en \<longleftrightarrow>
     (case en of
        Some e \<Rightarrow> ws \<noteq> [] \<and> le_attempts e = length (hd ws) \<and> le_firstAttempt e = last (hd ws) \<and> le_lastAttempt e = hd (hd ws) \<and>
          (length (hd ws) = lc_maxAttempts c \<longrightarrow> le_blockedUntil e = Some (hd (hd ws) + lc_blockDurationMs c))
      | None \<Rightarrow> ws = [] \<or> (now > last (hd ws) + lc_windowMs c \<and>
          (length (hd ws) = lc_maxAttempts c \<longrightarrow> now \<ge> hd (hd ws) + lc_blockDurationMs c)))"

definition limit_inv :: "limit_config \<Rightarrow> string \<Rightarrow> int \<Rightarrow> limiter \<times> int list \<Rightarrow> bool" where
  "limit_inv c i now s \<longleftrightarrow> jmap_ok (fst s) \<and>
     (\<exists>ws. snd s = concat ws \<and> windows_ok (lc_maxAttempts c) (lc_windowMs c) (lc_blockDurationMs c) ws \<and>
       sorted (rev (snd s)) \<and> (\<forall>t\<in>set (snd s). t \<le> now) \<and> describes c now ws (jget (fst s) i))"

definition sane_limits :: "limit_config \<Rightarrow> bool" where
  "sane_limits c \<longleftrightarrow> lc_maxAttempts c \<ge> 2 \<and> 0 \<le> lc_blockDurationMs c \<and> lc_blockDurationMs c \<le> 2 * lc_windowMs c"

lemma windows_Cons: "windows_ok m W B (w # ws) \<Longrightarrow> w \<noteq> [] \<and> length w \<le> m \<and> windows_ok m W B ws"
  by (cases ws) simp_all

lemma windows_drop:
  "windows_ok m W B ws \<Longrightarrow> i < length (concat ws) \<Longrightarrow> \<exists>vs. concat vs = drop i (concat ws) \<and> windows_ok m W B vs"
proof (induction ws arbitrary: i)
  case (Cons w ws)
  have w: "w \<noteq> []" "length w \<le> m" "windows_ok m W B ws" using windows_Cons [OF Cons.prems(1)] by simp_all
  show ?case
  proof (cases "i < length w")
    case True
    then have "windows_ok m W B (drop i w # ws)"
      using Cons.prems(1) w by (cases ws) auto
    then show ?thesis using True by (intro exI [of _ "drop i w # ws"]) simp
  next
    case False
    have "i < length w + length (concat ws)" using Cons.prems(2) by simp
    then have "i - length w < length (concat ws)" using False by linarith
    then obtain vs where "concat vs = drop (i - length w) (concat ws)" "windows_ok m W B vs"
      using Cons.IH [OF w(3)] by blast
    then show ?thesis using False by (intro exI [of _ vs]) simp
  qed
qed simp

lemma sorted_desc_nth:
  assumes "sorted (rev xs)" and "i \<le> j" and "j < length xs"
  shows "xs ! j \<le> (xs ! i :: int)"
proof -
  have "rev xs ! (length xs - Suc j) \<le> rev xs ! (length xs - Suc i)"
    by (rule sorted_nth_mono [OF assms(1)]) (use assms in simp_all)
  then show ?thesis using assms by (simp add: rev_nth)
qed

lemma windows_first:
  assumes sp: "windows_ok m W B ws" and srt: "sorted (rev (concat ws))" and len: "2 * m - 2 < length (concat ws)" and m: "m \<ge> 2"
  shows "concat ws ! 0 - concat ws ! (2 * m - 2) \<ge> min W B"
proof -
  obtain w vs where ws: "ws = w # vs" using len by (cases ws) auto
  have w: "w \<noteq> []" "length w \<le> m" using windows_Cons sp ws by blast+
  then have "vs \<noteq> []" using len m ws by (cases vs) auto
  then obtain v us where vs: "vs = v # us" by (cases vs) auto
  have v: "v \<noteq> []" "length v \<le> m" and far: "last w > last v + W" and full: "length v = m \<Longrightarrow> last w \<ge> hd v + B"
    using sp windows_Cons [of m W B v us] by (simp_all add: ws vs)
  have lw: "concat ws ! (length w - 1) = last w" and hv: "concat ws ! length w = hd v"
    using w v by (simp_all add: ws vs nth_append last_conv_nth hd_conv_nth)
  have lv: "concat ws ! (length w + length v - 1) = last v"
    using w v by (cases "length v") (simp_all add: ws vs nth_append last_conv_nth)
  have first: "concat ws ! (length w - 1) \<le> concat ws ! 0"
    by (rule sorted_desc_nth [OF srt]) (use w(1) in \<open>cases w; simp add: ws\<close>)+
  show ?thesis
  proof (cases "length w + length v - 1 \<le> 2 * m - 2")
    case True
    have "concat ws ! (2 * m - 2) \<le> concat ws ! (length w + length v - 1)"
      by (rule sorted_desc_nth [OF srt True len])
    then show ?thesis using first lw lv far by linarith
  next
    case False
    then have "length v = m" "length w \<le> 2 * m - 2" using w(2) v(2) m by linarith+
    then have "concat ws ! (2 * m - 2) \<le> concat ws ! length w" "last w \<ge> hd v + B"
      using sorted_desc_nth [OF srt _ len] full by blast+
    then show ?thesis using first lw hv by linarith
  qed
qed

lemma describes_later: "describes c now ws en \<Longrightarrow> now \<le> t \<Longrightarrow> describes c t ws en"
  by (auto simp: describes_def split: option.splits)

text \<open>The start of a new window.\<close>

lemma limit_inv_fresh:
  assumes ok: "jmap_ok L" and sp: "windows_ok (lc_maxAttempts c) (lc_windowMs c) (lc_blockDurationMs c) ws"
    and srt: "sorted (rev (concat ws))" and le: "\<forall>x\<in>set (concat ws). x \<le> u"
    and none: "describes c u ws None" and m: "lc_maxAttempts c \<ge> 2"
  shows "limit_inv c i u (jset i \<lparr>le_attempts = 1, le_firstAttempt = u, le_lastAttempt = u, le_blockedUntil = None\<rparr> L, u # concat ws)"
proof -
  have "windows_ok (lc_maxAttempts c) (lc_windowMs c) (lc_blockDurationMs c) ([u] # ws)"
    using sp none m by (cases ws) (auto simp: describes_def)
  moreover have "sorted (rev (u # concat ws))" using srt le by (simp add: sorted_append)
  moreover have "\<forall>x\<in>set (u # concat ws). x \<le> u" using le by simp
  moreover have "describes c u ([u] # ws) (Some \<lparr>le_attempts = 1, le_firstAttempt = u, le_lastAttempt = u, le_blockedUntil = None\<rparr>)"
    using m by (simp add: describes_def)
  ultimately show ?thesis using ok unfolding limit_inv_def by (intro conjI exI [of _ "[u] # ws"]) simp_all
qed

text \<open>One more failure in the window that is open.\<close>

lemma limit_inv_again:
  assumes ok: "jmap_ok L" and sp: "windows_ok (lc_maxAttempts c) (lc_windowMs c) (lc_blockDurationMs c) ws"
    and srt: "sorted (rev (concat ws))" and le: "\<forall>x\<in>set (concat ws). x \<le> u"
    and some: "describes c now ws (Some e)" and room: "le_attempts e < lc_maxAttempts c"
  shows "limit_inv c i u
    (jset i (e\<lparr>le_attempts := le_attempts e + 1, le_lastAttempt := u,
               le_blockedUntil := (if le_attempts e + 1 \<ge> lc_maxAttempts c then Some (u + lc_blockDurationMs c)
                                   else le_blockedUntil e)\<rparr>) L, u # concat ws)"
proof -
  obtain w vs where ws: "ws = w # vs" using some by (cases ws) (auto simp: describes_def)
  have w: "w \<noteq> []" "length w < lc_maxAttempts c" "le_attempts e = length w" "le_firstAttempt e = last w"
    using some room windows_Cons [of _ _ _ w vs] sp by (simp_all add: describes_def ws)
  have "windows_ok (lc_maxAttempts c) (lc_windowMs c) (lc_blockDurationMs c) ((u # w) # vs)"
    using sp w by (cases vs) (simp_all add: ws)
  moreover have "sorted (rev (u # concat ws))" using srt le by (simp add: sorted_append)
  moreover have "\<forall>x\<in>set (u # concat ws). x \<le> u" using le by simp
  moreover have "describes c u ((u # w) # vs)
      (Some (e\<lparr>le_attempts := le_attempts e + 1, le_lastAttempt := u,
               le_blockedUntil := (if le_attempts e + 1 \<ge> lc_maxAttempts c then Some (u + lc_blockDurationMs c)
                                   else le_blockedUntil e)\<rparr>))"
    using w by (simp add: describes_def)
  ultimately show ?thesis using ok unfolding limit_inv_def by (intro conjI exI [of _ "(u # w) # vs"]) (simp_all add: ws)
qed

text \<open>A check that passes leaves no entry, or one with room.\<close>

lemma isRateLimited_passed:
  assumes "isRateLimited c t i L = (False, L1)" and en: "describes c t ws (jget L i)" and "jmap_ok L" and "0 \<le> t"
  shows "jmap_ok L1" and "describes c t ws (jget L1 i)" and "jget L1 i = Some e \<Longrightarrow> le_attempts e < lc_maxAttempts c"
proof -
  have "jmap_ok L1 \<and> describes c t ws (jget L1 i) \<and> (jget L1 i = Some e \<longrightarrow> le_attempts e < lc_maxAttempts c)"
  proof (cases "jget L i")
    case None
    then have "L1 = L" using assms(1) by (simp add: isRateLimited_def)
    then show ?thesis using assms None by simp
  next
    case (Some a)
    show ?thesis
    proof (cases "t - le_firstAttempt a > lc_windowMs c")
      case True
      then have L1: "L1 = jdel i L" "\<not> (case le_blockedUntil a of None \<Rightarrow> False | Some b \<Rightarrow> b \<noteq> 0 \<and> b > t)"
        using assms(1) Some by (simp_all add: isRateLimited_def split: if_splits)
      then have "describes c t ws None"
        using en True Some \<open>0 \<le> t\<close> by (auto simp: describes_def)
      then show ?thesis using L1 assms(3) by simp
    next
      case False
      then have "L1 = L" "\<not> le_attempts a \<ge> lc_maxAttempts c"
        using assms(1) Some by (simp_all add: isRateLimited_def split: if_splits)
      then show ?thesis using assms Some by (auto simp del: map_of_eq_Some_iff)
    qed
  qed
  then show "jmap_ok L1" and "describes c t ws (jget L1 i)" and "jget L1 i = Some e \<Longrightarrow> le_attempts e < lc_maxAttempts c" by simp_all
qed

lemma isRateLimited_refused: "isRateLimited c t i L = (True, L1) \<Longrightarrow> L1 = L"
  by (auto simp: isRateLimited_def split: option.splits if_splits)

lemma jget_filter:
  "jmap_ok L \<Longrightarrow> jget (filter P L) i = (case jget L i of None \<Rightarrow> None | Some v \<Rightarrow> if P (i, v) then Some v else None)"
  by (induction L) (auto split: option.splits simp: map_of_eq_None_iff)

lemma jmap_ok_filter: "jmap_ok L \<Longrightarrow> jmap_ok (filter P L)"
  by (induction L) auto

lemma limit_inv_record:
  assumes ok: "jmap_ok L" and sp: "windows_ok (lc_maxAttempts c) (lc_windowMs c) (lc_blockDurationMs c) ws"
    and srt: "sorted (rev (concat ws))" and le: "\<forall>x\<in>set (concat ws). x \<le> u"
    and en: "describes c t ws (jget L i)" and tu: "t \<le> u" and m: "lc_maxAttempts c \<ge> 2"
    and room: "\<And>e. jget L i = Some e \<Longrightarrow> le_attempts e < lc_maxAttempts c"
  shows "limit_inv c i u (recordFailedAttempt c u i L, u # concat ws)"
proof (cases "jget L i")
  case None
  then show ?thesis
    using limit_inv_fresh [OF ok sp srt le describes_later [OF _ tu] m] en by (simp add: recordFailedAttempt_def Let_def)
next
  case (Some e)
  show ?thesis
  proof (cases "u - le_firstAttempt e > lc_windowMs c")
    case True
    then have "describes c u ws None" using en room Some by (auto simp: describes_def)
    then show ?thesis
      using limit_inv_fresh [OF ok sp srt le _ m] True Some by (simp add: recordFailedAttempt_def Let_def)
  next
    case False
    then show ?thesis
      using limit_inv_again [OF ok sp srt le, of t e] en room [OF Some] Some
      by (simp add: recordFailedAttempt_def Let_def)
  qed
qed

lemma limit_inv_event:
  assumes inv: "limit_inv c i now s" and ev: "event_ok now ev" and c: "sane_limits c" and now: "0 \<le> now"
  shows "limit_inv c i (event_time ev) (limit_event c i ev s)"
proof -
  obtain L ts where s: "s = (L, ts)" by (cases s)
  obtain ws where ok: "jmap_ok L" and ts: "ts = concat ws" and srt: "sorted (rev (concat ws))" and le: "\<forall>x\<in>set (concat ws). x \<le> now"
    and sp: "windows_ok (lc_maxAttempts c) (lc_windowMs c) (lc_blockDurationMs c) ws" and en: "describes c now ws (jget L i)"
    using inv by (auto simp: limit_inv_def s)
  have W: "0 \<le> lc_windowMs c" "lc_blockDurationMs c \<le> 2 * lc_windowMs c" "lc_maxAttempts c \<ge> 2"
    using c by (auto simp: sane_limits_def)
  have stays: "limit_inv c i u (L', ts)" if "now \<le> u" "describes c u ws (jget L' i)" "jmap_ok L'" for u L'
  proof -
    have "\<forall>x\<in>set (concat ws). x \<le> u" using le that(1) by fastforce
    then show ?thesis using that(2,3) ts srt sp unfolding limit_inv_def by (intro conjI exI [of _ ws]) simp_all
  qed
  show ?thesis
  proof (cases ev)
    case (Attempt t u)
    then have t: "now \<le> t" "t \<le> u" using ev by simp_all
    show ?thesis
    proof (cases "isRateLimited c t i L")
      case (Pair b L1)
      show ?thesis
      proof (cases b)
        case True
        then show ?thesis
          using Pair isRateLimited_refused [of c t i L L1] stays [of u L] describes_later [OF en, of u] t ok
          by (simp add: Attempt s)
      next
        case False
        note p = isRateLimited_passed [OF _ describes_later [OF en t(1)] ok, of L1]
        have "\<forall>x\<in>set (concat ws). x \<le> u" using le t by fastforce
        moreover have "isRateLimited c t i L = (False, L1)" "0 \<le> t" using Pair False now t by simp_all
        ultimately have "limit_inv c i u (recordFailedAttempt c u i L1, u # concat ws)"
          using limit_inv_record [OF _ sp srt _ _ t(2) W(3)] p by blast
        then show ?thesis using Pair False by (simp add: Attempt s ts)
      qed
    qed
  next
    case (Look t)
    then have t: "now \<le> t" using ev by simp
    obtain b L1 where L1: "isRateLimited c t i L = (b, L1)" by (cases "isRateLimited c t i L")
    have "describes c t ws (jget L1 i) \<and> jmap_ok L1"
    proof (cases b)
      case True
      then show ?thesis using isRateLimited_refused [of c t i L L1] L1 describes_later [OF en t] ok by simp
    next
      case False
      then show ?thesis
        using isRateLimited_passed(1,2) [OF _ describes_later [OF en t] ok, of L1] L1 now t by simp
    qed
    then show ?thesis using stays [OF t] by (simp add: Look s L1)
  next
    case (Sweep t)
    then have t: "now \<le> t" using ev by simp
    have "describes c t ws (jget (cleanup_limits c t L) i)"
    proof (cases "jget L i")
      case None
      then show ?thesis using describes_later [OF en t] by (simp add: cleanup_limits_def jget_filter [OF ok])
    next
      case (Some e)
      then obtain w vs where ws: "ws = w # vs" using en by (cases ws) (auto simp: describes_def)
      then have w: "ws = w # vs" "w \<noteq> []" "le_lastAttempt e = hd w"
        using en Some windows_Cons [of _ _ _ w vs] sp by (simp_all add: describes_def)
      then have "last w \<le> hd w"
        using sorted_desc_nth [OF srt, of 0 "length w - 1"]
        by (cases "length w") (simp_all add: last_conv_nth hd_conv_nth nth_append)
      then show ?thesis
        using Some w W describes_later [OF en t] by (auto simp: cleanup_limits_def jget_filter [OF ok] describes_def)
    qed
    then show ?thesis
      using stays [OF t] jmap_ok_filter [OF ok] by (simp add: Sweep s cleanup_limits_def)
  qed
qed

lemma limit_inv_run:
  "limit_run c i now evs s = Some s' \<Longrightarrow> limit_inv c i now s \<Longrightarrow> 0 \<le> now \<Longrightarrow> sane_limits c \<Longrightarrow> \<exists>t. limit_inv c i t s'"
proof (induction evs arbitrary: now s)
  case (Cons ev evs)
  then have ok: "event_ok now ev" and run: "limit_run c i (event_time ev) evs (limit_event c i ev s) = Some s'"
    by (simp_all split: if_splits)
  have "0 \<le> event_time ev" using ok Cons.prems(3) by (cases ev) auto
  then show ?case using Cons.IH [OF run limit_inv_event [OF Cons.prems(2) ok Cons.prems(4,3)]] Cons.prems(4) by simp
qed auto

text \<open>
  C19. The limit on failed attempts: take the attempts of one identifier on a new limiter that come one
  after the other and all fail, with checks and cleanups between them at any time, and a maximum \<open>m\<close> of at least two
  and a block of at most two windows. Of any \<open>2 m - 1\<close> of the attempts that pass the check in a row, the
  last is recorded at least a window or a block after the first. With the limits of the login route
  any nine such failures take fifteen minutes or more; eight need not (\<open>eight_in_a_row\<close>).
\<close>
theorem login_failures_bounded:
  assumes "limit_run c i 0 evs ([], []) = Some (L, ts)" and "sane_limits c" and "k + (2 * lc_maxAttempts c - 2) < length ts"
  shows "ts ! k - ts ! (k + (2 * lc_maxAttempts c - 2)) \<ge> min (lc_windowMs c) (lc_blockDurationMs c)"
proof -
  have "limit_inv c i 0 ([], [])" unfolding limit_inv_def by (intro conjI exI [of _ "[]"]) (simp_all add: describes_def)
  then obtain t where "limit_inv c i t (L, ts)" using limit_inv_run assms by fastforce
  then obtain ws where ts: "ts = concat ws" and sp: "windows_ok (lc_maxAttempts c) (lc_windowMs c) (lc_blockDurationMs c) ws"
    and srt: "sorted (rev (concat ws))" by (auto simp: limit_inv_def)
  obtain vs where vs: "concat vs = drop k (concat ws)" "windows_ok (lc_maxAttempts c) (lc_windowMs c) (lc_blockDurationMs c) vs"
    using windows_drop [OF sp, of k] assms(3) ts by auto
  have srt': "sorted (rev (concat vs))" using srt by (simp add: vs(1) rev_drop)
  have nth: "concat vs ! n = ts ! (k + n)" if "k + n < length ts" for n using that by (simp add: vs(1) ts)
  have "2 * lc_maxAttempts c - 2 < length (concat vs)" using assms(3) unfolding vs(1) ts length_drop by linarith
  then have "concat vs ! 0 - concat vs ! (2 * lc_maxAttempts c - 2) \<ge> min (lc_windowMs c) (lc_blockDurationMs c)"
    using windows_first [OF vs(2) srt'] assms(2) by (simp add: sane_limits_def)
  moreover have "concat vs ! 0 = ts ! k" using nth [of 0] assms(3) by simp
  ultimately show ?thesis by (simp only: nth [OF assms(3)])
qed

definition eight_failures :: "guard_event list" where
  "eight_failures = Attempt 0 0 # replicate 3 (Attempt 900000 900000) @ Attempt 900000 900001 # replicate 4 (Attempt 900001 900001)
     @ [Attempt 900001 900001]"

theorem login_failures_bounded_witness:
  "limit_run loginRateLimiter ''login:email:a@b.c'' 0 eight_failures ([], []) =
     Some ([(''login:email:a@b.c'', \<lparr>le_attempts = 5, le_firstAttempt = 900001, le_lastAttempt = 900001, le_blockedUntil = Some 1800001\<rparr>)],
           replicate 5 900001 @ replicate 3 900000 @ [0]) \<and>
   (replicate 5 900001 @ replicate 3 900000 @ [0::int]) ! 0 - (replicate 5 900001 @ replicate 3 900000 @ [0]) ! 8 \<ge> (900000 :: int)"
proof -
  have run: "limit_run loginRateLimiter ''login:email:a@b.c'' 0 eight_failures ([], []) =
     Some ([(''login:email:a@b.c'', \<lparr>le_attempts = 5, le_firstAttempt = 900001, le_lastAttempt = 900001, le_blockedUntil = Some 1800001\<rparr>)],
           replicate 5 900001 @ replicate 3 900000 @ [0])"
    by (simp add: eight_failures_def loginRateLimiter_def new_RateLimiter_def DEFAULT_WINDOW_MS_def DEFAULT_BLOCK_MS_def
        isRateLimited_def recordFailedAttempt_def Let_def numeral_eq_Suc)
  then show ?thesis
    using login_failures_bounded [OF run, of 0]
    by (simp add: sane_limits_def loginRateLimiter_def new_RateLimiter_def DEFAULT_WINDOW_MS_def DEFAULT_BLOCK_MS_def)
qed

lemma eight_in_a_row:
  "\<exists>L. limit_run loginRateLimiter i 0
     (Attempt 0 0 # replicate 3 (Attempt 900000 900000) @ replicate 5 (Attempt 900001 900001)) ([], []) =
   Some (L, replicate 5 900001 @ replicate 3 900000 @ [0])"
  by (simp add: loginRateLimiter_def new_RateLimiter_def DEFAULT_WINDOW_MS_def DEFAULT_BLOCK_MS_def
      isRateLimited_def recordFailedAttempt_def Let_def numeral_eq_Suc)

subsection \<open>What the guard does not stop\<close>

text \<open>\<open>n\<close> requests that all begin before the first of them has checked its password.\<close>

fun begin_all :: "limit_config \<Rightarrow> int \<Rightarrow> ip_headers \<Rightarrow> string \<Rightarrow> nat \<Rightarrow> limiter \<Rightarrow> login_start list \<times> limiter" where
  "begin_all c now h email 0 L = ([], L)"
| "begin_all c now h email (Suc n) L =
     (case loginBegin c now h email L of (r, L1) \<Rightarrow>
        case begin_all c now h email n L1 of (rs, L2) \<Rightarrow> (r # rs, L2))"

lemma isRateLimited_fst: "fst (isRateLimited c now i L) \<longleftrightarrow>
   (case jget L i of None \<Rightarrow> False | Some e \<Rightarrow>
      (case le_blockedUntil e of None \<Rightarrow> False | Some b \<Rightarrow> b \<noteq> 0 \<and> b > now) \<or>
      (now - le_firstAttempt e \<le> lc_windowMs c \<and> le_attempts e \<ge> lc_maxAttempts c))"
  by (auto simp: isRateLimited_def split: option.splits)

lemma isRateLimited_other: "j \<noteq> i \<Longrightarrow> jget (snd (isRateLimited c now i L)) j = jget L j"
  by (auto simp: isRateLimited_def split: option.splits)

lemma isRateLimited_only_deletes:
  "jget (snd (isRateLimited c now i L)) j = jget L j \<or> jget (snd (isRateLimited c now i L)) j = None"
  by (auto simp: isRateLimited_def split: option.splits)

lemma recordFailedAttempt_other: "j \<noteq> i \<Longrightarrow> jget (recordFailedAttempt c now i L) j = jget L j"
  by (auto simp: recordFailedAttempt_def Let_def split: option.splits)

lemma ids_differ: "login_ids h email = (Some ipId, emailId) \<Longrightarrow> ipId \<noteq> emailId"
  by (auto simp: login_ids_def getClientIdentifier_def emailIdOf_def Let_def split: if_splits)

lemma loginBegin_proceeds: "fst (loginBegin c now h email L) = Proceeds \<longleftrightarrow>
   (case fst (login_ids h email) of None \<Rightarrow> True | Some i \<Rightarrow> \<not> fst (isRateLimited c now i L)) \<and>
   \<not> fst (isRateLimited c now (snd (login_ids h email)) L)"
proof (cases "login_ids h email")
  case (Pair ip e)
  show ?thesis
  proof (cases ip)
    case None
    then show ?thesis using Pair by (simp add: loginBegin_def Let_def case_prod_unfold)
  next
    case (Some i)
    then have "fst (isRateLimited c now e (snd (isRateLimited c now i L))) = fst (isRateLimited c now e L)"
      using ids_differ [of h email i e] Pair by (simp add: isRateLimited_fst isRateLimited_other)
    then show ?thesis using Pair Some by (simp add: loginBegin_def Let_def case_prod_unfold)
  qed
qed

lemma loginBegin_only_deletes:
  "jget (snd (loginBegin c now h email L)) j = jget L j \<or> jget (snd (loginBegin c now h email L)) j = None"
proof (cases "login_ids h email")
  case (Pair ip e)
  have two: "jget (snd (isRateLimited c now e (snd (isRateLimited c now i L)))) j = jget L j
      \<or> jget (snd (isRateLimited c now e (snd (isRateLimited c now i L)))) j = None" for i
    using isRateLimited_only_deletes [of c now e "snd (isRateLimited c now i L)" j] isRateLimited_only_deletes [of c now i L j]
    by argo
  show ?thesis
  proof (cases ip)
    case None
    then show ?thesis
      using isRateLimited_only_deletes [of c now e L j] Pair by (simp add: loginBegin_def Let_def case_prod_unfold)
  next
    case (Some i)
    then show ?thesis
      using two [of i] isRateLimited_only_deletes [of c now i L j] Pair
      by (simp add: loginBegin_def Let_def case_prod_unfold del: not_None_eq)
  qed
qed

lemma loginBegin_again:
  assumes "fst (loginBegin c now h email L) = Proceeds"
  shows "fst (loginBegin c now h email (snd (loginBegin c now h email L))) = Proceeds"
proof -
  have keep: "\<not> fst (isRateLimited c now i (snd (loginBegin c now h email L)))" if "\<not> fst (isRateLimited c now i L)" for i
    using loginBegin_only_deletes [of c now h email L i] that by (auto simp: isRateLimited_fst)
  show ?thesis using assms keep unfolding loginBegin_proceeds by (auto split: option.splits)
qed

text \<open>
  The limit counts finished attempts only, and the route waits for the database and the password
  check in between: when one request of an address passes the guard, any number of requests that
  begin before one of them has failed pass it too, each with a password of its own to try.
\<close>
theorem concurrent_logins_unlimited:
  assumes "fst (loginBegin c now h email L) = Proceeds"
  shows "fst (begin_all c now h email n L) = replicate n Proceeds"
  using assms
proof (induction n arbitrary: L)
  case (Suc n)
  then show ?case using Suc.IH [OF loginBegin_again [OF Suc.prems]] by (auto split: prod.splits)
qed simp

definition one_address :: ip_headers where
  "one_address = \<lparr>ih_forwardedFor = Some ''203.0.113.7, 10.0.0.1'', ih_cfConnectingIp = None, ih_realIp = None\<rparr>"

lemma one_address_ids: "login_ids one_address ''a@b.c'' = (Some ''login:ip:203.0.113.7'', emailIdOf ''a@b.c'')"
  by code_simp

theorem concurrent_logins_unlimited_witness:
  "login_ids one_address ''a@b.c'' = (Some ''login:ip:203.0.113.7'', emailIdOf ''a@b.c'') \<and>
   fst (begin_all loginRateLimiter 0 one_address ''a@b.c'' 1000 []) = replicate 1000 Proceeds"
  using concurrent_logins_unlimited [of loginRateLimiter 0 one_address "''a@b.c''" "[]" 1000]
  by (simp add: loginBegin_proceeds isRateLimited_fst one_address_ids split: option.splits)

text \<open>
  One address tries one password on each of many accounts, and after every attempt logs in to an
  account of its own. The four times of a round are those at which the two requests begin and end.
\<close>

definition spray_round :: "limit_config \<Rightarrow> ip_headers \<Rightarrow> string \<Rightarrow> (int \<times> int \<times> int \<times> int) \<times> string \<Rightarrow> limiter \<Rightarrow> login_start list \<times> limiter" where
  "spray_round c h own tv L =
     (case tv of ((t1, t2, t3, t4), victim) \<Rightarrow>
      case loginBegin c t1 h victim L of (r1, L1) \<Rightarrow>
        let L2 = loginEnd c t2 h victim False L1
        in case loginBegin c t3 h own L2 of (r2, L3) \<Rightarrow> ([r1, r2], loginEnd c t4 h own True L3))"

fun spray :: "limit_config \<Rightarrow> ip_headers \<Rightarrow> string \<Rightarrow> ((int \<times> int \<times> int \<times> int) \<times> string) list \<Rightarrow> limiter \<Rightarrow> login_start list \<times> limiter" where
  "spray c h own [] L = ([], L)"
| "spray c h own (tv # tvs) L =
     (case spray_round c h own tv L of (rs, L1) \<Rightarrow>
        case spray c h own tvs L1 of (rss, L2) \<Rightarrow> (rs @ rss, L2))"

lemma email_id: "snd (login_ids h email) = emailIdOf email"
  by (simp add: login_ids_def Let_def)

lemma ip_id: "fst (login_ids h email) = fst (login_ids h email')"
  by (simp add: login_ids_def Let_def)

lemma ip_email_id: "fst (login_ids h email) = Some i \<Longrightarrow> i \<noteq> emailIdOf e"
  by (auto simp: login_ids_def getClientIdentifier_def emailIdOf_def Let_def split: if_splits)

lemma emailIdOf_inject [simp]: "emailIdOf e = emailIdOf e' \<longleftrightarrow> e = e'"
  by (simp add: emailIdOf_def)

lemma record_local: "jget L i = jget L' i \<Longrightarrow> jget (recordFailedAttempt c t i L) i = jget (recordFailedAttempt c t i L') i"
  by (auto simp: recordFailedAttempt_def Let_def split: option.splits)

lemma jget_loginEnd:
  "jget (loginEnd c t h email valid L) j =
     (if fst (login_ids h email) = Some j \<or> j = emailIdOf email
      then (if valid then None else jget (recordFailedAttempt c t j L) j) else jget L j)"
proof (cases "login_ids h email")
  case (Pair ip e)
  have e: "e = emailIdOf email" using email_id [of h email] Pair by simp
  show ?thesis
  proof (cases ip)
    case None
    then show ?thesis using Pair recordFailedAttempt_other [of j e c t L] by (auto simp: loginEnd_def failLogin_def loginReset_def reset_limit_def e)
  next
    case (Some i)
    have "i \<noteq> e" using ids_differ [of h email i e] Pair Some by simp
    then have "jget (recordFailedAttempt c t e (recordFailedAttempt c t i L)) j =
        (if j = i \<or> j = e then jget (recordFailedAttempt c t j L) j else jget L j)"
      using recordFailedAttempt_other [of j e c t "recordFailedAttempt c t i L"] recordFailedAttempt_other [of j i c t L]
        record_local [of "recordFailedAttempt c t i L" e L c t] recordFailedAttempt_other [of e i c t L] by auto
    then show ?thesis using Pair Some by (auto simp: loginEnd_def failLogin_def loginReset_def reset_limit_def e [symmetric])
  qed
qed

lemma spray_round_unlimited:
  assumes m: "lc_maxAttempts c \<ge> 2" and vic: "victim \<noteq> own"
    and ip: "\<And>i. fst (login_ids h own) = Some i \<Longrightarrow> jget L i = None"
    and own: "jget L (emailIdOf own) = None" and victim: "jget L (emailIdOf victim) = None"
  shows "fst (spray_round c h own ((t1, t2, t3, t4), victim) L) = [Proceeds, Proceeds]"
    and "j \<noteq> emailIdOf victim \<Longrightarrow> jget L j = None \<Longrightarrow> jget (snd (spray_round c h own ((t1, t2, t3, t4), victim) L)) j = None"
proof -
  define L1 where "L1 = snd (loginBegin c t1 h victim L)"
  define L2 where "L2 = loginEnd c t2 h victim False L1"
  define L3 where "L3 = snd (loginBegin c t3 h own L2)"
  have round: "spray_round c h own ((t1, t2, t3, t4), victim) L =
      ([fst (loginBegin c t1 h victim L), fst (loginBegin c t3 h own L2)], loginEnd c t4 h own True L3)"
    by (simp add: spray_round_def L1_def L2_def L3_def Let_def split: prod.splits)
  have L1: "jget L1 k = None" if "jget L k = None" for k
    using loginBegin_only_deletes [of c t1 h victim L k] that by (auto simp: L1_def)
  have one: "fst (loginBegin c t1 h victim L) = Proceeds"
    using ip victim ip_id [of h victim own] by (auto simp: loginBegin_proceeds email_id isRateLimited_fst split: option.splits)
  have L2ip: "jget L2 i = Some \<lparr>le_attempts = 1, le_firstAttempt = t2, le_lastAttempt = t2, le_blockedUntil = None\<rparr>"
    if "fst (login_ids h own) = Some i" for i
    using that L1 [OF ip [OF that]] ip_id [of h victim own] by (simp add: L2_def jget_loginEnd recordFailedAttempt_def Let_def)
  have L2: "jget L2 k = None" if "fst (login_ids h own) \<noteq> Some k" "k \<noteq> emailIdOf victim" "jget L k = None" for k
    using that L1 [OF that(3)] ip_id [of h victim own] by (simp add: L2_def jget_loginEnd)
  have two: "fst (loginBegin c t3 h own L2) = Proceeds"
  proof -
    have "jget L2 (emailIdOf own) = None" using L2 [of "emailIdOf own"] own vic ip_email_id [of h own _ own] by auto
    then show ?thesis
      using L2ip m by (auto simp: loginBegin_proceeds email_id isRateLimited_fst split: option.splits)
  qed
  show "fst (spray_round c h own ((t1, t2, t3, t4), victim) L) = [Proceeds, Proceeds]" by (simp add: round one two)
  assume j: "j \<noteq> emailIdOf victim" "jget L j = None"
  show "jget (snd (spray_round c h own ((t1, t2, t3, t4), victim) L)) j = None"
    using loginBegin_only_deletes [of c t3 h own L2 j] L2 [OF _ j] by (auto simp: round jget_loginEnd L3_def)
qed

text \<open>
  A successful login resets the counter of its address, whoever's account it is. So one address
  can try a password on any number of accounts, with a login of its own in between, and no attempt
  is ever refused, however fast they come.
\<close>
theorem spraying_never_limited:
  assumes "lc_maxAttempts c \<ge> 2" and "distinct (map snd tvs)" and "own \<notin> snd ` set tvs"
  shows "fst (spray c h own tvs []) = replicate (2 * length tvs) Proceeds"
proof -
  have "fst (spray c h own tvs L) = replicate (2 * length tvs) Proceeds"
    if "distinct (map snd tvs)" "own \<notin> snd ` set tvs" and "\<And>i. fst (login_ids h own) = Some i \<Longrightarrow> jget L i = None"
      and "jget L (emailIdOf own) = None" and "\<forall>v\<in>snd ` set tvs. jget L (emailIdOf v) = None" for L
    using that
  proof (induction tvs arbitrary: L)
    case (Cons tv tvs)
    obtain t1 t2 t3 t4 v where tv: "tv = ((t1, t2, t3, t4), v)" by (metis prod.exhaust)
    have v: "v \<noteq> own" "jget L (emailIdOf v) = None" using Cons.prems(2,5) by (auto simp: tv)
    note r = spray_round_unlimited [OF assms(1) v(1) Cons.prems(3,4) v(2), where ?t1.0 = t1 and ?t2.0 = t2 and ?t3.0 = t3 and ?t4.0 = t4]
    define L1 where "L1 = snd (spray_round c h own tv L)"
    have keep: "jget L1 k = None" if "k \<noteq> emailIdOf v" "jget L k = None" for k
      using r(2) [where j = k] that by (simp add: L1_def tv)
    have "fst (spray c h own tvs L1) = replicate (2 * length tvs) Proceeds"
    proof (rule Cons.IH)
      show "jget L1 i = None" if "fst (login_ids h own) = Some i" for i
        using keep Cons.prems(3) that ip_email_id by blast
      show "jget L1 (emailIdOf own) = None" using keep v(1) Cons.prems(4) by simp
      show "\<forall>w\<in>snd ` set tvs. jget L1 (emailIdOf w) = None"
      proof
        fix w assume w: "w \<in> snd ` set tvs"
        then have "emailIdOf w \<noteq> emailIdOf v" using Cons.prems(1) by (auto simp: tv)
        moreover have "jget L (emailIdOf w) = None" using Cons.prems(5) w by auto
        ultimately show "jget L1 (emailIdOf w) = None" by (rule keep)
      qed
    qed (use Cons.prems(1,2) in auto)
    then show ?case using r(1) by (simp add: L1_def tv case_prod_unfold)
  qed simp
  then show ?thesis using assms(2,3) by simp
qed

lemma own_is_no_run: "''own@x.y'' \<noteq> replicate k (CHR ''a'')"
  by (cases k) simp_all

theorem spraying_never_limited_witness:
  "fst (spray loginRateLimiter one_address ''own@x.y'' (map (\<lambda>k. ((0, 1, 2, 3), replicate k (CHR ''a''))) [0..<40]) []) = replicate 80 Proceeds"
  using spraying_never_limited [of loginRateLimiter "map (\<lambda>k. ((0, 1, 2, 3), replicate k (CHR ''a''))) [0..<40]" "''own@x.y''" one_address]
  by (simp add: loginRateLimiter_def new_RateLimiter_def distinct_map inj_on_def o_def replicate_eq_replicate image_iff own_is_no_run)

end
