(* ===== verification/Spec2Isabelle.thy ===== *)
theory Spec2Isabelle
  imports StreamMachine RunMachine ClientMachines PoolProperties IpcServer StreamBuffer EngineProperties EnvIsolation CircuitBreaker RefreshLock CancelFlow StreamHandler SandboxedFs WorkerTools ToolCommands DeployPipeline OAuth SandboxManager E2bTools LoginLimit
begin

text \<open>
  A verification development of Alive, a platform on which users edit and host web sites by talking
  to a coding agent. Paths below are relative to the root of the repository.

  \<^bold>\<open>The program.\<close> The web server (\<open>apps/web\<close>) takes a chat message, takes the lock of the conversation,
  and asks the worker pool (\<open>packages/worker-pool\<close>) for a worker process of the workspace. The pool
  queues the request when its limits are reached, starts workers, and speaks newline-delimited JSON
  with them. A worker runs the agent SDK with the tools, MCP servers and environment that the mode
  and the role of the user permit; its file and command tools work inside the workspace directory,
  or inside a remote E2B sandbox (\<open>packages/sandbox\<close>). What the worker writes is parsed, numbered,
  stored in a Redis buffer for reconnecting clients, and billed to the organisation that owns the
  domain. A stop request cancels the stream through a registry. Automations run the same agent on a
  schedule (\<open>packages/automation-engine\<close>, \<open>apps/worker\<close>) under a lease in the database. A new site is
  deployed by host scripts (\<open>packages/site-controller\<close>) or into a sandbox. Connections to third
  parties are kept by \<open>packages/oauth-core\<close>, whose token refresh is serialised by locks.

  \<^bold>\<open>How it is modelled.\<close> Definitions are translated from the source under the names it uses. A class or
  module with state is a record, and an operation a function from the state to the new state and
  its answer; a stretch of code between two awaits is one such function, and what happens between
  is left open: concurrent callers interleave through inductive step relations. Where a promise holds
  only as long as some bad interleaving has not happened, the relation carries a ghost flag for it
  (a shutdown of the pool that ends over late queries, an ending of a stream buffer that overwrites an
  entry changed meanwhile). An exception is a
  value (a constructor of a result type or \<open>Inl\<close>). A JavaScript \<open>Map\<close> or object is an association
  list in insertion order (\<open>Prelude.jsmap\<close>: \<open>jget\<close>, \<open>jset\<close>, \<open>jdel\<close>). Strings are lists of
  characters, and in the theories that turn bytes into text (\<open>Utf8\<close> and those that import it) the bytes
  of their UTF-8 form; times are integers in milliseconds; numbers are integers or, for prices and parsed
  JSON, rationals, so rounding of floating-point numbers is not modelled; configuration numbers
  are a datatype that includes \<open>NaN\<close> and the infinities.

  \<^bold>\<open>The theories.\<close>
  \<^item> \<open>Prelude\<close>: maps, splitting and joining of strings, characters; the shared lemmas. \<open>Utf8\<close>: decoding of
    bytes with the replacement character, lengths in UTF-16 code units, trimming.
  \<^item> \<open>Fsm\<close>, \<open>StreamMachine\<close>, \<open>RunMachine\<close>, \<open>ClientMachines\<close>: the six machines of
    \<open>packages/shared/src/machines\<close>. The locale \<open>fsm\<close> states what all share (errors keep the state,
    terminal states reject everything) and is interpreted on each; the lemmas give the invariants
    that tie the ghost history of events to the state (tokens, pending tools, turns, attempts).
  \<^item> \<open>Paths\<close>: \<open>packages/shared/src/path-security.ts\<close> over \<open>node:path\<close>; containment is the prefix order on
    normalised segments.
  \<^item> \<open>PoolConfig\<close>, \<open>FairQueue\<close>, \<open>WorkerPool\<close>, \<open>PoolProperties\<close>: \<open>packages/worker-pool/src/config.ts\<close> and
    \<open>manager.ts\<close>. The queue refines an abstract round robin (the locale \<open>homed_queue\<close>, interpreted on
    the operations); the pool is one record changed by \<open>pool_step\<close>, the two halves of a shutdown included; the
    invariant counts the running queries and keeps the queue consistent in every state that is reached
    without a shutdown ending over queries that came while it waited.
  \<^item> \<open>Ndjson\<close>, \<open>Json\<close>, \<open>IpcServer\<close>: \<open>packages/worker-pool/src/ipc.ts\<close>; the parser is independent of how
    bytes are cut into chunks between characters; a cut inside a character corrupts it.
  \<^item> \<open>StreamBuffer\<close>: \<open>apps/web/lib/stream/stream-buffer.ts\<close> with its Lua scripts over keys that expire;
    completion and failure read and write in separate steps, and reads deliver each accepted message
    once unless such a write has overwritten a newer entry.
  \<^item> \<open>Scheduler\<close>, \<open>Engine\<close>, \<open>JobRoutes\<close>, \<open>EngineProperties\<close>: schedules, claims, heartbeats, finishing,
    reaping and editing of jobs. Reachability covers every interleaving of these statements; the
    lemmas show that the run id fences off stale workers and what a finish does to the next run.
  \<^item> \<open>EnvIsolation\<close>: the environment of workers and of the agent (\<open>packages/worker-pool/src/env-isolation.ts\<close>).
  \<^item> \<open>CircuitBreaker\<close>: \<open>packages/redis/src/index.ts\<close>. \<open>RefreshLock\<close>: the locks of token refreshes in
    \<open>packages/oauth-core/src/refresh-lock.ts\<close>, between any number of processes.
  \<^item> \<open>SessionKeys\<close>, \<open>CancelFlow\<close>: keys and stores of conversations, their locks, and the cancellation
    of streams (\<open>apps/web/features/auth\<close>, \<open>apps/web/lib/stream\<close>, the stream and cancel routes).
  \<^item> \<open>Credits\<close>: prices, balances and charging. \<open>StreamHandler\<close>: \<open>apps/web/lib/stream/ndjson-stream-handler.ts\<close>,
    from the bytes of the worker to the messages of the client and the bill.
  \<^item> \<open>McpProviders\<close>, \<open>ToolPolicy\<close>, \<open>WorkerTools\<close>: which tools and MCP servers a query has, from the tables
    in \<open>packages/shared/src\<close> to \<open>handleQuery\<close> in \<open>worker-entry.mjs\<close>.
  \<^item> \<open>SandboxedFs\<close>, \<open>ToolCommands\<close>: \<open>packages/tools/src/tools/sandboxed-fs\<close> over a file system with symbolic
    links and UTF-8 text; confinement of Write and Edit, truncation of output, the guard of the shell.
  \<^item> \<open>SiteHost\<close>, \<open>Deploy\<close>, \<open>DeployPipeline\<close>: the host scripts, the orchestrator and the pipeline around
    it. The locales \<open>deploy_effects\<close> and \<open>deploy_rollback\<close> state what every phase and the rollback keep,
    and are interpreted twice: nothing of other domains changes, and services keep their users.
  \<^item> \<open>OAuth\<close>: stored connections and the manager of access tokens.
  \<^item> \<open>LoginLimit\<close>: the rate limiter of \<open>apps/web/lib/auth/rate-limiter.ts\<close> and the guard of the login route;
    how many failures get through in a row, and what the guard does not stop.
  \<^item> \<open>SandboxCalls\<close>, \<open>SandboxFiles\<close>, \<open>SandboxManager\<close>, \<open>E2bTools\<close>: \<open>packages/sandbox\<close>. An asynchronous function
    is an \<open>act\<close>: a function from the calls made so far to the calls it adds and what it throws or
    returns; \<open>emits\<close> says which calls a composed function makes, by one rule per combinator.

  \<^bold>\<open>Properties.\<close> The forty properties of the manifest carry their numbers in the theories (\<open>C1\<close> to
  \<open>C40\<close>); each comes with a witness, where it has hypotheses. Several state what the code does
  against its intention: a redeployment destroys a running site, the root guard of the sandbox is
  passed with a trailing separator, a killed sandbox is still handed out.

  \<^bold>\<open>Bounds and fuel.\<close> Paths are resolved through at most \<open>MAX_LINKS\<close> = 40 symbolic links, the limit of
  Linux (\<open>ELOOP\<close> beyond it). The read loop of the NDJSON parser is a \<open>partial_function\<close>, for it does not
  end by its syntax; it is proved to return. The scan for a free port tries a hundred ports as the
  script does, the wait for a development server asks ten times as the source does, and the search
  for the shortest interval of a cron expression looks at twenty runs as the source does; none
  of these counters is fuel of the model. All other loops terminate by their measure.

  \<^bold>\<open>Parameters.\<close> Code that is not in the repository is an argument: \<open>JSON.parse\<close>, the cron library, the
  Node executable and file system of the pool, HTTP probes, the E2B service (its answers may depend
  on all earlier calls), the commands that tools run, the state of the database connection, the host
  programs of the deployment scripts, the answers of OAuth providers, the encryption of stored
  tokens, and the texts JavaScript prints for numbers and values (\<open>js_texts\<close>). Theorems hold for
  all values of these unless a hypothesis is written out.

  \<^bold>\<open>Not modelled.\<close> The user interface (pages, components, client stores), the API schemas and clients, and
  the routes that only check a session and select rows: they hold declarations or I/O. The Go shell
  server, the Rust deployer, shell scripts outside the site controller, and SQL other than what the
  engine relies on: another language. The query loop of the worker, whose work is the third-party
  agent SDK. Adapters of third-party HTTP interfaces (MCP servers, OAuth providers, mail). Timers are
  steps that may happen; their creation, logging, telemetry and error reports are left out. Two
  processes that change the file system between the check and the use of one tool call are outside
  the model of the file tools.
\<close>

end
